(* ===== verification/Prelude.thy ===== *)
theory Prelude
  imports Main "HOL-Library.Word"
begin

unbundle bit_operations_syntax

text \<open>
  Shared vocabulary of the development: machine words and byte strings as the C code uses them,
  reads and writes of sub-ranges of a buffer, and the lemma collections that the component
  theories extend.
  \<^item> \<open>bslice off n xs\<close> is the \<open>n\<close> bytes a C pointer \<open>xs + off\<close> reads;
  \<^item> \<open>bput off bs xs\<close> is the buffer after \<open>memcpy(xs + off, bs, length bs)\<close> (or a \<open>pwrite\<close> inside
    a device): everything outside the written range is kept;
  \<^item> the locale \<open>field_codec\<close> is the contract between a \<open>put_..\<close>/\<open>get_..\<close> pair of the C code and the
    code that lays out on-disk structures with it: what is put is got back, and a put elsewhere is
    not seen.
\<close>

type_synonym byte = "8 word"
type_synonym u16 = "16 word"
type_synonym u32 = "32 word"
type_synonym u64 = "64 word"
type_synonym bytes = "byte list"

named_theorems buf_simps \<open>reading back a buffer after writes to it\<close>
named_theorems len_simps \<open>lengths of buffers\<close>

section \<open>Sub-ranges of a buffer\<close>

definition bslice :: "nat \<Rightarrow> nat \<Rightarrow> 'a list \<Rightarrow> 'a list" where
  "bslice off n xs = take n (drop off xs)"

definition bput :: "nat \<Rightarrow> 'a list \<Rightarrow> 'a list \<Rightarrow> 'a list" where
  "bput off bs xs = take off xs @ bs @ drop (off + length bs) xs"

lemma length_bslice [len_simps]: "length (bslice off n xs) = min n (length xs - off)"
  by (simp add: bslice_def)

lemma length_bslice_in: "off + n \<le> length xs \<Longrightarrow> length (bslice off n xs) = n"
  by (simp add: bslice_def)

lemma length_bput [len_simps]:
  "off + length bs \<le> length xs \<Longrightarrow> length (bput off bs xs) = length xs"
  by (simp add: bput_def)

lemma bput_Nil [simp]: "bput off [] xs = xs"
  by (simp add: bput_def)

lemma bslice_all [simp]: "bslice 0 (length xs) xs = xs"
  by (simp add: bslice_def)

lemma bslice_0 [simp]: "bslice off 0 xs = []"
  by (simp add: bslice_def)

lemma nth_bslice: "i < n \<Longrightarrow> off + i < length xs \<Longrightarrow> bslice off n xs ! i = xs ! (off + i)"
  by (simp add: bslice_def)

lemma nth_bput:
  assumes "off + length bs \<le> length xs" and "i < length xs"
  shows "bput off bs xs ! i =
    (if i < off then xs ! i else if i < off + length bs then bs ! (i - off) else xs ! i)"
  using assms by (auto simp: bput_def nth_append min_def)

lemma bslice_bput_same [buf_simps]:
  "off \<le> length xs \<Longrightarrow> bslice off (length bs) (bput off bs xs) = bs"
  by (simp add: bslice_def bput_def)

lemma bslice_bput_before:
  "i + n \<le> off \<Longrightarrow> off \<le> length xs \<Longrightarrow> bslice i n (bput off bs xs) = bslice i n xs"
  by (auto simp: bslice_def bput_def take_drop min_def)

lemma bslice_bput_after:
  "off + length bs \<le> i \<Longrightarrow> off \<le> length xs \<Longrightarrow> bslice i n (bput off bs xs) = bslice i n xs"
  by (simp add: bslice_def bput_def add.commute)

lemma bslice_bput_inside:
  "off \<le> i \<Longrightarrow> i + n \<le> off + length bs \<Longrightarrow> off \<le> length xs \<Longrightarrow>
   bslice i n (bput off bs xs) = bslice (i - off) n bs"
  by (simp add: bslice_def bput_def)

lemma bslice_bput_disjoint:
  "i + n \<le> off \<or> off + length bs \<le> i \<Longrightarrow> off \<le> length xs \<Longrightarrow>
   bslice i n (bput off bs xs) = bslice i n xs"
  using bslice_bput_before bslice_bput_after by blast

lemma bslice_bslice: "i + n \<le> m \<Longrightarrow> bslice i n (bslice j m xs) = bslice (j + i) n xs"
  by (simp add: bslice_def drop_take add.commute)

lemma bslice_append_left: "off + n \<le> length xs \<Longrightarrow> bslice off n (xs @ ys) = bslice off n xs"
  by (simp add: bslice_def)

lemma bslice_append_right:
  "length xs \<le> off \<Longrightarrow> bslice off n (xs @ ys) = bslice (off - length xs) n ys"
  by (simp add: bslice_def)

lemma bslice_take: "off + n \<le> k \<Longrightarrow> bslice off n (take k xs) = bslice off n xs"
  by (simp add: bslice_def drop_take)

lemma bput_split:
  "off + length as \<le> length xs \<Longrightarrow>
   bput (off + length as) bs (bput off as xs) = bput off (as @ bs) xs"
  by (simp add: bput_def add.assoc add.commute add.left_commute)

lemma take_bput: "off + length bs \<le> n \<Longrightarrow> take n (bput off bs xs) = bput off bs (take n xs)"
  by (auto simp: bput_def drop_take min_def dest: le_antisym)

lemma bput_overwrite:
  "length bs = length cs \<Longrightarrow> off + length cs \<le> length xs \<Longrightarrow> bput off cs (bput off bs xs) = bput off cs xs"
  by (simp add: bput_def)

lemma bput_id: "off + length bs \<le> length xs \<Longrightarrow> bslice off (length bs) xs = bs \<Longrightarrow> bput off bs xs = xs"
  by (metis bput_def bslice_def add.commute append_take_drop_id drop_drop)

lemma bslice_bput_eq: "length bs = n \<Longrightarrow> off \<le> length xs \<Longrightarrow> bslice off n (bput off bs xs) = bs"
  using bslice_bput_same by blast

lemma take_eq_bslice: "take n xs = bslice 0 n xs"
  by (simp add: bslice_def)

subsection \<open>A buffer filled in by a list of writes\<close>

text \<open>
  \<open>patch ws xs\<close> performs the writes \<open>(offset, bytes)\<close> of \<open>ws\<close> in order. Reading a field back is the last
  write to it, if every other write of the list is elsewhere.
\<close>

definition patch :: "(nat \<times> 'a list) list \<Rightarrow> 'a list \<Rightarrow> 'a list" where
  "patch ws xs = foldl (\<lambda>h (off, bs). bput off bs h) xs ws"

fun last_write :: "nat \<Rightarrow> nat \<Rightarrow> (nat \<times> 'a list) list \<Rightarrow> 'a list option" where
  "last_write i n [] = None"
| "last_write i n ((off, bs) # ws) =
     (case last_write i n ws of Some r \<Rightarrow> Some r | None \<Rightarrow> if off = i \<and> length bs = n then Some bs else None)"

definition writes_fit :: "nat \<Rightarrow> (nat \<times> 'a list) list \<Rightarrow> bool" where
  "writes_fit len ws \<longleftrightarrow> list_all (\<lambda>(off, bs). off + length bs \<le> len) ws"

definition writes_apart :: "nat \<Rightarrow> nat \<Rightarrow> (nat \<times> 'a list) list \<Rightarrow> bool" where
  "writes_apart i n ws \<longleftrightarrow>
     list_all (\<lambda>(off, bs). off = i \<and> length bs = n \<or> i + n \<le> off \<or> off + length bs \<le> i) ws"

lemma length_patch [len_simps]: "writes_fit (length xs) ws \<Longrightarrow> length (patch ws xs) = length xs"
  by (induction ws arbitrary: xs) (auto simp: patch_def writes_fit_def length_bput)

lemma bslice_patch:
  "writes_fit (length xs) ws \<Longrightarrow> writes_apart i n ws \<Longrightarrow>
   bslice i n (patch ws xs) = (case last_write i n ws of Some r \<Rightarrow> r | None \<Rightarrow> bslice i n xs)"
proof (induction ws arbitrary: xs)
  case Nil
  then show ?case by (simp add: patch_def)
next
  case (Cons w ws)
  obtain off bs where w: "w = (off, bs)" by fastforce
  have fit: "off + length bs \<le> length xs" "writes_fit (length (bput off bs xs)) ws"
    using Cons.prems(1) by (auto simp: w writes_fit_def length_bput)
  have "bslice i n (patch (w # ws) xs) = bslice i n (patch ws (bput off bs xs))"
    by (simp add: patch_def w)
  also have "\<dots> = (case last_write i n ws of Some r \<Rightarrow> r | None \<Rightarrow> bslice i n (bput off bs xs))"
    using Cons.prems(2) by (intro Cons.IH fit) (simp add: writes_apart_def)
  finally show ?case
    using Cons.prems(2) fit
    by (auto simp: w writes_apart_def bslice_bput_eq bslice_bput_disjoint split: option.splits)
qed

lemmas patch_eval = bslice_patch writes_fit_def writes_apart_def

lemma unat_of_nat_small: "n < 2 ^ LENGTH('a) \<Longrightarrow> unat (of_nat n :: 'a::len word) = n"
  by (simp add: unat_of_nat take_bit_nat_eq_self)

lemma unat_minus_of_nat:
  assumes "c \<le> unat (x :: 'a::len word)"
  shows "unat (x - of_nat c) = unat x - c"
proof -
  have "unat (of_nat c :: 'a word) = c"
    using assms unsigned_less [of x, where ?'a = nat] by (intro unat_of_nat_small) linarith
  with assms show ?thesis
    by (simp add: unat_sub word_le_nat_alt)
qed

lemma take_bit_small: "unat w < 2 ^ n \<Longrightarrow> take_bit n w = (w :: 'a::len word)"
  by (simp add: word_unat_eq_iff unsigned_take_bit_eq take_bit_nat_eq_self)

lemma bit_small: "unat w < 2 ^ n \<Longrightarrow> bit (w :: 'a::len word) i \<Longrightarrow> i < n"
  by (metis bit_take_bit_iff take_bit_small)

lemma unat_ucast_up [simp]: "unat (ucast (x :: u32) :: u64) = unat x"
proof -
  have "unat x < 2 ^ 64" using unsigned_less [of x, where ?'a = nat] by simp
  then show ?thesis by (simp add: unsigned_ucast_eq take_bit_nat_eq_self)
qed

lemma dvd_power_two: "(d::nat) dvd 2 ^ n \<Longrightarrow> \<exists>k\<le>n. d = 2 ^ k"
proof (induction n arbitrary: d)
  case 0
  then show ?case by simp
next
  case (Suc n)
  show ?case
  proof (cases "even d")
    case True
    then obtain d' where d': "d = 2 * d'" by (elim evenE)
    with Suc.prems have "d' dvd 2 ^ n" by simp
    from Suc.IH [OF this] d' show ?thesis by (metis Suc_le_mono power_Suc)
  next
    case False
    then have "coprime d 2" by simp
    with Suc.prems have "d dvd 2 ^ n" by (simp add: coprime_dvd_mult_right_iff)
    from Suc.IH [OF this] show ?thesis using le_SucI by blast
  qed
qed

section \<open>Characters\<close>

text \<open>The C library's \<open>isdigit\<close>, in the C locale.\<close>

definition is_digit :: "char \<Rightarrow> bool" where
  "is_digit c \<longleftrightarrow> (48 :: nat) \<le> of_char c \<and> of_char c \<le> (57 :: nat)"

section \<open>Bytes of a word, little-endian\<close>

text \<open>The \<open>put_le32\<close>, \<open>put_le64\<close>, \<open>get_le32\<close> and \<open>get_le64\<close> of \<open>macos/src/partition.c\<close>.\<close>

definition le32_bytes :: "u32 \<Rightarrow> bytes" where
  "le32_bytes v = [ucast (v AND 0xFF), ucast (drop_bit 8 v AND 0xFF),
                   ucast (drop_bit 16 v AND 0xFF), ucast (drop_bit 24 v AND 0xFF)]"

definition put_le32 :: "nat \<Rightarrow> u32 \<Rightarrow> bytes \<Rightarrow> bytes" where
  "put_le32 off v p = bput off (le32_bytes v) p"

definition le64_bytes :: "u64 \<Rightarrow> bytes" where
  "le64_bytes v = map (\<lambda>i. ucast (drop_bit (i * 8) v AND 0xFF)) [0..<8]"

definition put_le64 :: "nat \<Rightarrow> u64 \<Rightarrow> bytes \<Rightarrow> bytes" where
  "put_le64 off v p = bput off (le64_bytes v) p"

definition get_le32 :: "bytes \<Rightarrow> nat \<Rightarrow> u32" where
  "get_le32 p off = ucast (p ! off) OR push_bit 8 (ucast (p ! (off + 1)))
     OR push_bit 16 (ucast (p ! (off + 2))) OR push_bit 24 (ucast (p ! (off + 3)))"

definition get_le64 :: "bytes \<Rightarrow> nat \<Rightarrow> u64" where
  "get_le64 p off = foldl (\<lambda>v i. push_bit 8 v OR ucast (p ! (off + i))) 0 (rev [0..<8])"

definition get_le16 :: "bytes \<Rightarrow> nat \<Rightarrow> u16" where
  "get_le16 p off = ucast (p ! off) OR push_bit 8 (ucast (p ! (off + 1)))"

lemma length_le32_bytes [simp, len_simps]: "length (le32_bytes v) = 4"
  by (simp add: le32_bytes_def)

lemma length_le64_bytes [simp, len_simps]: "length (le64_bytes v) = 8"
  by (simp add: le64_bytes_def)

lemma upt_8: "[0..<8] = [0, 1, 2, 3, 4, 5, 6, 7::nat]"
  by (simp add: upt_rec)

lemma ucast_mask8: "(ucast (x AND 0xFF) :: byte) = ucast (x :: 'a::len word)"
proof -
  have m: "(0xFF :: 'a word) = mask 8" by (simp add: mask_eq_exp_minus_1)
  show ?thesis
    unfolding m by (rule bit_word_eqI) (auto simp: bit_simps dest: bit_imp_le_length)
qed

lemma byte_step: "push_bit 8 (drop_bit (k + 8) w) OR ucast (ucast (drop_bit k w) :: byte) = drop_bit k (w :: 'a::len word)"
  by (rule bit_word_eqI) (auto simp: bit_simps not_less add.commute dest: bit_imp_le_length)

lemma get_le32_foldl:
  "get_le32 p off = foldl (\<lambda>v i. push_bit 8 v OR ucast (p ! (off + i))) 0 [3, 2, 1, 0]"
  by (rule bit_word_eqI) (auto simp: get_le32_def bit_simps)

lemma get_le32_bytes: "get_le32 (le32_bytes v) 0 = v"
  using byte_step [of 24 v] byte_step [of 16 v] byte_step [of 8 v] byte_step [of 0 v]
  by (simp add: get_le32_foldl le32_bytes_def ucast_mask8 drop_bit_eq_zero_iff_not_bit_last)

lemma get_le64_bytes: "get_le64 (le64_bytes v) 0 = v"
  using byte_step [of 56 v] byte_step [of 48 v] byte_step [of 40 v] byte_step [of 32 v]
    byte_step [of 24 v] byte_step [of 16 v] byte_step [of 8 v] byte_step [of 0 v]
  by (simp add: get_le64_def le64_bytes_def upt_8 ucast_mask8)
lemma get_le32_bslice:
  "off + 4 \<le> length p \<Longrightarrow> get_le32 p off = get_le32 (bslice off 4 p) 0"
  by (simp add: get_le32_def nth_bslice)

lemma get_le64_bslice:
  "off + 8 \<le> length p \<Longrightarrow> get_le64 p off = get_le64 (bslice off 8 p) 0"
  by (simp add: get_le64_def nth_bslice upt_8)

section \<open>The contract of an on-disk field\<close>

locale field_codec =
  fixes put :: "nat \<Rightarrow> 'v \<Rightarrow> bytes \<Rightarrow> bytes"
    and get :: "bytes \<Rightarrow> nat \<Rightarrow> 'v"
    and enc :: "'v \<Rightarrow> bytes"
    and width :: nat
  assumes put_enc: "put off v p = bput off (enc v) p"
    and length_enc: "length (enc v) = width"
    and get_enc: "get (enc v) 0 = v"
    and get_slice: "off + width \<le> length p \<Longrightarrow> get p off = get (bslice off width p) 0"
begin

lemma length_put: "off + width \<le> length p \<Longrightarrow> length (put off v p) = length p"
  by (simp add: put_enc length_enc length_bput)

lemma get_put_same: "off + width \<le> length p \<Longrightarrow> get (put off v p) off = v"
  using bslice_bput_same [of off p "enc v"] get_slice [of off "put off v p"]
  by (simp add: put_enc length_enc get_enc length_bput)

lemma get_put_other:
  "i + width \<le> length p \<Longrightarrow> off + width \<le> length p \<Longrightarrow> i + width \<le> off \<or> off + width \<le> i \<Longrightarrow>
   get (put off v p) i = get p i"
  using bslice_bput_disjoint [of i width off "enc v" p]
  by (subst (1 2) get_slice) (simp_all add: put_enc length_enc length_bput)

lemma get_bput_other:
  "i + width \<le> length p \<Longrightarrow> off + length bs \<le> length p \<Longrightarrow> i + width \<le> off \<or> off + length bs \<le> i \<Longrightarrow>
   get (bput off bs p) i = get p i"
  using bslice_bput_disjoint [of i width off bs p]
  by (subst (1 2) get_slice) (simp_all add: length_bput)

lemma get_bput_inside:
  "off \<le> i \<Longrightarrow> i + width \<le> off + length bs \<Longrightarrow> off + length bs \<le> length p \<Longrightarrow>
   get (bput off bs p) i = get bs (i - off)"
  using bslice_bput_inside [of off i width bs p]
  by (subst (1 2) get_slice) (simp_all add: length_bput)

lemma get_of_bslice:
  "i + width \<le> n \<Longrightarrow> off + n \<le> length p \<Longrightarrow> get (bslice off n p) i = get p (off + i)"
  by (subst (1 2) get_slice) (simp_all add: length_bslice bslice_bslice)

lemma bslice_put_other:
  "i + n \<le> off \<or> off + width \<le> i \<Longrightarrow> off + width \<le> length p \<Longrightarrow>
   bslice i n (put off v p) = bslice i n p"
  by (simp add: put_enc bslice_bput_disjoint length_enc)

end

interpretation le32: field_codec put_le32 get_le32 le32_bytes 4
  by unfold_locales (simp_all add: put_le32_def get_le32_bytes get_le32_bslice)

interpretation le64: field_codec put_le64 get_le64 le64_bytes 8
  by unfold_locales (simp_all add: put_le64_def get_le64_bytes get_le64_bslice)

lemmas le_put_simps [buf_simps] =
  le32.get_put_same le32.get_put_other le64.get_put_same le64.get_put_other

lemmas le_len_simps [len_simps] = le32.length_put le64.length_put

end
