(* ===== verification/MacIo.thy ===== *)
theory MacIo
  imports Prelude
begin

text \<open>
  The retry loops around \<open>pread\<close> and \<open>pwrite\<close> of the macOS port: \<open>rufux_pwrite_all\<close> in
  \<open>macos/src/exec.c\<close>, \<open>pread_all\<close> and \<open>zero_range\<close> in \<open>macos/src/partition.c\<close>.

  An open file is a record: its bytes, whether it can grow (a regular file) or not (a disk), and
  what the kernel will do to the next calls. Every call to \<open>pread\<close> or \<open>pwrite\<close> takes one element
  of \<open>d_sched\<close>: it fails with that error number, or it moves at most so many bytes. Once the
  schedule is used up every call moves all it can. So a schedule is any finite disturbance:
  signals (\<open>EINTR\<close>), short transfers and hard errors, in any order; this is also why the loops,
  which retry on \<open>EINTR\<close> for ever, end in the model.
\<close>

datatype errno = EINTR | EIO | EINVAL | ENOSPC

datatype io_ev = Fails errno | AtMost nat

record dev =
  d_img :: bytes
  d_grows :: bool
  d_sched :: "io_ev list"

section \<open>The system calls\<close>

definition sched_pop :: "dev \<Rightarrow> dev" where
  "sched_pop d = d\<lparr>d_sched := tl (d_sched d)\<rparr>"

text \<open>How many of \<open>n\<close> bytes the next call may move, or its error.\<close>

definition sched_next :: "nat \<Rightarrow> dev \<Rightarrow> errno + nat" where
  "sched_next n d = (case d_sched d of [] \<Rightarrow> Inr n | Fails e # _ \<Rightarrow> Inl e | AtMost k # _ \<Rightarrow> Inr (min k n))"

definition img_write :: "nat \<Rightarrow> bytes \<Rightarrow> bytes \<Rightarrow> bytes" where
  "img_write off bs img = bput off bs (img @ replicate (off - length img) 0)"

definition sys_pwrite :: "bytes \<Rightarrow> int \<Rightarrow> dev \<Rightarrow> (errno + nat) \<times> dev" where
  "sys_pwrite bs off d =
     (if off < 0 then (Inl EINVAL, sched_pop d)
      else case sched_next (length bs) d of
        Inl e \<Rightarrow> (Inl e, sched_pop d)
      | Inr k \<Rightarrow>
          (let room = (if d_grows d then k else min k (length (d_img d) - nat off))
           in if room = 0 \<and> k \<noteq> 0 then (Inl ENOSPC, sched_pop d)
              else (Inr room, sched_pop (d\<lparr>d_img := img_write (nat off) (take room bs) (d_img d)\<rparr>))))"

definition sys_pread :: "nat \<Rightarrow> int \<Rightarrow> dev \<Rightarrow> (errno + bytes) \<times> dev" where
  "sys_pread n off d =
     (if off < 0 then (Inl EINVAL, sched_pop d)
      else case sched_next n d of
        Inl e \<Rightarrow> (Inl e, sched_pop d)
      | Inr k \<Rightarrow> (Inr (bslice (nat off) k (d_img d)), sched_pop d))"

lemma sched_pop_img [simp]: "d_img (sched_pop d) = d_img d"
  by (simp add: sched_pop_def)

lemma sched_pop_grows [simp]: "d_grows (sched_pop d) = d_grows d"
  by (simp add: sched_pop_def)

lemma sched_pop_sched [simp]: "d_sched (sched_pop d) = tl (d_sched d)"
  by (simp add: sched_pop_def)

lemma sched_next_le: "sched_next n d = Inr k \<Longrightarrow> k \<le> n"
  by (auto simp: sched_next_def split: list.splits io_ev.splits)

lemma img_write_inside: "off \<le> length img \<Longrightarrow> img_write off bs img = bput off bs img"
  by (simp add: img_write_def)

lemma sys_pwrite_EINTR: "sys_pwrite bs off d = (Inl EINTR, d') \<Longrightarrow> length (d_sched d') < length (d_sched d)"
  by (cases "d_sched d")
    (auto simp: sys_pwrite_def sched_next_def Let_def split: if_splits sum.splits io_ev.splits)

lemma sys_pread_EINTR: "sys_pread n off d = (Inl EINTR, d') \<Longrightarrow> length (d_sched d') < length (d_sched d)"
  by (cases "d_sched d")
    (auto simp: sys_pread_def sched_next_def split: if_splits sum.splits io_ev.splits)

lemma sys_pwrite_progress:
  "sys_pwrite bs off d = (Inr w, d') \<Longrightarrow> w \<le> length bs \<and> length (d_sched d') \<le> length (d_sched d)"
  using sched_next_le [of "length bs" d]
  by (auto simp: sys_pwrite_def Let_def split: if_splits sum.splits)

lemma sys_pread_progress:
  "sys_pread n off d = (Inr r, d') \<Longrightarrow> length r \<le> n \<and> length (d_sched d') \<le> length (d_sched d)"
  using sched_next_le [of n d]
  by (auto simp: sys_pread_def bslice_def split: if_splits sum.splits)

section \<open>The loops\<close>

text \<open>
  \<open>rufux_pwrite_all\<close>: \<open>True\<close> is the return value 0. The EINTR case does not advance, every other
  successful call does.
\<close>

function pwrite_all :: "bytes \<Rightarrow> int \<Rightarrow> dev \<Rightarrow> bool \<times> dev" where
  "pwrite_all bs off d =
     (if bs = [] then (True, d)
      else case sys_pwrite bs off d of
        (Inl e, d') \<Rightarrow> if e = EINTR then pwrite_all bs off d' else (False, d')
      | (Inr w, d') \<Rightarrow> if w = 0 then (False, d') else pwrite_all (drop w bs) (off + int w) d')"
  by pat_completeness auto
termination
proof (relation "measure (\<lambda>(bs, off, d). length bs + length (d_sched d))", goal_cases)
  case 1
  show ?case by simp
next
  case (2 bs off d r d' e)
  then show ?case using sys_pwrite_EINTR [of bs off d d'] by simp
next
  case (3 bs off d r d' w)
  then show ?case using sys_pwrite_progress [of bs off d w d'] by auto
qed

declare pwrite_all.simps [simp del]

text \<open>\<open>pread_all\<close>: the bytes read, or \<open>None\<close> for the return value -1.\<close>

function pread_all :: "nat \<Rightarrow> u64 \<Rightarrow> bytes \<Rightarrow> dev \<Rightarrow> bytes option \<times> dev" where
  "pread_all n off got d =
     (if n \<le> length got then (Some got, d)
      else case sys_pread (n - length got) (sint (off + of_nat (length got))) d of
        (Inl e, d') \<Rightarrow> if e = EINTR then pread_all n off got d' else (None, d')
      | (Inr r, d') \<Rightarrow> if r = [] then (None, d') else pread_all n off (got @ r) d')"
  by pat_completeness auto
termination
proof (relation "measure (\<lambda>(n, off, got, d). (n - length got) + length (d_sched d))", goal_cases)
  case 1
  show ?case by simp
next
  case (2 n off got d r d' e)
  then have "sys_pread (n - length got) (sint (off + of_nat (length got))) d = (Inl EINTR, d')"
    by simp
  from sys_pread_EINTR [OF this] 2 show ?case by simp
next
  case (3 n off got d r d' w)
  then have "sys_pread (n - length got) (sint (off + of_nat (length got))) d = (Inr w, d')"
    by simp
  from sys_pread_progress [OF this] 3 show ?case by (cases w) auto
qed

declare pread_all.simps [simp del]

text \<open>
  \<open>zero_range\<close>: zeros in chunks of at most \<open>zcap\<close> bytes. Every caller passes its one zero buffer of
  1 MiB, so \<open>zcap\<close> is that constant.
\<close>

definition zcap :: nat where
  "zcap = 1048576"

function zero_range :: "u64 \<Rightarrow> u64 \<Rightarrow> dev \<Rightarrow> bool \<times> dev" where
  "zero_range off len d =
     (if len = 0 then (True, d)
      else let chunk = (if unat len > zcap then zcap else unat len);
               (ok, d') = pwrite_all (replicate chunk 0) (sint off) d
        in if \<not> ok then (False, d')
           else zero_range (off + of_nat chunk) (len - of_nat chunk) d')"
  by pat_completeness auto
termination
proof (relation "measure (\<lambda>(off, len, d). unat len)", goal_cases)
  case 1
  show ?case by simp
next
  case (2 off len d c x ok d')
  then have c: "0 < c" "c \<le> unat len" by (auto simp: zcap_def unat_gt_0)
  have "unat (len - of_nat c) = unat len - c"
    using c(2) by (rule unat_minus_of_nat)
  with c show ?case by simp
qed

declare zero_range.simps [simp del]

section \<open>What the loops do\<close>

lemma sys_pwrite_Inr:
  assumes "sys_pwrite bs off d = (Inr w, d')" and "0 \<le> off" and "nat off + length bs \<le> length (d_img d)"
  shows "w \<le> length bs" and "d_img d' = bput (nat off) (take w bs) (d_img d)" and "d_grows d' = d_grows d"
  using assms sched_next_le [of "length bs" d]
  by (auto simp: sys_pwrite_def Let_def img_write_inside split: if_splits sum.splits)

lemma sys_pwrite_Inl: "sys_pwrite bs off d = (Inl e, d') \<Longrightarrow> d_img d' = d_img d \<and> d_grows d' = d_grows d"
  by (auto simp: sys_pwrite_def Let_def split: if_splits sum.splits)

text \<open>
  Success of \<open>rufux_pwrite_all\<close> means the whole buffer is at its place and nothing else changed,
  whatever short writes and interruptions there were.
\<close>

lemma pwrite_all_ok:
  "pwrite_all bs off d = (True, d') \<Longrightarrow> 0 \<le> off \<Longrightarrow> nat off + length bs \<le> length (d_img d) \<Longrightarrow>
   d_img d' = bput (nat off) bs (d_img d) \<and> d_grows d' = d_grows d"
proof (induction bs off d rule: pwrite_all.induct)
  case (1 bs off d)
  show ?case
  proof (cases "bs = []")
    case True
    with 1 show ?thesis by (simp add: pwrite_all.simps)
  next
    case False
    obtain r d1 where s: "sys_pwrite bs off d = (r, d1)" by fastforce
    show ?thesis
    proof (cases r)
      case (Inl e)
      with s False 1 show ?thesis
        using sys_pwrite_Inl [of bs off d e d1]
        by (auto simp: pwrite_all.simps [of bs off d] split: if_splits)
    next
      case (Inr w)
      note w = sys_pwrite_Inr [OF s [unfolded Inr] "1.prems"(2,3)]
      have nz: "w \<noteq> 0" and rest: "pwrite_all (drop w bs) (off + int w) d1 = (True, d')"
        using s Inr False "1.prems"(1) by (auto simp: pwrite_all.simps [of bs off d] split: if_splits)
      have len: "length (d_img d1) = length (d_img d)"
        using w "1.prems"(3) by (simp add: length_bput)
      have "d_img d' = bput (nat (off + int w)) (drop w bs) (d_img d1) \<and> d_grows d' = d_grows d1"
        using "1.IH"(2) [OF False s [unfolded Inr, symmetric] refl nz rest] "1.prems"(2,3) w(1) len
        by simp
      moreover have "nat (off + int w) = nat off + length (take w bs)"
        using w(1) "1.prems"(2) by simp
      ultimately show ?thesis
        using bput_split [of "nat off" "take w bs" "d_img d" "drop w bs"] w "1.prems"(3)
        by simp
    qed
  qed
qed

text \<open>
  The other direction: while the kernel only interrupts calls or shortens them, a write inside the
  device succeeds.
\<close>

definition benign :: "io_ev \<Rightarrow> bool" where
  "benign e \<longleftrightarrow> (case e of Fails x \<Rightarrow> x = EINTR | AtMost k \<Rightarrow> 0 < k)"

definition calm :: "dev \<Rightarrow> bool" where
  "calm d \<longleftrightarrow> list_all benign (d_sched d)"

lemma calm_pop: "calm d \<Longrightarrow> calm (sched_pop d)"
  by (cases "d_sched d") (auto simp: calm_def)

lemma calm_next: "calm d \<Longrightarrow> 0 < n \<Longrightarrow> sched_next n d = Inl EINTR \<or> (\<exists>k. sched_next n d = Inr k \<and> 0 < k)"
  by (cases "d_sched d") (auto simp: calm_def benign_def sched_next_def split: io_ev.splits)

lemma calm_img [simp]: "calm (d\<lparr>d_img := x\<rparr>) = calm d"
  by (simp add: calm_def)

lemma calm_pwrite:
  assumes "calm d" "bs \<noteq> []" "0 \<le> off" "nat off + length bs \<le> length (d_img d)"
  shows "(\<exists>d'. sys_pwrite bs off d = (Inl EINTR, d') \<and> calm d' \<and> d_img d' = d_img d) \<or>
    (\<exists>w d'. sys_pwrite bs off d = (Inr w, d') \<and> 0 < w \<and> calm d')"
  using assms calm_next [of d "length bs"] calm_pop [of d] sched_next_le [of "length bs" d]
  by (auto simp: sys_pwrite_def Let_def calm_pop)

lemma pwrite_all_calm:
  "calm d \<Longrightarrow> 0 \<le> off \<Longrightarrow> nat off + length bs \<le> length (d_img d) \<Longrightarrow>
   \<exists>d'. pwrite_all bs off d = (True, d') \<and> calm d'"
proof (induction bs off d rule: pwrite_all.induct)
  case (1 bs off d)
  show ?case
  proof (cases "bs = []")
    case True
    with 1 show ?thesis by (simp add: pwrite_all.simps)
  next
    case False
    from calm_pwrite [OF "1.prems"(1) False "1.prems"(2,3)] show ?thesis
    proof (elim disjE exE conjE)
      fix d1 assume "sys_pwrite bs off d = (Inl EINTR, d1)" "calm d1" "d_img d1 = d_img d"
      with 1 False show ?thesis by (simp add: pwrite_all.simps [of bs off d])
    next
      fix w d1 assume s: "sys_pwrite bs off d = (Inr w, d1)" and w: "0 < w" "calm d1"
      note s' = sys_pwrite_Inr [OF s "1.prems"(2,3)]
      have "nat (off + int w) + length (drop w bs) \<le> length (d_img d1)"
        using s' "1.prems"(2,3) by (simp add: length_bput)
      with "1.IH"(2) [OF False s [symmetric] refl _ w(2)] w(1) "1.prems"(2)
      have "\<exists>d'. pwrite_all (drop w bs) (off + int w) d1 = (True, d') \<and> calm d'" by simp
      with s w False show ?thesis by (simp add: pwrite_all.simps [of bs off d])
    qed
  qed
qed

lemma signed_take_bit_of_nat: "m < 2 ^ 63 \<Longrightarrow> signed_take_bit 63 (int m) = int m"
  by (intro signed_take_bit_int_eq_self) simp_all

lemma sint_small: "unat (x :: u64) < 2 ^ 63 \<Longrightarrow> sint x = int (unat x)"
  using signed_take_bit_of_nat [of "unat x"] by (simp add: sint_uint)

lemma zero_range_ok:
  "zero_range off len d = (True, d') \<Longrightarrow> unat off + unat len \<le> length (d_img d) \<Longrightarrow>
   length (d_img d) < 2 ^ 63 \<Longrightarrow>
   d_img d' = bput (unat off) (replicate (unat len) 0) (d_img d) \<and> d_grows d' = d_grows d"
proof (induction off len d rule: zero_range.induct)
  case (1 off len d)
  show ?case
  proof (cases "len = 0")
    case True
    with 1 show ?thesis by (simp add: zero_range.simps)
  next
    case False
    define c where "c = (if unat len > zcap then zcap else unat len)"
    obtain ok d1 where p: "pwrite_all (replicate c 0) (sint off) d = (ok, d1)" by fastforce
    have ok: ok and rest: "zero_range (off + of_nat c) (len - of_nat c) d1 = (True, d')"
      using "1.prems"(1) False p
      by (auto simp: zero_range.simps [of off len d] c_def [symmetric] Let_def split: if_splits)
    have c: "c \<le> unat len" "unat off + unat len < 2 ^ 63" using "1.prems"(2,3) by (auto simp: c_def)
    have so: "sint off = int (unat off)" using c by (intro sint_small) linarith
    have d1: "d_img d1 = bput (unat off) (replicate c 0) (d_img d)" "d_grows d1 = d_grows d"
      using pwrite_all_ok [OF p [unfolded so, simplified ok]] "1.prems"(2) c by simp_all
    have uc: "unat (of_nat c :: u64) = c" using c by (intro unat_of_nat_small) simp
    have uo: "unat (off + of_nat c) = unat off + c"
      using c uc by (subst unat_add_lem [THEN iffD1]) simp_all
    have ul: "unat (len - of_nat c) = unat len - c" using c(1) by (rule unat_minus_of_nat)
    have "d_img d' = bput (unat off + c) (replicate (unat len - c) 0) (d_img d1) \<and> d_grows d' = d_grows d1"
      using "1.IH" [OF False c_def p [symmetric] refl] ok rest "1.prems"(2,3) d1 c(1) uo ul
      by (simp add: length_bput)
    with d1 c(1) "1.prems"(2) bput_split [of "unat off" "replicate c (0::byte)" "d_img d" "replicate (unat len - c) 0"]
    show ?thesis by (simp add: replicate_add [symmetric])
  qed
qed

lemma pread_all_ok:
  "pread_all n off got d = (Some bs, d') \<Longrightarrow> unat off + n < 2 ^ 63 \<Longrightarrow>
   bslice (unat off) (length got) (d_img d) = got \<Longrightarrow> length got \<le> n \<Longrightarrow>
   bs = bslice (unat off) n (d_img d) \<and> length bs = n \<and> d_img d' = d_img d"
proof (induction n off got d rule: pread_all.induct)
  case (1 n off got d)
  show ?case
  proof (cases "n \<le> length got")
    case True
    with "1.prems" show ?thesis by (auto simp: pread_all.simps)
  next
    case False
    have "unat (of_nat (length got) :: u64) = length got"
      using "1.prems" by (intro unat_of_nat_small) simp
    then have "unat (off + of_nat (length got)) = unat off + length got"
      using "1.prems" by (subst unat_add_lem [THEN iffD1]) simp_all
    moreover define m where "m = unat off + length got"
    ultimately have so: "sint (off + of_nat (length got)) = int m"
      using "1.prems" by (subst sint_small) simp_all
    obtain r d1 where s: "sys_pread (n - length got) (sint (off + of_nat (length got))) d = (r, d1)" by fastforce
    have img: "d_img d1 = d_img d"
      using s by (auto simp: sys_pread_def split: if_splits sum.splits)
    show ?thesis
    proof (cases r)
      case (Inl e)
      then have e: "e = EINTR" and rest: "pread_all n off got d1 = (Some bs, d')"
        using s False "1.prems"(1) by (auto simp: pread_all.simps [of n off got d] split: if_splits)
      from "1.IH"(1) [OF False s [unfolded Inl, symmetric] refl e rest "1.prems"(2) _ "1.prems"(4)] "1.prems"(3)
      show ?thesis unfolding img by blast
    next
      case (Inr x)
      then have x: "x \<noteq> []" and rest: "pread_all n off (got @ x) d1 = (Some bs, d')"
        using s False "1.prems"(1) by (auto simp: pread_all.simps [of n off got d] split: if_splits)
      obtain k where k: "k \<le> n - length got" "x = bslice m k (d_img d)"
        using s Inr so sched_next_le [of "n - length got" d]
        by (auto simp: sys_pread_def split: if_splits sum.splits)
      have gx: "bslice (unat off) (length (got @ x)) (d_img d) = got @ x"
      proof -
        have "bslice m (length x) (d_img d) = x"
          using k by (auto simp: bslice_def min_def)
        with "1.prems"(3) show ?thesis
          by (simp add: bslice_def take_add add.commute m_def)
      qed
      have "length (got @ x) \<le> n" using k "1.prems"(4) by (auto simp: bslice_def)
      from "1.IH"(2) [OF False s [unfolded Inr, symmetric] refl x rest "1.prems"(2) _ this] gx
      show ?thesis unfolding img by blast
    qed
  qed
qed

lemma pread_all_img: "d_img (snd (pread_all n off got d)) = d_img d"
proof (induction n off got d rule: pread_all.induct)
  case (1 n off got d)
  show ?case
  proof (cases "n \<le> length got")
    case True
    then show ?thesis by (simp add: pread_all.simps)
  next
    case False
    obtain r d1 where s: "sys_pread (n - length got) (sint (off + of_nat (length got))) d = (r, d1)" by fastforce
    then have img: "d_img d1 = d_img d" by (auto simp: sys_pread_def split: if_splits sum.splits)
    from s img False 1 show ?thesis
      by (cases r) (auto simp: pread_all.simps [of n off got d])
  qed
qed

lemma calm_pread:
  assumes "calm d" "0 < n" "0 \<le> off" "nat off + n \<le> length (d_img d)"
  shows "(\<exists>d'. sys_pread n off d = (Inl EINTR, d') \<and> calm d' \<and> d_img d' = d_img d) \<or>
    (\<exists>k d'. sys_pread n off d = (Inr (bslice (nat off) k (d_img d)), d') \<and> 0 < k \<and> k \<le> n \<and> calm d' \<and> d_img d' = d_img d)"
  using calm_next [of d n] assms sched_next_le [of n d] calm_pop [of d]
  by (auto simp: sys_pread_def)

lemma pread_all_calm:
  "calm d \<Longrightarrow> unat off + n \<le> length (d_img d) \<Longrightarrow> length (d_img d) < 2 ^ 63 \<Longrightarrow> length got \<le> n \<Longrightarrow>
   \<exists>r d'. pread_all n off got d = (Some r, d') \<and> calm d'"
proof (induction n off got d rule: pread_all.induct)
  case (1 n off got d)
  show ?case
  proof (cases "n \<le> length got")
    case True
    with "1.prems" show ?thesis by (simp add: pread_all.simps)
  next
    case False
    have "unat (of_nat (length got) :: u64) = length got"
      using "1.prems" by (intro unat_of_nat_small) simp
    then have "unat (off + of_nat (length got)) = unat off + length got"
      using "1.prems" by (subst unat_add_lem [THEN iffD1]) simp_all
    then have so: "sint (off + of_nat (length got)) = int (unat off + length got)"
      using "1.prems" by (subst sint_small) simp_all
    let ?m = "unat off + length got"
    have "(\<exists>d'. sys_pread (n - length got) (int ?m) d = (Inl EINTR, d') \<and> calm d' \<and> d_img d' = d_img d) \<or>
      (\<exists>k d'. sys_pread (n - length got) (int ?m) d = (Inr (bslice ?m k (d_img d)), d') \<and>
         0 < k \<and> k \<le> n - length got \<and> calm d' \<and> d_img d' = d_img d)"
      using calm_pread [OF "1.prems"(1), of "n - length got" "int ?m"] False "1.prems"(2) by (simp only: nat_int)
    then show ?thesis
    proof (elim disjE exE conjE)
      fix d1 assume s: "sys_pread (n - length got) (int ?m) d = (Inl EINTR, d1)" and d1: "calm d1" "d_img d1 = d_img d"
      with "1.IH"(1) [OF False _ refl refl, unfolded so, OF s [symmetric]] "1.prems" False
      show ?thesis by (simp add: pread_all.simps [of n off got d] so del: of_nat_add)
    next
      fix k d1 assume s: "sys_pread (n - length got) (int ?m) d = (Inr (bslice ?m k (d_img d)), d1)"
        and k: "0 < k" "k \<le> n - length got" and d1: "calm d1" "d_img d1 = d_img d"
      have l: "length (bslice ?m k (d_img d)) = k"
        using k "1.prems" False by (intro length_bslice_in) simp
      then have ne: "bslice ?m k (d_img d) \<noteq> []" using k by (metis length_greater_0_conv)
      from "1.IH"(2) [OF False _ refl ne d1(1), unfolded so, OF s [symmetric]] "1.prems" d1 k l False
      show ?thesis using s ne by (simp add: pread_all.simps [of n off got d] so del: of_nat_add)
    qed
  qed
qed

lemma pread_slice:
  assumes "calm d" "unat off + n \<le> length (d_img d)" "length (d_img d) < 2 ^ 63"
  shows "\<exists>d'. pread_all n off [] d = (Some (bslice (unat off) n (d_img d)), d') \<and> calm d' \<and> d_img d' = d_img d"
proof -
  obtain r d' where p: "pread_all n off [] d = (Some r, d')" "calm d'"
    using pread_all_calm [OF assms, of "[]"] by auto
  with pread_all_ok [OF p(1)] assms show ?thesis by simp
qed

end
