(* ===== verification/MacGptPlan.thy ===== *)
theory MacGptPlan
  imports Prelude
begin

text \<open>
  The layout half of \<open>rufux_partition\<close> in \<open>macos/src/partition.c\<close>: option checks, disk geometry and
  the list of partitions that is going to be written. Sizes and block numbers are 64-bit words, as
  in the code, so that each subtraction and product of the code has its wrap-around here.
\<close>

section \<open>Options, errors and partitions\<close>

text \<open>\<open>RufuxPartOpts\<close>; a string that may be \<open>NULL\<close> is an option.\<close>

record part_opts =
  po_scheme :: "string option"
  po_layout :: "string option"
  po_fs_main :: "string option"
  po_bios_boot :: bool
  po_dry_run :: bool
  po_allow_fixed :: bool
  po_allow_file :: bool
  po_yes :: bool

datatype part_error =
    BadPartOptions | BadScheme | BadLayout | RefusedWithoutYes | TargetRefused
  | BadSectorSize u32 | WindowsTooSmall u64 | BiosBootTooSmall u64 | EspTooSmall u64 u64
  | TooSmallToPartition u64 | InvalidRange nat | ExceedsGptBounds nat | ExceedsMbrLimit
  | CannotStat | CannotUnmount | CannotOpen | WipeFailed | MbrWriteFailed | GptWriteFailed
  | FsyncFailed | CloseFailed

text \<open>The three layout names, once they have been checked; the code goes on comparing the strings.\<close>

datatype layout = Single | EspMain | MainUefintfs

fun layout_of :: "string \<Rightarrow> layout option" where
  "layout_of s = (if s = ''single'' then Some Single else if s = ''esp+main'' then Some EspMain
     else if s = ''main+uefintfs'' then Some MainUefintfs else None)"

text \<open>\<open>PartSpec\<close>: fields a branch does not assign keep the zero of the \<open>memset\<close>.\<close>

record part_spec =
  ps_first :: u64
  ps_last :: u64
  ps_status :: byte
  ps_mbr_type :: byte
  ps_gpt_type :: bytes
  ps_attrs :: u64
  ps_name :: string

definition GUID_MS_BASIC_DATA :: bytes where
  "GUID_MS_BASIC_DATA = [0xA2, 0xA0, 0xD0, 0xEB, 0xE5, 0xB9, 0x33, 0x44,
                         0x87, 0xC0, 0x68, 0xB6, 0xB7, 0x26, 0x99, 0xC7]"

definition GUID_LINUX_FS :: bytes where
  "GUID_LINUX_FS = [0xAF, 0x3D, 0xC6, 0x0F, 0x83, 0x84, 0x72, 0x47,
                    0x8E, 0x79, 0x3D, 0x69, 0xD8, 0x47, 0x7D, 0xE4]"

definition GUID_ESP :: bytes where
  "GUID_ESP = [0x28, 0x73, 0x2A, 0xC1, 0x1F, 0xF8, 0xD2, 0x11,
               0xBA, 0x4B, 0x00, 0xA0, 0xC9, 0x3E, 0xC9, 0x3B]"

definition GUID_BIOS_BOOT :: bytes where
  "GUID_BIOS_BOOT = [0x48, 0x61, 0x68, 0x21, 0x49, 0x64, 0x6F, 0x6E,
                     0x74, 0x4E, 0x65, 0x65, 0x64, 0x45, 0x46, 0x49]"

section \<open>Checks\<close>

text \<open>The checks of scheme and layout; the result is whether the scheme is GPT, and the layout.\<close>

definition check_scheme_layout :: "string \<Rightarrow> part_opts \<Rightarrow> part_error + bool \<times> layout" where
  "check_scheme_layout dst opts =
     (case (po_scheme opts, po_layout opts) of
        (Some sch, Some lay) \<Rightarrow>
          if dst = '''' then Inl BadPartOptions
          else if sch \<noteq> ''gpt'' \<and> sch \<noteq> ''dos'' \<and> sch \<noteq> ''mbr'' then Inl BadScheme
          else let scheme = (if sch = ''mbr'' then ''dos'' else sch)
            in (case layout_of lay of None \<Rightarrow> Inl BadLayout | Some l \<Rightarrow> Inr (scheme = ''gpt'', l))
      | _ \<Rightarrow> Inl BadPartOptions)"

text \<open>The MBR type byte follows the file system of the main partition.\<close>

definition mbr_type_for :: "string option \<Rightarrow> byte" where
  "mbr_type_for fs = (case fs of None \<Rightarrow> 0x0C | Some f \<Rightarrow>
     if f = ''fat16'' then 0x0E
     else if f = ''ntfs'' \<or> f = ''exfat'' \<or> f = ''udf'' then 0x07
     else if f = ''ext4'' \<or> f = ''ext3'' \<or> f = ''ext2'' then 0x83
     else 0x0C)"

definition sector_size_ok :: "u32 \<Rightarrow> bool" where
  "sector_size_ok sec_sz \<longleftrightarrow>
     \<not> (sec_sz < 512 \<or> 4096 < sec_sz \<or> sec_sz AND (sec_sz - 1) \<noteq> 0 \<or> (1048576 :: u64) mod ucast sec_sz \<noteq> 0)"

text \<open>The size checks that come before the dry-run return.\<close>

definition check_sizes :: "layout \<Rightarrow> bool \<Rightarrow> u64 \<Rightarrow> u32 \<Rightarrow> part_error option" where
  "check_sizes layout bios_part total_bytes sec_sz =
     (let mib = drop_bit 20 total_bytes in
      if \<not> sector_size_ok sec_sz then Some (BadSectorSize sec_sz)
      else if layout = MainUefintfs \<and> mib < 64 then Some (WindowsTooSmall mib)
      else if layout = Single \<and> bios_part \<and> mib < 64 then Some (BiosBootTooSmall mib)
      else None)"

section \<open>Geometry\<close>

record geom =
  g_sec :: u64
  g_spm :: u64
  g_total :: u64
  g_entries :: u64
  g_last :: u64
  g_first_usable :: u64
  g_last_usable :: u64

definition geometry :: "u64 \<Rightarrow> u32 \<Rightarrow> geom" where
  "geometry total_bytes sec_sz =
     (let sec = ucast sec_sz; total = total_bytes div sec; es = ucast (16384 div sec_sz); last = total - 1
      in \<lparr>g_sec = sec, g_spm = 1048576 div sec, g_total = total, g_entries = es, g_last = last,
          g_first_usable = 2 + es, g_last_usable = last - es - 1\<rparr>)"

definition esp_min_mib :: "bool \<Rightarrow> u64" where
  "esp_min_mib bios_part = 515 + (if bios_part then 2 else 0)"

text \<open>The size checks after the dry-run return.\<close>

definition check_room :: "layout \<Rightarrow> bool \<Rightarrow> u64 \<Rightarrow> geom \<Rightarrow> part_error option" where
  "check_room layout bios_part total_bytes g =
     (let mib = drop_bit 20 total_bytes in
      if layout = EspMain \<and> mib < esp_min_mib bios_part then Some (EspTooSmall mib (esp_min_mib bios_part))
      else if g_total g < 2 * g_spm g + 2 * (g_entries g + 2) then Some (TooSmallToPartition total_bytes)
      else None)"

section \<open>The three layouts\<close>

definition bios_boot_part :: "u64 \<Rightarrow> u64 \<Rightarrow> part_spec" where
  "bios_boot_part first spm =
     \<lparr>ps_first = first, ps_last = first + spm - 1, ps_status = 0, ps_mbr_type = 0,
      ps_gpt_type = GUID_BIOS_BOOT, ps_attrs = 0, ps_name = ''BIOS boot''\<rparr>"

definition plan_main_uefintfs :: "bool \<Rightarrow> byte \<Rightarrow> u64 \<Rightarrow> geom \<Rightarrow> part_spec list" where
  "plan_main_uefintfs bios_part mbr_type mib g =
     (let spm = g_spm g;
          main_mib = mib - 3 - (if bios_part then 1 else 0);
          last0 = spm + main_mib * spm - 1;
          last1 = (last0 + 1) + spm - 1
      in [\<lparr>ps_first = spm, ps_last = last0, ps_status = 0x80, ps_mbr_type = mbr_type,
           ps_gpt_type = GUID_MS_BASIC_DATA, ps_attrs = 0, ps_name = ''Windows''\<rparr>,
          \<lparr>ps_first = last0 + 1, ps_last = last1, ps_status = 0, ps_mbr_type = 0xEF,
           ps_gpt_type = GUID_MS_BASIC_DATA, ps_attrs = 0x8000000000000000, ps_name = ''UEFI:NTFS''\<rparr>]
         @ (if bios_part then [bios_boot_part (last1 + 1) spm] else []))"

text \<open>A partition that runs to the end of the disk; on MBR its length is capped at 32 bits.\<close>

definition capped_end :: "bool \<Rightarrow> geom \<Rightarrow> u64 \<Rightarrow> u64" where
  "capped_end is_gpt g first =
     (let end_lba = (if is_gpt then g_last_usable g else g_last g)
      in if \<not> is_gpt \<and> 0xFFFFFFFF < end_lba - first + 1 then first + 0xFFFFFFFF - 1 else end_lba)"

definition plan_single :: "bool \<Rightarrow> bool \<Rightarrow> byte \<Rightarrow> u64 \<Rightarrow> geom \<Rightarrow> part_spec list" where
  "plan_single is_gpt bios_part mbr_type mib g =
     (let spm = g_spm g;
          gtype = (if mbr_type = 0x83 then GUID_LINUX_FS else GUID_MS_BASIC_DATA)
      in if \<not> bios_part
         then [\<lparr>ps_first = spm, ps_last = capped_end is_gpt g spm, ps_status = 0x80, ps_mbr_type = mbr_type,
                ps_gpt_type = gtype, ps_attrs = 0, ps_name = ''''\<rparr>]
         else let main_mib = mib - 3; last0 = spm + main_mib * spm - 1
           in [\<lparr>ps_first = spm, ps_last = last0, ps_status = 0, ps_mbr_type = 0,
                ps_gpt_type = gtype, ps_attrs = 0, ps_name = ''''\<rparr>,
               bios_boot_part (last0 + 1) spm])"

definition plan_esp_main :: "bool \<Rightarrow> bool \<Rightarrow> byte \<Rightarrow> u64 \<Rightarrow> geom \<Rightarrow> part_spec list" where
  "plan_esp_main is_gpt bios_part mbr_type mib g =
     (let spm = g_spm g;
          last0 = spm + 512 * spm - 1;
          esp = \<lparr>ps_first = spm, ps_last = last0, ps_status = 0, ps_mbr_type = 0xEF,
                 ps_gpt_type = GUID_ESP, ps_attrs = 0, ps_name = ''''\<rparr>;
          p2_first = last0 + 1
      in if \<not> bios_part
         then [esp, \<lparr>ps_first = p2_first, ps_last = capped_end is_gpt g p2_first, ps_status = 0x80,
                     ps_mbr_type = mbr_type, ps_gpt_type = GUID_MS_BASIC_DATA, ps_attrs = 0, ps_name = ''''\<rparr>]
         else let main_mib = mib - 515; last1 = p2_first + main_mib * spm - 1
           in [esp, \<lparr>ps_first = p2_first, ps_last = last1, ps_status = 0, ps_mbr_type = 0,
                     ps_gpt_type = GUID_MS_BASIC_DATA, ps_attrs = 0, ps_name = ''''\<rparr>,
               bios_boot_part (last1 + 1) spm])"

definition plan_parts :: "layout \<Rightarrow> bool \<Rightarrow> bool \<Rightarrow> byte \<Rightarrow> u64 \<Rightarrow> geom \<Rightarrow> part_spec list" where
  "plan_parts layout is_gpt bios_part mbr_type mib g =
     (if layout = MainUefintfs then plan_main_uefintfs bios_part mbr_type mib g
      else if layout = Single then plan_single is_gpt bios_part mbr_type mib g
      else plan_esp_main is_gpt bios_part mbr_type mib g)"

text \<open>The final range check over the planned partitions, in order; \<open>i\<close> counts from 1.\<close>

fun check_ranges :: "bool \<Rightarrow> geom \<Rightarrow> nat \<Rightarrow> part_spec list \<Rightarrow> part_error option" where
  "check_ranges is_gpt g i [] = None"
| "check_ranges is_gpt g i (p # ps) =
     (if ps_last p < ps_first p then Some (InvalidRange i)
      else if is_gpt then
        (if ps_first p < g_first_usable g \<or> g_last_usable g < ps_last p then Some (ExceedsGptBounds i)
         else check_ranges is_gpt g (Suc i) ps)
      else (let cnt = ps_last p - ps_first p + 1
            in if 0xFFFFFFFF < ps_first p \<or> 0xFFFFFFFF < cnt then Some ExceedsMbrLimit
               else check_ranges is_gpt g (Suc i) ps))"

text \<open>Everything between the dry-run return and the first access to the disk.\<close>

definition plan_layout :: "layout \<Rightarrow> bool \<Rightarrow> bool \<Rightarrow> byte \<Rightarrow> u64 \<Rightarrow> u32 \<Rightarrow> part_error + geom \<times> part_spec list" where
  "plan_layout layout is_gpt bios_part mbr_type total_bytes sec_sz =
     (let g = geometry total_bytes sec_sz; mib = drop_bit 20 total_bytes
      in case check_room layout bios_part total_bytes g of
           Some e \<Rightarrow> Inl e
         | None \<Rightarrow> (let ps = plan_parts layout is_gpt bios_part mbr_type mib g
             in case check_ranges is_gpt g 1 ps of Some e \<Rightarrow> Inl e | None \<Rightarrow> Inr (g, ps)))"

text \<open>\<open>rufux_partition_plan\<close>: the one-line description of what is going to happen.\<close>

definition partition_plan :: "string option \<Rightarrow> part_opts option \<Rightarrow> string" where
  "partition_plan dst opts =
     (let raw_scheme = (case opts of None \<Rightarrow> ''gpt'' | Some x \<Rightarrow> (case po_scheme x of None \<Rightarrow> ''gpt'' | Some y \<Rightarrow> y));
          scheme = (if raw_scheme = ''mbr'' then ''dos'' else raw_scheme);
          layout = (case opts of None \<Rightarrow> ''single'' | Some x \<Rightarrow> (case po_layout x of None \<Rightarrow> ''single'' | Some y \<Rightarrow> y))
      in ''partition '' @ (case dst of None \<Rightarrow> '''' | Some d \<Rightarrow> d) @ '' as '' @ scheme @ ''/'' @ layout
         @ (case opts of None \<Rightarrow> '''' | Some x \<Rightarrow> if po_dry_run x then '' [dry-run]'' else ''''))"

section \<open>The plan in natural numbers\<close>


lemma sector_size_cases:
  assumes "sector_size_ok sec"
  shows "unat sec \<in> {512, 1024, 2048, 4096}"
proof -
  have b: "512 \<le> unat sec" "unat sec \<le> 4096"
    using assms by (auto simp: sector_size_ok_def word_less_nat_alt not_less word_le_nat_alt)
  have "unat ((1048576 :: u64) mod ucast sec) = 0"
    using assms by (simp add: sector_size_ok_def)
  then have "(1048576 :: nat) mod unat sec = 0"
    by (simp add: unat_mod_distrib)
  then have "unat sec dvd 2 ^ 20" by (simp add: mod_eq_0_iff_dvd)
  then obtain k where k: "unat sec = 2 ^ k" "k \<le> 20"
    using dvd_power_two by blast
  have "(2::nat) ^ 9 \<le> 2 ^ k" "(2::nat) ^ k \<le> 2 ^ 12" using b k by simp_all
  then have "9 \<le> k" and "k \<le> 12"
    using power_le_imp_le_exp [of "2::nat" 9 k] power_le_imp_le_exp [of "2::nat" k 12] by simp_all
  then have "k = 9 \<or> k = 10 \<or> k = 11 \<or> k = 12" by auto
  with k show ?thesis by auto
qed

lemma geometry_nat:
  assumes "sector_size_ok sec"
  shows "unat (g_sec (geometry tb sec)) = unat sec" "unat (g_spm (geometry tb sec)) = 1048576 div unat sec"
    "unat (g_total (geometry tb sec)) = unat tb div unat sec"
    "unat (g_entries (geometry tb sec)) = 16384 div unat sec"
  using assms by (simp_all add: geometry_def Let_def unat_div_distrib)

text \<open>
  The facts about an admissible geometry that the layout proofs use: the number of sectors per MiB,
  64 times the length of the entry array, and the disk size in MiB and sectors.
\<close>

definition geom_wf :: "geom \<Rightarrow> u64 \<Rightarrow> bool" where
  "geom_wf g mib \<longleftrightarrow>
     unat (g_spm g) \<in> {256, 512, 1024, 2048} \<and> unat (g_spm g) = 64 * unat (g_entries g) \<and>
     unat (g_spm g) * unat mib \<le> unat (g_total g) \<and> unat (g_total g) < unat (g_spm g) * (unat mib + 1) \<and>
     2 * unat (g_spm g) + 2 * (unat (g_entries g) + 2) \<le> unat (g_total g) \<and>
     unat (g_total g) < 2 ^ 55 \<and>
     unat (g_last g) = unat (g_total g) - 1 \<and> unat (g_first_usable g) = 2 + unat (g_entries g) \<and>
     unat (g_last_usable g) = unat (g_total g) - unat (g_entries g) - 2"

lemma geometry_wf:
  assumes s: "sector_size_ok sec" and r: "check_room lay bp tb (geometry tb sec) = None"
  shows "geom_wf (geometry tb sec) (drop_bit 20 tb)"
proof -
  let ?g = "geometry tb sec"
  note c = sector_size_cases [OF s] and n = geometry_nat [OF s, of tb]
  define t where "t = unat (g_total ?g)"
  have tb: "unat tb < 2 ^ 64" using unsigned_less [of tb, where ?'a = nat] by simp
  have t55: "t < 2 ^ 55"
    using c tb unfolding t_def n by (auto simp: div_less_iff_less_mult)
  have spm: "unat (g_spm ?g) \<in> {256, 512, 1024, 2048}" "unat (g_spm ?g) = 64 * unat (g_entries ?g)"
    using c unfolding n by auto
  have mib: "unat (drop_bit 20 tb) = t div unat (g_spm ?g)"
  proof -
    have "unat (drop_bit 20 tb) = unat tb div 1048576" by (simp add: drop_bit_eq_div unat_div_distrib)
    also have "1048576 = unat sec * unat (g_spm ?g)" using c unfolding n by auto
    finally show ?thesis unfolding t_def n by (simp add: div_mult2_eq)
  qed
  have room: "2 * g_spm ?g + 2 * (g_entries ?g + 2) \<le> g_total ?g"
    using r by (auto simp: check_room_def Let_def not_less split: if_splits)
  have e: "unat (g_entries ?g) \<in> {4, 8, 16, 32}" using c unfolding n by auto
  have sum: "unat (2 * g_spm ?g + 2 * (g_entries ?g + 2)) = 2 * unat (g_spm ?g) + 2 * (unat (g_entries ?g) + 2)"
    using spm(1) e by (auto simp: unat_word_ariths)
  have room': "2 * unat (g_spm ?g) + 2 * (unat (g_entries ?g) + 2) \<le> t"
    using room sum by (simp add: word_le_nat_alt t_def)
  have last: "unat (g_last ?g) = t - 1"
    using unat_minus_of_nat [of 1 "g_total ?g"] room' by (simp add: geometry_def Let_def t_def)
  have fu: "unat (g_first_usable ?g) = 2 + unat (g_entries ?g)"
    using e by (auto simp: geometry_def Let_def unat_word_ariths)
  have lu: "unat (g_last_usable ?g) = t - unat (g_entries ?g) - 2"
  proof -
    have "g_last_usable ?g = g_last ?g - of_nat (unat (g_entries ?g) + 1)"
      by (simp add: geometry_def Let_def)
    moreover have "unat (g_entries ?g) + 1 \<le> unat (g_last ?g)" using last room' by arith
    ultimately show ?thesis using last by (simp only: unat_minus_of_nat)
  qed
  show ?thesis
    unfolding geom_wf_def mib t_def [symmetric]
    using spm t55 room' last fu lu by (auto simp: times_div_less_eq_dividend dividend_less_times_div)
qed


text \<open>
  Every boundary of a plan is a whole number of MiB from the start of the disk; as words these
  products do not wrap.
\<close>

lemma unat_mib_bound:
  assumes w: "geom_wf g mib" and n: "n \<le> unat mib + 2"
  shows "unat (of_nat n * g_spm g) = n * unat (g_spm g)" and "n * unat (g_spm g) < 2 ^ 63"
    and "0 < n \<Longrightarrow> unat (of_nat n * g_spm g - 1) = n * unat (g_spm g) - 1"
proof -
  have "n * unat (g_spm g) \<le> (unat mib + 2) * unat (g_spm g)" using n by (rule mult_le_mono1)
  also have "\<dots> = unat (g_spm g) * unat mib + 2 * unat (g_spm g)" by (simp add: algebra_simps)
  also have "\<dots> < 2 ^ 63" using w by (auto simp: geom_wf_def)
  finally show lt: "n * unat (g_spm g) < 2 ^ 63" .
  then have "unat (of_nat (n * unat (g_spm g)) :: u64) = n * unat (g_spm g)"
    by (intro unat_of_nat_small) simp
  then show u: "unat (of_nat n * g_spm g) = n * unat (g_spm g)" by simp
  assume "0 < n"
  then have "1 \<le> unat (of_nat n * g_spm g)" using w unfolding u by (auto simp: geom_wf_def)
  from unat_minus_of_nat [OF this] u show "unat (of_nat n * g_spm g - 1) = n * unat (g_spm g) - 1" by simp
qed

lemma mib_minus: "k \<le> unat mib \<Longrightarrow> mib - of_nat k = (of_nat (unat mib - k) :: u64)"
  by (simp add: of_nat_diff)

lemma capped_end_nat:
  assumes w: "geom_wf g mib" and n: "(n + 1) * unat (g_spm g) \<le> unat (g_total g)"
  shows "unat (capped_end is_gpt g (of_nat n * g_spm g)) =
    (if is_gpt then unat (g_last_usable g)
     else min (unat (g_last g)) (n * unat (g_spm g) + 0xFFFFFFFE))"
proof (cases is_gpt)
  case True
  then show ?thesis by (simp add: capped_end_def Let_def)
next
  case False
  define t f where "t = unat (g_total g)" and "f = n * unat (g_spm g)"
  have ft: "f < t" "t < 2 ^ 55" "unat (g_last g) = t - 1"
    using w n by (auto simp: geom_wf_def t_def f_def)
  have "unat (of_nat f :: u64) = f" using ft by (intro unat_of_nat_small) simp
  then have uf: "unat (of_nat n * g_spm g) = f" by (simp add: f_def)
  have len: "unat (g_last g - of_nat n * g_spm g + 1) = t - f"
    using ft uf by (simp add: unat_word_ariths unat_sub word_le_nat_alt)
  have sum: "unat (of_nat n * g_spm g + 0xFFFFFFFF - 1) = f + 0xFFFFFFFE"
    using ft uf by (simp add: unat_word_ariths)
  show ?thesis
    using False ft len sum
    by (auto simp: capped_end_def Let_def word_less_nat_alt f_def min_def)
qed


section \<open>What a good layout is\<close>

text \<open>
  Partitions in disk order, each non-empty and starting on a MiB boundary, none overlapping the one
  before it (so all are pairwise disjoint), the first one at or after \<open>lo\<close>, the last one ending at
  or before \<open>hi\<close>.
\<close>

fun laid_out :: "nat \<Rightarrow> nat \<Rightarrow> nat \<Rightarrow> part_spec list \<Rightarrow> bool" where
  "laid_out spm lo hi [] \<longleftrightarrow> True"
| "laid_out spm lo hi (p # ps) \<longleftrightarrow>
     lo \<le> unat (ps_first p) \<and> unat (ps_first p) mod spm = 0 \<and> unat (ps_first p) \<le> unat (ps_last p) \<and>
     unat (ps_last p) \<le> hi \<and> laid_out spm (unat (ps_last p) + 1) hi ps"

lemma laid_out_nth:
  "laid_out spm lo hi ps \<Longrightarrow> i < length ps \<Longrightarrow>
   lo \<le> unat (ps_first (ps ! i)) \<and> unat (ps_first (ps ! i)) mod spm = 0 \<and>
   unat (ps_first (ps ! i)) \<le> unat (ps_last (ps ! i)) \<and> unat (ps_last (ps ! i)) \<le> hi"
proof (induction ps arbitrary: lo i)
  case Nil
  then show ?case by simp
next
  case (Cons p ps)
  then show ?case by (cases i) fastforce+
qed

lemma laid_out_disjoint:
  "laid_out spm lo hi ps \<Longrightarrow> i < j \<Longrightarrow> j < length ps \<Longrightarrow>
   unat (ps_last (ps ! i)) < unat (ps_first (ps ! j))"
proof (induction ps arbitrary: lo i j)
  case Nil
  then show ?case by simp
next
  case (Cons p ps)
  from Cons.prems obtain j' where j: "j = Suc j'" by (cases j) auto
  show ?case
  proof (cases i)
    case 0
    from laid_out_nth [of spm "unat (ps_last p) + 1" hi ps j'] Cons.prems j 0 show ?thesis by simp
  next
    case (Suc i')
    with Cons.prems Cons.IH [of "unat (ps_last p) + 1" i' j'] j show ?thesis by simp
  qed
qed

definition plan_hi :: "bool \<Rightarrow> geom \<Rightarrow> nat" where
  "plan_hi is_gpt g = (if is_gpt then unat (g_last_usable g) else unat (g_last g))"

lemma esp_min_nat: "unat (esp_min_mib b) = (if b then 517 else 515)"
  by (simp add: esp_min_mib_def)

lemma laid_out_mibI:
  assumes w: "geom_wf g mib" and ab: "a < b" "b \<le> unat mib"
    and p: "ps_first p = of_nat a * g_spm g" "ps_last p = of_nat b * g_spm g - 1"
    and c: "c \<le> a" and hi: "b * unat (g_spm g) - 1 \<le> hi"
    and rest: "laid_out (unat (g_spm g)) (b * unat (g_spm g)) hi ps"
  shows "laid_out (unat (g_spm g)) (c * unat (g_spm g)) hi (p # ps)"
proof -
  let ?s = "unat (g_spm g)"
  have s: "0 < ?s" using w by (auto simp: geom_wf_def)
  have f: "unat (ps_first p) = a * ?s" and l: "unat (ps_last p) = b * ?s - 1"
    using unat_mib_bound [OF w, of a] unat_mib_bound [OF w, of b] ab p by simp_all
  have "a * ?s < b * ?s" using ab(1) s by simp
  then have "a * ?s \<le> b * ?s - 1" by arith
  moreover have "b * ?s - 1 + 1 = b * ?s" using ab(1) s by simp
  ultimately show ?thesis using f l c hi rest by (simp add: add_le_imp_le_diff)
qed

lemma mib_hi:
  assumes w: "geom_wf g mib" and n: "n < unat mib"
  shows "n * unat (g_spm g) - 1 \<le> plan_hi is_gpt g"
proof -
  have "(n + 1) * unat (g_spm g) \<le> unat mib * unat (g_spm g)" using n by (intro mult_le_mono1) simp
  with w show ?thesis by (auto simp: geom_wf_def plan_hi_def algebra_simps)
qed

lemma plan_main_laid_out:
  assumes w: "geom_wf g mib" and m: "64 \<le> mib"
  shows "laid_out (unat (g_spm g)) (1 * unat (g_spm g)) (plan_hi is_gpt g) (plan_main_uefintfs b mt mib g)"
proof -
  have m64: "64 \<le> unat mib" using m by (simp add: word_le_nat_alt)
  define n where "n = (if b then unat mib - 3 else unat mib - 2)"
  have nb: "1 < n" "n + 1 + (if b then 1 else 0) = unat mib - 1" using m64 by (auto simp: n_def)
  have main: "mib - 3 - (if b then 1 else 0) = of_nat (n - 1)"
    using m64 by (auto simp: n_def of_nat_diff)
  define p where "p i = plan_main_uefintfs b mt mib g ! i" for i
  have plan: "plan_main_uefintfs b mt mib g = p 0 # p 1 # (if b then [p 2] else [])"
    by (simp add: p_def plan_main_uefintfs_def Let_def)
  have f: "ps_first (p 0) = of_nat 1 * g_spm g" "ps_last (p 0) = of_nat n * g_spm g - 1"
      "ps_first (p 1) = of_nat n * g_spm g" "ps_last (p 1) = of_nat (n + 1) * g_spm g - 1"
    using nb(1) unfolding p_def plan_main_uefintfs_def Let_def main
    by (simp_all add: of_nat_diff algebra_simps)
  have f2: "ps_first (p 2) = of_nat (n + 1) * g_spm g" "ps_last (p 2) = of_nat (n + 2) * g_spm g - 1" if b
    using nb(1) that main unfolding p_def plan_main_uefintfs_def Let_def
    by (simp_all add: of_nat_diff algebra_simps bios_boot_part_def)
  have "laid_out (unat (g_spm g)) ((n + 1) * unat (g_spm g)) (plan_hi is_gpt g) (if b then [p 2] else [])"
  proof (cases b)
    case True
    with nb m64 have "laid_out (unat (g_spm g)) ((n + 1) * unat (g_spm g)) (plan_hi is_gpt g) [p 2]"
      by (intro laid_out_mibI [OF w _ _ f2 order_refl mib_hi [OF w]]) auto
    with True show ?thesis by simp
  qed simp
  with nb m64 have "laid_out (unat (g_spm g)) (n * unat (g_spm g)) (plan_hi is_gpt g) (p 1 # (if b then [p 2] else []))"
    by (intro laid_out_mibI [OF w _ _ f(3,4) order_refl mib_hi [OF w]]) auto
  with nb m64 show ?thesis
    unfolding plan by (intro laid_out_mibI [OF w _ _ f(1,2) order_refl mib_hi [OF w]]) auto
qed

lemma laid_out_endI:
  assumes w: "geom_wf g mib" and a: "0 < a" "(a + 1) * unat (g_spm g) \<le> unat (g_total g)"
    and p: "ps_first p = of_nat a * g_spm g" "ps_last p = capped_end is_gpt g (of_nat a * g_spm g)"
  shows "laid_out (unat (g_spm g)) (a * unat (g_spm g)) (plan_hi is_gpt g) [p]"
proof -
  let ?s = "unat (g_spm g)" and ?e = "unat (g_entries g)" and ?t = "unat (g_total g)"
  define f where "f = a * ?s"
  have g: "?s = 64 * ?e" "0 < ?e" "f + ?s \<le> ?t" "?t < 2 ^ 55" "unat (g_last g) = ?t - 1"
      "unat (g_last_usable g) = ?t - ?e - 2"
    using w a by (auto simp: geom_wf_def f_def algebra_simps)
  have "unat (of_nat f :: u64) = f" using g by (intro unat_of_nat_small) simp
  then have "unat (ps_first p) = f" using p by (simp add: f_def)
  moreover have "unat (ps_last p) = (if is_gpt then ?t - ?e - 2 else min (?t - 1) (f + 0xFFFFFFFE))"
    unfolding p capped_end_nat [OF w a(2)] using g by (simp add: f_def)
  ultimately show ?thesis using g by (auto simp: plan_hi_def f_def)
qed

lemma plan_single_laid_out:
  assumes w: "geom_wf g mib" and m: "b \<Longrightarrow> 64 \<le> mib"
  shows "laid_out (unat (g_spm g)) (1 * unat (g_spm g)) (plan_hi is_gpt g) (plan_single is_gpt b mt mib g)"
proof (cases b)
  case False
  have "(1 + 1) * unat (g_spm g) \<le> unat (g_total g)" using w by (auto simp: geom_wf_def)
  then show ?thesis
    using False unfolding plan_single_def Let_def
    by (simp only: not_False_eq_True if_True) (intro laid_out_endI [OF w], simp_all)
next
  case True
  with m have m64: "64 \<le> unat mib" by (simp add: word_le_nat_alt)
  define n where "n = unat mib - 2"
  have main: "mib - 3 = of_nat (n - 1)" using m64 by (simp add: n_def of_nat_diff)
  define p where "p i = plan_single is_gpt b mt mib g ! i" for i
  have plan: "plan_single is_gpt b mt mib g = [p 0, p 1]"
    using True by (simp add: p_def plan_single_def Let_def)
  have f: "ps_first (p 0) = of_nat 1 * g_spm g" "ps_last (p 0) = of_nat n * g_spm g - 1"
      "ps_first (p 1) = of_nat n * g_spm g" "ps_last (p 1) = of_nat (n + 1) * g_spm g - 1"
    using m64 True unfolding p_def plan_single_def Let_def main
    by (simp_all add: n_def of_nat_diff algebra_simps bios_boot_part_def)
  have n: "1 < n" "n + 1 < unat mib" using m64 by (auto simp: n_def)
  then have "laid_out (unat (g_spm g)) (n * unat (g_spm g)) (plan_hi is_gpt g) [p 1]"
    by (intro laid_out_mibI [OF w _ _ f(3,4) order_refl mib_hi [OF w]]) auto
  with n show ?thesis
    unfolding plan by (intro laid_out_mibI [OF w _ _ f(1,2) order_refl mib_hi [OF w]]) auto
qed

lemma plan_esp_laid_out:
  assumes w: "geom_wf g mib" and m: "esp_min_mib b \<le> mib"
  shows "laid_out (unat (g_spm g)) (1 * unat (g_spm g)) (plan_hi is_gpt g) (plan_esp_main is_gpt b mt mib g)"
proof -
  have m515: "515 \<le> unat mib" using m esp_min_nat [of b] by (auto simp: word_le_nat_alt split: if_splits)
  define p where "p i = plan_esp_main is_gpt b mt mib g ! i" for i
  have f0: "ps_first (p 0) = of_nat 1 * g_spm g" "ps_last (p 0) = of_nat 513 * g_spm g - 1"
    unfolding p_def plan_esp_main_def Let_def by (simp_all add: algebra_simps)
  show ?thesis
  proof (cases b)
    case False
    have plan: "plan_esp_main is_gpt b mt mib g = [p 0, p 1]"
      using False by (simp add: p_def plan_esp_main_def Let_def)
    have f: "ps_first (p 1) = of_nat 513 * g_spm g" "ps_last (p 1) = capped_end is_gpt g (of_nat 513 * g_spm g)"
      using False unfolding p_def plan_esp_main_def Let_def by (simp_all add: algebra_simps)
    have "(513 + 1) * unat (g_spm g) \<le> unat mib * unat (g_spm g)" using m515 by (intro mult_le_mono1) simp
    also have "\<dots> \<le> unat (g_total g)" using w by (auto simp: geom_wf_def algebra_simps)
    finally have "laid_out (unat (g_spm g)) (513 * unat (g_spm g)) (plan_hi is_gpt g) [p 1]"
      by (intro laid_out_endI [OF w _ _ f]) auto
    with m515 show ?thesis
      unfolding plan by (intro laid_out_mibI [OF w _ _ f0 order_refl mib_hi [OF w]]) auto
  next
    case True
    with m have m517: "517 \<le> unat mib" using esp_min_nat [of b] by (auto simp: word_le_nat_alt split: if_splits)
    define n where "n = unat mib - 2"
    have main: "mib - 515 = of_nat (n - 513)" using m517 by (simp add: n_def of_nat_diff)
    have plan: "plan_esp_main is_gpt b mt mib g = [p 0, p 1, p 2]"
      using True by (simp add: p_def plan_esp_main_def Let_def)
    have f: "ps_first (p 1) = of_nat 513 * g_spm g" "ps_last (p 1) = of_nat n * g_spm g - 1"
        "ps_first (p 2) = of_nat n * g_spm g" "ps_last (p 2) = of_nat (n + 1) * g_spm g - 1"
      using m517 True unfolding p_def plan_esp_main_def Let_def main
      by (simp_all add: n_def of_nat_diff algebra_simps bios_boot_part_def)
    have n: "513 < n" "n + 1 < unat mib" using m517 by (auto simp: n_def)
    then have "laid_out (unat (g_spm g)) (n * unat (g_spm g)) (plan_hi is_gpt g) [p 2]"
      by (intro laid_out_mibI [OF w _ _ f(3,4) order_refl mib_hi [OF w]]) auto
    with n have "laid_out (unat (g_spm g)) (513 * unat (g_spm g)) (plan_hi is_gpt g) [p 1, p 2]"
      by (intro laid_out_mibI [OF w _ _ f(1,2) order_refl mib_hi [OF w]]) auto
    with m515 show ?thesis
      unfolding plan by (intro laid_out_mibI [OF w _ _ f0 order_refl mib_hi [OF w]]) auto
  qed
qed


section \<open>Properties\<close>

lemma check_sizesD:
  "check_sizes lay b tb sec = None \<Longrightarrow>
   sector_size_ok sec \<and> (lay = MainUefintfs \<longrightarrow> 64 \<le> drop_bit 20 tb) \<and> (lay = Single \<and> b \<longrightarrow> 64 \<le> drop_bit 20 tb)"
  by (simp add: check_sizes_def Let_def not_less split: if_splits)

lemma check_roomD:
  "check_room lay b tb g = None \<Longrightarrow> lay = EspMain \<Longrightarrow> esp_min_mib b \<le> drop_bit 20 tb"
  by (simp add: check_room_def Let_def not_less split: if_splits)

lemma plan_parts_laid_out:
  assumes s: "check_sizes lay b tb sec = None" and r: "check_room lay b tb (geometry tb sec) = None"
  shows "laid_out (unat (g_spm (geometry tb sec))) (unat (g_spm (geometry tb sec))) (plan_hi is_gpt (geometry tb sec))
           (plan_parts lay is_gpt b mt (drop_bit 20 tb) (geometry tb sec))"
proof -
  have sec: "sector_size_ok sec" using check_sizesD [OF s] by blast
  note w = geometry_wf [OF sec r]
  show ?thesis
    using plan_main_laid_out [OF w, of is_gpt b mt] plan_single_laid_out [OF w, of b is_gpt mt]
      plan_esp_laid_out [OF w, of b is_gpt mt] check_sizesD [OF s] check_roomD [OF r]
    by (cases lay) (simp_all add: plan_parts_def)
qed

lemma plan_parts_length: "0 < length (plan_parts lay is_gpt b mt mib g) \<and> length (plan_parts lay is_gpt b mt mib g) \<le> 3"
  by (simp add: plan_parts_def plan_main_uefintfs_def plan_single_def plan_esp_main_def Let_def)

lemma check_ranges_gpt:
  "laid_out spm lo (unat (g_last_usable g)) ps \<Longrightarrow> unat (g_first_usable g) \<le> lo \<Longrightarrow>
   check_ranges True g i ps = None"
  by (induction ps arbitrary: lo i) (auto simp: word_less_nat_alt)

text \<open>
  C10: whenever the layout computation of \<open>rufux_partition\<close> accepts a disk, it
  plans one to three non-empty partitions that start on MiB boundaries, at 1 MiB or later, in disk
  order and without overlapping, and that end inside the disk: inside the usable area between the
  two partition tables on GPT, before the last sector on MBR. All arithmetic is that of the code's
  64-bit integers.
\<close>

theorem plan_layout_disjoint:
  assumes "check_sizes lay bios_part total_bytes sec_sz = None"
    and "plan_layout lay is_gpt bios_part mbr_type total_bytes sec_sz = Inr (g, ps)"
  shows "ps \<noteq> [] \<and> length ps \<le> 3 \<and>
    (\<forall>i < length ps. unat (g_spm g) \<le> unat (ps_first (ps ! i)) \<and> unat (ps_first (ps ! i)) mod unat (g_spm g) = 0 \<and>
       unat (ps_first (ps ! i)) \<le> unat (ps_last (ps ! i)) \<and>
       unat (ps_last (ps ! i)) \<le> (if is_gpt then unat (g_last_usable g) else unat (g_last g))) \<and>
    (\<forall>i j. i < j \<and> j < length ps \<longrightarrow> unat (ps_last (ps ! i)) < unat (ps_first (ps ! j)))"
proof -
  have g: "g = geometry total_bytes sec_sz" and r: "check_room lay bios_part total_bytes g = None"
    and ps: "ps = plan_parts lay is_gpt bios_part mbr_type (drop_bit 20 total_bytes) g"
    using assms(2) by (auto simp: plan_layout_def Let_def split: option.splits)
  have l: "laid_out (unat (g_spm g)) (unat (g_spm g)) (plan_hi is_gpt g) ps"
    using plan_parts_laid_out [OF assms(1) r [unfolded g]] unfolding ps g .
  show ?thesis
    using plan_parts_length [of lay is_gpt bios_part mbr_type "drop_bit 20 total_bytes" g]
      laid_out_nth [OF l] laid_out_disjoint [OF l]
    unfolding ps [symmetric] plan_hi_def by (auto split: if_splits)
qed

theorem plan_layout_disjoint_witness:
  "\<exists>g ps. plan_layout MainUefintfs True True 7 0x10000000 512 = Inr (g, ps) \<and> ps \<noteq> [] \<and> length ps \<le> 3 \<and>
    (\<forall>i j. i < j \<and> j < length ps \<longrightarrow> unat (ps_last (ps ! i)) < unat (ps_first (ps ! j)))"
proof -
  have s: "check_sizes MainUefintfs True 0x10000000 512 = None" by code_simp
  have r: "check_room MainUefintfs True 0x10000000 (geometry 0x10000000 512) = None" by code_simp
  have u: "unat (g_first_usable (geometry 0x10000000 512)) \<le> unat (g_spm (geometry 0x10000000 512))" by code_simp
  obtain g ps where p: "plan_layout MainUefintfs True True 7 0x10000000 512 = Inr (g, ps)"
    using check_ranges_gpt [OF plan_parts_laid_out [OF s r, of True 7, unfolded plan_hi_def, simplified] u] r
    by (simp add: plan_layout_def Let_def)
  from plan_layout_disjoint [OF s p] p show ?thesis by blast
qed

text \<open>
  On GPT the size checks are the only thing that can refuse a disk: once
  they pass, the later checks for an invalid range or for a partition outside the usable area never
  fire and a plan is returned.
\<close>

theorem plan_layout_gpt_total:
  assumes "check_sizes lay bios_part total_bytes sec_sz = None"
    and "check_room lay bios_part total_bytes (geometry total_bytes sec_sz) = None"
  shows "plan_layout lay True bios_part mbr_type total_bytes sec_sz =
    Inr (geometry total_bytes sec_sz,
         plan_parts lay True bios_part mbr_type (drop_bit 20 total_bytes) (geometry total_bytes sec_sz))"
proof -
  have sec: "sector_size_ok sec_sz" using check_sizesD [OF assms(1)] by blast
  have "unat (g_first_usable (geometry total_bytes sec_sz)) \<le> unat (g_spm (geometry total_bytes sec_sz))"
    using geometry_wf [OF sec assms(2)] by (auto simp: geom_wf_def)
  from check_ranges_gpt [OF plan_parts_laid_out [OF assms(1,2), of True, unfolded plan_hi_def, simplified] this] assms(2)
  show ?thesis by (simp add: plan_layout_def Let_def)
qed

end
