(* ===== verification/MacGptWrite.thy ===== *)
theory MacGptWrite
  imports MacGptPlan MacIo
begin

text \<open>
  The writing half of \<open>rufux_partition\<close> in \<open>macos/src/partition.c\<close>: CRC-32, GUIDs, names, CHS
  addresses, sector 0, the GPT header and entry array in both copies, the wipes before them, and the
  whole function with its guards in the order of the code.

  The kernel and the devices around the function are the record \<open>part_env\<close>: what \<open>stat\<close>, \<open>open\<close>,
  the size ioctls, \<open>fsync\<close>, \<open>close\<close> and \<open>arc4random\<close> return, the target check (IOKit) and
  \<open>diskutil\<close>. Memory allocation does not fail in the model, and \<open>settle_macos_slices\<close>, which only
  waits, is left out.
\<close>

section \<open>CRC-32, GUIDs, names, CHS\<close>

definition crc32_bit :: "u32 \<Rightarrow> u32" where
  "crc32_bit crc = drop_bit 1 crc XOR (if crc AND 1 \<noteq> 0 then 0xEDB88320 else 0)"

definition crc32_byte :: "u32 \<Rightarrow> byte \<Rightarrow> u32" where
  "crc32_byte crc b = (crc32_bit ^^ 8) (crc XOR ucast b)"

definition crc32_ieee :: "bytes \<Rightarrow> u32" where
  "crc32_ieee data = foldl crc32_byte 0xFFFFFFFF data XOR 0xFFFFFFFF"

text \<open>\<open>rnd\<close> gives the 16 bytes that \<open>arc4random_buf\<close> stores.\<close>

definition gen_random_guid_v4 :: "(nat \<Rightarrow> byte) \<Rightarrow> bytes" where
  "gen_random_guid_v4 rnd =
     (let g = map rnd [0..<16]
      in g[7 := (g ! 7 AND 0x0F) OR 0x40, 8 := (g ! 8 AND 0x3F) OR 0x80])"

definition encode_utf16le_name :: "string \<Rightarrow> bytes" where
  "encode_utf16le_name ascii =
     (let s = take 35 ascii
      in concat (map (\<lambda>c. [of_char c, 0]) s) @ replicate (72 - 2 * length s) 0)"

definition max_chs_lba :: u64 where
  "max_chs_lba = 1024 * 255 * 63 - 1"

definition encode_chs :: "u64 \<Rightarrow> bytes" where
  "encode_chs lba =
     (if max_chs_lba < lba then [0xFE, 0xFF, 0xFF]
      else let sec = (ucast (lba mod 63) :: u32) + 1;
               tmp = lba div 63;
               head = (ucast (tmp mod 255) :: u32);
               cyl = (ucast (tmp div 255) :: u32)
        in [ucast head, ucast ((sec AND 0x3F) OR (drop_bit 2 cyl AND 0xC0)), ucast (cyl AND 0xFF)])"

lemma length_gen_random_guid_v4 [simp]: "length (gen_random_guid_v4 rnd) = 16"
  by (simp add: gen_random_guid_v4_def Let_def)

lemma length_concat_pairs: "length (concat (map (\<lambda>c. [f c, g c]) s)) = 2 * length s"
  by (induction s) simp_all

lemma length_encode_utf16le_name [simp]: "length (encode_utf16le_name s) = 72"
  by (simp add: encode_utf16le_name_def Let_def length_concat_pairs)

lemma length_encode_chs [simp]: "length (encode_chs lba) = 3"
  by (simp add: encode_chs_def Let_def)

section \<open>Sector 0\<close>

definition mbr_entry :: "byte \<Rightarrow> bytes \<Rightarrow> byte \<Rightarrow> bytes \<Rightarrow> u32 \<Rightarrow> u32 \<Rightarrow> bytes" where
  "mbr_entry status chs1 ty chs2 start cnt =
     [status] @ chs1 @ [ty] @ chs2 @ le32_bytes start @ le32_bytes cnt"

definition protective_entry :: "u64 \<Rightarrow> bytes" where
  "protective_entry total_lbas =
     (let prot_cnt = (if 0xFFFFFFFF < total_lbas - 1 then 0xFFFFFFFF else total_lbas - 1)
      in mbr_entry 0 (encode_chs 1) 0xEE (encode_chs prot_cnt) 1 (ucast prot_cnt))"

definition dos_entry :: "part_spec \<Rightarrow> bytes" where
  "dos_entry p =
     (let cnt = ps_last p - ps_first p + 1
      in mbr_entry (ps_status p) (encode_chs (ps_first p)) (ps_mbr_type p) (encode_chs (ps_last p))
           (ucast (ps_first p)) (ucast cnt))"

text \<open>The loop over the partitions; \<open>i\<close> is the loop index.\<close>

fun put_dos_entries :: "nat \<Rightarrow> part_spec list \<Rightarrow> bytes \<Rightarrow> bytes" where
  "put_dos_entries i [] sec0 = sec0"
| "put_dos_entries i (p # ps) sec0 = put_dos_entries (Suc i) ps (bput (446 + i * 16) (dos_entry p) sec0)"

definition build_sec0 :: "bool \<Rightarrow> (nat \<Rightarrow> byte) \<Rightarrow> u32 \<Rightarrow> u64 \<Rightarrow> part_spec list \<Rightarrow> bytes" where
  "build_sec0 is_gpt boot440 rnd_sig total_lbas ps =
     (let s0 = replicate 4096 0;
          s1 = bput 0 (map boot440 [0..<440]) s0;
          disk_sig = (if rnd_sig = 0 then 0x52554658 else rnd_sig);
          s2 = put_le32 440 disk_sig s1;
          s3 = (if is_gpt then bput 446 (protective_entry total_lbas) s2 else put_dos_entries 0 ps s2)
      in bput 511 [0xAA] (bput 510 [0x55] s3))"

section \<open>GPT entries and headers\<close>

definition gpt_entry :: "part_spec \<Rightarrow> bytes \<Rightarrow> bytes" where
  "gpt_entry p guid = ps_gpt_type p @ guid @ le64_bytes (ps_first p) @ le64_bytes (ps_last p)
     @ le64_bytes (ps_attrs p) @ encode_utf16le_name (ps_name p)"

text \<open>\<open>rnd i\<close> is the \<open>i\<close>-th call to \<open>arc4random_buf\<close>: one per partition, then one for the disk GUID.\<close>

fun put_gpt_entries :: "nat \<Rightarrow> (nat \<Rightarrow> nat \<Rightarrow> byte) \<Rightarrow> part_spec list \<Rightarrow> bytes \<Rightarrow> bytes" where
  "put_gpt_entries i rnd [] ents = ents"
| "put_gpt_entries i rnd (p # ps) ents =
     put_gpt_entries (Suc i) rnd ps (bput (i * 128) (gpt_entry p (gen_random_guid_v4 (rnd i))) ents)"

definition build_entries :: "(nat \<Rightarrow> nat \<Rightarrow> byte) \<Rightarrow> part_spec list \<Rightarrow> bytes" where
  "build_entries rnd ps = put_gpt_entries 0 rnd ps (replicate (128 * 128) 0)"

definition efi_part :: bytes where
  "efi_part = map of_char ''EFI PART''"

definition phdr_writes :: "geom \<Rightarrow> bytes \<Rightarrow> u32 \<Rightarrow> (nat \<times> bytes) list" where
  "phdr_writes g disk_guid entries_crc =
     [(0, efi_part), (8, le32_bytes 0x00010000), (12, le32_bytes 92), (16, le32_bytes 0), (20, le32_bytes 0),
      (24, le64_bytes 1), (32, le64_bytes (g_last g)), (40, le64_bytes (g_first_usable g)),
      (48, le64_bytes (g_last_usable g)), (56, disk_guid), (72, le64_bytes 2), (80, le32_bytes 128),
      (84, le32_bytes 128), (88, le32_bytes entries_crc)]"

definition build_phdr :: "geom \<Rightarrow> bytes \<Rightarrow> u32 \<Rightarrow> bytes" where
  "build_phdr g disk_guid entries_crc =
     (let h = patch (phdr_writes g disk_guid entries_crc) (replicate 4096 0)
      in put_le32 16 (crc32_ieee (take 92 h)) h)"

definition build_bhdr :: "geom \<Rightarrow> bytes \<Rightarrow> bytes" where
  "build_bhdr g phdr =
     (let h = put_le64 72 (g_last g - g_entries g) (put_le64 32 1 (put_le64 24 (g_last g)
               (put_le32 16 0 (bput 0 (take 92 phdr) (replicate 4096 0)))))
      in put_le32 16 (crc32_ieee (take 92 h)) h)"

section \<open>The writes\<close>

text \<open>Wiping the old tables at both ends of the disk, then the edges of every partition.\<close>

definition wipe_tables :: "geom \<Rightarrow> dev \<Rightarrow> bool \<times> dev" where
  "wipe_tables g d =
     (let wipe_lbas = (if g_total g < 34 then g_total g else 34);
          (ok, d1) = zero_range 0 (wipe_lbas * g_sec g) d
      in if \<not> ok then (False, d1)
         else if 34 < g_total g then zero_range ((g_last g - 33) * g_sec g) (34 * g_sec g) d1
         else (True, d1))"

fun wipe_edges :: "geom \<Rightarrow> part_spec list \<Rightarrow> dev \<Rightarrow> bool \<times> dev" where
  "wipe_edges g [] d = (True, d)"
| "wipe_edges g (p # ps) d =
     (let poff = ps_first p * g_sec g;
          plen = (ps_last p - ps_first p + 1) * g_sec g;
          cap = of_nat zcap;
          (ok, d') = (if plen \<le> 2 * cap then zero_range poff plen d
                      else let (ok1, d1) = zero_range poff cap d
                        in if \<not> ok1 then (False, d1) else zero_range (poff + plen - cap) cap d1)
      in if \<not> ok then (False, d') else wipe_edges g ps d')"

text \<open>A list of writes, stopping at the first that fails (the \<open>||\<close> chain of the code).\<close>

fun write_seq :: "(bytes \<times> u64) list \<Rightarrow> dev \<Rightarrow> bool \<times> dev" where
  "write_seq [] d = (True, d)"
| "write_seq ((bs, off) # ws) d =
     (let (ok, d') = pwrite_all bs (sint off) d in if ok then write_seq ws d' else (False, d'))"

definition gpt_writes :: "geom \<Rightarrow> bytes \<Rightarrow> bytes \<Rightarrow> bytes \<Rightarrow> (bytes \<times> u64) list" where
  "gpt_writes g phdr ents bhdr =
     (let n = unat (g_sec g)
      in [(take n phdr, 1 * g_sec g), (ents, 2 * g_sec g),
          (ents, (g_last g - g_entries g) * g_sec g), (take n bhdr, g_last g * g_sec g)])"

definition write_gpt :: "geom \<Rightarrow> (nat \<Rightarrow> nat \<Rightarrow> byte) \<Rightarrow> part_spec list \<Rightarrow> dev \<Rightarrow> bool \<times> dev" where
  "write_gpt g rnd ps d =
     (let ents = build_entries rnd ps;
          disk_guid = gen_random_guid_v4 (rnd (length ps));
          phdr = build_phdr g disk_guid (crc32_ieee ents);
          bhdr = build_bhdr g phdr
      in write_seq (gpt_writes g phdr ents bhdr) d)"

text \<open>From the first wipe to the last table write: the error, if any, and the disk afterwards.\<close>

definition write_layout ::
    "bool \<Rightarrow> geom \<Rightarrow> part_spec list \<Rightarrow> (nat \<Rightarrow> byte) \<Rightarrow> u32 \<Rightarrow> (nat \<Rightarrow> nat \<Rightarrow> byte) \<Rightarrow> dev \<Rightarrow> part_error option \<times> dev" where
  "write_layout is_gpt g ps boot440 rnd_sig rnd d =
     (let (ok, d1) = wipe_tables g d in
      if \<not> ok then (Some WipeFailed, d1) else
      let (ok, d2) = wipe_edges g ps d1 in
      if \<not> ok then (Some WipeFailed, d2) else
      let (ok, d3) = pwrite_all (take (unat (g_sec g)) (build_sec0 is_gpt boot440 rnd_sig (g_total g) ps)) 0 d2 in
      if \<not> ok then (Some MbrWriteFailed, d3) else
      if is_gpt then (let (ok, d4) = write_gpt g rnd ps d3 in (if ok then None else Some GptWriteFailed, d4))
      else (None, d3))"

section \<open>The whole function\<close>

datatype file_kind = RegularFile | BlockDev | CharDev | OtherFile

record part_env =
  pe_check_target :: "string \<Rightarrow> bool \<Rightarrow> bool \<Rightarrow> bool"
  pe_dev_bytes :: "string \<Rightarrow> u64"
  pe_sector_size :: "string \<Rightarrow> u32"
  pe_stat :: "string \<Rightarrow> file_kind option"
  pe_unmount :: "string \<Rightarrow> bool"
  pe_open :: "string \<Rightarrow> dev option"
  pe_boot440 :: "bool \<Rightarrow> nat \<Rightarrow> byte"
  pe_rnd_sig :: u32
  pe_rnd :: "nat \<Rightarrow> nat \<Rightarrow> byte"
  pe_fsync_ok :: bool
  pe_close_ok :: bool

text \<open>\<open>rufux_macos_block_node\<close>: the buffered node of a raw disk node.\<close>

definition block_node :: "string \<Rightarrow> string" where
  "block_node dev =
     (if take 10 dev = ''/dev/rdisk'' \<and> 10 < length dev \<and> is_digit (dev ! 10)
      then ''/dev/disk'' @ drop 10 dev else dev)"

text \<open>The part after the layout is known: open, write, flush, close.\<close>

definition partition_disk :: "part_env \<Rightarrow> string \<Rightarrow> bool \<Rightarrow> geom \<Rightarrow> part_spec list \<Rightarrow> part_error option \<times> dev option" where
  "partition_disk E dst is_gpt g ps =
     (case pe_stat E dst of
        None \<Rightarrow> (Some CannotStat, None)
      | Some k \<Rightarrow>
          if (k = BlockDev \<or> k = CharDev) \<and> \<not> pe_unmount E dst then (Some CannotUnmount, None)
          else case pe_open E (block_node dst) of
            None \<Rightarrow> (Some CannotOpen, None)
          | Some d \<Rightarrow>
              (let (err, d') = write_layout is_gpt g ps (pe_boot440 E is_gpt) (pe_rnd_sig E) (pe_rnd E) d
               in case err of
                    Some e \<Rightarrow> (Some e, Some d')
                  | None \<Rightarrow>
                      if \<not> pe_fsync_ok E then (Some FsyncFailed, Some d')
                      else if \<not> pe_close_ok E then (Some CloseFailed, Some d')
                      else (None, Some d')))"

text \<open>
  \<open>rufux_partition\<close>. \<open>None\<close> as the error is the return value 0; the second component is the disk
  as the function left it, if it opened one.
\<close>

definition rufux_partition :: "part_env \<Rightarrow> string \<Rightarrow> part_opts \<Rightarrow> part_error option \<times> dev option" where
  "rufux_partition E dst opts =
     (case check_scheme_layout dst opts of
        Inl e \<Rightarrow> (Some e, None)
      | Inr (is_gpt, lay) \<Rightarrow>
          (let bios_part = (po_bios_boot opts \<and> is_gpt) in
           if \<not> po_dry_run opts \<and> \<not> po_yes opts then (Some RefusedWithoutYes, None)
           else if \<not> pe_check_target E dst (po_allow_fixed opts) (po_allow_file opts) then (Some TargetRefused, None)
           else let mbr_type = mbr_type_for (po_fs_main opts);
                    total_bytes = pe_dev_bytes E dst;
                    sec_sz = pe_sector_size E dst
             in case check_sizes lay bios_part total_bytes sec_sz of
                  Some e \<Rightarrow> (Some e, None)
                | None \<Rightarrow>
                    if po_dry_run opts then (None, None)
                    else case plan_layout lay is_gpt bios_part mbr_type total_bytes sec_sz of
                      Inl e \<Rightarrow> (Some e, None)
                    | Inr (g, ps) \<Rightarrow> partition_disk E dst is_gpt g ps))"

end
