(* ===== verification/MacGptRead.thy ===== *)
theory MacGptRead
  imports MacGptWrite
begin

text \<open>
  The reader of partition tables in \<open>macos/src/partition.c\<close>: \<open>parse_gpt_slice_at_hdr\<close> and
  \<open>rufux_part_offset_sectors\<close>, which finds where a slice starts and how long it is, from the primary
  GPT header, from the backup when the primary one is damaged, or from the MBR.
\<close>

section \<open>The reader\<close>

text \<open>The checks on a header that has been read; the result is \<open>ent_lba\<close>, \<open>num_ents\<close>, \<open>ent_sz\<close>, the CRC.\<close>

definition parse_gpt_hdr :: "u32 \<Rightarrow> nat \<Rightarrow> bytes \<Rightarrow> (u64 \<times> u32 \<times> u32 \<times> u32) option" where
  "parse_gpt_hdr sec_sz sl hdr =
     (if take 8 hdr \<noteq> efi_part then None else
      let hdr_sz = get_le32 hdr 12 in
      if hdr_sz < 92 \<or> sec_sz < hdr_sz then None else
      let stored_hcrc = get_le32 hdr 16;
          hcopy = bput 16 [0, 0, 0, 0] (take (unat hdr_sz) hdr) in
      if crc32_ieee hcopy \<noteq> stored_hcrc then None else
      let ent_lba = get_le64 hdr 72; num_ents = get_le32 hdr 80; ent_sz = get_le32 hdr 84;
          stored_ecrc = get_le32 hdr 88 in
      if ent_lba < 2 \<or> num_ents = 0 \<or> 4096 < num_ents \<or> ent_sz < 128 \<or> 4096 < ent_sz \<or> unat num_ents < sl
      then None else Some (ent_lba, num_ents, ent_sz, stored_ecrc))"

text \<open>The entry of the slice: a used type, a start and an end that make sense.\<close>

definition parse_gpt_entry :: "bytes \<Rightarrow> nat \<Rightarrow> (u64 \<times> u64) option" where
  "parse_gpt_entry ents off =
     (let type_nonzero = (\<exists>b \<in> set (bslice off 16 ents). b \<noteq> 0);
          first = get_le64 ents (off + 32);
          last = get_le64 ents (off + 40)
      in if \<not> type_nonzero \<or> first = 0 \<or> last < first then None else Some (first, last - first + 1))"

definition parse_gpt_slice_at_hdr :: "dev \<Rightarrow> u32 \<Rightarrow> u64 \<Rightarrow> nat \<Rightarrow> (u64 \<times> u64) option \<times> dev" where
  "parse_gpt_slice_at_hdr d sec_sz hdr_lba sl =
     (case pread_all (unat sec_sz) (hdr_lba * ucast sec_sz) [] d of
        (None, d1) \<Rightarrow> (None, d1)
      | (Some hdr, d1) \<Rightarrow>
          (case parse_gpt_hdr sec_sz sl hdr of
             None \<Rightarrow> (None, d1)
           | Some (ent_lba, num_ents, ent_sz, stored_ecrc) \<Rightarrow>
               (let raw_bytes = unat num_ents * unat ent_sz in
                if 2 ^ 20 < raw_bytes then (None, d1) else
                let aligned_bytes = ((raw_bytes + unat sec_sz - 1) div unat sec_sz) * unat sec_sz in
                case pread_all aligned_bytes (ent_lba * ucast sec_sz) [] d1 of
                  (None, d2) \<Rightarrow> (None, d2)
                | (Some ents, d2) \<Rightarrow>
                    if crc32_ieee (take raw_bytes ents) \<noteq> stored_ecrc then (None, d2)
                    else (parse_gpt_entry ents ((sl - 1) * unat ent_sz), d2))))"

definition mbr_slice :: "bytes \<Rightarrow> nat \<Rightarrow> (u64 \<times> u64) option" where
  "mbr_slice mbr sl =
     (if sl \<le> 4 then
        let pe = 446 + (sl - 1) * 16; ptype = mbr ! (pe + 4);
            st = get_le32 mbr (pe + 8); cnt = get_le32 mbr (pe + 12)
        in if ptype \<noteq> 0 \<and> 0 < st \<and> 0 < cnt then Some (ucast st, ucast cnt) else None
      else None)"

definition has_protective :: "bytes \<Rightarrow> bool" where
  "has_protective mbr \<longleftrightarrow> (\<exists>i \<in> set [0..<4]. mbr ! (446 + i * 16 + 4) = 0xEE)"

text \<open>
  \<open>rufux_part_offset_sectors\<close> on an opened disk: \<open>sec_sz\<close> and \<open>total_bytes\<close> are what
  \<open>rufux_macos_sector_size\<close> and \<open>rufux_macos_dev_bytes\<close> return for it. \<open>Some (start, count)\<close> is the
  return value 0 with both outputs set.
\<close>

definition part_offset_sectors :: "dev \<Rightarrow> u32 \<Rightarrow> u64 \<Rightarrow> int \<Rightarrow> (u64 \<times> u64) option" where
  "part_offset_sectors d sec_sz total_bytes sl =
     (if sl < 1 \<or> sec_sz < 512 \<or> 4096 < sec_sz then None
      else case pread_all (unat sec_sz) 0 [] d of
        (None, d1) \<Rightarrow> None
      | (Some mbr, d1) \<Rightarrow>
          if mbr ! 510 \<noteq> 0x55 \<or> mbr ! 511 \<noteq> 0xAA then None
          else if has_protective mbr then
            (case parse_gpt_slice_at_hdr d1 sec_sz 1 (nat sl) of
               (Some r, d2) \<Rightarrow> Some r
             | (None, d2) \<Rightarrow>
                 (let total_lbas = total_bytes div ucast sec_sz
                  in if 4 < total_lbas then fst (parse_gpt_slice_at_hdr d2 sec_sz (total_lbas - 1) (nat sl)) else None))
          else mbr_slice mbr (nat sl))"

end
