(* ===== verification/MacGptProps.thy ===== *)
theory MacGptProps
  imports MacGptRead
begin

text \<open>
  What \<open>rufux_partition\<close> leaves on the disk and what the reader makes of it: the headers and the entry
  array the writer builds pass every check of the reader, the wipes and writes stay inside the disk,
  sector 0 is well formed. On top of these, the round trips through the primary header, through the
  backup header and through the MBR.
\<close>

section \<open>Headers\<close>

text \<open>What the reader needs of a header, whatever else it holds.\<close>

definition hdr_ok :: "bytes \<Rightarrow> u64 \<Rightarrow> u32 \<Rightarrow> bool" where
  "hdr_ok h ent_lba ecrc \<longleftrightarrow> length h = 4096 \<and> take 8 h = efi_part \<and> get_le32 h 12 = 92 \<and>
     get_le32 h 16 = crc32_ieee (bput 16 [0, 0, 0, 0] (take 92 h)) \<and>
     get_le64 h 72 = ent_lba \<and> get_le32 h 80 = 128 \<and> get_le32 h 84 = 128 \<and> get_le32 h 88 = ecrc"

lemma length_efi_part [simp]: "length efi_part = 8"
  by (simp add: efi_part_def)

lemma le32_bytes_0: "le32_bytes 0 = [0, 0, 0, 0]"
  by (simp add: le32_bytes_def)

lemmas hdr_unfold = put_le32_def put_le64_def take_eq_bslice le32.get_bput_other le64.get_bput_other

text \<open>
  The CRC field: a header whose CRC field is zero, completed with the CRC of its first 92 bytes,
  passes the reader's test, and nothing else of it changes.
\<close>

lemma crc_field:
  assumes "length h = 4096" and "bslice 16 4 h = [0, 0, 0, 0]"
  defines "h' \<equiv> put_le32 16 (crc32_ieee (take 92 h)) h"
  shows "get_le32 h' 16 = crc32_ieee (bput 16 [0, 0, 0, 0] (take 92 h'))"
    and "length h' = 4096"
    and "i + 4 \<le> 16 \<or> 20 \<le> i \<and> i + 4 \<le> 4096 \<Longrightarrow> get_le32 h' i = get_le32 h i"
    and "20 \<le> i \<and> i + 8 \<le> 4096 \<Longrightarrow> get_le64 h' i = get_le64 h i"
    and "take 8 h' = take 8 h"
proof -
  have z: "bput 16 [0, 0, 0, 0] h = h"
    using bput_id [of 16 "le32_bytes 0" h] assms by (simp add: le32_bytes_0 [symmetric])
  have "bput 16 [0, 0, 0, 0] (take 92 h') = take 92 (bput 16 [0, 0, 0, 0] h')"
    by (simp add: take_bput)
  also have "bput 16 [0, 0, 0, 0] h' = h"
    unfolding h'_def put_le32_def using z assms(1) by (simp add: bput_overwrite)
  finally show "get_le32 h' 16 = crc32_ieee (bput 16 [0, 0, 0, 0] (take 92 h'))"
    using assms(1) by (simp add: h'_def le32.get_put_same)
  show "length h' = 4096" using assms(1) by (simp add: h'_def le32.length_put)
  show "i + 4 \<le> 16 \<or> 20 \<le> i \<and> i + 4 \<le> 4096 \<Longrightarrow> get_le32 h' i = get_le32 h i"
    using assms(1) by (auto simp: h'_def le32.get_put_other)
  show "20 \<le> i \<and> i + 8 \<le> 4096 \<Longrightarrow> get_le64 h' i = get_le64 h i"
    using assms(1) by (auto simp: h'_def put_le32_def le64.get_bput_other)
  show "take 8 h' = take 8 h"
    using assms(1) by (simp add: h'_def put_le32_def take_eq_bslice bslice_bput_before)
qed

lemma phdr_ok: "length guid = 16 \<Longrightarrow> hdr_ok (build_phdr g guid ecrc) 2 ecrc"
proof -
  assume guid: "length guid = 16"
  define h where "h = patch (phdr_writes g guid ecrc) (replicate 4096 0)"
  have fit: "writes_fit 4096 (phdr_writes g guid ecrc)"
    using guid by (simp add: phdr_writes_def writes_fit_def)
  then have len: "length h = 4096" by (simp add: h_def length_patch)
  have rd: "bslice i n h = (case last_write i n (phdr_writes g guid ecrc) of Some r \<Rightarrow> r | None \<Rightarrow> bslice i n (replicate 4096 0))"
    if "writes_apart i n (phdr_writes g guid ecrc)" for i n
    using that fit by (simp add: h_def bslice_patch)
  have z: "bslice 16 4 h = [0, 0, 0, 0]" and p: "take 8 h = efi_part"
    and f: "bslice 12 4 h = le32_bytes 92" "bslice 72 8 h = le64_bytes 2" "bslice 80 4 h = le32_bytes 128"
      "bslice 84 4 h = le32_bytes 128" "bslice 88 4 h = le32_bytes ecrc"
    using guid unfolding take_eq_bslice le32_bytes_0 [symmetric]
    by (simp_all add: rd phdr_writes_def writes_apart_def)
  then have f: "get_le32 h 12 = 92" "get_le64 h 72 = 2" "get_le32 h 80 = 128" "get_le32 h 84 = 128"
      "get_le32 h 88 = ecrc"
    using len by (simp_all add: le32.get_slice [of _ h] le64.get_slice [of _ h] le32.get_enc le64.get_enc)
  have "build_phdr g guid ecrc = put_le32 16 (crc32_ieee (take 92 h)) h"
    by (simp only: build_phdr_def Let_def h_def)
  with crc_field [OF len z] f p show ?thesis by (simp add: hdr_ok_def)
qed

lemma bhdr_ok:
  assumes "hdr_ok p ent ecrc"
  shows "hdr_ok (build_bhdr g p) (g_last g - g_entries g) ecrc"
proof -
  define h where "h = put_le64 72 (g_last g - g_entries g) (put_le64 32 1 (put_le64 24 (g_last g)
               (put_le32 16 0 (bput 0 (take 92 p) (replicate 4096 0)))))"
  have p: "length p = 4096" using assms by (simp add: hdr_ok_def)
  then have len: "length h = 4096" by (simp add: h_def len_simps)
  have z: "bslice 16 4 h = [0, 0, 0, 0]"
    using p by (simp add: h_def put_le32_def put_le64_def bslice_bput_disjoint bslice_bput_eq len_simps le32_bytes_0)
  have inside: "get_le32 (bput 0 (take 92 p) (replicate 4096 0)) i = get_le32 p i" if "i + 4 \<le> 92" for i
    using that p by (subst (1 2) le32.get_slice) (simp_all add: len_simps bslice_bput_inside bslice_take)
  have f: "take 8 h = take 8 p" "get_le32 h 12 = get_le32 p 12" "get_le64 h 72 = g_last g - g_entries g"
      "get_le32 h 80 = get_le32 p 80" "get_le32 h 84 = get_le32 p 84" "get_le32 h 88 = get_le32 p 88"
    using p
    by (simp_all add: h_def put_le32_def put_le64_def take_eq_bslice bslice_bput_disjoint bslice_bput_eq
        bslice_bput_inside bslice_bslice len_simps le32.get_bput_other le64.get_bput_other inside [unfolded take_eq_bslice]
        le64.get_put_same [unfolded put_le64_def])
  have "build_bhdr g p = put_le32 16 (crc32_ieee (take 92 h)) h"
    by (simp only: build_bhdr_def Let_def h_def)
  with crc_field [OF len z] f assms show ?thesis by (simp add: hdr_ok_def)
qed

lemma parse_hdr_ok:
  assumes "hdr_ok h ent ecrc" "unat sec \<in> {512, 1024, 2048, 4096}" "sl \<le> 128" "2 \<le> ent"
  shows "parse_gpt_hdr sec sl (take (unat sec) h) = Some (ent, 128, 128, ecrc)"
proof -
  let ?s = "unat sec"
  have l: "length h = 4096" using assms(1) by (simp add: hdr_ok_def)
  have s: "512 \<le> ?s" "?s \<le> 4096" using assms(2) by auto
  have g32: "get_le32 (take ?s h) i = get_le32 h i" if "i + 4 \<le> 512" for i
    using that l s by (subst (1 2) le32.get_slice) (simp_all add: bslice_take)
  have g64: "get_le64 (take ?s h) i = get_le64 h i" if "i + 8 \<le> 512" for i
    using that l s by (subst (1 2) le64.get_slice) (simp_all add: bslice_take)
  have "\<not> sec < 92" using s by (simp add: word_less_nat_alt)
  then show ?thesis
    using assms(1,3,4) s l g32 g64
    by (simp add: parse_gpt_hdr_def hdr_ok_def Let_def min_def)
qed

section \<open>The entry array\<close>

definition parts_wf :: "part_spec list \<Rightarrow> bool" where
  "parts_wf ps \<longleftrightarrow> list_all (\<lambda>p. length (ps_gpt_type p) = 16 \<and> (\<exists>b \<in> set (ps_gpt_type p). b \<noteq> 0)) ps"

lemma length_gpt_entry: "length (ps_gpt_type p) = 16 \<Longrightarrow> length guid = 16 \<Longrightarrow> length (gpt_entry p guid) = 128"
  by (simp add: gpt_entry_def)

lemma length_put_gpt_entries:
  "parts_wf ps \<Longrightarrow> (i + length ps) * 128 \<le> length ents \<Longrightarrow> length (put_gpt_entries i rnd ps ents) = length ents"
proof (induction ps arbitrary: i ents)
  case Nil
  then show ?case by simp
next
  case (Cons p ps)
  then show ?case by (simp add: parts_wf_def length_bput length_gpt_entry)
qed

lemma put_gpt_entries_before:
  "parts_wf ps \<Longrightarrow> (i + length ps) * 128 \<le> length ents \<Longrightarrow> j < i \<Longrightarrow>
   bslice (j * 128) 128 (put_gpt_entries i rnd ps ents) = bslice (j * 128) 128 ents"
proof (induction ps arbitrary: i ents)
  case Nil
  then show ?case by simp
next
  case (Cons p ps)
  then show ?case by (simp add: parts_wf_def length_bput length_gpt_entry bslice_bput_before)
qed

lemma put_gpt_entries_nth:
  "parts_wf ps \<Longrightarrow> (i + length ps) * 128 \<le> length ents \<Longrightarrow> k < length ps \<Longrightarrow>
   bslice ((i + k) * 128) 128 (put_gpt_entries i rnd ps ents) =
     gpt_entry (ps ! k) (gen_random_guid_v4 (rnd (i + k)))"
proof (induction ps arbitrary: i k ents)
  case Nil
  then show ?case by simp
next
  case (Cons p ps)
  let ?e = "bput (i * 128) (gpt_entry p (gen_random_guid_v4 (rnd i))) ents"
  have wf: "parts_wf ps" and l: "length (gpt_entry p (gen_random_guid_v4 (rnd i))) = 128"
    using Cons.prems(1) by (simp_all add: parts_wf_def length_gpt_entry)
  then have len: "length ?e = length ents" using Cons.prems(2) by (simp add: length_bput)
  show ?case
  proof (cases k)
    case 0
    with put_gpt_entries_before [OF wf, of "Suc i" ?e i rnd] Cons.prems l len show ?thesis
      by (simp add: bslice_bput_eq)
  next
    case (Suc k')
    with Cons.IH [OF wf, of "Suc i" ?e k'] Cons.prems len show ?thesis by simp
  qed
qed

lemma parse_gpt_entry_ok:
  assumes e: "bslice off 128 ents = gpt_entry p guid" and t: "length (ps_gpt_type p) = 16"
      "\<exists>b \<in> set (ps_gpt_type p). b \<noteq> 0" and g: "length guid = 16" and off: "off + 128 \<le> length ents"
    and p: "ps_first p \<noteq> 0" "ps_first p \<le> ps_last p"
  shows "parse_gpt_entry ents off = Some (ps_first p, ps_last p - ps_first p + 1)"
proof -
  have "bslice off 16 ents = bslice 0 16 (bslice off 128 ents)" by (simp add: bslice_bslice)
  then have ty: "bslice off 16 ents = ps_gpt_type p"
    unfolding e using t g by (simp add: gpt_entry_def bslice_def)
  have first: "get_le64 ents (off + 32) = ps_first p"
    using le64.get_of_bslice [of 32 128 off ents, symmetric] off t g e
    by (simp add: le64.get_slice [of 32 "gpt_entry p guid"] length_gpt_entry)
      (simp add: gpt_entry_def bslice_def le64.get_enc)
  have last: "get_le64 ents (off + 40) = ps_last p"
    using le64.get_of_bslice [of 40 128 off ents, symmetric] off t g e
    by (simp add: le64.get_slice [of 40 "gpt_entry p guid"] length_gpt_entry)
      (simp add: gpt_entry_def bslice_def le64.get_enc)
  show ?thesis
    using ty first last t(2) p by (simp add: parse_gpt_entry_def Let_def not_less)
qed

lemma build_entries_ok:
  assumes "parts_wf ps" "length ps \<le> 3" "k < length ps" "ps_first (ps ! k) \<noteq> 0" "ps_first (ps ! k) \<le> ps_last (ps ! k)"
  shows "parse_gpt_entry (build_entries rnd ps) (k * 128) =
      Some (ps_first (ps ! k), ps_last (ps ! k) - ps_first (ps ! k) + 1)"
    and "length (build_entries rnd ps) = 16384"
proof -
  show l: "length (build_entries rnd ps) = 16384"
    using assms by (simp add: build_entries_def length_put_gpt_entries)
  have "bslice (k * 128) 128 (build_entries rnd ps) = gpt_entry (ps ! k) (gen_random_guid_v4 (rnd k))"
    using put_gpt_entries_nth [of ps 0 "replicate (128 * 128) 0" k rnd] assms by (simp add: build_entries_def)
  from parse_gpt_entry_ok [OF this] assms l
  show "parse_gpt_entry (build_entries rnd ps) (k * 128) =
      Some (ps_first (ps ! k), ps_last (ps ! k) - ps_first (ps ! k) + 1)"
    by (auto simp: parts_wf_def list_all_length)
qed

section \<open>The image after the writes\<close>

lemma write_seq_ok:
  "write_seq ws d = (True, d') \<Longrightarrow> length (d_img d) < 2 ^ 63 \<Longrightarrow>
   writes_fit (length (d_img d)) (map (\<lambda>(bs, off). (unat off, bs)) ws) \<Longrightarrow>
   d_img d' = patch (map (\<lambda>(bs, off). (unat off, bs)) ws) (d_img d)"
proof (induction ws arbitrary: d)
  case Nil
  then show ?case by (simp add: patch_def)
next
  case (Cons w ws)
  obtain bs off where w: "w = (bs, off)" by fastforce
  obtain ok d1 where p: "pwrite_all bs (sint off) d = (ok, d1)" by fastforce
  have ok: ok and rest: "write_seq ws d1 = (True, d')"
    using Cons.prems(1) p by (auto simp: w Let_def split: if_splits)
  have fit: "unat off + length bs \<le> length (d_img d)" "writes_fit (length (d_img d)) (map (\<lambda>(bs, off). (unat off, bs)) ws)"
    using Cons.prems(3) by (auto simp: w writes_fit_def)
  have "sint off = int (unat off)" using fit(1) Cons.prems(2) by (intro sint_small) linarith
  with pwrite_all_ok [of bs "sint off" d d1] p ok fit(1)
  have d1: "d_img d1 = bput (unat off) bs (d_img d)" by simp
  then have l1: "length (d_img d1) = length (d_img d)" using fit(1) by (simp add: length_bput)
  show ?case
    using Cons.IH [OF rest] Cons.prems(2) fit(2) d1 l1 by (simp add: w patch_def)
qed

text \<open>The disk a layout is written to: its sector size, length and geometry fit together.\<close>

definition disk_ok :: "geom \<Rightarrow> nat \<Rightarrow> nat \<Rightarrow> bool" where
  "disk_ok g s len \<longleftrightarrow> s \<in> {512, 1024, 2048, 4096} \<and> unat (g_sec g) = s \<and> unat (g_entries g) * s = 16384 \<and>
     unat (g_total g) * s \<le> len \<and> len < 2 ^ 63 \<and> unat (g_last g) = unat (g_total g) - 1 \<and>
     2 * unat (g_entries g) + 4 \<le> unat (g_total g)"

lemma geometry_disk_ok:
  assumes "sector_size_ok sec" "check_room lay bp tb (geometry tb sec) = None" "unat tb < 2 ^ 63"
  shows "disk_ok (geometry tb sec) (unat sec) (unat tb)"
  using sector_size_cases [OF assms(1)] geometry_nat [OF assms(1), of tb] geometry_wf [OF assms(1,2)] assms(3)
  by (auto simp: disk_ok_def geom_wf_def)

lemma unat_lba_off:
  assumes "disk_ok g s len" "unat x \<le> unat (g_total g)"
  shows "unat (x * g_sec g) = unat x * s"
proof -
  have "unat x * s \<le> unat (g_total g) * s" using assms(2) by simp
  also have "\<dots> < 2 ^ 64" using assms(1) by (auto simp: disk_ok_def)
  finally show ?thesis using assms(1) by (simp add: unat_word_ariths disk_ok_def)
qed

text \<open>The two wipes as ranges inside the disk.\<close>

lemma wipe_tables_ranges:
  assumes "disk_ok g s len"
  shows "unat ((if g_total g < 34 then g_total g else 34) * g_sec g) \<le> len"
    and "34 < g_total g \<Longrightarrow> unat ((g_last g - 33) * g_sec g) + unat (34 * g_sec g) \<le> len"
proof -
  let ?t = "unat (g_total g)" and ?w = "if g_total g < 34 then g_total g else 34"
  note D = assms[unfolded disk_ok_def]
  have w: "unat ?w \<le> ?t" by (auto simp: word_less_nat_alt not_less)
  have "unat (?w * g_sec g) = unat ?w * s" using unat_lba_off [OF assms w] .
  also have "\<dots> \<le> ?t * s" using w by simp
  finally show "unat (?w * g_sec g) \<le> len" using D by linarith
  assume "34 < g_total g"
  then have t: "34 < ?t" by (simp add: word_less_nat_alt)
  have lm: "unat (g_last g - 33) = ?t - 34"
    using unat_minus_of_nat [of 33 "g_last g"] t D by simp
  have o1: "unat ((g_last g - 33) * g_sec g) = (?t - 34) * s"
    using unat_lba_off [OF assms, of "g_last g - 33"] lm by simp
  have o2: "unat (34 * g_sec g) = 34 * s"
    using unat_lba_off [OF assms, of 34] t by simp
  have "(?t - 34) * s + 34 * s = ?t * s"
    using t by (simp flip: add_mult_distrib)
  then show "unat ((g_last g - 33) * g_sec g) + unat (34 * g_sec g) \<le> len"
    using o1 o2 D by linarith
qed

lemma zero_range_len:
  "zero_range off len d = (True, d') \<Longrightarrow> unat off + unat len \<le> length (d_img d) \<Longrightarrow> length (d_img d) < 2 ^ 63 \<Longrightarrow>
   length (d_img d') = length (d_img d)"
  using zero_range_ok [of off len d d'] by (simp add: length_bput)

lemma wipe_tables_len:
  assumes "wipe_tables g d = (True, d')" "disk_ok g s (length (d_img d))"
  shows "length (d_img d') = length (d_img d)"
proof -
  note R = wipe_tables_ranges [OF assms(2)]
  have l: "length (d_img d) < 2 ^ 63" using assms(2) by (simp add: disk_ok_def)
  let ?n = "(if g_total g < 34 then g_total g else 34) * g_sec g"
  obtain ok d1 where z: "zero_range 0 ?n d = (ok, d1)" by fastforce
  have ok: ok using assms(1) z by (auto simp: wipe_tables_def Let_def split: if_splits)
  then have l1: "length (d_img d1) = length (d_img d)" using zero_range_len [of 0 ?n d d1] z R(1) l by simp
  show ?thesis
    using assms(1) z ok l1 l R(2) zero_range_len [of _ _ d1 d']
    by (auto simp: wipe_tables_def Let_def split: if_splits)
qed

definition in_disk :: "geom \<Rightarrow> part_spec list \<Rightarrow> bool" where
  "in_disk g ps \<longleftrightarrow> list_all (\<lambda>p. unat (ps_first p) \<le> unat (ps_last p) \<and> unat (ps_last p) < unat (g_total g)) ps"

lemma edge_range:
  assumes D: "disk_ok g s len" and fl: "unat (ps_first p) \<le> unat (ps_last p)" "unat (ps_last p) < unat (g_total g)"
  shows "unat (ps_first p * g_sec g) + unat ((ps_last p - ps_first p + 1) * g_sec g) \<le> len"
proof -
  let ?f = "unat (ps_first p)" and ?l = "unat (ps_last p)" and ?t = "unat (g_total g)"
  have po: "unat (ps_first p * g_sec g) = ?f * s" using unat_lba_off [OF D, of "ps_first p"] fl by simp
  have n: "unat (ps_last p - ps_first p + 1) = ?l - ?f + 1"
    using fl unsigned_less [of "g_total g", where ?'a = nat]
    by (simp add: unat_word_ariths unat_sub word_le_nat_alt)
  have pl: "unat ((ps_last p - ps_first p + 1) * g_sec g) = (?l - ?f + 1) * s"
    using unat_lba_off [OF D, of "ps_last p - ps_first p + 1"] fl n by simp
  have "?f * s + (?l - ?f + 1) * s = (?l + 1) * s"
    using fl by (simp flip: add_mult_distrib)
  also have "\<dots> \<le> ?t * s" using fl by (intro mult_le_mono1) simp
  finally show ?thesis using po pl D by (simp add: disk_ok_def)
qed

lemma wipe_edges_len:
  "wipe_edges g ps d = (True, d') \<Longrightarrow> in_disk g ps \<Longrightarrow> disk_ok g s (length (d_img d)) \<Longrightarrow>
   length (d_img d') = length (d_img d)"
proof (induction ps arbitrary: d)
  case Nil
  then show ?case by simp
next
  case (Cons p ps)
  let ?poff = "ps_first p * g_sec g" and ?plen = "(ps_last p - ps_first p + 1) * g_sec g"
  let ?cap = "of_nat zcap :: u64"
  note D = Cons.prems(3)[unfolded disk_ok_def]
  have sum: "unat ?poff + unat ?plen \<le> length (d_img d)"
    using edge_range [OF Cons.prems(3), of p] Cons.prems(2) by (simp add: in_disk_def)
  have cap: "unat ?cap = zcap" by (simp add: zcap_def)
  obtain ok d1 where e: "(if ?plen \<le> 2 * ?cap then zero_range ?poff ?plen d
                      else let (ok1, d1) = zero_range ?poff ?cap d
                        in if \<not> ok1 then (False, d1) else zero_range (?poff + ?plen - ?cap) ?cap d1) = (ok, d1)"
    by fastforce
  have ok: ok and rest: "wipe_edges g ps d1 = (True, d')"
    using Cons.prems(1) e by (auto simp: Let_def split: if_splits)
  have l1: "length (d_img d1) = length (d_img d)"
  proof (cases "?plen \<le> 2 * ?cap")
    case True
    with e ok zero_range_len [OF _ sum] D show ?thesis by simp
  next
    case False
    then have big: "2 * zcap < unat ?plen" by (simp add: word_le_nat_alt zcap_def)
    obtain ok2 d2 where z: "zero_range ?poff ?cap d = (ok2, d2)" by fastforce
    have ok2: ok2 and z2: "zero_range (?poff + ?plen - ?cap) ?cap d2 = (True, d1)"
      using e ok False z by (auto simp: Let_def split: if_splits)
    have l2: "length (d_img d2) = length (d_img d)"
      using zero_range_len [OF z [simplified ok2]] cap big sum D by simp
    have "unat (?poff + ?plen) = unat ?poff + unat ?plen"
      using sum D by (subst unat_add_lem [THEN iffD1]) simp_all
    then have "unat (?poff + ?plen - ?cap) = unat ?poff + unat ?plen - zcap"
      using unat_minus_of_nat [of zcap "?poff + ?plen"] big by simp
    then show ?thesis using zero_range_len [OF z2] l2 cap big sum D by simp
  qed
  from Cons.IH [OF rest] Cons.prems(2,3) l1 show ?case by (simp add: in_disk_def)
qed

lemma length_dos_entry [simp]: "length (dos_entry p) = 16" "length (protective_entry t) = 16"
  by (simp_all add: dos_entry_def protective_entry_def mbr_entry_def Let_def)

lemma length_put_dos_entries:
  "446 + (i + length ps) * 16 \<le> length x \<Longrightarrow> length (put_dos_entries i ps x) = length x"
  by (induction ps arbitrary: i x) (simp_all add: length_bput)

lemma put_dos_entries_before:
  "446 + (i + length ps) * 16 \<le> length x \<Longrightarrow> j + n \<le> 446 + i * 16 \<Longrightarrow>
   bslice j n (put_dos_entries i ps x) = bslice j n x"
  by (induction ps arbitrary: i x) (simp_all add: length_bput bslice_bput_before)

lemma put_dos_entries_nth:
  "446 + (i + length ps) * 16 \<le> length x \<Longrightarrow> k < length ps \<Longrightarrow>
   bslice (446 + (i + k) * 16) 16 (put_dos_entries i ps x) = dos_entry (ps ! k)"
proof (induction ps arbitrary: i k x)
  case Nil
  then show ?case by simp
next
  case (Cons p ps)
  show ?case
  proof (cases k)
    case 0
    with Cons.prems put_dos_entries_before [of "Suc i" ps "bput (446 + i * 16) (dos_entry p) x" "446 + i * 16" 16]
    show ?thesis by (simp add: length_bput bslice_bput_eq)
  next
    case (Suc k')
    with Cons.prems Cons.IH [of "Suc i" "bput (446 + i * 16) (dos_entry p) x" k'] show ?thesis
      by (simp add: length_bput)
  qed
qed

lemma put_dos_entries_after:
  "446 + (i + length ps) * 16 \<le> length x \<Longrightarrow> 446 + (i + length ps) * 16 \<le> j \<Longrightarrow>
   bslice j n (put_dos_entries i ps x) = bslice j n x"
  by (induction ps arbitrary: i x) (simp_all add: length_bput bslice_bput_after)

text \<open>Sector 0: the signature, the boot code, and the table of either scheme.\<close>

lemma build_sec0_ok:
  fixes is_gpt boot sig t
  assumes "length ps \<le> 4"
  defines "x \<equiv> build_sec0 is_gpt boot sig t ps"
  shows "length x = 4096" and "bslice 510 2 x = [0x55, 0xAA]" and "bslice 0 440 x = map boot [0..<440]"
    and "is_gpt \<Longrightarrow> bslice 446 16 x = protective_entry t"
    and "\<not> is_gpt \<Longrightarrow> k < length ps \<Longrightarrow> bslice (446 + k * 16) 16 x = dos_entry (ps ! k)"
    and "\<not> is_gpt \<Longrightarrow> length ps \<le> k \<Longrightarrow> k < 4 \<Longrightarrow> bslice (446 + k * 16) 16 x = replicate 16 0"
proof -
  define sg :: u32 where "sg = (if sig = 0 then 0x52554658 else sig)"
  define s2 where "s2 = put_le32 440 sg (bput 0 (map boot [0..<440]) (replicate 4096 0))"
  define s3 where "s3 = (if is_gpt then bput 446 (protective_entry t) s2 else put_dos_entries 0 ps s2)"
  have x: "x = bput 511 [0xAA] (bput 510 [0x55] s3)"
    by (simp only: x_def build_sec0_def Let_def s3_def s2_def sg_def)
  have l2: "length s2 = 4096" by (simp add: s2_def len_simps)
  then have l3: "length s3 = 4096" using assms(1) by (simp add: s3_def length_bput length_put_dos_entries)
  then show "length x = 4096" by (simp add: x length_bput)
  have x': "x = bput 510 [0x55, 0xAA] s3"
    using bput_split [of 510 "[0x55]" s3 "[0xAA]"] l3 by (simp add: x)
  show "bslice 510 2 x = [0x55, 0xAA]" using l3 by (simp add: x' bslice_bput_eq)
  have low: "bslice i n x = bslice i n s3" if "i + n \<le> 510" for i n
    using that l3 by (simp add: x' bslice_bput_before)
  have s2a: "bslice 0 440 s2 = map boot [0..<440]"
    by (simp add: s2_def put_le32_def bslice_bput_before bslice_bput_eq len_simps)
  have s2b: "bslice i n s2 = replicate n 0" if "444 \<le> i" "i + n \<le> 4096" for i n
  proof -
    have "bslice i n s2 = bslice i n (replicate 4096 0)"
      using that by (simp add: s2_def put_le32_def bslice_bput_after len_simps)
    also have "\<dots> = replicate n 0" using that by (simp add: bslice_def min_def)
    finally show ?thesis .
  qed
  show "bslice 0 440 x = map boot [0..<440]"
    using low [of 0 440] l2 assms(1) put_dos_entries_before [of 0 ps s2 0 440]
    by (cases is_gpt) (simp_all add: s3_def s2a bslice_bput_before)
  show "is_gpt \<Longrightarrow> bslice 446 16 x = protective_entry t"
    using low [of 446 16] l2 by (simp add: s3_def bslice_bput_eq)
  show "\<not> is_gpt \<Longrightarrow> k < length ps \<Longrightarrow> bslice (446 + k * 16) 16 x = dos_entry (ps ! k)"
    using low [of "446 + k * 16" 16] l2 assms(1) put_dos_entries_nth [of 0 ps s2 k] by (simp add: s3_def)
  show "\<not> is_gpt \<Longrightarrow> length ps \<le> k \<Longrightarrow> k < 4 \<Longrightarrow> bslice (446 + k * 16) 16 x = replicate 16 0"
    using low [of "446 + k * 16" 16] l2 assms(1) put_dos_entries_after [of 0 ps s2 "446 + k * 16" 16]
      s2b [of "446 + k * 16" 16] by (simp add: s3_def)
qed

text \<open>Where the four parts of a GPT go, as byte offsets that do not overlap.\<close>

lemma gpt_places:
  assumes D: "disk_ok g s len"
  defines "a \<equiv> (unat (g_total g) - 1 - unat (g_entries g)) * s" and "b \<equiv> (unat (g_total g) - 1) * s"
  shows "512 \<le> s" "s \<le> 4096" "2 * s + 16384 \<le> a" "b = a + 16384" "b + s \<le> len"
    and "map (\<lambda>(bs, off). (unat off, bs)) (gpt_writes g phdr ents bhdr) =
      [(s, take s phdr), (2 * s, ents), (a, ents), (b, take s bhdr)]"
proof -
  let ?t = "unat (g_total g)" and ?e = "unat (g_entries g)"
  note D' = D[unfolded disk_ok_def]
  show s: "512 \<le> s" "s \<le> 4096" using D' by auto
  have lst: "unat (g_last g) = ?t - 1" and es: "?e * s = 16384" and tt: "2 * ?e + 4 \<le> ?t" "?t * s \<le> len"
    using D' by auto
  have "?t - 1 = (?t - 1 - ?e) + ?e" using tt by simp
  then have "b = a + ?e * s" by (metis a_def b_def add_mult_distrib)
  then show ba: "b = a + 16384" using es by simp
  have "(2 + ?e) * s \<le> (?t - 1 - ?e) * s" using tt by (intro mult_le_mono1) arith
  then show "2 * s + 16384 \<le> a" using es by (simp add: a_def add_mult_distrib)
  have "b + s = (?t - 1 + 1) * s" by (simp add: b_def)
  then have "b + s = ?t * s" using tt by simp
  then show "b + s \<le> len" using tt by simp
  have sec: "unat (g_sec g) = s" using D' by simp
  have o1: "unat (1 * g_sec g) = s" using sec by simp
  have o2: "unat (2 * g_sec g) = 2 * s" using unat_lba_off [OF D, of 2] tt by simp
  have "unat (g_last g - g_entries g) = ?t - 1 - ?e"
    using unat_minus_of_nat [of ?e "g_last g"] tt lst by simp
  then have o3: "unat ((g_last g - g_entries g) * g_sec g) = a"
    using unat_lba_off [OF D, of "g_last g - g_entries g"] by (simp add: a_def)
  have o4: "unat (g_last g * g_sec g) = b"
    using unat_lba_off [OF D, of "g_last g"] lst by (simp add: b_def)
  show "map (\<lambda>(bs, off). (unat off, bs)) (gpt_writes g phdr ents bhdr) =
      [(s, take s phdr), (2 * s, ents), (a, ents), (b, take s bhdr)]"
    using o1 o2 o3 o4 sec by (simp add: gpt_writes_def Let_def)
qed

lemma write_gpt_ok:
  assumes w: "write_gpt g rnd ps d = (True, d')" and D: "disk_ok g s (length (d_img d))"
    and ps: "parts_wf ps" "length ps \<le> 3"
  defines "ents \<equiv> build_entries rnd ps"
  defines "phdr \<equiv> build_phdr g (gen_random_guid_v4 (rnd (length ps))) (crc32_ieee ents)"
  shows "length (d_img d') = length (d_img d)"
    and "bslice s s (d_img d') = take s phdr"
    and "bslice (2 * s) 16384 (d_img d') = ents"
    and "bslice ((unat (g_total g) - 1 - unat (g_entries g)) * s) 16384 (d_img d') = ents"
    and "bslice ((unat (g_total g) - 1) * s) s (d_img d') = take s (build_bhdr g phdr)"
    and "bslice 0 s (d_img d') = bslice 0 s (d_img d)"
proof -
  let ?t = "unat (g_total g)" and ?e = "unat (g_entries g)"
  define a where "a = (?t - 1 - ?e) * s"
  define b where "b = (?t - 1) * s"
  note P = gpt_places [OF D, folded a_def b_def]
  have le: "length ents = 16384" using ps by (simp add: ents_def build_entries_def length_put_gpt_entries)
  have hp: "hdr_ok phdr 2 (crc32_ieee ents)" by (simp add: phdr_def phdr_ok)
  have lp: "length phdr = 4096" using hp by (simp add: hdr_ok_def)
  have lb: "length (build_bhdr g phdr) = 4096" using bhdr_ok [OF hp] by (simp add: hdr_ok_def)
  define ws where "ws = map (\<lambda>(bs, off). (unat off, bs)) (gpt_writes g phdr ents (build_bhdr g phdr))"
  have ws: "ws = [(s, take s phdr), (2 * s, ents), (a, ents), (b, take s (build_bhdr g phdr))]"
    by (simp only: ws_def P)
  have fit: "writes_fit (length (d_img d)) ws"
    using P(1-5) lp lb le by (simp add: ws writes_fit_def)
  have img: "d_img d' = patch ws (d_img d)"
    using write_seq_ok [of "gpt_writes g phdr ents (build_bhdr g phdr)" d d'] w fit D
    by (simp add: write_gpt_def Let_def ents_def phdr_def ws_def disk_ok_def)
  show "length (d_img d') = length (d_img d)" using fit by (simp add: img length_patch)
  have rd: "bslice i n (d_img d') = (case last_write i n ws of Some r \<Rightarrow> r | None \<Rightarrow> bslice i n (d_img d))"
    if "writes_apart i n ws" for i n
    using that fit by (simp add: img bslice_patch)
  show "bslice s s (d_img d') = take s phdr" "bslice (2 * s) 16384 (d_img d') = ents"
    "bslice ((?t - 1 - ?e) * s) 16384 (d_img d') = ents"
    "bslice ((?t - 1) * s) s (d_img d') = take s (build_bhdr g phdr)"
    "bslice 0 s (d_img d') = bslice 0 s (d_img d)"
    unfolding a_def [symmetric] b_def [symmetric]
    using P(1-5) lp lb le by (simp_all add: rd ws writes_apart_def)
qed

lemma parse_at_hdr_ok:
  assumes c: "calm d" and l: "length (d_img d) < 2 ^ 63" and s: "unat sec \<in> {512, 1024, 2048, 4096}"
    and ho: "unat (lba * ucast sec) = ho" "ho + unat sec \<le> length (d_img d)"
      "bslice ho (unat sec) (d_img d) = take (unat sec) h" and h: "hdr_ok h ent (crc32_ieee ents)" "2 \<le> ent"
    and eo: "unat (ent * ucast sec) = eo" "eo + 16384 \<le> length (d_img d)" "bslice eo 16384 (d_img d) = ents"
    and sl: "sl \<le> 128"
  shows "fst (parse_gpt_slice_at_hdr d sec lba sl) = parse_gpt_entry ents ((sl - 1) * 128)"
proof -
  obtain d1 where p1: "pread_all (unat sec) (lba * ucast sec) [] d = (Some (take (unat sec) h), d1)"
      "calm d1" "d_img d1 = d_img d"
    using pread_slice [OF c, of "lba * ucast sec" "unat sec"] ho l by auto
  obtain d2 where p2: "pread_all 16384 (ent * ucast sec) [] d1 = (Some ents, d2)"
    using pread_slice [OF p1(2), of "ent * ucast sec" 16384] eo l p1(3) by auto
  have al: "((128 * 128 + unat sec - 1) div unat sec) * unat sec = 16384" using s by auto
  have "length ents = 16384" using eo by (auto simp: length_bslice)
  then show ?thesis
    using p1(1) p2 al parse_hdr_ok [OF h(1) s sl h(2)]
    by (simp add: parse_gpt_slice_at_hdr_def Let_def)
qed

section \<open>Success on a disk that only interrupts\<close>

lemma zero_range_calm:
  "calm d \<Longrightarrow> unat off + unat len \<le> length (d_img d) \<Longrightarrow> length (d_img d) < 2 ^ 63 \<Longrightarrow>
   \<exists>d'. zero_range off len d = (True, d') \<and> calm d'"
proof (induction off len d rule: zero_range.induct)
  case (1 off len d)
  show ?case
  proof (cases "len = 0")
    case True
    with 1 show ?thesis by (simp add: zero_range.simps)
  next
    case False
    define c where "c = (if unat len > zcap then zcap else unat len)"
    have c: "c \<le> unat len" "unat off + unat len < 2 ^ 63" using "1.prems"(2,3) by (auto simp: c_def)
    have so: "sint off = int (unat off)" using c by (intro sint_small) linarith
    obtain d1 where p: "pwrite_all (replicate c 0) (sint off) d = (True, d1)" "calm d1"
      using pwrite_all_calm [OF "1.prems"(1), of "int (unat off)" "replicate c 0"] c "1.prems"(2) so by auto
    have d1: "length (d_img d1) = length (d_img d)"
      using pwrite_all_ok [OF p(1) [unfolded so]] "1.prems"(2) c by (simp add: length_bput)
    have uo: "unat (off + of_nat c) = unat off + c"
      using c unat_of_nat_small [of c, where ?'a = 64] by (subst unat_add_lem [THEN iffD1]) simp_all
    have ul: "unat (len - of_nat c) = unat len - c" using c(1) by (rule unat_minus_of_nat)
    have "\<exists>d'. zero_range (off + of_nat c) (len - of_nat c) d1 = (True, d') \<and> calm d'"
      using "1.IH" [OF False c_def p(1) [symmetric] refl _ p(2)] "1.prems"(2,3) d1 c(1) uo ul by simp
    with p show ?thesis
      by (auto simp: zero_range.simps [of off len d] False c_def [symmetric] Let_def)
  qed
qed

lemma write_seq_calm:
  "calm d \<Longrightarrow> length (d_img d) < 2 ^ 63 \<Longrightarrow>
   writes_fit (length (d_img d)) (map (\<lambda>(bs, off). (unat off, bs)) ws) \<Longrightarrow>
   \<exists>d'. write_seq ws d = (True, d') \<and> calm d'"
proof (induction ws arbitrary: d)
  case Nil
  then show ?case by simp
next
  case (Cons w ws)
  obtain bs off where w: "w = (bs, off)" by fastforce
  have fit: "unat off + length bs \<le> length (d_img d)" "writes_fit (length (d_img d)) (map (\<lambda>(bs, off). (unat off, bs)) ws)"
    using Cons.prems(3) by (auto simp: w writes_fit_def)
  have so: "sint off = int (unat off)" using fit(1) Cons.prems(2) by (intro sint_small) linarith
  obtain d1 where p: "pwrite_all bs (sint off) d = (True, d1)" "calm d1"
    using pwrite_all_calm [OF Cons.prems(1), of "int (unat off)" bs] fit(1) so by auto
  have l1: "length (d_img d1) = length (d_img d)"
    using pwrite_all_ok [OF p(1) [unfolded so]] fit(1) by (simp add: length_bput)
  have "writes_fit (length (d_img d1)) (map (\<lambda>(bs, off). (unat off, bs)) ws)" using fit(2) l1 by simp
  from Cons.IH [OF p(2) _ this] Cons.prems(2) l1 p(1) show ?case by (simp add: w)
qed

lemma wipe_tables_calm:
  assumes "calm d" "disk_ok g s (length (d_img d))"
  shows "\<exists>d'. wipe_tables g d = (True, d') \<and> calm d'"
proof -
  note R = wipe_tables_ranges [OF assms(2)]
  have l: "length (d_img d) < 2 ^ 63" using assms(2) by (simp add: disk_ok_def)
  obtain d1 where z: "zero_range 0 ((if g_total g < 34 then g_total g else 34) * g_sec g) d = (True, d1)" "calm d1"
    using zero_range_calm [OF assms(1), of 0] R(1) l by auto
  then have "length (d_img d1) = length (d_img d)" using zero_range_len [OF z(1)] R(1) l by simp
  with zero_range_calm [OF z(2)] R(2) l z show ?thesis
    by (auto simp: wipe_tables_def Let_def)
qed

lemma wipe_edges_calm:
  "calm d \<Longrightarrow> in_disk g ps \<Longrightarrow> disk_ok g s (length (d_img d)) \<Longrightarrow>
   \<exists>d'. wipe_edges g ps d = (True, d') \<and> calm d'"
proof (induction ps arbitrary: d)
  case Nil
  then show ?case by simp
next
  case (Cons p ps)
  let ?poff = "ps_first p * g_sec g" and ?plen = "(ps_last p - ps_first p + 1) * g_sec g"
  let ?cap = "of_nat zcap :: u64"
  note sum = edge_range [OF Cons.prems(3), of p]
  have l: "length (d_img d) < 2 ^ 63" using Cons.prems(3) by (simp add: disk_ok_def)
  have fl: "unat (ps_first p) \<le> unat (ps_last p)" "unat (ps_last p) < unat (g_total g)" "in_disk g ps"
    using Cons.prems(2) by (auto simp: in_disk_def)
  have cap: "unat ?cap = zcap" by (simp add: zcap_def)
  have "\<exists>d1. wipe_edges g [p] d = (True, d1) \<and> calm d1"
  proof (cases "?plen \<le> 2 * ?cap")
    case True
    with zero_range_calm [OF Cons.prems(1) sum l] fl show ?thesis by auto
  next
    case False
    then have big: "2 * zcap < unat ?plen" by (simp add: word_le_nat_alt zcap_def)
    have "unat ?poff + unat ?cap \<le> length (d_img d)" using big sum fl cap by simp
    from zero_range_calm [OF Cons.prems(1) this l] obtain d2
      where z: "zero_range ?poff ?cap d = (True, d2)" "calm d2" by blast
    have l2: "length (d_img d2) = length (d_img d)"
      using zero_range_len [OF z(1)] cap big sum fl l by simp
    have "unat (?poff + ?plen) = unat ?poff + unat ?plen"
      using sum fl l by (subst unat_add_lem [THEN iffD1]) simp_all
    then have "unat (?poff + ?plen - ?cap) = unat ?poff + unat ?plen - zcap"
      using unat_minus_of_nat [of zcap "?poff + ?plen"] big by simp
    then have "unat (?poff + ?plen - ?cap) + unat ?cap \<le> length (d_img d2)"
      using cap big sum fl l2 by simp
    from zero_range_calm [OF z(2) this] l l2 z(1) False show ?thesis by (auto simp: Let_def)
  qed
  then obtain d1 where d1: "wipe_edges g [p] d = (True, d1)" "calm d1" by blast
  have l1: "length (d_img d1) = length (d_img d)"
    using wipe_edges_len [OF d1(1) _ Cons.prems(3)] Cons.prems(2) by (simp add: in_disk_def)
  have "wipe_edges g (p # ps) d = wipe_edges g ps d1"
    using d1(1) by (auto simp: Let_def split: prod.splits if_splits)
  with Cons.IH [OF d1(2) fl(3)] Cons.prems(3) l1 show ?case by simp
qed

lemma write_gpt_calm:
  assumes c: "calm d" and D: "disk_ok g s (length (d_img d))" and ps: "parts_wf ps" "length ps \<le> 3"
  shows "\<exists>d'. write_gpt g rnd ps d = (True, d') \<and> calm d'"
proof -
  define ents where "ents = build_entries rnd ps"
  define phdr where "phdr = build_phdr g (gen_random_guid_v4 (rnd (length ps))) (crc32_ieee ents)"
  have le: "length ents = 16384" using ps by (simp add: ents_def build_entries_def length_put_gpt_entries)
  have hp: "hdr_ok phdr 2 (crc32_ieee ents)" by (simp add: phdr_def phdr_ok)
  have lp: "length phdr = 4096" "length (build_bhdr g phdr) = 4096"
    using hp bhdr_ok [OF hp] by (simp_all add: hdr_ok_def)
  have "writes_fit (length (d_img d)) (map (\<lambda>(bs, off). (unat off, bs)) (gpt_writes g phdr ents (build_bhdr g phdr)))"
    unfolding gpt_places(6) [OF D]
    using gpt_places(1-5) [OF D] le lp by (simp add: writes_fit_def)
  from write_seq_calm [OF c _ this] D show ?thesis
    by (simp add: write_gpt_def Let_def ents_def phdr_def disk_ok_def)
qed

lemma write_layout_ok:
  assumes w: "write_layout is_gpt g ps boot sig rnd d = (None, d')" and D: "disk_ok g s (length (d_img d))"
    and ps: "in_disk g ps" "parts_wf ps" "length ps \<le> 3"
  shows "length (d_img d') = length (d_img d)"
    and "bslice 0 s (d_img d') = take s (build_sec0 is_gpt boot sig (g_total g) ps)"
    and "is_gpt \<Longrightarrow> \<exists>d3. write_gpt g rnd ps d3 = (True, d') \<and> length (d_img d3) = length (d_img d)"
proof -
  let ?x = "build_sec0 is_gpt boot sig (g_total g) ps"
  obtain ok1 d1 where w1: "wipe_tables g d = (ok1, d1)" by fastforce
  obtain ok2 d2 where w2: "wipe_edges g ps d1 = (ok2, d2)" by fastforce
  obtain ok3 d3 where w3: "pwrite_all (take (unat (g_sec g)) ?x) 0 d2 = (ok3, d3)" by fastforce
  have ok: ok1 ok2 ok3 and fin: "if is_gpt then write_gpt g rnd ps d3 = (True, d') else d' = d3"
    using w w1 w2 w3 by (auto simp: write_layout_def Let_def split: if_splits prod.splits)
  have l1: "length (d_img d1) = length (d_img d)" using wipe_tables_len [OF w1 [simplified ok] D] .
  have l2: "length (d_img d2) = length (d_img d)"
    using wipe_edges_len [OF w2 [simplified ok] ps(1)] D l1 by simp
  have s: "512 \<le> s" "s \<le> 4096" "s \<le> length (d_img d)" "unat (g_sec g) = s"
    using gpt_places(1-5) [OF D] D by (simp_all add: disk_ok_def)
  have lx: "length ?x = 4096" using build_sec0_ok(1) [of ps] ps by simp
  have d3: "d_img d3 = bput 0 (take s ?x) (d_img d2)"
    using pwrite_all_ok [OF w3 [simplified ok]] s lx l2 by simp
  then have l3: "length (d_img d3) = length (d_img d)" using s lx l2 by (simp add: length_bput)
  have b3: "bslice 0 s (d_img d3) = take s ?x" using d3 s lx l2 by (simp add: bslice_bput_eq)
  have D3: "disk_ok g s (length (d_img d3))" using D l3 by simp
  show "length (d_img d') = length (d_img d)"
    using fin l3 write_gpt_ok(1) [OF _ D3 ps(2,3)] by (auto split: if_splits)
  show "bslice 0 s (d_img d') = take s ?x"
    using fin b3 write_gpt_ok(6) [OF _ D3 ps(2,3)] by (auto split: if_splits)
  show "is_gpt \<Longrightarrow> \<exists>d3. write_gpt g rnd ps d3 = (True, d') \<and> length (d_img d3) = length (d_img d)"
    using fin l3 by auto
qed

lemma write_layout_calm:
  assumes c: "calm d" and D: "disk_ok g s (length (d_img d))"
    and ps: "in_disk g ps" "parts_wf ps" "length ps \<le> 3"
  shows "\<exists>d'. write_layout is_gpt g ps boot sig rnd d = (None, d') \<and> calm d'"
proof -
  let ?x = "build_sec0 is_gpt boot sig (g_total g) ps"
  obtain d1 where w1: "wipe_tables g d = (True, d1)" "calm d1" using wipe_tables_calm [OF c D] by blast
  have l1: "length (d_img d1) = length (d_img d)" using wipe_tables_len [OF w1(1) D] .
  then have D1: "disk_ok g s (length (d_img d1))" using D by simp
  obtain d2 where w2: "wipe_edges g ps d1 = (True, d2)" "calm d2" using wipe_edges_calm [OF w1(2) ps(1) D1] by blast
  have l2: "length (d_img d2) = length (d_img d)" using wipe_edges_len [OF w2(1) ps(1) D1] l1 by simp
  have s: "512 \<le> s" "s \<le> 4096" "s \<le> length (d_img d)" "unat (g_sec g) = s"
    using gpt_places(1-5) [OF D] D by (simp_all add: disk_ok_def)
  have lx: "length ?x = 4096" using build_sec0_ok(1) [of ps] ps by simp
  obtain d3 where w3: "pwrite_all (take s ?x) 0 d2 = (True, d3)" "calm d3"
    using pwrite_all_calm [OF w2(2), of 0 "take s ?x"] lx s l2 by auto
  have "length (d_img d3) = length (d_img d)"
    using pwrite_all_ok [OF w3(1)] s lx l2 by (simp add: length_bput)
  with write_gpt_calm [OF w3(2) _ ps(2,3), of g s rnd] D
  obtain d4 where "write_gpt g rnd ps d3 = (True, d4)" "calm d4" by auto
  with w1 w2 w3 s show ?thesis by (cases is_gpt) (auto simp: write_layout_def Let_def)
qed

section \<open>The plan feeds the writer\<close>

lemma guid_wf:
  "length GUID_MS_BASIC_DATA = 16" "length GUID_LINUX_FS = 16" "length GUID_ESP = 16" "length GUID_BIOS_BOOT = 16"
  "\<exists>b \<in> set GUID_MS_BASIC_DATA. b \<noteq> 0" "\<exists>b \<in> set GUID_LINUX_FS. b \<noteq> 0"
  "\<exists>b \<in> set GUID_ESP. b \<noteq> 0" "\<exists>b \<in> set GUID_BIOS_BOOT. b \<noteq> 0"
  by (simp_all add: GUID_MS_BASIC_DATA_def GUID_LINUX_FS_def GUID_ESP_def GUID_BIOS_BOOT_def)

lemma plan_parts_wf: "parts_wf (plan_parts lay is_gpt b mt mib g)"
  by (simp add: parts_wf_def plan_parts_def plan_main_uefintfs_def plan_single_def plan_esp_main_def
      bios_boot_part_def Let_def guid_wf)

lemma plan_layoutD:
  assumes "check_sizes lay b tb sec = None" "plan_layout lay is_gpt b mt tb sec = Inr (g, ps)" "unat tb < 2 ^ 63"
  shows "g = geometry tb sec" "disk_ok g (unat sec) (unat tb)" "in_disk g ps" "parts_wf ps" "length ps \<le> 3"
    "laid_out (unat (g_spm g)) (unat (g_spm g)) (plan_hi is_gpt g) ps" "0 < unat (g_spm g)"
proof -
  show g: "g = geometry tb sec" using assms(2) by (auto simp: plan_layout_def Let_def split: option.splits)
  have r: "check_room lay b tb (geometry tb sec) = None"
    and ps: "ps = plan_parts lay is_gpt b mt (drop_bit 20 tb) g"
    using assms(2) by (auto simp: plan_layout_def Let_def split: option.splits)
  have sec: "sector_size_ok sec" using check_sizesD [OF assms(1)] by blast
  show "disk_ok g (unat sec) (unat tb)" using geometry_disk_ok [OF sec r assms(3)] g by simp
  show l: "laid_out (unat (g_spm g)) (unat (g_spm g)) (plan_hi is_gpt g) ps"
    using plan_parts_laid_out [OF assms(1) r] by (simp add: g ps)
  note W = geometry_wf [OF sec r, folded g, unfolded geom_wf_def]
  show "0 < unat (g_spm g)" using W by auto
  have "plan_hi is_gpt g < unat (g_total g)" using W by (auto simp: plan_hi_def)
  with laid_out_nth [OF l] show "in_disk g ps" by (force simp: in_disk_def list_all_length)
  show "parts_wf ps" "length ps \<le> 3" using plan_parts_length by (simp_all add: ps plan_parts_wf)
qed

text \<open>A run that returned 0 and touched a disk, taken apart.\<close>

lemma rufux_partition_ok:
  assumes "rufux_partition E dst opts = (None, Some d')"
  obtains is_gpt lay g ps d where
    "check_scheme_layout dst opts = Inr (is_gpt, lay)"
    "check_sizes lay (po_bios_boot opts \<and> is_gpt) (pe_dev_bytes E dst) (pe_sector_size E dst) = None"
    "plan_layout lay is_gpt (po_bios_boot opts \<and> is_gpt) (mbr_type_for (po_fs_main opts)) (pe_dev_bytes E dst)
       (pe_sector_size E dst) = Inr (g, ps)"
    "pe_open E (block_node dst) = Some d"
    "write_layout is_gpt g ps (pe_boot440 E is_gpt) (pe_rnd_sig E) (pe_rnd E) d = (None, d')"
  using assms
  by (auto simp: rufux_partition_def partition_disk_def Let_def
      split: sum.splits prod.splits option.splits if_splits)

text \<open>The disk behind a device name: as long as its size says, and smaller than \<open>off_t\<close> can address.\<close>

definition disk_at :: "part_env \<Rightarrow> string \<Rightarrow> dev \<Rightarrow> bool" where
  "disk_at E dst d \<longleftrightarrow> pe_open E (block_node dst) = Some d \<and> length (d_img d) = unat (pe_dev_bytes E dst) \<and>
     unat (pe_dev_bytes E dst) < 2 ^ 63"

lemma pread_all_calm_any: "calm d \<Longrightarrow> calm (snd (pread_all n off got d))"
proof (induction n off got d rule: pread_all.induct)
  case (1 n off got d)
  show ?case
  proof (cases "n \<le> length got")
    case True
    with 1 show ?thesis by (simp add: pread_all.simps)
  next
    case False
    obtain r d1 where s: "sys_pread (n - length got) (sint (off + of_nat (length got))) d = (r, d1)" by fastforce
    then have c: "calm d1" using calm_pop [OF "1.prems"] by (auto simp: sys_pread_def split: if_splits sum.splits)
    from s c False 1 show ?thesis by (cases r) (auto simp: pread_all.simps [of n off got d])
  qed
qed

lemma pread_keeps:
  assumes "pread_all n off got d = (r, d')"
  shows "d_img d' = d_img d" and "calm d \<Longrightarrow> calm d'"
  using pread_all_img [of n off got d] pread_all_calm_any [of d n off got] assms by simp_all

lemma parse_at_hdr_keeps:
  assumes "parse_gpt_slice_at_hdr d sec lba sl = (r, d')"
  shows "d_img d' = d_img d \<and> (calm d \<longrightarrow> calm d')"
proof -
  obtain r1 d1 where p: "pread_all (unat sec) (lba * ucast sec) [] d = (r1, d1)" by fastforce
  note k1 = pread_keeps [OF p]
  have "d' = d1 \<or> (\<exists>n off r2. pread_all n off [] d1 = (r2, d'))"
    using assms p
    by (auto simp: parse_gpt_slice_at_hdr_def Let_def split: option.splits if_splits prod.splits)
  with k1 show ?thesis by (auto dest: pread_keeps)
qed

lemma sec0_bytes:
  assumes "length x = 4096" "bslice 510 2 x = [0x55, 0xAA]" "512 \<le> s" "s \<le> 4096" "length img \<ge> s" "bslice 0 s img = take s x"
  shows "bslice 0 s img ! 510 = 0x55" "bslice 0 s img ! 511 = 0xAA" "i < 512 \<Longrightarrow> bslice 0 s img ! i = x ! i"
proof -
  have "x ! 510 = bslice 510 2 x ! 0" "x ! 511 = bslice 510 2 x ! 1"
    using assms(1) by (simp_all add: nth_bslice)
  then show "bslice 0 s img ! 510 = 0x55" "bslice 0 s img ! 511 = 0xAA"
    using assms by simp_all
  show "i < 512 \<Longrightarrow> bslice 0 s img ! i = x ! i" using assms by simp
qed

lemma nth_of_bslice: "bslice off n x = e \<Longrightarrow> j < n \<Longrightarrow> off + n \<le> length x \<Longrightarrow> x ! (off + j) = e ! j"
  using nth_bslice [of j n off x] by simp

lemma chs_bytes: "\<exists>a b c. encode_chs lba = [a, b, c]"
  by (simp add: encode_chs_def Let_def)

lemma protective_type: "protective_entry t ! 4 = 0xEE"
  using chs_bytes [of 1] by (auto simp: protective_entry_def mbr_entry_def Let_def)

lemma dos_entry_fields:
  "dos_entry p ! 4 = ps_mbr_type p"
  "get_le32 (dos_entry p) 8 = ucast (ps_first p)"
  "get_le32 (dos_entry p) 12 = ucast (ps_last p - ps_first p + 1)"
proof -
  obtain a b c where e: "encode_chs (ps_first p) = [a, b, c]" using chs_bytes by blast
  obtain a' b' c' where e': "encode_chs (ps_last p) = [a', b', c']" using chs_bytes by blast
  show "dos_entry p ! 4 = ps_mbr_type p" by (simp add: dos_entry_def mbr_entry_def Let_def e)
  show "get_le32 (dos_entry p) 8 = ucast (ps_first p)"
    by (subst le32.get_slice) (simp_all add: dos_entry_def mbr_entry_def Let_def e e' bslice_def le32.get_enc)
  show "get_le32 (dos_entry p) 12 = ucast (ps_last p - ps_first p + 1)"
    by (subst le32.get_slice) (simp_all add: dos_entry_def mbr_entry_def Let_def e e' bslice_def le32.get_enc)
qed

text \<open>The image after any successful run.\<close>

lemma layout_image:
  assumes run: "rufux_partition E dst opts = (None, Some d')" and sch: "check_scheme_layout dst opts = Inr (is_gpt, lay)"
    and d: "disk_at E dst d"
  obtains g ps where
    "plan_layout lay is_gpt (po_bios_boot opts \<and> is_gpt) (mbr_type_for (po_fs_main opts)) (pe_dev_bytes E dst)
       (pe_sector_size E dst) = Inr (g, ps)"
    "disk_ok g (unat (pe_sector_size E dst)) (length (d_img d'))" "g = geometry (pe_dev_bytes E dst) (pe_sector_size E dst)"
    "length (d_img d') = unat (pe_dev_bytes E dst)"
    "in_disk g ps" "parts_wf ps" "length ps \<le> 3" "\<forall>k < length ps. ps_first (ps ! k) \<noteq> 0 \<and> ps_first (ps ! k) \<le> ps_last (ps ! k)"
    "bslice 0 (unat (pe_sector_size E dst)) (d_img d') =
       take (unat (pe_sector_size E dst)) (build_sec0 is_gpt (pe_boot440 E is_gpt) (pe_rnd_sig E) (g_total g) ps)"
    "is_gpt \<Longrightarrow> \<exists>d3. write_gpt g (pe_rnd E) ps d3 = (True, d') \<and>
       disk_ok g (unat (pe_sector_size E dst)) (length (d_img d3))"
proof -
  obtain is_gpt' lay' g ps d0 where
    c: "check_scheme_layout dst opts = Inr (is_gpt', lay')"
    and sz': "check_sizes lay' (po_bios_boot opts \<and> is_gpt') (pe_dev_bytes E dst) (pe_sector_size E dst) = None"
    and pl': "plan_layout lay' is_gpt' (po_bios_boot opts \<and> is_gpt') (mbr_type_for (po_fs_main opts)) (pe_dev_bytes E dst)
       (pe_sector_size E dst) = Inr (g, ps)"
    and op: "pe_open E (block_node dst) = Some d0"
    and w': "write_layout is_gpt' g ps (pe_boot440 E is_gpt') (pe_rnd_sig E) (pe_rnd E) d0 = (None, d')"
    by (rule rufux_partition_ok [OF run]) blast
  have ig: "is_gpt' = is_gpt" "lay' = lay" using c sch by simp_all
  note sz = sz' [unfolded ig] and pl = pl' [unfolded ig] and w = w' [unfolded ig]
  have d0: "d0 = d" "length (d_img d) = unat (pe_dev_bytes E dst)" "unat (pe_dev_bytes E dst) < 2 ^ 63"
    using d op by (simp_all add: disk_at_def)
  note P = plan_layoutD [OF sz pl d0(3)]
  have D: "disk_ok g (unat (pe_sector_size E dst)) (length (d_img d))" using P(2) d0 by simp
  note W = write_layout_ok [OF w [unfolded d0(1)] D P(3,4,5)]
  have D': "disk_ok g (unat (pe_sector_size E dst)) (length (d_img d'))" using D W(1) by simp
  have fl: "\<forall>k < length ps. ps_first (ps ! k) \<noteq> 0 \<and> ps_first (ps ! k) \<le> ps_last (ps ! k)"
  proof (intro allI impI)
    fix k assume "k < length ps"
    from laid_out_nth [OF P(6) this] P(7)
    show "ps_first (ps ! k) \<noteq> 0 \<and> ps_first (ps ! k) \<le> ps_last (ps ! k)"
      by (auto simp: word_le_nat_alt simp flip: unat_gt_0)
  qed
  show thesis
    by (rule that [OF pl D' P(1) _ P(3,4,5) fl W(2)]) (use W(1,3) d0 D in auto)
qed

text \<open>The image after a successful GPT run, as the reader needs it.\<close>

lemma gpt_image:
  assumes run: "rufux_partition E dst opts = (None, Some d')" and sch: "check_scheme_layout dst opts = Inr (True, lay)"
    and d: "disk_at E dst d"
  obtains g ps rnd x phdr where
    "plan_layout lay True (po_bios_boot opts) (mbr_type_for (po_fs_main opts)) (pe_dev_bytes E dst) (pe_sector_size E dst)
       = Inr (g, ps)"
    "disk_ok g (unat (pe_sector_size E dst)) (length (d_img d'))" "g = geometry (pe_dev_bytes E dst) (pe_sector_size E dst)"
    "length (d_img d') = unat (pe_dev_bytes E dst)"
    "in_disk g ps" "parts_wf ps" "length ps \<le> 3" "\<forall>k < length ps. ps_first (ps ! k) \<noteq> 0 \<and> ps_first (ps ! k) \<le> ps_last (ps ! k)"
    "x = build_sec0 True (pe_boot440 E True) (pe_rnd_sig E) (g_total g) ps"
    "bslice 0 (unat (pe_sector_size E dst)) (d_img d') = take (unat (pe_sector_size E dst)) x"
    "hdr_ok phdr 2 (crc32_ieee (build_entries rnd ps))"
    "bslice (unat (pe_sector_size E dst)) (unat (pe_sector_size E dst)) (d_img d') = take (unat (pe_sector_size E dst)) phdr"
    "bslice (2 * unat (pe_sector_size E dst)) 16384 (d_img d') = build_entries rnd ps"
    "bslice ((unat (g_total g) - 1 - unat (g_entries g)) * unat (pe_sector_size E dst)) 16384 (d_img d') = build_entries rnd ps"
    "bslice ((unat (g_total g) - 1) * unat (pe_sector_size E dst)) (unat (pe_sector_size E dst)) (d_img d')
       = take (unat (pe_sector_size E dst)) (build_bhdr g phdr)"
proof -
  obtain g ps where L:
    "plan_layout lay True (po_bios_boot opts \<and> True) (mbr_type_for (po_fs_main opts)) (pe_dev_bytes E dst)
       (pe_sector_size E dst) = Inr (g, ps)"
    "disk_ok g (unat (pe_sector_size E dst)) (length (d_img d'))" "g = geometry (pe_dev_bytes E dst) (pe_sector_size E dst)"
    "length (d_img d') = unat (pe_dev_bytes E dst)"
    "in_disk g ps" "parts_wf ps" "length ps \<le> 3" "\<forall>k < length ps. ps_first (ps ! k) \<noteq> 0 \<and> ps_first (ps ! k) \<le> ps_last (ps ! k)"
    "bslice 0 (unat (pe_sector_size E dst)) (d_img d') =
       take (unat (pe_sector_size E dst)) (build_sec0 True (pe_boot440 E True) (pe_rnd_sig E) (g_total g) ps)"
    "True \<Longrightarrow> \<exists>d3. write_gpt g (pe_rnd E) ps d3 = (True, d') \<and>
       disk_ok g (unat (pe_sector_size E dst)) (length (d_img d3))"
    by (rule layout_image [OF run sch d]) blast
  obtain d3 where d3: "write_gpt g (pe_rnd E) ps d3 = (True, d')" "disk_ok g (unat (pe_sector_size E dst)) (length (d_img d3))"
    using L(10) by blast
  note G = write_gpt_ok [OF d3 L(6,7)]
  show thesis
    by (rule that [OF L(1) [unfolded simp_thms] L(2-8) refl L(9) phdr_ok G(2,3,4,5)]) simp
qed

lemma gpt_sec0:
  assumes "length x = 4096" "x = build_sec0 True boot sig t ps" "512 \<le> s" "s \<le> 4096" "bslice 0 s img = take s x"
    "s \<le> length img" "length ps \<le> 3"
  shows "bslice 0 s img ! 510 = 0x55" "bslice 0 s img ! 511 = 0xAA" "has_protective (bslice 0 s img)"
proof -
  have ps: "length ps \<le> 4" using assms(7) by simp
  note B = build_sec0_ok [OF ps, where is_gpt = True and boot = boot and sig = sig and t = t, folded assms(2)]
  note S = sec0_bytes [OF assms(1) B(2) assms(3,4,6,5)]
  show "bslice 0 s img ! 510 = 0x55" "bslice 0 s img ! 511 = 0xAA" by (fact S(1), fact S(2))
  have "x ! (446 + 4) = 0xEE"
    using nth_of_bslice [of 446 16 x "protective_entry t" 4] B(4) assms(1) by (simp add: protective_type)
  then have "bslice 0 s img ! (446 + 0 * 16 + 4) = 0xEE" using S(3) [of 450] by simp
  then show "has_protective (bslice 0 s img)" unfolding has_protective_def by (intro bexI [of _ 0]) simp_all
qed

section \<open>A run that cannot fail\<close>

lemma partition_run:
  assumes "check_scheme_layout dst opts = Inr (is_gpt, lay)" "po_yes opts" "\<not> po_dry_run opts"
    and "pe_check_target E dst (po_allow_fixed opts) (po_allow_file opts)"
    and sz: "check_sizes lay (po_bios_boot opts \<and> is_gpt) (pe_dev_bytes E dst) (pe_sector_size E dst) = None"
    and pl: "plan_layout lay is_gpt (po_bios_boot opts \<and> is_gpt) (mbr_type_for (po_fs_main opts)) (pe_dev_bytes E dst)
      (pe_sector_size E dst) = Inr (g, ps)"
    and "pe_stat E dst \<noteq> None" "pe_unmount E dst" "disk_at E dst d" "calm d" "pe_fsync_ok E" "pe_close_ok E"
  shows "\<exists>d'. rufux_partition E dst opts = (None, Some d') \<and> calm d' \<and> length (d_img d') = length (d_img d)"
proof -
  have d: "pe_open E (block_node dst) = Some d" "length (d_img d) = unat (pe_dev_bytes E dst)"
      "unat (pe_dev_bytes E dst) < 2 ^ 63"
    using assms(9) by (simp_all add: disk_at_def)
  note P = plan_layoutD [OF sz pl d(3)]
  have D: "disk_ok g (unat (pe_sector_size E dst)) (length (d_img d))" using P(2) d by simp
  from write_layout_calm [OF assms(10) D P(3,4,5), of is_gpt "pe_boot440 E is_gpt" "pe_rnd_sig E" "pe_rnd E"]
  obtain d' where "write_layout is_gpt g ps (pe_boot440 E is_gpt) (pe_rnd_sig E) (pe_rnd E) d = (None, d')" "calm d'" by blast
  moreover have "length (d_img d') = length (d_img d)"
    using write_layout_ok(1) [OF calculation(1) D P(3,4,5)] .
  ultimately show ?thesis using assms d
    by (auto simp: rufux_partition_def partition_disk_def Let_def)
qed

section \<open>A concrete disk\<close>

text \<open>A blank removable disk of 256 MiB with sectors of 512 bytes, for the witnesses.\<close>

definition sample_disk :: dev where
  "sample_disk = \<lparr>d_img = replicate 268435456 0, d_grows = False, d_sched = [Fails EINTR, AtMost 100]\<rparr>"

definition sample_env :: part_env where
  "sample_env = \<lparr>pe_check_target = \<lambda>_ _ _. True, pe_dev_bytes = \<lambda>_. 268435456, pe_sector_size = \<lambda>_. 512,
     pe_stat = \<lambda>_. Some BlockDev, pe_unmount = \<lambda>_. True, pe_open = \<lambda>_. Some sample_disk,
     pe_boot440 = \<lambda>_ i. of_nat i, pe_rnd_sig = 7, pe_rnd = \<lambda>i j. of_nat (i + j), pe_fsync_ok = True, pe_close_ok = True\<rparr>"

definition sample_opts :: "string \<Rightarrow> part_opts" where
  "sample_opts scheme = \<lparr>po_scheme = Some scheme, po_layout = Some ''main+uefintfs'', po_fs_main = Some ''ntfs'',
     po_bios_boot = False, po_dry_run = False, po_allow_fixed = False, po_allow_file = False, po_yes = True\<rparr>"

lemma sample_gpt: "check_scheme_layout ''/dev/disk9'' (sample_opts ''gpt'') = Inr (True, MainUefintfs)"
  by (simp add: check_scheme_layout_def sample_opts_def)

lemma sample_dos: "check_scheme_layout ''/dev/disk9'' (sample_opts ''dos'') = Inr (False, MainUefintfs)"
  by (simp add: check_scheme_layout_def sample_opts_def)

lemma sample_sizes: "check_sizes MainUefintfs False 268435456 512 = None"
  by code_simp

lemma sample_plan_gpt: "\<exists>g p ps. plan_layout MainUefintfs True False 7 268435456 512 = Inr (g, p # ps)"
proof -
  have "check_room MainUefintfs False 268435456 (geometry 268435456 512) = None" by code_simp
  from plan_layout_gpt_total [OF sample_sizes this, of 7] show ?thesis
    by (simp add: plan_parts_def plan_main_uefintfs_def Let_def)
qed

lemma sample_plan_dos: "\<exists>g p ps. plan_layout MainUefintfs False False 7 268435456 512 = Inr (g, p # ps)"
proof -
  have r: "check_room MainUefintfs False 268435456 (geometry 268435456 512) = None" by code_simp
  have s: "g_spm (geometry 268435456 512) = 2048" by code_simp
  have m: "drop_bit 20 (268435456 :: u64) = 256" by code_simp
  show ?thesis
    using r by (simp add: plan_layout_def Let_def plan_parts_def plan_main_uefintfs_def s m)
qed

lemmas sample_simps = sample_env_def sample_opts_def sample_disk_def mbr_type_for_def disk_at_def

lemma sample_calm: "calm sample_disk"
  by (simp add: calm_def benign_def sample_disk_def)

lemma sample_disk_at: "disk_at sample_env dst sample_disk"
  by (simp add: sample_simps)

lemma sample_sizes_at: "pe_sector_size sample_env dst = 512" "pe_dev_bytes sample_env dst = 268435456"
  by (simp_all add: sample_env_def)

lemma sample_run_gpt: "\<exists>d'. rufux_partition sample_env ''/dev/disk9'' (sample_opts ''gpt'') = (None, Some d') \<and>
    calm d' \<and> length (d_img d') = 268435456"
proof -
  obtain g p ps where "plan_layout MainUefintfs True False 7 268435456 512 = Inr (g, p # ps)"
    using sample_plan_gpt by blast
  with partition_run [OF sample_gpt _ _ _ _ _ _ _ sample_disk_at sample_calm, of g "p # ps"] sample_sizes
  show ?thesis by (simp add: sample_simps)
qed

lemma sample_run_dos: "\<exists>d'. rufux_partition sample_env ''/dev/disk9'' (sample_opts ''dos'') = (None, Some d') \<and>
    calm d' \<and> length (d_img d') = 268435456"
proof -
  obtain g p ps where "plan_layout MainUefintfs False False 7 268435456 512 = Inr (g, p # ps)"
    using sample_plan_dos by blast
  with partition_run [OF sample_dos _ _ _ _ _ _ _ sample_disk_at sample_calm, of g "p # ps"] sample_sizes
  show ?thesis by (simp add: sample_simps)
qed

lemma check_ranges_dos:
  "check_ranges False g i ps = None \<Longrightarrow> k < length ps \<Longrightarrow>
   unat (ps_first (ps ! k)) < 2 ^ 32 \<and> unat (ps_last (ps ! k) - ps_first (ps ! k) + 1) < 2 ^ 32"
proof (induction ps arbitrary: i k)
  case Nil
  then show ?case by simp
next
  case (Cons p ps)
  then show ?case
    by (cases k) (auto simp: Let_def word_less_nat_alt not_less word_le_nat_alt split: if_splits)
qed

lemma ucast_down_up: "unat (x :: u64) < 2 ^ 32 \<Longrightarrow> ucast (ucast x :: u32) = x"
  by (rule word_unat_eq_iff [THEN iffD2]) (simp add: unsigned_ucast_eq unsigned_take_bit_eq take_bit_nat_eq_self)

lemma mbr_type_ok: "mbr_type_for fs \<noteq> 0 \<and> mbr_type_for fs \<noteq> 0xEE"
  by (simp add: mbr_type_for_def split: option.split)

lemma plan_parts_types:
  "p \<in> set (plan_parts lay False False (mbr_type_for fs) mib g) \<Longrightarrow> ps_mbr_type p \<noteq> 0 \<and> ps_mbr_type p \<noteq> 0xEE"
  using mbr_type_ok [of fs]
  by (cases lay) (auto simp: plan_parts_def plan_main_uefintfs_def plan_single_def plan_esp_main_def Let_def)

text \<open>Sector 0 of an MBR disk, entry by entry.\<close>

lemma dos_sec0:
  fixes boot sig t
  assumes "length ps \<le> 3" "\<forall>p \<in> set ps. ps_mbr_type p \<noteq> 0 \<and> ps_mbr_type p \<noteq> 0xEE"
  defines "x \<equiv> build_sec0 False boot sig t ps"
  shows "k < length ps \<Longrightarrow> j < 16 \<Longrightarrow> x ! (446 + k * 16 + j) = dos_entry (ps ! k) ! j"
    and "i < 4 \<Longrightarrow> x ! (446 + i * 16 + 4) \<noteq> 0xEE"
proof -
  have ps: "length ps \<le> 4" using assms(1) by simp
  note B = build_sec0_ok [OF ps, where is_gpt = False and boot = boot and sig = sig and t = t, folded x_def]
  show nth: "k < length ps \<Longrightarrow> j < 16 \<Longrightarrow> x ! (446 + k * 16 + j) = dos_entry (ps ! k) ! j" for k j
    using nth_of_bslice [of "446 + k * 16" 16 x "dos_entry (ps ! k)" j] B(1,5) assms(1) by simp
  show "i < 4 \<Longrightarrow> x ! (446 + i * 16 + 4) \<noteq> 0xEE"
  proof (cases "i < length ps")
    case True
    then show ?thesis using nth [OF True, of 4] assms(2) by (simp add: dos_entry_fields)
  next
    case False
    then show "i < 4 \<Longrightarrow> x ! (446 + i * 16 + 4) \<noteq> 0xEE"
      using nth_of_bslice [of "446 + i * 16" 16 x "replicate 16 0" 4] B(1,6) by simp
  qed
qed

lemma get_le32_entry:
  assumes "\<forall>j < 16. x ! (off + j) = e ! j" "i + 4 \<le> 16"
  shows "get_le32 x (off + i) = get_le32 e i"
  using assms(1) [rule_format, of i] assms(1) [rule_format, of "i + 1"] assms(1) [rule_format, of "i + 2"]
    assms(1) [rule_format, of "i + 3"] assms(2)
  by (simp add: get_le32_def add.assoc)

section \<open>CHS addresses\<close>

text \<open>The block a CHS address names, by the rule of the BIOS: 255 heads, 63 sectors.\<close>

definition chs_lba :: "bytes \<Rightarrow> nat" where
  "chs_lba b = ((unat (b ! 2) + 256 * (unat (b ! 1) div 64)) * 255 + unat (b ! 0)) * 63 + (unat (b ! 1) mod 64 - 1)"

lemma chs_lba_list: "chs_lba [a, b, c] = ((unat c + 256 * (unat b div 64)) * 255 + unat a) * 63 + (unat b mod 64 - 1)"
  by (simp add: chs_lba_def)

lemma chs_cyl_high:
  assumes "unat (c :: u32) < 1024"
  shows "drop_bit 2 c AND 0xC0 = push_bit 6 (drop_bit 8 c)"
proof -
  have m: "(0xC0 :: u32) = push_bit 6 (mask 2)" by (simp add: push_bit_eq_mult mask_eq_exp_minus_1)
  have b: "bit c n \<Longrightarrow> n < 10" for n using bit_small [of c 10] assms by simp
  show ?thesis
    unfolding m by (rule bit_word_eqI) (auto simp: bit_simps dest: b)
qed

lemma chs_second_byte:
  assumes s: "unat (s :: u32) < 64" and c: "unat (c :: u32) < 1024"
  shows "unat (ucast ((s AND 0x3F) OR (drop_bit 2 c AND 0xC0)) :: byte) = unat s + 64 * (unat c div 256)"
proof -
  have sb: "bit s n \<Longrightarrow> n < 6" for n using bit_small [of s 6] s by simp
  have m: "(0x3F :: u32) = mask 6" by (simp add: mask_eq_exp_minus_1)
  have s': "s AND 0x3F = s"
    unfolding m by (rule bit_word_eqI) (auto simp: bit_simps dest: sb)
  have "s AND push_bit 6 (drop_bit 8 c) = 0"
    by (rule bit_word_eqI) (auto simp: bit_simps dest: sb)
  then have "s OR push_bit 6 (drop_bit 8 c) = s + push_bit 6 (drop_bit 8 c)"
    by (simp add: disjunctive_add_eq_or)
  moreover have "unat (push_bit 6 (drop_bit 8 c)) = 64 * (unat c div 256)"
  proof -
    have "unat c div 256 < 4" using c by simp
    then show ?thesis by (simp add: push_bit_eq_mult drop_bit_eq_div unat_word_ariths unat_div_distrib)
  qed
  ultimately have "unat ((s AND 0x3F) OR (drop_bit 2 c AND 0xC0)) = unat s + 64 * (unat c div 256)"
    unfolding s' chs_cyl_high [OF c] using s c by (simp add: unat_word_ariths)
  moreover have "unat c div 256 < 4" using c by simp
  then have "unat s + 64 * (unat c div 256) < 256" using s by linarith
  ultimately show ?thesis by (simp add: unsigned_ucast_eq take_bit_nat_eq_self unsigned_take_bit_eq)
qed

section \<open>Properties\<close>

text \<open>
  Nothing but a refusal, a plan that does not fit or a hard I/O error makes
  \<open>rufux_partition\<close> fail: with \<open>--yes\<close>, a target that passes the checks, a plan, and a disk whose
  calls are at most interrupted or shortened, it returns 0.
\<close>

theorem partition_succeeds:
  assumes "check_scheme_layout dst opts = Inr (is_gpt, lay)" "po_yes opts" "\<not> po_dry_run opts"
    and "pe_check_target E dst (po_allow_fixed opts) (po_allow_file opts)"
    and sz: "check_sizes lay (po_bios_boot opts \<and> is_gpt) (pe_dev_bytes E dst) (pe_sector_size E dst) = None"
    and pl: "plan_layout lay is_gpt (po_bios_boot opts \<and> is_gpt) (mbr_type_for (po_fs_main opts)) (pe_dev_bytes E dst)
      (pe_sector_size E dst) = Inr (g, ps)"
    and "pe_stat E dst \<noteq> None" "pe_unmount E dst" "disk_at E dst d" "calm d" "pe_fsync_ok E" "pe_close_ok E"
  shows "\<exists>d'. rufux_partition E dst opts = (None, Some d')"
  using partition_run [OF assms] by blast

text \<open>
  C8: the primary GPT is a working copy on its own. When \<open>rufux_partition\<close> has returned 0 for a GPT layout on a
  disk, take the disk it left and overwrite anything behind the primary entry array - the partitions, the backup entry
  array, the backup header. For every partition \<open>k\<close> of the plan \<open>rufux_part_offset_sectors\<close>, run on that disk, finds
  exactly the planned first sector and the planned number of sectors for slice \<open>k + 1\<close>, and finds them through the
  header in sector 1, not through its fall-back: header and entry array pass every check of the reader, both CRCs
  included, whatever signals and short reads there are.
\<close>

theorem gpt_roundtrip:
  assumes run: "rufux_partition E dst opts = (None, Some d')" and sch: "check_scheme_layout dst opts = Inr (True, lay)"
    and d: "disk_at E dst d"
    and pl: "plan_layout lay True (po_bios_boot opts) (mbr_type_for (po_fs_main opts)) (pe_dev_bytes E dst)
      (pe_sector_size E dst) = Inr (g, ps)" and k: "k < length ps"
    and r: "calm r" "length (d_img r) = length (d_img d')"
    and same: "take (2 * unat (pe_sector_size E dst) + 16384) (d_img r) = take (2 * unat (pe_sector_size E dst) + 16384) (d_img d')"
  shows "part_offset_sectors r (pe_sector_size E dst) (pe_dev_bytes E dst) (int k + 1) =
    Some (ps_first (ps ! k), ps_last (ps ! k) - ps_first (ps ! k) + 1) \<and>
   (\<forall>r'. calm r' \<and> d_img r' = d_img r \<longrightarrow> fst (parse_gpt_slice_at_hdr r' (pe_sector_size E dst) 1 (k + 1)) =
      Some (ps_first (ps ! k), ps_last (ps ! k) - ps_first (ps ! k) + 1))"
proof -
  let ?sec = "pe_sector_size E dst" and ?s = "unat (pe_sector_size E dst)"
  obtain g' ps' rnd x phdr where I:
    "plan_layout lay True (po_bios_boot opts) (mbr_type_for (po_fs_main opts)) (pe_dev_bytes E dst) ?sec = Inr (g', ps')"
    "disk_ok g' ?s (length (d_img d'))" "g' = geometry (pe_dev_bytes E dst) ?sec"
    "length (d_img d') = unat (pe_dev_bytes E dst)"
    "in_disk g' ps'" "parts_wf ps'" "length ps' \<le> 3" "\<forall>k < length ps'. ps_first (ps' ! k) \<noteq> 0 \<and> ps_first (ps' ! k) \<le> ps_last (ps' ! k)"
    "x = build_sec0 True (pe_boot440 E True) (pe_rnd_sig E) (g_total g') ps'"
    "bslice 0 ?s (d_img d') = take ?s x"
    "hdr_ok phdr 2 (crc32_ieee (build_entries rnd ps'))"
    "bslice ?s ?s (d_img d') = take ?s phdr"
    "bslice (2 * ?s) 16384 (d_img d') = build_entries rnd ps'"
    by (rule gpt_image [OF run sch d]) blast
  have gp: "g' = g" "ps' = ps" using I(1) pl by simp_all
  note I = I [unfolded gp]
  note D = I(2)[unfolded disk_ok_def] and P = gpt_places [OF I(2)]
  have at: "bslice i n (d_img r) = bslice i n (d_img d')" if "i + n \<le> 2 * ?s + 16384" for i n
    using bslice_take [OF that, of "d_img r"] bslice_take [OF that, of "d_img d'"] same by simp
  have lr: "length (d_img r) < 2 ^ 63" using D r by simp
  have s: "?s \<in> {512, 1024, 2048, 4096}" "512 \<le> ?s" "?s \<le> 4096" using D by auto
  have x: "length x = 4096" using build_sec0_ok(1) [of ps] I(7,9) by simp
  have fit: "?s + ?s \<le> length (d_img r)" "2 * ?s + 16384 \<le> length (d_img r)" using P r by simp_all
  obtain d1 where p0: "pread_all ?s 0 [] r = (Some (bslice 0 ?s (d_img r)), d1)" "calm d1" "d_img d1 = d_img r"
    using pread_slice [OF r(1), of 0 ?s] fit lr by auto
  note S = gpt_sec0 [OF x I(9) s(2,3) _ _ I(7), of "d_img r"]
  have o1: "unat (1 * ucast ?sec :: u64) = ?s" by simp
  have "2 * ?s < 2 ^ 64" using s by simp
  then have o2: "unat (2 * ucast ?sec :: u64) = 2 * ?s" by (simp add: unat_word_ariths)
  have prim: "fst (parse_gpt_slice_at_hdr r' ?sec 1 (k + 1)) = Some (ps_first (ps ! k), ps_last (ps ! k) - ps_first (ps ! k) + 1)"
    if r': "calm r'" "d_img r' = d_img r" for r'
  proof -
    have "fst (parse_gpt_slice_at_hdr r' ?sec 1 (k + 1)) = parse_gpt_entry (build_entries rnd ps) ((k + 1 - 1) * 128)"
      using I(12,13) r' fit lr k I(7) at [of ?s ?s] at [of "2 * ?s" 16384]
      by (intro parse_at_hdr_ok [OF r'(1) _ s(1) o1 _ _ I(11) _ o2]) simp_all
    then show ?thesis using build_entries_ok(1) [OF I(6,7) k] I(8) k by simp
  qed
  moreover have "nat (int k + 1) = k + 1" by simp
  ultimately obtain d2 where "parse_gpt_slice_at_hdr d1 ?sec 1 (nat (int k + 1)) =
      (Some (ps_first (ps ! k), ps_last (ps ! k) - ps_first (ps ! k) + 1), d2)"
    using p0(2,3) by (metis prod.collapse)
  moreover have "bslice 0 ?s (d_img r) = take ?s x" using I(10) at [of 0 ?s] by simp
  ultimately show ?thesis
    using s p0 S fit prim by (simp add: part_offset_sectors_def word_less_nat_alt)
qed

text \<open>The sample disk, with its last 64 KiB (the backup GPT among them) overwritten.\<close>

definition without_backup :: "dev \<Rightarrow> dev" where
  "without_backup d = d\<lparr>d_img := take (length (d_img d) - 65536) (d_img d) @ replicate (min 65536 (length (d_img d))) 0\<rparr>"

theorem gpt_roundtrip_witness:
  "\<exists>d' (p :: part_spec). rufux_partition sample_env ''/dev/disk9'' (sample_opts ''gpt'') = (None, Some d') \<and>
    part_offset_sectors (without_backup d') 512 268435456 1 = Some (ps_first p, ps_last p - ps_first p + 1)"
proof -
  obtain d' where run: "rufux_partition sample_env ''/dev/disk9'' (sample_opts ''gpt'') = (None, Some d')" "calm d'"
    using sample_run_gpt by blast
  obtain g p ps where pl: "plan_layout MainUefintfs True False 7 268435456 512 = Inr (g, p # ps)"
    using sample_plan_gpt by blast
  have l: "length (d_img d') = 268435456"
  proof -
    have "length (d_img d') = unat (pe_dev_bytes sample_env ''/dev/disk9'')"
      by (rule gpt_image [OF run(1) sample_gpt sample_disk_at]) blast
    then show ?thesis by (simp add: sample_sizes_at)
  qed
  have c: "calm (without_backup d')" using run(2) by (simp add: without_backup_def calm_def)
  have "part_offset_sectors (without_backup d') (pe_sector_size sample_env ''/dev/disk9'') (pe_dev_bytes sample_env ''/dev/disk9'') (int 0 + 1) =
      Some (ps_first ((p # ps) ! 0), ps_last ((p # ps) ! 0) - ps_first ((p # ps) ! 0) + 1)"
    by (rule gpt_roundtrip [OF run(1) sample_gpt sample_disk_at _ _ c, of g "p # ps" 0, THEN conjunct1])
      (use pl l in \<open>simp_all add: sample_simps without_backup_def\<close>)
  then have "part_offset_sectors (without_backup d') 512 268435456 1 = Some (ps_first p, ps_last p - ps_first p + 1)"
    by (simp add: sample_sizes_at)
  with run(1) show ?thesis by (intro exI conjI)
qed

text \<open>
  C9: the backup GPT is a working copy. Take the disk a successful GPT run left,
  and overwrite anything between sector 0 and the backup entry array so that the primary header no
  longer passes the reader's checks: \<open>rufux_part_offset_sectors\<close> still finds every partition of the
  plan, through the header in the last sector.
\<close>

theorem gpt_backup_recovery:
  assumes run: "rufux_partition E dst opts = (None, Some d')" and sch: "check_scheme_layout dst opts = Inr (True, lay)"
    and d: "disk_at E dst d"
    and pl: "plan_layout lay True (po_bios_boot opts) (mbr_type_for (po_fs_main opts)) (pe_dev_bytes E dst)
      (pe_sector_size E dst) = Inr (g, ps)" and k: "k < length ps"
    and r: "calm r" "length (d_img r) = length (d_img d')"
    and same: "bslice 0 (unat (pe_sector_size E dst)) (d_img r) = bslice 0 (unat (pe_sector_size E dst)) (d_img d')"
      "drop ((unat (g_total g) - 1 - unat (g_entries g)) * unat (pe_sector_size E dst)) (d_img r) =
       drop ((unat (g_total g) - 1 - unat (g_entries g)) * unat (pe_sector_size E dst)) (d_img d')"
    and damaged: "parse_gpt_hdr (pe_sector_size E dst) (k + 1)
      (bslice (unat (pe_sector_size E dst)) (unat (pe_sector_size E dst)) (d_img r)) = None"
  shows "part_offset_sectors r (pe_sector_size E dst) (pe_dev_bytes E dst) (int k + 1) =
    Some (ps_first (ps ! k), ps_last (ps ! k) - ps_first (ps ! k) + 1)"
proof -
  let ?sec = "pe_sector_size E dst" and ?s = "unat (pe_sector_size E dst)" and ?tb = "pe_dev_bytes E dst"
  obtain g' ps' rnd x phdr where I:
    "plan_layout lay True (po_bios_boot opts) (mbr_type_for (po_fs_main opts)) ?tb ?sec = Inr (g', ps')"
    "disk_ok g' ?s (length (d_img d'))" "g' = geometry ?tb ?sec" "length (d_img d') = unat ?tb"
    "in_disk g' ps'" "parts_wf ps'" "length ps' \<le> 3" "\<forall>k < length ps'. ps_first (ps' ! k) \<noteq> 0 \<and> ps_first (ps' ! k) \<le> ps_last (ps' ! k)"
    "x = build_sec0 True (pe_boot440 E True) (pe_rnd_sig E) (g_total g') ps'"
    "bslice 0 ?s (d_img d') = take ?s x"
    "hdr_ok phdr 2 (crc32_ieee (build_entries rnd ps'))"
    "bslice ((unat (g_total g') - 1 - unat (g_entries g')) * ?s) 16384 (d_img d') = build_entries rnd ps'"
    "bslice ((unat (g_total g') - 1) * ?s) ?s (d_img d') = take ?s (build_bhdr g' phdr)"
    by (rule gpt_image [OF run sch d]) blast
  have gp: "g' = g" "ps' = ps" using I(1) pl by simp_all
  note I = I [unfolded gp]
  note D = I(2)[unfolded disk_ok_def]
  define a b where "a = (unat (g_total g) - 1 - unat (g_entries g)) * ?s" and "b = (unat (g_total g) - 1) * ?s"
  note P = gpt_places(1-5) [OF I(2), folded a_def b_def]
  have lr: "length (d_img r) < 2 ^ 63" using D r by simp
  have s: "?s \<in> {512, 1024, 2048, 4096}" "512 \<le> ?s" "?s \<le> 4096" using D by auto
  have x: "length x = 4096" using build_sec0_ok(1) [of ps] I(7,9) by simp
  have sl: "nat (int k + 1) = k + 1" by simp
  obtain d1 where p0: "pread_all ?s 0 [] r = (Some (bslice 0 ?s (d_img r)), d1)" "calm d1" "d_img d1 = d_img r"
    using pread_slice [OF r(1), of 0 ?s] P r lr by auto
  obtain d2 where p1: "pread_all ?s (ucast ?sec) [] d1 = (Some (bslice ?s ?s (d_img r)), d2)" "calm d2" "d_img d2 = d_img r"
    using pread_slice [OF p0(2), of "ucast ?sec" ?s] P r lr p0(3) by auto
  have prim: "parse_gpt_slice_at_hdr d1 ?sec 1 (k + 1) = (None, d2)"
    using p1(1) damaged by (simp add: parse_gpt_slice_at_hdr_def)
  have "4 < unat (g_total g)" using D by auto
  then have tot: "?tb div ucast ?sec = g_total g" "g_last g = g_total g - 1" "4 < g_total g" "ucast ?sec = g_sec g"
    using I(3) by (simp_all add: geometry_def Let_def word_less_nat_alt)
  have o1: "unat ((g_total g - 1) * ucast ?sec) = b"
    using unat_lba_off [OF I(2), of "g_last g"] D tot by (simp add: b_def)
  have la: "unat (g_last g - g_entries g) = unat (g_total g) - 1 - unat (g_entries g)"
  proof -
    have "unat (g_entries g) \<le> unat (g_last g)" "unat (g_last g) = unat (g_total g) - 1" using D by linarith+
    then show ?thesis using unat_minus_of_nat [of "unat (g_entries g)" "g_last g"] by simp
  qed
  then have o2: "unat ((g_last g - g_entries g) * ucast ?sec) = a"
    using unat_lba_off [OF I(2), of "g_last g - g_entries g"] tot by (simp add: a_def)
  have keep: "bslice i n (d_img r) = bslice i n (d_img d')" if "a \<le> i" for i n
  proof -
    have "bslice i n z = bslice (i - a) n (drop a z)" for z :: bytes using that by (simp add: bslice_def)
    then show ?thesis using same(2) by (metis a_def)
  qed
  have "2 \<le> unat (g_last g - g_entries g)" using la D by linarith
  then have ent2: "2 \<le> g_last g - g_entries g" by (simp add: word_le_nat_alt)
  note S = gpt_sec0 [OF x I(9) s(2,3) I(10) _ I(7), folded same(1)]
  have "fst (parse_gpt_slice_at_hdr d2 ?sec (g_total g - 1) (k + 1)) = parse_gpt_entry (build_entries rnd ps) ((k + 1 - 1) * 128)"
    using I(12,13) r p1(3) lr k I(7) P keep [of a 16384] keep [of b ?s]
    by (intro parse_at_hdr_ok [OF p1(2) _ s(1) o1 _ _ bhdr_ok [OF I(11)] ent2 o2]) (simp_all add: a_def b_def)
  also have "\<dots> = Some (ps_first (ps ! k), ps_last (ps ! k) - ps_first (ps ! k) + 1)"
    using build_entries_ok(1) [OF I(6,7) k] I(8) k by simp
  finally show ?thesis
    using s p0(1) prim tot S P by (simp add: part_offset_sectors_def word_less_nat_alt sl)
qed

theorem gpt_backup_recovery_witness:
  "\<exists>d' (p :: part_spec). rufux_partition sample_env ''/dev/disk9'' (sample_opts ''gpt'') = (None, Some d') \<and>
    part_offset_sectors (d'\<lparr>d_img := bput 512 (replicate 512 0) (d_img d')\<rparr>) 512 268435456 1 =
      Some (ps_first p, ps_last p - ps_first p + 1)"
proof -
  obtain d' where run: "rufux_partition sample_env ''/dev/disk9'' (sample_opts ''gpt'') = (None, Some d')" "calm d'"
      "length (d_img d') = 268435456"
    using sample_run_gpt by blast
  define im where "im = d_img d'"
  have im: "length im = 268435456" using run by (simp add: im_def)
  obtain g p ps where pl: "plan_layout MainUefintfs True False 7 268435456 512 = Inr (g, p # ps)"
    using sample_plan_gpt by blast
  have g: "unat (g_total g) = 524288" "unat (g_entries g) = 32"
  proof -
    have "g = geometry 268435456 512" using pl by (auto simp: plan_layout_def Let_def split: option.splits)
    then show "unat (g_total g) = 524288" "unat (g_entries g) = 32" by (simp_all add: geometry_def)
  qed
  let ?r = "d'\<lparr>d_img := bput 512 (replicate 512 0) (d_img d')\<rparr>"
  have z: "bslice 512 512 (bput 512 (replicate 512 0) im) = replicate 512 0"
    using im by (intro bslice_bput_eq) simp_all
  have "hd (take 8 (replicate 512 (0::byte))) \<noteq> hd efi_part" by (simp add: efi_part_def)
  then have t: "take 8 (replicate 512 (0::byte)) \<noteq> efi_part" by metis
  have bad: "parse_gpt_hdr 512 1 (replicate 512 0) = None" using t by (simp only: parse_gpt_hdr_def if_True not_False_eq_True simp_thms)
  have "part_offset_sectors ?r (pe_sector_size sample_env ''/dev/disk9'') (pe_dev_bytes sample_env ''/dev/disk9'') (int 0 + 1) =
      Some (ps_first ((p # ps) ! 0), ps_last ((p # ps) ! 0) - ps_first ((p # ps) ! 0) + 1)"
  proof (rule gpt_backup_recovery [OF run(1) sample_gpt sample_disk_at, of g "p # ps" 0])
    show "plan_layout MainUefintfs True (po_bios_boot (sample_opts ''gpt'')) (mbr_type_for (po_fs_main (sample_opts ''gpt'')))
      (pe_dev_bytes sample_env ''/dev/disk9'') (pe_sector_size sample_env ''/dev/disk9'') = Inr (g, p # ps)"
      using pl by (simp add: sample_simps)
    show "calm ?r" using run by simp
    show "length (d_img ?r) = length (d_img d')" using im by (simp add: length_bput im_def)
    show "bslice 0 (unat (pe_sector_size sample_env ''/dev/disk9'')) (d_img ?r) =
        bslice 0 (unat (pe_sector_size sample_env ''/dev/disk9'')) (d_img d')"
      using im by (simp add: sample_sizes_at bslice_bput_before im_def)
    show "drop ((unat (g_total g) - 1 - unat (g_entries g)) * unat (pe_sector_size sample_env ''/dev/disk9'')) (d_img ?r) =
        drop ((unat (g_total g) - 1 - unat (g_entries g)) * unat (pe_sector_size sample_env ''/dev/disk9'')) (d_img d')"
      using im by (simp add: sample_sizes_at g bput_def im_def)
    show "parse_gpt_hdr (pe_sector_size sample_env ''/dev/disk9'') (0 + 1)
      (bslice (unat (pe_sector_size sample_env ''/dev/disk9'')) (unat (pe_sector_size sample_env ''/dev/disk9'')) (d_img ?r)) = None"
      using z bad by (simp add: sample_sizes_at im_def)
  qed simp
  then have "part_offset_sectors ?r 512 268435456 1 = Some (ps_first p, ps_last p - ps_first p + 1)"
    by (simp add: sample_sizes_at)
  with run(1) show ?thesis by (intro exI conjI)
qed

text \<open>
  \<open>rufux_partition\<close> opens and changes a disk only when the request is confirmed
  (\<open>--yes\<close>, no dry run), the target passed the safety check, the options and sizes were accepted, and
  a layout was planned; in every other case no disk is touched.
\<close>

theorem partition_guards:
  assumes "rufux_partition E dst opts = (err, Some d')"
  shows "po_yes opts \<and> \<not> po_dry_run opts \<and> dst \<noteq> '''' \<and>
    pe_check_target E dst (po_allow_fixed opts) (po_allow_file opts) \<and>
    (\<exists>is_gpt lay g ps d. check_scheme_layout dst opts = Inr (is_gpt, lay) \<and>
       check_sizes lay (po_bios_boot opts \<and> is_gpt) (pe_dev_bytes E dst) (pe_sector_size E dst) = None \<and>
       plan_layout lay is_gpt (po_bios_boot opts \<and> is_gpt) (mbr_type_for (po_fs_main opts)) (pe_dev_bytes E dst)
         (pe_sector_size E dst) = Inr (g, ps) \<and> pe_open E (block_node dst) = Some d)"
proof -
  have "dst \<noteq> ''''" if "check_scheme_layout dst opts = Inr x" for x
    using that by (auto simp: check_scheme_layout_def split: option.splits)
  with assms show ?thesis
    by (auto simp: rufux_partition_def partition_disk_def Let_def
        split: sum.splits prod.splits option.splits if_splits)
qed

text \<open>
  After a successful run, GPT or MBR, sector 0 holds the 440 bytes of boot code of
  the scheme, and the boot signature 55 AA at offset 510.
\<close>

theorem sector0_content:
  assumes run: "rufux_partition E dst opts = (None, Some d')" and d: "disk_at E dst d"
    and sch: "check_scheme_layout dst opts = Inr (is_gpt, lay)"
  shows "bslice 0 440 (d_img d') = map (pe_boot440 E is_gpt) [0..<440] \<and> bslice 510 2 (d_img d') = [0x55, 0xAA]"
proof -
  obtain g ps where I: "disk_ok g (unat (pe_sector_size E dst)) (length (d_img d'))" "length ps \<le> 3"
    "bslice 0 (unat (pe_sector_size E dst)) (d_img d') =
       take (unat (pe_sector_size E dst)) (build_sec0 is_gpt (pe_boot440 E is_gpt) (pe_rnd_sig E) (g_total g) ps)"
    by (rule layout_image [OF run sch d]) blast
  let ?s = "unat (pe_sector_size E dst)" and ?x = "build_sec0 is_gpt (pe_boot440 E is_gpt) (pe_rnd_sig E) (g_total g) ps"
  have s: "512 \<le> ?s" using I(1) by (auto simp: disk_ok_def)
  have ps: "length ps \<le> 4" using I(2) by simp
  note B = build_sec0_ok [OF ps, where is_gpt = is_gpt and boot = "pe_boot440 E is_gpt" and sig = "pe_rnd_sig E" and t = "g_total g"]
  have "bslice i n (d_img d') = bslice i n ?x" if "i + n \<le> 512" for i n
  proof -
    have "bslice i n (d_img d') = bslice i n (bslice 0 ?s (d_img d'))" using that s by (simp add: bslice_bslice)
    then show ?thesis using that s I(3) by (simp add: bslice_take)
  qed
  from this [of 0 440] this [of 510 2] B show ?thesis by simp
qed

text \<open>
  C11: the same for the MBR scheme: after a successful run,
  \<open>rufux_part_offset_sectors\<close> reads back the planned first sector and sector count of every
  partition from sector 0; the 32-bit fields lose nothing, and no entry is taken for a protective one.
\<close>

theorem mbr_roundtrip:
  assumes run: "rufux_partition E dst opts = (None, Some d')" and sch: "check_scheme_layout dst opts = Inr (False, lay)"
    and d: "disk_at E dst d"
    and pl: "plan_layout lay False False (mbr_type_for (po_fs_main opts)) (pe_dev_bytes E dst)
      (pe_sector_size E dst) = Inr (g, ps)" and k: "k < length ps"
    and r: "calm r" "d_img r = d_img d'"
  shows "part_offset_sectors r (pe_sector_size E dst) (pe_dev_bytes E dst) (int k + 1) =
    Some (ps_first (ps ! k), ps_last (ps ! k) - ps_first (ps ! k) + 1)"
proof -
  let ?sec = "pe_sector_size E dst" and ?s = "unat (pe_sector_size E dst)"
  obtain g' ps' where I:
    "plan_layout lay False (po_bios_boot opts \<and> False) (mbr_type_for (po_fs_main opts)) (pe_dev_bytes E dst) ?sec = Inr (g', ps')"
    "disk_ok g' ?s (length (d_img d'))" "length ps' \<le> 3" "\<forall>k < length ps'. ps_first (ps' ! k) \<noteq> 0 \<and> ps_first (ps' ! k) \<le> ps_last (ps' ! k)"
    "bslice 0 ?s (d_img d') = take ?s (build_sec0 False (pe_boot440 E False) (pe_rnd_sig E) (g_total g') ps')" "in_disk g' ps'"
    by (rule layout_image [OF run sch d]) blast
  have gp: "g' = g" "ps' = ps" using I(1) pl by simp_all
  note I = I [unfolded gp]
  define x where "x = build_sec0 False (pe_boot440 E False) (pe_rnd_sig E) (g_total g) ps"
  have D: "?s \<in> {512, 1024, 2048, 4096}" "length (d_img d') < 2 ^ 63" "512 \<le> ?s" "?s \<le> 4096"
    using I(2) by (auto simp: disk_ok_def)
  have cr: "check_ranges False g 1 ps = None" and psd: "ps = plan_parts lay False False (mbr_type_for (po_fs_main opts))
      (drop_bit 20 (pe_dev_bytes E dst)) g"
    using pl by (auto simp: plan_layout_def Let_def split: option.splits)
  have ty: "\<forall>p \<in> set ps. ps_mbr_type p \<noteq> 0 \<and> ps_mbr_type p \<noteq> 0xEE"
    unfolding psd using plan_parts_types by blast
  note X = dos_sec0 [OF I(3) ty, where boot = "pe_boot440 E False" and sig = "pe_rnd_sig E" and t = "g_total g", folded x_def]
  have xl: "length x = 4096" "bslice 510 2 x = [0x55, 0xAA]"
    using build_sec0_ok [of ps, where is_gpt = False] I(3) by (simp_all add: x_def)
  have len: "?s \<le> length (d_img r)" using gpt_places(1-5) [OF I(2)] r by simp
  obtain d1 where p0: "pread_all ?s 0 [] r = (Some (bslice 0 ?s (d_img r)), d1)"
    using pread_slice [OF r(1), of 0 ?s] len D r by auto
  note S = sec0_bytes [OF xl D(3,4) len I(5) [folded x_def r(2)]]
  define m where "m = bslice 0 ?s (d_img r)"
  have me: "\<forall>j < 16. m ! (446 + k * 16 + j) = dos_entry (ps ! k) ! j"
  proof (intro allI impI)
    fix j :: nat assume "j < 16"
    then show "m ! (446 + k * 16 + j) = dos_entry (ps ! k) ! j"
      using X(1) [OF k, of j] S(3) [of "446 + k * 16 + j"] k I(3) by (simp add: m_def)
  qed
  have np: "\<not> has_protective m"
    using X(2) S(3) by (auto simp: has_protective_def m_def)
  note C = check_ranges_dos [OF cr k]
  have f: "ps_first (ps ! k) \<noteq> 0" "ps_first (ps ! k) \<le> ps_last (ps ! k)" using I(4) k by blast+
  have "unat (ps_last (ps ! k)) < unat (g_total g)" using I(6) k by (simp add: in_disk_def list_all_length)
  then have "unat (ps_last (ps ! k) - ps_first (ps ! k) + 1) = unat (ps_last (ps ! k)) - unat (ps_first (ps ! k)) + 1"
    using f unsigned_less [of "g_total g", where ?'a = nat]
    by (simp add: unat_word_ariths unat_sub word_le_nat_alt)
  then have cnt: "ps_last (ps ! k) - ps_first (ps ! k) + 1 \<noteq> 0" by (metis Suc_eq_plus1 nat.distinct(1) unat_0)
  have u1: "(ucast (ucast (ps_first (ps ! k)) :: u32) :: u64) = ps_first (ps ! k)"
    and u2: "(ucast (ucast (ps_last (ps ! k) - ps_first (ps ! k) + 1) :: u32) :: u64) = ps_last (ps ! k) - ps_first (ps ! k) + 1"
    using C ucast_down_up by blast+
  then have nz: "(ucast (ps_first (ps ! k)) :: u32) \<noteq> 0" "(ucast (ps_last (ps ! k) - ps_first (ps ! k) + 1) :: u32) \<noteq> 0"
    using f cnt by (metis ucast_0)+
  have "mbr_slice m (k + 1) = Some (ps_first (ps ! k), ps_last (ps ! k) - ps_first (ps ! k) + 1)"
    using get_le32_entry [OF me, of 8] get_le32_entry [OF me, of 12] me [rule_format, of 4] ty k I(3) u1 u2 nz
    by (simp add: mbr_slice_def Let_def dos_entry_fields word_gt_0)
  moreover have "nat (int k + 1) = k + 1" by simp
  ultimately show ?thesis
    using D p0 S(1,2) np by (simp add: part_offset_sectors_def word_less_nat_alt m_def [symmetric])
qed

theorem mbr_roundtrip_witness:
  "\<exists>d' (p :: part_spec). rufux_partition sample_env ''/dev/disk9'' (sample_opts ''dos'') = (None, Some d') \<and>
    part_offset_sectors d' 512 268435456 1 = Some (ps_first p, ps_last p - ps_first p + 1)"
proof -
  obtain d' where run: "rufux_partition sample_env ''/dev/disk9'' (sample_opts ''dos'') = (None, Some d')" "calm d'"
    using sample_run_dos by blast
  obtain g p ps where pl: "plan_layout MainUefintfs False False 7 268435456 512 = Inr (g, p # ps)"
    using sample_plan_dos by blast
  have "part_offset_sectors d' (pe_sector_size sample_env ''/dev/disk9'') (pe_dev_bytes sample_env ''/dev/disk9'') (int 0 + 1) =
      Some (ps_first ((p # ps) ! 0), ps_last ((p # ps) ! 0) - ps_first ((p # ps) ! 0) + 1)"
    by (rule mbr_roundtrip [OF run(1) sample_dos sample_disk_at _ _ run(2) refl, of g "p # ps" 0])
      (use pl in \<open>simp_all add: sample_simps\<close>)
  then have "part_offset_sectors d' 512 268435456 1 = Some (ps_first p, ps_last p - ps_first p + 1)"
    by (simp add: sample_sizes_at)
  with run(1) show ?thesis by (intro exI conjI)
qed

text \<open>
  A block number that CHS can express is encoded exactly: cylinder, head and
  sector of the three bytes, with the two high cylinder bits in the sector byte, give the block back.
\<close>

theorem encode_chs_exact:
  assumes "lba \<le> max_chs_lba"
  shows "chs_lba (encode_chs lba) = unat lba"
proof -
  define n where "n = unat lba"
  have n: "n < 1024 * 255 * 63" using assms by (simp add: n_def word_le_nat_alt max_chs_lba_def)
  have sec: "unat ((ucast (lba mod 63) :: u32) + 1) = n mod 63 + 1"
    and head: "unat (ucast (lba div 63 mod 255) :: u32) = n div 63 mod 255"
    and cyl: "unat (ucast (lba div 63 div 255) :: u32) = n div 63 div 255"
    using n
    by (simp_all add: unat_word_ariths unsigned_ucast_eq unsigned_take_bit_eq take_bit_nat_eq_self unat_mod_distrib
        unat_div_distrib n_def [symmetric] less_mult_imp_div_less)
  have s: "n mod 63 + 1 < 64" and c: "n div 63 div 255 < 1024" using n by (simp_all add: less_mult_imp_div_less)
  have b1: "unat (ucast ((((ucast (lba mod 63) :: u32) + 1) AND 0x3F) OR (drop_bit 2 (ucast (lba div 63 div 255) :: u32) AND 0xC0)) :: byte)
      = n mod 63 + 1 + 64 * (n div 63 div 255 div 256)"
    using chs_second_byte [of "(ucast (lba mod 63) :: u32) + 1" "ucast (lba div 63 div 255)"] s c by (simp only: sec cyl)
  have b0: "unat (ucast (ucast (lba div 63 mod 255) :: u32) :: byte) = n div 63 mod 255"
  proof -
    have "unat (lba div 63 mod 255) = n div 63 mod 255"
      by (simp add: unat_mod_distrib unat_div_distrib n_def)
    moreover have "n div 63 mod 255 < 256" by (rule less_trans [of _ 255]) simp_all
    ultimately show ?thesis by (simp add: unsigned_ucast_eq unsigned_take_bit_eq take_bit_nat_eq_self)
  qed
  have b2: "unat (ucast ((ucast (lba div 63 div 255) :: u32) AND 0xFF) :: byte) = n div 63 div 255 mod 256"
  proof -
    have "unat (lba div 63 div 255) = n div 63 div 255" by (simp add: unat_div_distrib n_def)
    then show ?thesis
      using c by (simp only: ucast_mask8 unsigned_ucast_eq unsigned_take_bit_eq) (simp add: take_bit_eq_mod mod_mod_cancel)
  qed
  have sm: "(n mod 63 + 1 + 64 * q) div 64 = q" "(n mod 63 + 1 + 64 * q) mod 64 = n mod 63 + 1" for q
    using s by simp_all
  have "chs_lba (encode_chs lba) =
      ((n div 63 div 255 mod 256 + 256 * (n div 63 div 255 div 256)) * 255 + n div 63 mod 255) * 63 + (n mod 63 + 1 - 1)"
  proof -
    have "\<not> max_chs_lba < lba" using assms by simp
    then show ?thesis
      by (simp only: encode_chs_def Let_def if_False chs_lba_list b0 b1 b2 sm)
  qed
  also have "\<dots> = n" by (simp add: mod_mult_div_eq)
  finally show ?thesis by (simp add: n_def)
qed

end
