(* ===== verification/MountXdr.thy ===== *)
theory MountXdr
  imports Prelude
begin

text \<open>
  The XDR reader and writer of \<open>macos/src/mountd_nfs.c\<close>, the loopback NFSv3 server of the macOS port.

  A reader is the message, the position and the sticky error flag; after an error every getter fails
  and the position stays. A buffer is the bytes written, the capacity of the allocation, the sticky
  error flag and \<open>xb_mem\<close>, the size of the largest block \<open>realloc\<close> grants: this makes running out of
  memory, and the error flag it sets, part of the model. C strings are the bytes before their NUL.
  Sizes (\<open>size_t\<close>) are naturals: messages are at most 2 MiB long, so no sum of them wraps.
\<close>

section \<open>Types\<close>

record nfs_attr =
  at_type :: u32
  at_mode :: u32
  at_nlink :: u32
  at_uid :: u32
  at_gid :: u32
  at_size :: u64
  at_used :: u64
  at_rdev1 :: u32
  at_rdev2 :: u32
  at_fsid :: u64
  at_fileid :: u64
  at_atime_sec :: u32
  at_atime_nsec :: u32
  at_mtime_sec :: u32
  at_mtime_nsec :: u32
  at_ctime_sec :: u32
  at_ctime_nsec :: u32

record wcc_pre =
  wp_valid :: bool
  wp_size :: u64
  wp_mtime_sec :: u32
  wp_mtime_nsec :: u32
  wp_ctime_sec :: u32
  wp_ctime_nsec :: u32

text \<open>\<open>SAttr3\<close>: a \<open>set_x\<close> flag with its value is an option; the two time selectors keep their number.\<close>

record sattr3 =
  sa_mode :: "u32 option"
  sa_uid :: "u32 option"
  sa_gid :: "u32 option"
  sa_size :: "u64 option"
  sa_set_atime :: u32
  sa_atime :: "u32 \<times> u32"
  sa_set_mtime :: u32
  sa_mtime :: "u32 \<times> u32"

record xdr_reader =
  xr_data :: bytes
  xr_pos :: nat
  xr_err :: bool

record xdr_buf =
  xb_data :: bytes
  xb_cap :: nat
  xb_err :: bool
  xb_mem :: nat

section \<open>Reading\<close>

definition xdr_fail :: "xdr_reader \<Rightarrow> xdr_reader" where
  "xdr_fail r = r\<lparr>xr_err := True\<rparr>"

definition be32 :: "bytes \<Rightarrow> u32" where
  "be32 p = push_bit 24 (ucast (p ! 0)) OR push_bit 16 (ucast (p ! 1)) OR push_bit 8 (ucast (p ! 2)) OR ucast (p ! 3)"

definition xdr_get_u32 :: "xdr_reader \<Rightarrow> u32 \<times> xdr_reader" where
  "xdr_get_u32 r =
     (if xr_err r \<or> length (xr_data r) < xr_pos r + 4 then (0, xdr_fail r)
      else (be32 (bslice (xr_pos r) 4 (xr_data r)), r\<lparr>xr_pos := xr_pos r + 4\<rparr>))"

definition xdr_get_u64 :: "xdr_reader \<Rightarrow> u64 \<times> xdr_reader" where
  "xdr_get_u64 r =
     (let (hi, r1) = xdr_get_u32 r; (lo, r2) = xdr_get_u32 r1
      in (push_bit 32 (ucast hi) OR ucast lo, r2))"

text \<open>The padding to a multiple of four bytes, \<open>(4 - (n & 3)) & 3\<close>.\<close>

definition xdr_pad :: "nat \<Rightarrow> nat" where
  "xdr_pad n = (4 - n mod 4) mod 4"

definition xdr_get_fixed :: "nat \<Rightarrow> xdr_reader \<Rightarrow> bytes option \<times> xdr_reader" where
  "xdr_get_fixed n r =
     (let room = length (xr_data r) - xr_pos r; pad = xdr_pad n
      in if xr_err r \<or> room < n \<or> room - n < pad then (None, xdr_fail r)
         else (Some (bslice (xr_pos r) n (xr_data r)), r\<lparr>xr_pos := xr_pos r + (n + pad)\<rparr>))"

definition xdr_skip_opaque :: "nat \<Rightarrow> xdr_reader \<Rightarrow> bool \<times> xdr_reader" where
  "xdr_skip_opaque max_len r =
     (let (n, r1) = xdr_get_u32 r
      in if xr_err r1 \<or> max_len < unat n then (False, xdr_fail r1)
         else (case xdr_get_fixed (unat n) r1 of (None, r2) \<Rightarrow> (False, r2) | (Some _, r2) \<Rightarrow> (True, r2)))"

definition xdr_get_str :: "nat \<Rightarrow> xdr_reader \<Rightarrow> bytes option \<times> xdr_reader" where
  "xdr_get_str cap r =
     (let (n, r1) = xdr_get_u32 r
      in if xr_err r1 \<or> cap = 0 \<or> cap \<le> unat n then (None, xdr_fail r1)
         else (case xdr_get_fixed (unat n) r1 of
             (None, r2) \<Rightarrow> (None, r2)
           | (Some s, r2) \<Rightarrow> if 0 \<in> set s then (None, xdr_fail r2) else (Some s, r2)))"

definition xdr_get_opaque_ptr :: "nat \<Rightarrow> xdr_reader \<Rightarrow> bytes option \<times> xdr_reader" where
  "xdr_get_opaque_ptr max_len r =
     (let (w, r1) = xdr_get_u32 r; n = unat w; pad = xdr_pad n; room = length (xr_data r1) - xr_pos r1
      in if xr_err r1 \<or> max_len < n \<or> room < n \<or> room - n < pad then (None, xdr_fail r1)
         else (Some (bslice (xr_pos r1) n (xr_data r1)), r1\<lparr>xr_pos := xr_pos r1 + (n + pad)\<rparr>))"

definition be64 :: "bytes \<Rightarrow> u64" where
  "be64 p = push_bit 56 (ucast (p ! 0)) OR push_bit 48 (ucast (p ! 1)) OR push_bit 40 (ucast (p ! 2))
     OR push_bit 32 (ucast (p ! 3)) OR push_bit 24 (ucast (p ! 4)) OR push_bit 16 (ucast (p ! 5))
     OR push_bit 8 (ucast (p ! 6)) OR ucast (p ! 7)"

definition MOUNTD_FH_LEN :: nat where
  "MOUNTD_FH_LEN = 8"

text \<open>A file handle: the inode number and the flag \<open>bad_fh\<close>.\<close>

definition xdr_get_fh :: "xdr_reader \<Rightarrow> (u64 \<times> bool) option \<times> xdr_reader" where
  "xdr_get_fh r =
     (case xdr_get_opaque_ptr 64 r of
        (None, r1) \<Rightarrow> (None, r1)
      | (Some p, r1) \<Rightarrow>
          if length p \<noteq> MOUNTD_FH_LEN then (Some (0, True), r1)
          else (Some (be64 p, be64 p = 0), r1))"

text \<open>One optional attribute of \<open>sattr3\<close>: a flag, then the value if the flag is not zero.\<close>

definition xdr_get_opt :: "(xdr_reader \<Rightarrow> 'a \<times> xdr_reader) \<Rightarrow> xdr_reader \<Rightarrow> 'a option \<times> xdr_reader" where
  "xdr_get_opt get r =
     (let (flag, r1) = xdr_get_u32 r
      in if flag \<noteq> 0 then (let (v, r2) = get r1 in (Some v, r2)) else (None, r1))"

definition SET_TO_CLIENT_TIME :: u32 where
  "SET_TO_CLIENT_TIME = 2"

definition xdr_get_time :: "xdr_reader \<Rightarrow> (u32 \<times> u32 \<times> u32) \<times> xdr_reader" where
  "xdr_get_time r =
     (let (how, r1) = xdr_get_u32 r
      in if how = SET_TO_CLIENT_TIME then (let (s, r2) = xdr_get_u32 r1; (ns, r3) = xdr_get_u32 r2 in ((how, s, ns), r3))
         else ((how, 0, 0), r1))"

definition xdr_get_sattr3 :: "xdr_reader \<Rightarrow> sattr3 option \<times> xdr_reader" where
  "xdr_get_sattr3 r =
     (let (mode, r1) = xdr_get_opt xdr_get_u32 r;
          (uid, r2) = xdr_get_opt xdr_get_u32 r1;
          (gid, r3) = xdr_get_opt xdr_get_u32 r2;
          (size, r4) = xdr_get_opt xdr_get_u64 r3;
          ((ah, as, an), r5) = xdr_get_time r4;
          ((mh, ms, mn), r6) = xdr_get_time r5
      in (if xr_err r6 then None
          else Some \<lparr>sa_mode = mode, sa_uid = uid, sa_gid = gid, sa_size = size,
                     sa_set_atime = ah, sa_atime = (as, an), sa_set_mtime = mh, sa_mtime = (ms, mn)\<rparr>, r6))"

section \<open>Writing\<close>

text \<open>\<open>while (ncap < need) ncap *= 2\<close>, from a capacity that is not 0.\<close>

function xdr_grow :: "nat \<Rightarrow> nat \<Rightarrow> nat" where
  "xdr_grow ncap need = (if ncap = 0 \<or> need \<le> ncap then ncap else xdr_grow (ncap * 2) need)"
  by pat_completeness auto
termination by (relation "measure (\<lambda>(ncap, need). need - ncap)") auto

declare xdr_grow.simps [simp del]

definition xdr_reserve :: "nat \<Rightarrow> xdr_buf \<Rightarrow> xdr_buf" where
  "xdr_reserve add b =
     (if xb_err b \<or> length (xb_data b) + add \<le> xb_cap b then b
      else let ncap = xdr_grow (if xb_cap b \<noteq> 0 then xb_cap b * 2 else 512) (length (xb_data b) + add)
        in if xb_mem b < ncap then b\<lparr>xb_err := True\<rparr> else b\<lparr>xb_cap := ncap\<rparr>)"

text \<open>Reserve room for the bytes and store them, or leave the buffer with its error flag set.\<close>

definition xdr_emit :: "bytes \<Rightarrow> xdr_buf \<Rightarrow> xdr_buf" where
  "xdr_emit bs b =
     (let b1 = xdr_reserve (length bs) b
      in if xb_err b1 then b1 else b1\<lparr>xb_data := xb_data b1 @ bs\<rparr>)"

definition be32_bytes :: "u32 \<Rightarrow> bytes" where
  "be32_bytes v = [ucast (drop_bit 24 v), ucast (drop_bit 16 v), ucast (drop_bit 8 v), ucast v]"

definition xdr_put_u32 :: "u32 \<Rightarrow> xdr_buf \<Rightarrow> xdr_buf" where
  "xdr_put_u32 v = xdr_emit (be32_bytes v)"

definition xdr_put_u64 :: "u64 \<Rightarrow> xdr_buf \<Rightarrow> xdr_buf" where
  "xdr_put_u64 v b = xdr_put_u32 (ucast v) (xdr_put_u32 (ucast (drop_bit 32 v)) b)"

definition xdr_put_fixed :: "bytes \<Rightarrow> xdr_buf \<Rightarrow> xdr_buf" where
  "xdr_put_fixed src = xdr_emit (src @ replicate (xdr_pad (length src)) 0)"

definition xdr_put_opaque :: "bytes \<Rightarrow> xdr_buf \<Rightarrow> xdr_buf" where
  "xdr_put_opaque src b = xdr_put_fixed src (xdr_put_u32 (of_nat (length src)) b)"

definition xdr_put_str :: "bytes \<Rightarrow> xdr_buf \<Rightarrow> xdr_buf" where
  "xdr_put_str s = xdr_put_opaque s"

definition be64_bytes :: "u64 \<Rightarrow> bytes" where
  "be64_bytes v = map (\<lambda>k. ucast (drop_bit k v)) [56, 48, 40, 32, 24, 16, 8, 0]"

definition xdr_put_fh :: "u64 \<Rightarrow> xdr_buf \<Rightarrow> xdr_buf" where
  "xdr_put_fh ino = xdr_put_opaque (be64_bytes ino)"

definition xdr_put_post_op_fh :: "bool \<Rightarrow> u64 \<Rightarrow> xdr_buf \<Rightarrow> xdr_buf" where
  "xdr_put_post_op_fh present ino b =
     (if \<not> present then xdr_put_u32 0 b else xdr_put_fh ino (xdr_put_u32 1 b))"

definition xdr_put_fattr3 :: "nfs_attr \<Rightarrow> xdr_buf \<Rightarrow> xdr_buf" where
  "xdr_put_fattr3 a b =
     (let b = xdr_put_u32 (at_type a) b;
          b = xdr_put_u32 (at_mode a AND 0xFFF) b;
          b = xdr_put_u32 (at_nlink a) b;
          b = xdr_put_u32 (at_uid a) b;
          b = xdr_put_u32 (at_gid a) b;
          b = xdr_put_u64 (at_size a) b;
          b = xdr_put_u64 (at_used a) b;
          b = xdr_put_u32 (at_rdev1 a) b;
          b = xdr_put_u32 (at_rdev2 a) b;
          b = xdr_put_u64 (at_fsid a) b;
          b = xdr_put_u64 (at_fileid a) b;
          b = xdr_put_u32 (at_atime_sec a) b;
          b = xdr_put_u32 (at_atime_nsec a) b;
          b = xdr_put_u32 (at_mtime_sec a) b;
          b = xdr_put_u32 (at_mtime_nsec a) b;
          b = xdr_put_u32 (at_ctime_sec a) b
      in xdr_put_u32 (at_ctime_nsec a) b)"

text \<open>The attributes are \<open>None\<close> where the code passes \<open>present = 0\<close> or a null pointer.\<close>

definition xdr_put_post_op_attr :: "nfs_attr option \<Rightarrow> xdr_buf \<Rightarrow> xdr_buf" where
  "xdr_put_post_op_attr a b =
     (case a of None \<Rightarrow> xdr_put_u32 0 b | Some x \<Rightarrow> xdr_put_fattr3 x (xdr_put_u32 1 b))"

definition xdr_put_wcc_data :: "wcc_pre option \<Rightarrow> nfs_attr option \<Rightarrow> xdr_buf \<Rightarrow> xdr_buf" where
  "xdr_put_wcc_data pre post b =
     xdr_put_post_op_attr post
      (case pre of
         None \<Rightarrow> xdr_put_u32 0 b
       | Some p \<Rightarrow>
           if wp_valid p then
             (let b = xdr_put_u32 1 b;
                  b = xdr_put_u64 (wp_size p) b;
                  b = xdr_put_u32 (wp_mtime_sec p) b;
                  b = xdr_put_u32 (wp_mtime_nsec p) b;
                  b = xdr_put_u32 (wp_ctime_sec p) b
              in xdr_put_u32 (wp_ctime_nsec p) b)
           else xdr_put_u32 0 b)"

definition attr_to_wcc_pre :: "nfs_attr option \<Rightarrow> wcc_pre" where
  "attr_to_wcc_pre a =
     (case a of
        Some x \<Rightarrow> \<lparr>wp_valid = True, wp_size = at_size x, wp_mtime_sec = at_mtime_sec x, wp_mtime_nsec = at_mtime_nsec x,
                   wp_ctime_sec = at_ctime_sec x, wp_ctime_nsec = at_ctime_nsec x\<rparr>
      | None \<Rightarrow> \<lparr>wp_valid = False, wp_size = 0, wp_mtime_sec = 0, wp_mtime_nsec = 0, wp_ctime_sec = 0, wp_ctime_nsec = 0\<rparr>)"

section \<open>What a reader may do\<close>

text \<open>
  \<open>adv r r'\<close>: the message is the same, the position has not gone back and is still inside the message,
  an error is kept and stops the reader.
\<close>

definition adv :: "xdr_reader \<Rightarrow> xdr_reader \<Rightarrow> bool" where
  "adv r r' \<longleftrightarrow> xr_data r' = xr_data r \<and> xr_pos r \<le> xr_pos r' \<and>
     (xr_err r \<longrightarrow> xr_err r' \<and> xr_pos r' = xr_pos r) \<and>
     (xr_pos r \<le> length (xr_data r) \<longrightarrow> xr_pos r' \<le> length (xr_data r))"

lemma adv_refl [simp]: "adv r r"
  by (simp add: adv_def)

lemma adv_trans [trans]: "adv r r1 \<Longrightarrow> adv r1 r2 \<Longrightarrow> adv r r2"
  by (auto simp: adv_def)

lemma adv_fail [simp]: "adv r (xdr_fail r)"
  by (simp add: adv_def xdr_fail_def)

lemma fail_err [simp]: "xr_err (xdr_fail r)"
  by (simp add: xdr_fail_def)

lemma adv_get_u32: "xdr_get_u32 r = (v, r') \<Longrightarrow> adv r r'"
  by (auto simp: xdr_get_u32_def adv_def xdr_fail_def split: if_splits)

lemma adv_get_u64: "xdr_get_u64 r = (v, r') \<Longrightarrow> adv r r'"
  by (auto simp: xdr_get_u64_def Let_def split: prod.splits intro: adv_trans dest!: adv_get_u32)

lemma adv_get_fixed: "xdr_get_fixed n r = (v, r') \<Longrightarrow> adv r r'"
  by (auto simp: xdr_get_fixed_def Let_def adv_def xdr_fail_def split: if_splits)

lemma adv_skip_opaque: "xdr_skip_opaque m r = (v, r') \<Longrightarrow> adv r r'"
  by (auto simp: xdr_skip_opaque_def Let_def split: prod.splits if_splits option.splits
      intro: adv_trans dest!: adv_get_u32 adv_get_fixed)

lemma adv_get_str: "xdr_get_str m r = (v, r') \<Longrightarrow> adv r r'"
  by (auto simp: xdr_get_str_def Let_def split: prod.splits if_splits option.splits
      intro: adv_trans dest!: adv_get_u32 adv_get_fixed)

lemma adv_get_opaque_ptr: "xdr_get_opaque_ptr m r = (v, r') \<Longrightarrow> adv r r'"
proof -
  assume a: "xdr_get_opaque_ptr m r = (v, r')"
  obtain w r1 where u: "xdr_get_u32 r = (w, r1)" by fastforce
  have "adv r1 r'"
    using a u by (auto simp: xdr_get_opaque_ptr_def Let_def adv_def xdr_fail_def split: if_splits)
  with adv_get_u32 [OF u] show ?thesis by (rule adv_trans)
qed

lemma adv_get_fh: "xdr_get_fh r = (v, r') \<Longrightarrow> adv r r'"
  by (auto simp: xdr_get_fh_def split: prod.splits if_splits option.splits dest!: adv_get_opaque_ptr)

lemma adv_get_opt:
  "(\<And>r v r'. get r = (v, r') \<Longrightarrow> adv r r') \<Longrightarrow> xdr_get_opt get r = (v, r') \<Longrightarrow> adv r r'"
  by (auto simp: xdr_get_opt_def Let_def split: prod.splits if_splits intro: adv_trans dest!: adv_get_u32)

lemma adv_get_time: "xdr_get_time r = (v, r') \<Longrightarrow> adv r r'"
  by (auto simp: xdr_get_time_def Let_def split: prod.splits if_splits intro: adv_trans dest!: adv_get_u32)

lemma adv_get_sattr3: "xdr_get_sattr3 r = (v, r') \<Longrightarrow> adv r r'"
proof -
  assume a: "xdr_get_sattr3 r = (v, r')"
  obtain m r1 where 1: "xdr_get_opt xdr_get_u32 r = (m, r1)" by fastforce
  obtain u r2 where 2: "xdr_get_opt xdr_get_u32 r1 = (u, r2)" by fastforce
  obtain g r3 where 3: "xdr_get_opt xdr_get_u32 r2 = (g, r3)" by fastforce
  obtain s r4 where 4: "xdr_get_opt xdr_get_u64 r3 = (s, r4)" by fastforce
  obtain at r5 where 5: "xdr_get_time r4 = (at, r5)" by fastforce
  obtain mt r6 where 6: "xdr_get_time r5 = (mt, r6)" by fastforce
  have "r' = r6" using a 1 2 3 4 5 6 by (auto simp: xdr_get_sattr3_def Let_def split: prod.splits)
  moreover have "adv r r1" "adv r1 r2" "adv r2 r3" "adv r3 r4" "adv r4 r5" "adv r5 r6"
    using 1 2 3 4 5 6 by (blast intro: adv_get_opt adv_get_u32 adv_get_u64 adv_get_time)+
  ultimately show ?thesis by (blast intro: adv_trans)
qed

lemmas adv_intros = adv_get_u32 adv_get_u64 adv_get_fixed adv_skip_opaque adv_get_str adv_get_opaque_ptr
  adv_get_fh adv_get_sattr3

section \<open>What a write does\<close>

lemma xdr_grow_le: "xdr_grow ncap need \<le> max ncap (2 * need)"
proof (induction ncap need rule: xdr_grow.induct)
  case (1 ncap need)
  then show ?case by (subst xdr_grow.simps) force
qed

lemma xdr_grow_ge: "0 < ncap \<Longrightarrow> need \<le> xdr_grow ncap need \<and> ncap \<le> xdr_grow ncap need"
proof (induction ncap need rule: xdr_grow.induct)
  case (1 ncap need)
  then show ?case by (subst (1 2) xdr_grow.simps) force
qed

definition buf_ok :: "xdr_buf \<Rightarrow> bool" where
  "buf_ok b \<longleftrightarrow> length (xb_data b) \<le> xb_cap b \<and> (xb_cap b \<le> xb_mem b \<or> xb_cap b = 0)"

text \<open>
  \<open>wrote b b' e\<close>: either the buffer ran out of memory, or exactly the bytes \<open>e\<close> were appended; the
  data never exceeds the allocation; and memory for twice the data (and the first 512 bytes) is enough.
\<close>

definition mem_for :: "xdr_buf \<Rightarrow> nat \<Rightarrow> bool" where
  "mem_for b n \<longleftrightarrow> \<not> xb_err b \<and> 512 \<le> xb_mem b \<and> 2 * (length (xb_data b) + n) \<le> xb_mem b"

definition wrote :: "xdr_buf \<Rightarrow> xdr_buf \<Rightarrow> bytes \<Rightarrow> bool" where
  "wrote b b' e \<longleftrightarrow> (xb_err b' \<or> \<not> xb_err b \<and> xb_data b' = xb_data b @ e) \<and>
     (xb_err b \<longrightarrow> b' = b) \<and> xb_mem b' = xb_mem b \<and> (buf_ok b \<longrightarrow> buf_ok b') \<and>
     (\<exists>t. xb_data b' = xb_data b @ t) \<and> (mem_for b (length e) \<longrightarrow> \<not> xb_err b')"

lemma wrote_trans:
  assumes 1: "wrote b b1 e1" and 2: "wrote b1 b2 e2"
  shows "wrote b b2 (e1 @ e2)"
proof -
  have "\<not> xb_err b2" if a: "mem_for b (length (e1 @ e2))"
  proof -
    have "mem_for b (length e1)" using a by (simp add: mem_for_def)
    then have n1: "\<not> xb_err b1" "xb_data b1 = xb_data b @ e1" "xb_mem b1 = xb_mem b" using 1 by (auto simp: wrote_def)
    then have "mem_for b1 (length e2)" using a by (simp add: mem_for_def)
    with 2 show ?thesis by (simp add: wrote_def)
  qed
  with 1 2 show ?thesis by (auto simp: wrote_def)
qed

lemma wrote_refl: "wrote b b []"
  by (auto simp: wrote_def mem_for_def)

lemma wrote_eq: "wrote b b' e \<Longrightarrow> e = e' \<Longrightarrow> wrote b b' e'"
  by simp

lemma wrote_emit: "wrote b (xdr_emit e b) e"
proof -
  define b1 where "b1 = xdr_reserve (length e) b"
  have k: "xb_data b1 = xb_data b" "xb_mem b1 = xb_mem b" "xb_err b \<Longrightarrow> b1 = b" "\<not> xb_err b1 \<Longrightarrow> \<not> xb_err b"
    by (auto simp: b1_def xdr_reserve_def Let_def)
  have ok: "buf_ok b \<Longrightarrow> buf_ok b1" and room: "\<not> xb_err b1 \<Longrightarrow> length (xb_data b) + length e \<le> xb_cap b1"
    using xdr_grow_ge [of "if xb_cap b \<noteq> 0 then xb_cap b * 2 else 512" "length (xb_data b) + length e"]
    by (auto simp: b1_def xdr_reserve_def Let_def buf_ok_def split: if_splits)
  have mem: "\<not> xb_err b1"
    if "mem_for b (length e)"
    using that xdr_grow_le [of "if xb_cap b \<noteq> 0 then xb_cap b * 2 else 512" "length (xb_data b) + length e"]
    by (auto simp: b1_def xdr_reserve_def Let_def mem_for_def split: if_splits)
  have e: "xdr_emit e b = (if xb_err b1 then b1 else b1\<lparr>xb_data := xb_data b1 @ e\<rparr>)"
    by (simp add: xdr_emit_def b1_def Let_def)
  show ?thesis
  proof (cases "xb_err b1")
    case True
    with k ok mem show ?thesis by (auto simp: wrote_def e)
  next
    case False
    with k ok room show ?thesis by (auto simp: wrote_def e buf_ok_def)
  qed
qed

definition enc_opaque :: "bytes \<Rightarrow> bytes" where
  "enc_opaque s = be32_bytes (of_nat (length s)) @ s @ replicate (xdr_pad (length s)) 0"

definition enc_u64 :: "u64 \<Rightarrow> bytes" where
  "enc_u64 v = be32_bytes (ucast (drop_bit 32 v)) @ be32_bytes (ucast v)"

definition enc_fh :: "u64 \<Rightarrow> bytes" where
  "enc_fh ino = enc_opaque (be64_bytes ino)"

definition enc_post_op_fh :: "bool \<Rightarrow> u64 \<Rightarrow> bytes" where
  "enc_post_op_fh present ino = (if present then be32_bytes 1 @ enc_fh ino else be32_bytes 0)"

definition enc_fattr3 :: "nfs_attr \<Rightarrow> bytes" where
  "enc_fattr3 a = be32_bytes (at_type a) @ be32_bytes (at_mode a AND 0xFFF) @ be32_bytes (at_nlink a)
     @ be32_bytes (at_uid a) @ be32_bytes (at_gid a) @ enc_u64 (at_size a) @ enc_u64 (at_used a)
     @ be32_bytes (at_rdev1 a) @ be32_bytes (at_rdev2 a) @ enc_u64 (at_fsid a) @ enc_u64 (at_fileid a)
     @ be32_bytes (at_atime_sec a) @ be32_bytes (at_atime_nsec a) @ be32_bytes (at_mtime_sec a)
     @ be32_bytes (at_mtime_nsec a) @ be32_bytes (at_ctime_sec a) @ be32_bytes (at_ctime_nsec a)"

definition enc_post_op_attr :: "nfs_attr option \<Rightarrow> bytes" where
  "enc_post_op_attr a = (case a of None \<Rightarrow> be32_bytes 0 | Some x \<Rightarrow> be32_bytes 1 @ enc_fattr3 x)"

definition enc_wcc :: "wcc_pre option \<Rightarrow> nfs_attr option \<Rightarrow> bytes" where
  "enc_wcc pre post = (case pre of
       None \<Rightarrow> be32_bytes 0
     | Some p \<Rightarrow> if wp_valid p then be32_bytes 1 @ enc_u64 (wp_size p) @ be32_bytes (wp_mtime_sec p)
         @ be32_bytes (wp_mtime_nsec p) @ be32_bytes (wp_ctime_sec p) @ be32_bytes (wp_ctime_nsec p)
       else be32_bytes 0) @ enc_post_op_attr post"

lemma wrote_step: "(\<And>b. wrote b (put b) e2) \<Longrightarrow> wrote b b1 e1 \<Longrightarrow> wrote b (put b1) (e1 @ e2)"
  by (blast intro: wrote_trans)

lemma wrote_u32: "wrote b b1 e \<Longrightarrow> wrote b (xdr_put_u32 v b1) (e @ be32_bytes v)"
  by (rule wrote_step) (simp_all add: xdr_put_u32_def wrote_emit)

lemma wrote_u64: "wrote b b1 e \<Longrightarrow> wrote b (xdr_put_u64 v b1) (e @ enc_u64 v)"
  unfolding xdr_put_u64_def enc_u64_def by (rule wrote_eq, (rule wrote_u32)+) simp_all

lemma wrote_fixed: "wrote b b1 e \<Longrightarrow> wrote b (xdr_put_fixed s b1) (e @ s @ replicate (xdr_pad (length s)) 0)"
  by (rule wrote_step) (simp_all add: xdr_put_fixed_def wrote_emit)

lemma wrote_opaque: "wrote b b1 e \<Longrightarrow> wrote b (xdr_put_opaque s b1) (e @ enc_opaque s)"
  unfolding xdr_put_opaque_def enc_opaque_def by (rule wrote_eq, (rule wrote_fixed wrote_u32)+) simp_all

lemma wrote_str: "wrote b b1 e \<Longrightarrow> wrote b (xdr_put_str s b1) (e @ enc_opaque s)"
  unfolding xdr_put_str_def by (rule wrote_opaque)

lemma wrote_fh: "wrote b b1 e \<Longrightarrow> wrote b (xdr_put_fh ino b1) (e @ enc_fh ino)"
  unfolding xdr_put_fh_def enc_fh_def by (rule wrote_opaque)

lemma wrote_post_op_fh: "wrote b b1 e \<Longrightarrow> wrote b (xdr_put_post_op_fh p ino b1) (e @ enc_post_op_fh p ino)"
  using wrote_fh [OF wrote_u32, of b b1 e ino 1] wrote_u32 [of b b1 e 0]
  by (simp add: xdr_put_post_op_fh_def enc_post_op_fh_def)

lemma wrote_fattr3: "wrote b b1 e \<Longrightarrow> wrote b (xdr_put_fattr3 a b1) (e @ enc_fattr3 a)"
  unfolding xdr_put_fattr3_def enc_fattr3_def Let_def
  by (rule wrote_eq, (rule wrote_u32 wrote_u64)+) simp_all

lemma wrote_post_op_attr: "wrote b b1 e \<Longrightarrow> wrote b (xdr_put_post_op_attr a b1) (e @ enc_post_op_attr a)"
  using wrote_fattr3 [OF wrote_u32, of b b1 e _ 1] wrote_u32 [of b b1 e 0]
  by (simp add: xdr_put_post_op_attr_def enc_post_op_attr_def split: option.split)

lemma wrote_wcc_pre:
  "wrote b b1 e \<Longrightarrow> wrote b (xdr_put_u32 (wp_ctime_nsec (p :: wcc_pre)) (xdr_put_u32 (wp_ctime_sec p) (xdr_put_u32 (wp_mtime_nsec p)
      (xdr_put_u32 (wp_mtime_sec p) (xdr_put_u64 (wp_size p) (xdr_put_u32 1 b1))))))
     (e @ be32_bytes 1 @ enc_u64 (wp_size p) @ be32_bytes (wp_mtime_sec p) @ be32_bytes (wp_mtime_nsec p)
      @ be32_bytes (wp_ctime_sec p) @ be32_bytes (wp_ctime_nsec p))"
  by (rule wrote_eq, (rule wrote_u32 wrote_u64)+) simp_all

lemma wrote_wcc: "wrote b b1 e \<Longrightarrow> wrote b (xdr_put_wcc_data pre post b1) (e @ enc_wcc pre post)"
  unfolding xdr_put_wcc_data_def enc_wcc_def Let_def append_assoc [symmetric]
  by (rule wrote_post_op_attr)
    (use wrote_wcc_pre [of b b1 e] wrote_u32 [of b b1 e 0] in \<open>simp split: option.split\<close>)

lemma length_be32_bytes [simp]: "length (be32_bytes v) = 4"
  by (simp add: be32_bytes_def)

lemma length_be64_bytes [simp]: "length (be64_bytes v) = 8"
  by (simp add: be64_bytes_def)

lemma length_enc_u64 [simp]: "length (enc_u64 v) = 8"
  by (simp add: enc_u64_def)

lemma xdr_pad_8 [simp]: "xdr_pad 8 = 0"
  by (simp add: xdr_pad_def)

lemma length_enc_fh [simp]: "length (enc_fh ino) = 12"
  by (simp add: enc_fh_def enc_opaque_def)

lemma length_enc_fattr3 [simp]: "length (enc_fattr3 a) = 84"
  by (simp add: enc_fattr3_def)

lemma length_enc_opaque: "length (enc_opaque s) = 4 + length s + xdr_pad (length s)"
  by (simp add: enc_opaque_def)

lemmas wrote_intros = wrote_u32 wrote_u64 wrote_fixed wrote_opaque wrote_str wrote_fh wrote_post_op_fh wrote_fattr3
  wrote_post_op_attr wrote_wcc


section \<open>Round trips\<close>

lemma be32_foldl: "be32 p = foldl (\<lambda>v i. push_bit 8 v OR ucast (p ! i)) 0 [0, 1, 2, 3]"
  by (rule bit_word_eqI) (auto simp: be32_def bit_simps)

lemma be32_bytes [simp]: "be32 (be32_bytes v) = v"
  using byte_step [of 24 v] byte_step [of 16 v] byte_step [of 8 v] byte_step [of 0 v]
  by (simp add: be32_foldl be32_bytes_def drop_bit_eq_zero_iff_not_bit_last)

lemma be64_foldl: "be64 p = foldl (\<lambda>v i. push_bit 8 v OR ucast (p ! i)) 0 [0, 1, 2, 3, 4, 5, 6, 7]"
  by (rule bit_word_eqI) (auto simp: be64_def bit_simps)

lemma be64_bytes [simp]: "be64 (be64_bytes v) = v"
  using byte_step [of 56 v] byte_step [of 48 v] byte_step [of 40 v] byte_step [of 32 v]
    byte_step [of 24 v] byte_step [of 16 v] byte_step [of 8 v] byte_step [of 0 v]
  by (simp add: be64_foldl be64_bytes_def)

lemma u64_halves: "push_bit 32 (ucast (ucast (drop_bit 32 v) :: u32)) OR ucast (ucast v :: u32) = (v :: u64)"
  by (rule bit_word_eqI) (auto simp: bit_simps)

definition reads_at :: "xdr_reader \<Rightarrow> bytes \<Rightarrow> bool" where
  "reads_at r e \<longleftrightarrow> \<not> xr_err r \<and> xr_pos r + length e \<le> length (xr_data r) \<and> bslice (xr_pos r) (length e) (xr_data r) = e"

definition step_by :: "nat \<Rightarrow> xdr_reader \<Rightarrow> xdr_reader" where
  "step_by n r = r\<lparr>xr_pos := xr_pos r + n\<rparr>"

lemma step_by_simps [simp]: "xr_err (step_by n r) = xr_err r" "xr_data (step_by n r) = xr_data r"
  "xr_pos (step_by n r) = xr_pos r + n" "step_by m (step_by n r) = step_by (n + m) r"
  by (simp_all add: step_by_def)

lemma reads_at_append: "reads_at r (e1 @ e2) \<longleftrightarrow> reads_at r e1 \<and> reads_at (step_by (length e1) r) e2"
  by (auto simp: reads_at_def bslice_def take_add drop_drop add.commute append_eq_conv_conj)

lemma get_u32_at: "reads_at r (be32_bytes v) \<Longrightarrow> xdr_get_u32 r = (v, step_by 4 r)"
  by (simp add: reads_at_def xdr_get_u32_def step_by_def)

lemma get_u64_at: "reads_at r (enc_u64 v) \<Longrightarrow> xdr_get_u64 r = (v, step_by 8 r)"
  unfolding enc_u64_def reads_at_append
  by (auto simp: xdr_get_u64_def u64_halves dest!: get_u32_at)

lemma get_fixed_at:
  "reads_at r (s @ replicate (xdr_pad (length s)) 0) \<Longrightarrow>
   xdr_get_fixed (length s) r = (Some s, step_by (length s + xdr_pad (length s)) r)"
  unfolding reads_at_append
  by (auto simp: xdr_get_fixed_def reads_at_def step_by_def Let_def)

lemma unat_len: "length (s :: bytes) < 2 ^ 32 \<Longrightarrow> unat (of_nat (length s) :: u32) = length s"
  by (rule unat_of_nat_small) simp

lemma get_opaque_at:
  "reads_at r (enc_opaque s) \<Longrightarrow> length s \<le> m \<Longrightarrow> length s < 2 ^ 32 \<Longrightarrow>
   xdr_get_opaque_ptr m r = (Some s, step_by (length (enc_opaque s)) r)"
  unfolding enc_opaque_def reads_at_append
  by (auto simp: xdr_get_opaque_ptr_def get_u32_at Let_def unat_len reads_at_def step_by_def)

lemma get_str_at:
  "reads_at r (enc_opaque s) \<Longrightarrow> length s < cap \<Longrightarrow> length s < 2 ^ 32 \<Longrightarrow> 0 \<notin> set s \<Longrightarrow>
   xdr_get_str cap r = (Some s, step_by (length (enc_opaque s)) r)"
  unfolding enc_opaque_def reads_at_append
  using get_fixed_at [of "step_by 4 r" s]
  by (auto simp: xdr_get_str_def get_u32_at Let_def unat_len reads_at_append) (auto simp: reads_at_def)

lemma get_fh_at: "reads_at r (enc_fh ino) \<Longrightarrow> xdr_get_fh r = (Some (ino, ino = 0), step_by 12 r)"
  using get_opaque_at [of r "be64_bytes ino" 64]
  by (simp add: xdr_get_fh_def MOUNTD_FH_LEN_def enc_fh_def enc_opaque_def)

section \<open>The contract of an XDR field\<close>

text \<open>
  A codec: a writer that appends \<open>enc v\<close> or runs out of memory, and a reader that, at a place where
  \<open>enc v\<close> stands, returns \<open>v\<close> and moves behind it. Two codecs one after the other are a codec.
\<close>

locale xdr_codec =
  fixes put :: "'v \<Rightarrow> xdr_buf \<Rightarrow> xdr_buf"
    and enc :: "'v \<Rightarrow> bytes"
    and get :: "xdr_reader \<Rightarrow> 'v option \<times> xdr_reader"
    and ok :: "'v \<Rightarrow> bool"
  assumes put_wrote: "wrote b (put v b) (enc v)"
    and get_enc: "ok v \<Longrightarrow> reads_at r (enc v) \<Longrightarrow> get r = (Some v, step_by (length (enc v)) r)"
begin

lemma get_put:
  assumes "ok v" and "\<not> xb_err (put v b)"
  shows "get \<lparr>xr_data = xb_data (put v b) @ rest, xr_pos = length (xb_data b), xr_err = False\<rparr> =
    (Some v, \<lparr>xr_data = xb_data (put v b) @ rest, xr_pos = length (xb_data (put v b)), xr_err = False\<rparr>)"
proof -
  have "xb_data (put v b) = xb_data b @ enc v"
    using put_wrote [of b v] assms(2) by (simp add: wrote_def)
  then show ?thesis
    using get_enc [OF assms(1), of "\<lparr>xr_data = xb_data (put v b) @ rest, xr_pos = length (xb_data b), xr_err = False\<rparr>"]
    by (simp add: reads_at_def bslice_def step_by_def)
qed

end

locale xdr_codec_pair = a: xdr_codec put1 enc1 get1 ok1 + b: xdr_codec put2 enc2 get2 ok2
  for put1 :: "'v \<Rightarrow> xdr_buf \<Rightarrow> xdr_buf" and enc1 get1 ok1
    and put2 :: "'w \<Rightarrow> xdr_buf \<Rightarrow> xdr_buf" and enc2 get2 ok2

sublocale xdr_codec_pair \<subseteq> pair: xdr_codec "\<lambda>(v, w) b. put2 w (put1 v b)" "\<lambda>(v, w). enc1 v @ enc2 w"
    "\<lambda>r. case get1 r of (None, r1) \<Rightarrow> (None, r1) | (Some v, r1) \<Rightarrow>
           (case get2 r1 of (None, r2) \<Rightarrow> (None, r2) | (Some w, r2) \<Rightarrow> (Some (v, w), r2))"
    "\<lambda>(v, w). ok1 v \<and> ok2 w"
  by unfold_locales
    (auto intro: wrote_trans a.put_wrote b.put_wrote simp: reads_at_append a.get_enc b.get_enc)

text \<open>The getters without an error result of their own report through the reader's flag.\<close>

definition checked :: "(xdr_reader \<Rightarrow> 'v \<times> xdr_reader) \<Rightarrow> xdr_reader \<Rightarrow> 'v option \<times> xdr_reader" where
  "checked get r = (let (v, r') = get r in (if xr_err r' then None else Some v, r'))"

interpretation u32: xdr_codec xdr_put_u32 be32_bytes "checked xdr_get_u32" "\<lambda>_. True"
  using wrote_u32 [OF wrote_refl]
  by unfold_locales (auto simp: checked_def get_u32_at, simp add: reads_at_def)

interpretation u64: xdr_codec xdr_put_u64 enc_u64 "checked xdr_get_u64" "\<lambda>_. True"
  using wrote_u64 [OF wrote_refl]
  by unfold_locales (auto simp: checked_def get_u64_at, simp add: reads_at_def)

interpretation str: xdr_codec xdr_put_str enc_opaque "xdr_get_str 1025" "\<lambda>s. length s < 1025 \<and> 0 \<notin> set s"
  using wrote_str [OF wrote_refl]
  by unfold_locales (simp_all add: get_str_at)

interpretation fh: xdr_codec xdr_put_fh enc_fh "\<lambda>r. case xdr_get_fh r of (Some (ino, False), r') \<Rightarrow> (Some ino, r') | (_, r') \<Rightarrow> (None, r')"
    "\<lambda>ino. ino \<noteq> 0"
  using wrote_fh [OF wrote_refl]
  by unfold_locales (simp_all add: get_fh_at)

interpretation diropargs: xdr_codec_pair xdr_put_fh enc_fh
    "\<lambda>r. case xdr_get_fh r of (Some (ino, False), r') \<Rightarrow> (Some ino, r') | (_, r') \<Rightarrow> (None, r')" "\<lambda>ino. ino \<noteq> 0"
    xdr_put_str enc_opaque "xdr_get_str 1025" "\<lambda>s. length s < 1025 \<and> 0 \<notin> set s"
  ..


end
