(* ===== verification/MountCache.thy ===== *)
theory MountCache
  imports Prelude
begin

text \<open>
  The parent cache of \<open>macos/src/mountd_nfs.c\<close>: a hash table with linear probing from an inode number
  to that of its directory, and its one client, \<open>ntfs_resolve_parent_ino\<close>.

  A slot is \<open>None\<close> while \<open>used\<close> is 0. The table has \<open>PARENT_CACHE_CAP\<close> slots; the operations take its
  length from the list, and the invariant fixes it.
\<close>

section \<open>The table\<close>

type_synonym pcache = "(u64 \<times> u64) option list"

definition PARENT_CACHE_CAP :: nat where
  "PARENT_CACHE_CAP = 16384"

definition cache_idx :: "u64 \<Rightarrow> u32" where
  "cache_idx child = ucast (drop_bit 50 (child * 11400714819323198485)) AND (of_nat PARENT_CACHE_CAP - 1)"

definition cache_slot :: "u64 \<Rightarrow> nat \<Rightarrow> nat" where
  "cache_slot child probe = unat ((cache_idx child + of_nat probe) AND (of_nat PARENT_CACHE_CAP - 1))"

text \<open>The two probe loops; \<open>n\<close> counts the probes that are left.\<close>

fun cache_set_loop :: "nat \<Rightarrow> nat \<Rightarrow> u64 \<Rightarrow> u64 \<Rightarrow> pcache \<Rightarrow> pcache option" where
  "cache_set_loop 0 probe child parent t = None"
| "cache_set_loop (Suc n) probe child parent t =
     (let s = cache_slot child probe
      in case t ! s of
           None \<Rightarrow> Some (t[s := Some (child, parent)])
         | Some (c, p) \<Rightarrow> if c = child then Some (t[s := Some (child, parent)])
             else cache_set_loop n (Suc probe) child parent t)"

definition cache_set_parent :: "u64 \<Rightarrow> u64 \<Rightarrow> pcache \<Rightarrow> pcache" where
  "cache_set_parent child parent t =
     (if child = 0 \<or> parent = 0 then t
      else case cache_set_loop PARENT_CACHE_CAP 0 child parent t of
        Some t' \<Rightarrow> t'
      | None \<Rightarrow> t[unat (cache_idx child) := Some (child, parent)])"

fun cache_get_loop :: "nat \<Rightarrow> nat \<Rightarrow> u64 \<Rightarrow> pcache \<Rightarrow> u64 option" where
  "cache_get_loop 0 probe child t = None"
| "cache_get_loop (Suc n) probe child t =
     (case t ! cache_slot child probe of
        None \<Rightarrow> None
      | Some (c, p) \<Rightarrow> if c = child then Some p else cache_get_loop n (Suc probe) child t)"

definition cache_get_parent :: "u64 \<Rightarrow> pcache \<Rightarrow> u64 option" where
  "cache_get_parent child t = (if child = 0 then None else cache_get_loop PARENT_CACHE_CAP 0 child t)"

section \<open>Probing visits every slot once\<close>

lemma mask_cap: "(of_nat PARENT_CACHE_CAP - 1 :: u32) = mask 14"
  by (simp add: PARENT_CACHE_CAP_def mask_eq_exp_minus_1)

lemma unat_and_cap: "unat (x AND (of_nat PARENT_CACHE_CAP - 1) :: u32) = unat x mod PARENT_CACHE_CAP"
  unfolding mask_cap take_bit_eq_mask [symmetric] unsigned_take_bit_eq
  by (simp add: take_bit_eq_mod PARENT_CACHE_CAP_def)

lemma cap_pos [simp]: "0 < PARENT_CACHE_CAP"
  by (simp add: PARENT_CACHE_CAP_def)

lemma unat_idx: "unat (cache_idx c) < PARENT_CACHE_CAP"
  by (simp only: cache_idx_def unat_and_cap) simp

lemma cache_slot_mod:
  assumes "k < PARENT_CACHE_CAP"
  shows "cache_slot c k = (unat (cache_idx c) + k) mod PARENT_CACHE_CAP"
proof -
  have "unat (of_nat k :: u32) = k"
    using assms by (intro unat_of_nat_small) (simp add: PARENT_CACHE_CAP_def)
  moreover have "unat (cache_idx c) + k < 2 ^ 32"
    using unat_idx [of c] assms by (simp add: PARENT_CACHE_CAP_def)
  ultimately have "unat (cache_idx c + of_nat k) = unat (cache_idx c) + k"
    by (simp add: unat_word_ariths)
  then show ?thesis by (simp add: cache_slot_def unat_and_cap)
qed

lemma cache_slot_less: "cache_slot c k < PARENT_CACHE_CAP"
  by (simp add: cache_slot_def unat_and_cap)

lemma cache_slot_0: "cache_slot c 0 = unat (cache_idx c)"
  using unat_idx [of c] by (simp add: cache_slot_mod)

lemma cache_slot_inj:
  assumes "j < PARENT_CACHE_CAP" "k < PARENT_CACHE_CAP" "cache_slot c j = cache_slot c k"
  shows "j = k"
proof -
  have m: "(unat (cache_idx c) + i) mod PARENT_CACHE_CAP =
      (if unat (cache_idx c) + i < PARENT_CACHE_CAP then unat (cache_idx c) + i
       else unat (cache_idx c) + i - PARENT_CACHE_CAP)" if "i < PARENT_CACHE_CAP" for i
    using that unat_idx [of c] by (simp add: mod_if)
  then show ?thesis
    using assms unat_idx [of c] by (auto simp: cache_slot_mod split: if_splits)
qed

lemma cache_slot_surj: "s < PARENT_CACHE_CAP \<Longrightarrow> \<exists>k < PARENT_CACHE_CAP. cache_slot c k = s"
proof -
  assume s: "s < PARENT_CACHE_CAP"
  have "cache_slot c ` {..<PARENT_CACHE_CAP} = {..<PARENT_CACHE_CAP}"
    by (intro endo_inj_surj) (auto simp: cache_slot_less inj_on_def intro: cache_slot_inj)
  with s show ?thesis by (metis imageE lessThan_iff)
qed

section \<open>The loops as a search for the first slot\<close>

text \<open>\<open>passed c k t\<close>: the first \<open>k\<close> slots on the probe path of \<open>c\<close> hold other inodes.\<close>

definition passed :: "u64 \<Rightarrow> nat \<Rightarrow> nat \<Rightarrow> pcache \<Rightarrow> bool" where
  "passed c from k t \<longleftrightarrow> (\<forall>j. from \<le> j \<and> j < k \<longrightarrow> (\<exists>c' p'. t ! cache_slot c j = Some (c', p') \<and> c' \<noteq> c))"

lemma passed_refl [simp]: "passed c k k t"
  by (auto simp: passed_def)

lemma passed_Suc:
  "t ! cache_slot c from = Some (c', p') \<Longrightarrow> c' \<noteq> c \<Longrightarrow> passed c (Suc from) k t \<Longrightarrow> passed c from k t"
  unfolding passed_def by (metis Suc_leI le_neq_implies_less)

lemma cache_get_loop_Some:
  "cache_get_loop n probe c t = Some p \<Longrightarrow> \<exists>k. probe \<le> k \<and> k < probe + n \<and> t ! cache_slot c k = Some (c, p)"
proof (induction n arbitrary: probe)
  case 0
  then show ?case by simp
next
  case (Suc n)
  from Suc.prems consider "t ! cache_slot c probe = Some (c, p)" | "cache_get_loop n (Suc probe) c t = Some p"
    by (auto split: option.splits if_splits)
  then show ?case
  proof cases
    case 1
    then show ?thesis by (intro exI [of _ probe]) simp
  next
    case 2
    from Suc.IH [OF 2] obtain k where "Suc probe \<le> k" "k < Suc probe + n" "t ! cache_slot c k = Some (c, p)" by blast
    then show ?thesis by (intro exI [of _ k]) simp
  qed
qed

lemma cache_get_loop_found:
  "passed c probe k t \<Longrightarrow> probe \<le> k \<Longrightarrow> k < probe + n \<Longrightarrow> t ! cache_slot c k = Some (c, p) \<Longrightarrow>
   cache_get_loop n probe c t = Some p"
proof (induction n arbitrary: probe)
  case 0
  then show ?case by simp
next
  case (Suc n)
  show ?case
  proof (cases "probe = k")
    case True
    with Suc.prems show ?thesis by simp
  next
    case False
    then obtain c' p' where "t ! cache_slot c probe = Some (c', p')" "c' \<noteq> c"
      using Suc.prems(1,2) by (fastforce simp: passed_def)
    moreover have "passed c (Suc probe) k t" using Suc.prems(1) by (simp add: passed_def)
    ultimately show ?thesis using Suc.IH [of "Suc probe"] Suc.prems False by simp
  qed
qed

lemma cache_set_loop_Some:
  "cache_set_loop n probe c v t = Some t' \<Longrightarrow>
   \<exists>k. probe \<le> k \<and> k < probe + n \<and> passed c probe k t \<and> t' = t[cache_slot c k := Some (c, v)] \<and>
     (t ! cache_slot c k = None \<or> (\<exists>v'. t ! cache_slot c k = Some (c, v')))"
proof (induction n arbitrary: probe)
  case 0
  then show ?case by simp
next
  case (Suc n)
  show ?case
  proof (cases "t ! cache_slot c probe")
    case None
    with Suc.prems show ?thesis by (intro exI [of _ probe]) (simp add: Let_def)
  next
    case (Some e)
    obtain c' p' where e: "e = (c', p')" by fastforce
    show ?thesis
    proof (cases "c' = c")
      case True
      with Some e Suc.prems show ?thesis by (intro exI [of _ probe]) (simp add: Let_def)
    next
      case False
      with Some e Suc.prems have "cache_set_loop n (Suc probe) c v t = Some t'" by (simp add: Let_def)
      from Suc.IH [OF this] obtain k where k: "Suc probe \<le> k" "k < Suc probe + n" "passed c (Suc probe) k t"
        "t' = t[cache_slot c k := Some (c, v)]" "t ! cache_slot c k = None \<or> (\<exists>v'. t ! cache_slot c k = Some (c, v'))" by blast
      with passed_Suc [OF Some [unfolded e] False k(3)] show ?thesis by (intro exI [of _ k]) simp
    qed
  qed
qed

lemma cache_set_loop_None:
  "cache_set_loop n probe c v t = None \<Longrightarrow> passed c probe (probe + n) t"
proof (induction n arbitrary: probe)
  case 0
  then show ?case by simp
next
  case (Suc n)
  from Suc.prems obtain c' p' where s: "t ! cache_slot c probe = Some (c', p')" "c' \<noteq> c"
      "cache_set_loop n (Suc probe) c v t = None"
    by (auto simp: Let_def split: option.splits if_splits)
  from Suc.IH [OF s(3)] have "passed c (Suc probe) (probe + Suc n) t" by simp
  then show ?case by (rule passed_Suc [OF s(1,2)])
qed

section \<open>The invariant\<close>

text \<open>
  Every entry stands on the probe path of its inode, behind slots that hold other inodes; so a lookup
  reaches it before it meets an empty slot, and no inode has two entries.
\<close>

definition cache_ok :: "pcache \<Rightarrow> bool" where
  "cache_ok t \<longleftrightarrow> length t = PARENT_CACHE_CAP \<and>
     (\<forall>s < PARENT_CACHE_CAP. \<forall>c p. t ! s = Some (c, p) \<longrightarrow>
        c \<noteq> 0 \<and> (\<exists>k < PARENT_CACHE_CAP. s = cache_slot c k \<and> passed c 0 k t))"

lemma cache_ok_empty: "cache_ok (replicate PARENT_CACHE_CAP None)"
  by (simp add: cache_ok_def)

lemma cache_get_iff:
  assumes "cache_ok t"
  shows "cache_get_parent c t = Some p \<longleftrightarrow> Some (c, p) \<in> set t"
proof
  assume "cache_get_parent c t = Some p"
  then obtain k where "k < PARENT_CACHE_CAP" "t ! cache_slot c k = Some (c, p)"
    by (auto simp: cache_get_parent_def split: if_splits dest: cache_get_loop_Some)
  with assms cache_slot_less [of c k] show "Some (c, p) \<in> set t"
    by (metis cache_ok_def nth_mem)
next
  assume "Some (c, p) \<in> set t"
  then obtain s where s: "s < PARENT_CACHE_CAP" "t ! s = Some (c, p)"
    using assms by (auto simp: in_set_conv_nth cache_ok_def)
  with assms obtain k where "c \<noteq> 0" "k < PARENT_CACHE_CAP" "s = cache_slot c k" "passed c 0 k t"
    unfolding cache_ok_def by blast
  with s cache_get_loop_found [of c 0 k t PARENT_CACHE_CAP p] show "cache_get_parent c t = Some p"
    by (simp add: cache_get_parent_def)
qed

text \<open>What \<open>cache_set_parent\<close> does: one slot on the path of \<open>c\<close> is replaced; with a free slot in the table
  it was empty or held \<open>c\<close>, otherwise it may have held another inode, and then \<open>c\<close> was not in the table.\<close>

lemma cache_set_parent_cases:
  assumes ok: "cache_ok t" and nz: "c \<noteq> 0" "v \<noteq> 0"
  obtains k where "k < PARENT_CACHE_CAP" "passed c 0 k t" "cache_set_parent c v t = t[cache_slot c k := Some (c, v)]"
    "t ! cache_slot c k = None \<or> (\<exists>v'. t ! cache_slot c k = Some (c, v')) \<or>
     None \<notin> set t \<and> (\<forall>v'. Some (c, v') \<notin> set t)"
proof (cases "cache_set_loop PARENT_CACHE_CAP 0 c v t")
  case (Some t')
  from cache_set_loop_Some [OF this] obtain k where "k < PARENT_CACHE_CAP" "passed c 0 k t"
    "t' = t[cache_slot c k := Some (c, v)]" "t ! cache_slot c k = None \<or> (\<exists>v'. t ! cache_slot c k = Some (c, v'))" by auto
  with Some nz show thesis by (intro that [of k]) (auto simp: cache_set_parent_def)
next
  case None
  have len: "length t = PARENT_CACHE_CAP" using ok by (simp add: cache_ok_def)
  from cache_set_loop_None [OF None] have all: "passed c 0 PARENT_CACHE_CAP t" by simp
  have "e \<noteq> None \<and> (\<forall>v'. e \<noteq> Some (c, v'))" if et: "e \<in> set t" for e
  proof -
    obtain s where s: "s < PARENT_CACHE_CAP" "t ! s = e" using et len by (auto simp: in_set_conv_nth)
    then obtain k where "k < PARENT_CACHE_CAP" "cache_slot c k = s" using cache_slot_surj by blast
    with all s show ?thesis by (fastforce simp: passed_def)
  qed
  then have "None \<notin> set t \<and> (\<forall>v'. Some (c, v') \<notin> set t)" by blast
  with None nz show thesis by (intro that [of 0]) (auto simp: cache_set_parent_def passed_def cache_slot_0)
qed

lemma passed_update:
  assumes "passed d 0 k t" "length t = PARENT_CACHE_CAP" "s < PARENT_CACHE_CAP" "c \<noteq> d"
  shows "passed d 0 k (t[s := Some (c, v)])"
proof -
  have "\<exists>c' p'. t[s := Some (c, v)] ! cache_slot d j = Some (c', p') \<and> c' \<noteq> d" if "j < k" for j
  proof (cases "cache_slot d j = s")
    case True
    with assms(2,3,4) show ?thesis by simp
  next
    case False
    with that assms(1) show ?thesis by (simp add: passed_def)
  qed
  then show ?thesis by (simp add: passed_def)
qed

lemma cache_set_ok: "cache_ok t \<Longrightarrow> cache_ok (cache_set_parent c v t)"
proof (cases "c = 0 \<or> v = 0")
  case True
  then show "cache_ok t \<Longrightarrow> ?thesis" by (simp add: cache_set_parent_def)
next
  case False
  assume ok: "cache_ok t"
  then have len: "length t = PARENT_CACHE_CAP" by (simp add: cache_ok_def)
  obtain k where k: "k < PARENT_CACHE_CAP" "passed c 0 k t" "cache_set_parent c v t = t[cache_slot c k := Some (c, v)]"
    "t ! cache_slot c k = None \<or> (\<exists>v'. t ! cache_slot c k = Some (c, v')) \<or>
     None \<notin> set t \<and> (\<forall>v'. Some (c, v') \<notin> set t)"
    using cache_set_parent_cases [OF ok] False by blast
  let ?s = "cache_slot c k" and ?t = "t[cache_slot c k := Some (c, v)]"
  have new: "passed c 0 k ?t"
    unfolding passed_def
  proof (intro allI impI)
    fix j assume j: "0 \<le> j \<and> j < k"
    then have "cache_slot c j \<noteq> ?s" using cache_slot_inj [of j k c] k(1) by auto
    with j k(2) show "\<exists>c' p'. ?t ! cache_slot c j = Some (c', p') \<and> c' \<noteq> c" by (simp add: passed_def)
  qed
  have "d \<noteq> 0 \<and> (\<exists>k' < PARENT_CACHE_CAP. s = cache_slot d k' \<and> passed d 0 k' ?t)"
    if s: "s < PARENT_CACHE_CAP" "?t ! s = Some (d, p)" for s d p
  proof (cases "s = ?s")
    case True
    with s len have "d = c" by simp
    with True False k(1) new show ?thesis by blast
  next
    case ne: False
    with s have ts: "t ! s = Some (d, p)" by simp
    with ok s(1) obtain k' where k': "d \<noteq> 0" "k' < PARENT_CACHE_CAP" "s = cache_slot d k'" "passed d 0 k' t"
      unfolding cache_ok_def by blast
    have "d \<noteq> c"
    proof
      assume dc: "d = c"
      have "k' \<noteq> k" using ne k'(3) dc by auto
      then consider "k' < k" | "k < k'" by linarith
      then show False
      proof cases
        case 1
        with k(2) ts k'(3) dc show False by (auto simp: passed_def)
      next
        case 2
        with k'(4) dc obtain c' p' where "t ! ?s = Some (c', p')" "c' \<noteq> c" by (auto simp: passed_def)
        moreover have "Some (c, p) \<in> set t" using ts s(1) len dc by (metis nth_mem)
        ultimately show False using k(4) by auto
      qed
    qed
    then have "passed d 0 k' ?t" by (intro passed_update [OF k'(4) len cache_slot_less]) simp
    with k' show ?thesis by blast
  qed
  then show ?thesis using len by (simp add: k(3) cache_ok_def)
qed

lemma cache_get_set_same: "cache_ok t \<Longrightarrow> c \<noteq> 0 \<Longrightarrow> v \<noteq> 0 \<Longrightarrow> cache_get_parent c (cache_set_parent c v t) = Some v"
proof -
  assume ok: "cache_ok t" and nz: "c \<noteq> 0" "v \<noteq> 0"
  obtain k where "cache_set_parent c v t = t[cache_slot c k := Some (c, v)]"
    using cache_set_parent_cases [OF ok nz] by blast
  moreover have "cache_slot c k < length t" using ok cache_slot_less by (simp add: cache_ok_def)
  ultimately have "Some (c, v) \<in> set (cache_set_parent c v t)" by (simp add: set_update_memI)
  then show ?thesis using cache_get_iff [OF cache_set_ok [OF ok]] by simp
qed

lemma cache_get_set_other:
  assumes ok: "cache_ok t" and d: "d \<noteq> c"
  shows "cache_get_parent d (cache_set_parent c v t) = cache_get_parent d t \<or> cache_get_parent d (cache_set_parent c v t) = None"
    and "None \<in> set t \<Longrightarrow> cache_get_parent d (cache_set_parent c v t) = cache_get_parent d t"
proof -
  have main: "(cache_get_parent d (cache_set_parent c v t) = cache_get_parent d t \<or> cache_get_parent d (cache_set_parent c v t) = None) \<and>
     (None \<in> set t \<longrightarrow> cache_get_parent d (cache_set_parent c v t) = cache_get_parent d t)"
  proof (cases "c = 0 \<or> v = 0")
    case True
    then show ?thesis by (simp add: cache_set_parent_def)
  next
    case False
    then obtain k where k: "cache_set_parent c v t = t[cache_slot c k := Some (c, v)]"
      "t ! cache_slot c k = None \<or> (\<exists>v'. t ! cache_slot c k = Some (c, v')) \<or>
       None \<notin> set t \<and> (\<forall>v'. Some (c, v') \<notin> set t)"
      using cache_set_parent_cases [OF ok] by blast
    let ?t = "t[cache_slot c k := Some (c, v)]"
    have len: "length t = PARENT_CACHE_CAP" using ok by (simp add: cache_ok_def)
    note ok' = cache_set_ok [OF ok, of c v, unfolded k(1)]
    have sub: "Some (d, p) \<in> set ?t \<Longrightarrow> Some (d, p) \<in> set t" for p
      using set_update_subset_insert [of t "cache_slot c k" "Some (c, v)"] d by auto
    have sup: "Some (d, p) \<in> set ?t" if dp: "Some (d, p) \<in> set t" "None \<in> set t" for p
    proof -
      obtain s where s: "s < PARENT_CACHE_CAP" "t ! s = Some (d, p)" using dp(1) len by (auto simp: in_set_conv_nth)
      then have "s \<noteq> cache_slot c k" using k(2) d dp(2) by auto
      with s len show ?thesis by (metis length_list_update nth_list_update_neq nth_mem)
    qed
    show ?thesis
      using sub sup cache_get_iff [OF ok, of d] cache_get_iff [OF ok', of d] unfolding k(1)
      by (metis not_None_eq)
  qed
  from main show "cache_get_parent d (cache_set_parent c v t) = cache_get_parent d t \<or> cache_get_parent d (cache_set_parent c v t) = None" ..
  from main show "None \<in> set t \<Longrightarrow> cache_get_parent d (cache_set_parent c v t) = cache_get_parent d t" by blast
qed

section \<open>The contract of a cache, and its client\<close>

text \<open>
  A lossy map: what is stored is found; other keys keep their value or are forgotten, and are kept as
  long as the store has room.
\<close>

locale lossy_map =
  fixes get :: "'k \<Rightarrow> 'm \<Rightarrow> 'v option"
    and set :: "'k \<Rightarrow> 'v \<Rightarrow> 'm \<Rightarrow> 'm"
    and inv :: "'m \<Rightarrow> bool"
    and storable :: "'k \<Rightarrow> 'v \<Rightarrow> bool"
  assumes inv_set: "inv m \<Longrightarrow> inv (set k v m)"
    and get_set_same: "inv m \<Longrightarrow> storable k v \<Longrightarrow> get k (set k v m) = Some v"
    and get_set_other: "inv m \<Longrightarrow> j \<noteq> k \<Longrightarrow> get j (set k v m) = get j m \<or> get j (set k v m) = None"
    and set_not_storable: "\<not> storable k v \<Longrightarrow> set k v m = m"
begin

text \<open>A cache that only holds true entries still does after a true entry is stored.\<close>

lemma sound_set:
  assumes "inv m" "\<forall>j w. get j m = Some w \<longrightarrow> f j = w" "f k = v"
  shows "\<forall>j w. get j (set k v m) = Some w \<longrightarrow> f j = w"
proof (cases "storable k v")
  case True
  show ?thesis
  proof (intro allI impI)
    fix j w assume g: "get j (set k v m) = Some w"
    show "f j = w"
    proof (cases "j = k")
      case True
      with g get_set_same [OF assms(1) \<open>storable k v\<close>] assms(3) show ?thesis by simp
    next
      case False
      with g get_set_other [OF assms(1) False, of v] assms(2) show ?thesis by auto
    qed
  qed
next
  case False
  with assms(2) show ?thesis by (simp add: set_not_storable)
qed

end

locale roomy_map = lossy_map get set inv storable
  for get :: "'k \<Rightarrow> 'm \<Rightarrow> 'v option" and set :: "'k \<Rightarrow> 'v \<Rightarrow> 'm \<Rightarrow> 'm" and inv storable +
  fixes room :: "'m \<Rightarrow> bool"
  assumes get_set_room: "inv m \<Longrightarrow> room m \<Longrightarrow> j \<noteq> k \<Longrightarrow> get j (set k v m) = get j m"
begin

lemma get_set:
  "inv m \<Longrightarrow> room m \<Longrightarrow> storable k v \<Longrightarrow> get j (set k v m) = (if j = k then Some v else get j m)"
  using get_set_same get_set_room by auto

end

interpretation pc: roomy_map cache_get_parent cache_set_parent cache_ok "\<lambda>c v. c \<noteq> 0 \<and> v \<noteq> 0" "\<lambda>t. None \<in> set t"
proof unfold_locales
  fix m :: pcache and j k v :: u64
  show "cache_ok m \<Longrightarrow> cache_ok (cache_set_parent k v m)" by (rule cache_set_ok)
  show "cache_ok m \<Longrightarrow> k \<noteq> 0 \<and> v \<noteq> 0 \<Longrightarrow> cache_get_parent k (cache_set_parent k v m) = Some v"
    by (simp add: cache_get_set_same)
  show "cache_ok m \<Longrightarrow> j \<noteq> k \<Longrightarrow>
      cache_get_parent j (cache_set_parent k v m) = cache_get_parent j m \<or> cache_get_parent j (cache_set_parent k v m) = None"
    by (rule cache_get_set_other(1))
  show "\<not> (k \<noteq> 0 \<and> v \<noteq> 0) \<Longrightarrow> cache_set_parent k v m = m" by (simp add: cache_set_parent_def)
  show "cache_ok m \<Longrightarrow> None \<in> set m \<Longrightarrow> j \<noteq> k \<Longrightarrow> cache_get_parent j (cache_set_parent k v m) = cache_get_parent j m"
    by (rule cache_get_set_other(2))
qed

text \<open>
  \<open>ntfs_resolve_parent_ino\<close>. \<open>lookup\<close> is \<open>ntfs_dir_parent_inode\<close> of libntfs-3g for the open inode, with the
  number of the inode it returns; it is \<open>None\<close> when there is no open inode or the library fails.
\<close>

definition FILE_root :: u64 where
  "FILE_root = 5"

definition ntfs_resolve_parent_ino :: "u64 option \<Rightarrow> u64 \<Rightarrow> pcache \<Rightarrow> u64 \<times> pcache" where
  "ntfs_resolve_parent_ino lookup ino t =
     (if ino = FILE_root then (FILE_root, t)
      else case cache_get_parent ino t of
        Some p \<Rightarrow> if p \<noteq> 0 then (p, t) else
          (case lookup of Some p \<Rightarrow> if p \<noteq> 0 then (p, cache_set_parent ino p t) else (0, t) | None \<Rightarrow> (0, t))
      | None \<Rightarrow>
          (case lookup of Some p \<Rightarrow> if p \<noteq> 0 then (p, cache_set_parent ino p t) else (0, t) | None \<Rightarrow> (0, t)))"

section \<open>Properties\<close>

text \<open>
  The parent cache behaves as a map that may forget: what was stored last for an
  inode is found, every other inode keeps its parent or is forgotten, and none is forgotten while the
  table has an empty slot; the probing invariant is kept.
\<close>

theorem parent_cache_map:
  assumes "cache_ok t" "c \<noteq> 0" "v \<noteq> 0"
  shows "cache_ok (cache_set_parent c v t) \<and> cache_get_parent c (cache_set_parent c v t) = Some v \<and>
    (\<forall>d. d \<noteq> c \<longrightarrow> cache_get_parent d (cache_set_parent c v t) \<in> {cache_get_parent d t, None} \<and>
       (None \<in> set t \<longrightarrow> cache_get_parent d (cache_set_parent c v t) = cache_get_parent d t))"
  using assms pc.inv_set pc.get_set_same pc.get_set_other pc.get_set_room by simp

text \<open>
  If every entry of the cache is the true parent of its inode, and the library
  only reports true parents, then \<open>ntfs_resolve_parent_ino\<close> answers with the true parent or with 0 for
  unknown, and the cache it leaves is again sound and well formed.
\<close>

theorem resolve_parent_sound:
  assumes ok: "cache_ok t" and sound: "\<forall>j w. cache_get_parent j t = Some w \<longrightarrow> f j = w"
    and lib: "\<forall>p. lookup = Some p \<longrightarrow> f ino = p" and root: "f FILE_root = FILE_root"
    and res: "ntfs_resolve_parent_ino lookup ino t = (p, t')"
  shows "(p = f ino \<or> p = 0) \<and> cache_ok t' \<and> (\<forall>j w. cache_get_parent j t' = Some w \<longrightarrow> f j = w)"
proof -
  from res lib root sound
  have "(p = f ino \<or> p = 0) \<and> (t' = t \<or> t' = cache_set_parent ino p t \<and> f ino = p)"
    by (simp add: ntfs_resolve_parent_ino_def split: if_splits option.splits) blast+
  then show ?thesis
    using pc.inv_set [OF ok] pc.sound_set [OF ok sound] ok sound by metis
qed

end
