(* ===== verification/MountNfs.thy ===== *)
theory MountNfs
  imports MountXdr
begin

text \<open>
  The MOUNTv3 and NFSv3 procedures and the RPC dispatcher of \<open>macos/src/mountd_nfs.c\<close>.

  The two backends, NTFS through libntfs-3g and ext through libext2fs, are records of operations over
  a file-system state \<open>'s\<close>; the \<open>fs_\<close> functions choose between them by the kind of the volume, as in the
  code. An operation returns its status, its results and the new state. Where the code has an output
  \<open>NfsAttr\<close> with a flag saying whether it is valid, the result is an option. A name is the bytes of the
  C string. \<open>malloc\<close> in READ does not fail in the model.
\<close>

section \<open>Constants\<close>

definition NFS3_OK :: u32 where "NFS3_OK = 0"
definition NFS3ERR_STALE :: u32 where "NFS3ERR_STALE = 70"
definition NFS3ERR_BADHANDLE :: u32 where "NFS3ERR_BADHANDLE = 10001"
definition NFS3ERR_NOT_SYNC :: u32 where "NFS3ERR_NOT_SYNC = 10002"
definition NFS3ERR_NOTSUPP :: u32 where "NFS3ERR_NOTSUPP = 10004"
definition NFS3ERR_TOOSMALL :: u32 where "NFS3ERR_TOOSMALL = 10005"
definition NF3DIR :: u32 where "NF3DIR = 2"
definition MOUNTD_MAX_IO_SIZE :: u32 where "MOUNTD_MAX_IO_SIZE = 1024 * 1024"

section \<open>Backends\<close>

record fsstat_info =
  fi_tbytes :: u64
  fi_fbytes :: u64
  fi_abytes :: u64
  fi_tfiles :: u64
  fi_ffiles :: u64
  fi_afiles :: u64

record 's fs_backend =
  fb_sync :: "'s \<Rightarrow> 's"
  fb_getattr :: "u64 \<Rightarrow> 's \<Rightarrow> (u32 \<times> nfs_attr) \<times> 's"
  fb_setattr :: "u64 \<Rightarrow> sattr3 \<Rightarrow> 's \<Rightarrow> (u32 \<times> nfs_attr) \<times> 's"
  fb_lookup :: "u64 \<Rightarrow> bytes \<Rightarrow> 's \<Rightarrow> (u32 \<times> u64 \<times> nfs_attr) \<times> 's"
  fb_readlink :: "u64 \<Rightarrow> 's \<Rightarrow> (u32 \<times> bytes \<times> nfs_attr option) \<times> 's"
  fb_read :: "u64 \<Rightarrow> u64 \<Rightarrow> u32 \<Rightarrow> 's \<Rightarrow> (u32 \<times> bytes \<times> bool \<times> nfs_attr option) \<times> 's"
  fb_write :: "u64 \<Rightarrow> u64 \<Rightarrow> bytes \<Rightarrow> u32 \<Rightarrow> 's \<Rightarrow> (u32 \<times> u32 \<times> u32 \<times> wcc_pre \<times> nfs_attr option) \<times> 's"
  fb_create :: "u64 \<Rightarrow> bytes \<Rightarrow> u32 \<Rightarrow> sattr3 option \<Rightarrow> 's \<Rightarrow>
     (u32 \<times> u64 \<times> nfs_attr \<times> wcc_pre \<times> nfs_attr option) \<times> 's"
  fb_mkdir :: "u64 \<Rightarrow> bytes \<Rightarrow> sattr3 \<Rightarrow> 's \<Rightarrow> (u32 \<times> u64 \<times> nfs_attr \<times> wcc_pre \<times> nfs_attr option) \<times> 's"
  fb_symlink :: "u64 \<Rightarrow> bytes \<Rightarrow> sattr3 \<Rightarrow> bytes \<Rightarrow> 's \<Rightarrow>
     (u32 \<times> u64 \<times> nfs_attr \<times> wcc_pre \<times> nfs_attr option) \<times> 's"
  fb_remove :: "u64 \<Rightarrow> bytes \<Rightarrow> 's \<Rightarrow> (u32 \<times> wcc_pre \<times> nfs_attr option) \<times> 's"
  fb_rmdir :: "u64 \<Rightarrow> bytes \<Rightarrow> 's \<Rightarrow> (u32 \<times> wcc_pre \<times> nfs_attr option) \<times> 's"
  fb_rename :: "u64 \<Rightarrow> bytes \<Rightarrow> u64 \<Rightarrow> bytes \<Rightarrow> 's \<Rightarrow>
     (u32 \<times> (wcc_pre \<times> nfs_attr option) \<times> (wcc_pre \<times> nfs_attr option)) \<times> 's"
  fb_link :: "u64 \<Rightarrow> u64 \<Rightarrow> bytes \<Rightarrow> 's \<Rightarrow> (u32 \<times> nfs_attr option \<times> wcc_pre \<times> nfs_attr option) \<times> 's"
  fb_readdir :: "u64 \<Rightarrow> 's \<Rightarrow> (u32 \<times> (u64 \<times> bytes) list \<times> nfs_attr option) \<times> 's"
  fb_fsstat :: "u64 \<Rightarrow> 's \<Rightarrow> (u32 \<times> fsstat_info \<times> nfs_attr option) \<times> 's"
  fb_commit :: "u64 \<Rightarrow> 's \<Rightarrow> (u32 \<times> wcc_pre \<times> nfs_attr option) \<times> 's"

datatype fs_kind = FS_KIND_NTFS | FS_KIND_EXT

text \<open>The globals of the server that the handlers read.\<close>

record 's nfs_srv =
  sv_kind :: fs_kind
  sv_ntfs :: "'s fs_backend"
  sv_ext :: "'s fs_backend"
  sv_writeverf :: bytes

definition fs_root_ino :: "'s nfs_srv \<Rightarrow> u64" where
  "fs_root_ino S = (case sv_kind S of FS_KIND_NTFS \<Rightarrow> 5 | FS_KIND_EXT \<Rightarrow> 2)"

text \<open>The backend of the volume; every \<open>fs_\<close> function is the operation of this backend.\<close>

definition fs_ops :: "'s nfs_srv \<Rightarrow> 's fs_backend" where
  "fs_ops S = (if sv_kind S = FS_KIND_NTFS then sv_ntfs S else sv_ext S)"

definition fs_sync_all :: "'s nfs_srv \<Rightarrow> 's \<Rightarrow> 's" where "fs_sync_all S = fb_sync (fs_ops S)"
definition fs_getattr :: "'s nfs_srv \<Rightarrow> u64 \<Rightarrow> 's \<Rightarrow> (u32 \<times> nfs_attr) \<times> 's" where "fs_getattr S = fb_getattr (fs_ops S)"
definition fs_setattr :: "'s nfs_srv \<Rightarrow> u64 \<Rightarrow> sattr3 \<Rightarrow> 's \<Rightarrow> (u32 \<times> nfs_attr) \<times> 's" where "fs_setattr S = fb_setattr (fs_ops S)"
definition fs_lookup :: "'s nfs_srv \<Rightarrow> u64 \<Rightarrow> bytes \<Rightarrow> 's \<Rightarrow> (u32 \<times> u64 \<times> nfs_attr) \<times> 's" where "fs_lookup S = fb_lookup (fs_ops S)"
definition fs_readlink :: "'s nfs_srv \<Rightarrow> u64 \<Rightarrow> 's \<Rightarrow> (u32 \<times> bytes \<times> nfs_attr option) \<times> 's" where "fs_readlink S = fb_readlink (fs_ops S)"
definition fs_read :: "'s nfs_srv \<Rightarrow> u64 \<Rightarrow> u64 \<Rightarrow> u32 \<Rightarrow> 's \<Rightarrow> (u32 \<times> bytes \<times> bool \<times> nfs_attr option) \<times> 's" where "fs_read S = fb_read (fs_ops S)"
definition fs_write :: "'s nfs_srv \<Rightarrow> u64 \<Rightarrow> u64 \<Rightarrow> bytes \<Rightarrow> u32 \<Rightarrow> 's \<Rightarrow> (u32 \<times> u32 \<times> u32 \<times> wcc_pre \<times> nfs_attr option) \<times> 's" where "fs_write S = fb_write (fs_ops S)"
definition fs_create :: "'s nfs_srv \<Rightarrow> u64 \<Rightarrow> bytes \<Rightarrow> u32 \<Rightarrow> sattr3 option \<Rightarrow> 's \<Rightarrow> (u32 \<times> u64 \<times> nfs_attr \<times> wcc_pre \<times> nfs_attr option) \<times> 's" where "fs_create S = fb_create (fs_ops S)"
definition fs_mkdir :: "'s nfs_srv \<Rightarrow> u64 \<Rightarrow> bytes \<Rightarrow> sattr3 \<Rightarrow> 's \<Rightarrow> (u32 \<times> u64 \<times> nfs_attr \<times> wcc_pre \<times> nfs_attr option) \<times> 's" where "fs_mkdir S = fb_mkdir (fs_ops S)"
definition fs_symlink :: "'s nfs_srv \<Rightarrow> u64 \<Rightarrow> bytes \<Rightarrow> sattr3 \<Rightarrow> bytes \<Rightarrow> 's \<Rightarrow> (u32 \<times> u64 \<times> nfs_attr \<times> wcc_pre \<times> nfs_attr option) \<times> 's" where "fs_symlink S = fb_symlink (fs_ops S)"
definition fs_remove :: "'s nfs_srv \<Rightarrow> u64 \<Rightarrow> bytes \<Rightarrow> 's \<Rightarrow> (u32 \<times> wcc_pre \<times> nfs_attr option) \<times> 's" where "fs_remove S = fb_remove (fs_ops S)"
definition fs_rmdir :: "'s nfs_srv \<Rightarrow> u64 \<Rightarrow> bytes \<Rightarrow> 's \<Rightarrow> (u32 \<times> wcc_pre \<times> nfs_attr option) \<times> 's" where "fs_rmdir S = fb_rmdir (fs_ops S)"
definition fs_rename :: "'s nfs_srv \<Rightarrow> u64 \<Rightarrow> bytes \<Rightarrow> u64 \<Rightarrow> bytes \<Rightarrow> 's \<Rightarrow> (u32 \<times> (wcc_pre \<times> nfs_attr option) \<times> (wcc_pre \<times> nfs_attr option)) \<times> 's" where "fs_rename S = fb_rename (fs_ops S)"
definition fs_link :: "'s nfs_srv \<Rightarrow> u64 \<Rightarrow> u64 \<Rightarrow> bytes \<Rightarrow> 's \<Rightarrow> (u32 \<times> nfs_attr option \<times> wcc_pre \<times> nfs_attr option) \<times> 's" where "fs_link S = fb_link (fs_ops S)"
definition fs_readdir :: "'s nfs_srv \<Rightarrow> u64 \<Rightarrow> 's \<Rightarrow> (u32 \<times> (u64 \<times> bytes) list \<times> nfs_attr option) \<times> 's" where "fs_readdir S = fb_readdir (fs_ops S)"
definition fs_fsstat :: "'s nfs_srv \<Rightarrow> u64 \<Rightarrow> 's \<Rightarrow> (u32 \<times> fsstat_info \<times> nfs_attr option) \<times> 's" where "fs_fsstat S = fb_fsstat (fs_ops S)"
definition fs_commit :: "'s nfs_srv \<Rightarrow> u64 \<Rightarrow> 's \<Rightarrow> (u32 \<times> wcc_pre \<times> nfs_attr option) \<times> 's" where "fs_commit S = fb_commit (fs_ops S)"

section \<open>MOUNTv3\<close>

text \<open>The results 0, -1 and -2 of a handler.\<close>

datatype hrc = Handled | GarbageArgs | ProcUnavail

type_synonym 's hout = "hrc \<times> xdr_buf \<times> 's"

text \<open>
  Garbage arguments: the handler stops when a getter fails. \<open>getting\<close> runs a getter that reports its own
  failure, \<open>guarded\<close> checks the sticky flag of the reader.
\<close>

definition getting :: "'a option \<times> xdr_reader \<Rightarrow> xdr_buf \<Rightarrow> 's \<Rightarrow> ('a \<Rightarrow> xdr_reader \<Rightarrow> 's hout) \<Rightarrow> 's hout" where
  "getting g out s k = (case g of (None, _) \<Rightarrow> (GarbageArgs, out, s) | (Some x, r) \<Rightarrow> k x r)"

definition guarded :: "xdr_reader \<Rightarrow> xdr_buf \<Rightarrow> 's \<Rightarrow> 's hout \<Rightarrow> 's hout" where
  "guarded r out s h = (if xr_err r then (GarbageArgs, out, s) else h)"

definition handle_mount_proc :: "'s nfs_srv \<Rightarrow> u32 \<Rightarrow> xdr_reader \<Rightarrow> xdr_buf \<Rightarrow> 's \<Rightarrow> 's hout" where
  "handle_mount_proc S proc r out s =
     (if proc = 0 then (Handled, out, s)
      else if proc = 1 then
        getting (xdr_get_str 1025 r) out s (\<lambda>dirpath r.
          if dirpath \<noteq> [0x2F] \<and> dirpath \<noteq> [] then (Handled, xdr_put_u32 2 out, s)
          else (let b = xdr_put_u32 0 out;
                    b = xdr_put_fh (fs_root_ino S) b;
                    b = xdr_put_u32 2 b;
                    b = xdr_put_u32 1 b;
                    b = xdr_put_u32 0 b
                in (Handled, b, s)))
      else if proc = 2 then (Handled, xdr_put_u32 0 out, s)
      else if proc = 3 then
        getting (xdr_get_str 1025 r) out s (\<lambda>dirpath r. (Handled, out, fs_sync_all S s))
      else if proc = 4 then (Handled, out, fs_sync_all S s)
      else if proc = 5 then
        (let b = xdr_put_u32 1 out;
             b = xdr_put_str [0x2F] b;
             b = xdr_put_u32 1 b;
             b = xdr_put_str (map of_char ''127.0.0.1'') b;
             b = xdr_put_u32 0 b;
             b = xdr_put_u32 0 b
         in (Handled, b, s))
      else (ProcUnavail, out, s))"

section \<open>NFSv3\<close>

text \<open>The replies to a bad handle: a status followed by empty attributes.\<close>

definition bad_handle_attr :: "xdr_buf \<Rightarrow> 's \<Rightarrow> 's hout" where
  "bad_handle_attr out s = (Handled, xdr_put_post_op_attr None (xdr_put_u32 NFS3ERR_BADHANDLE out), s)"

definition bad_handle_wcc :: "xdr_buf \<Rightarrow> 's \<Rightarrow> 's hout" where
  "bad_handle_wcc out s = (Handled, xdr_put_wcc_data None None (xdr_put_u32 NFS3ERR_BADHANDLE out), s)"

definition nfs_getattr :: "'s nfs_srv \<Rightarrow> xdr_reader \<Rightarrow> xdr_buf \<Rightarrow> 's \<Rightarrow> 's hout" where
  "nfs_getattr S r out s =
     getting (xdr_get_fh r) out s (\<lambda>(ino, bad_fh) r.
       if bad_fh then (Handled, xdr_put_u32 NFS3ERR_BADHANDLE out, s)
       else (let ((st, attr), s) = fs_getattr S ino s; b = xdr_put_u32 st out
             in (Handled, if st = NFS3_OK then xdr_put_fattr3 attr b else b, s)))"

definition nfs_setattr :: "'s nfs_srv \<Rightarrow> xdr_reader \<Rightarrow> xdr_buf \<Rightarrow> 's \<Rightarrow> 's hout" where
  "nfs_setattr S r out s =
     getting (xdr_get_fh r) out s (\<lambda>(ino, bad_fh) r.
     getting (xdr_get_sattr3 r) out s (\<lambda>sattr r.
       let (guard_check, r) = xdr_get_u32 r;
           ((g_sec, g_nsec), r) = (if guard_check \<noteq> 0
              then (let (a, r) = xdr_get_u32 r; (b, r) = xdr_get_u32 r in ((a, b), r)) else ((0, 0), r))
       in guarded r out s
         (if bad_fh then bad_handle_wcc out s
          else let ((st0, attr), s) = fs_getattr S ino s;
                   pre_ok = (st0 = NFS3_OK);
                   pre = attr_to_wcc_pre (if pre_ok then Some attr else None)
            in if \<not> pre_ok then (Handled, xdr_put_wcc_data (Some pre) None (xdr_put_u32 NFS3ERR_STALE out), s)
               else if guard_check \<noteq> 0 \<and> (at_ctime_sec attr \<noteq> g_sec \<or> at_ctime_nsec attr \<noteq> g_nsec)
               then (Handled, xdr_put_wcc_data (Some pre) (Some attr) (xdr_put_u32 NFS3ERR_NOT_SYNC out), s)
               else let ((st, attr2), s) = fs_setattr S ino sattr s;
                        (post, s) = (if st = NFS3_OK then (Some attr2, s)
                          else let ((st2, attr2), s) = fs_getattr S ino s
                            in (if st2 = NFS3_OK then Some attr2 else None, s))
                 in (Handled, xdr_put_wcc_data (Some pre) post (xdr_put_u32 st out), s))))"

definition nfs_lookup :: "'s nfs_srv \<Rightarrow> xdr_reader \<Rightarrow> xdr_buf \<Rightarrow> 's \<Rightarrow> 's hout" where
  "nfs_lookup S r out s =
     getting (xdr_get_fh r) out s (\<lambda>(dir_ino, bad_fh) r.
     getting (xdr_get_str 1025 r) out s (\<lambda>name r.
       if bad_fh then bad_handle_attr out s
       else let ((st, child, attr), s) = fs_lookup S dir_ino name s;
                ((dst, dir_attr), s) = fs_getattr S dir_ino s;
                b = xdr_put_u32 st out;
                b = (if st = NFS3_OK then xdr_put_post_op_attr (Some attr) (xdr_put_fh child b) else b)
         in (Handled, xdr_put_post_op_attr (if dst = NFS3_OK then Some dir_attr else None) b, s)))"

definition access_allowed :: "nfs_attr \<Rightarrow> u32" where
  "access_allowed attr =
     (let allowed = 0x0001 OR 0x0004 OR 0x0008
      in if at_type attr = NF3DIR then allowed OR (0x0002 OR 0x0010) else allowed OR 0x0020)"

definition nfs_access :: "'s nfs_srv \<Rightarrow> xdr_reader \<Rightarrow> xdr_buf \<Rightarrow> 's \<Rightarrow> 's hout" where
  "nfs_access S r out s =
     getting (xdr_get_fh r) out s (\<lambda>(ino, bad_fh) r.
       let (req_acc, r) = xdr_get_u32 r
       in guarded r out s
         (if bad_fh then bad_handle_attr out s
          else let ((st, attr), s) = fs_getattr S ino s;
                   b = xdr_put_u32 st out;
                   b = xdr_put_post_op_attr (if st = NFS3_OK then Some attr else None) b
            in (Handled, if st = NFS3_OK then xdr_put_u32 (req_acc AND access_allowed attr) b else b, s)))"

definition nfs_readlink :: "'s nfs_srv \<Rightarrow> xdr_reader \<Rightarrow> xdr_buf \<Rightarrow> 's \<Rightarrow> 's hout" where
  "nfs_readlink S r out s =
     getting (xdr_get_fh r) out s (\<lambda>(ino, bad_fh) r.
       if bad_fh then bad_handle_attr out s
       else let ((st, sym_path, post), s) = fs_readlink S ino s;
                b = xdr_put_post_op_attr post (xdr_put_u32 st out)
         in (Handled, if st = NFS3_OK then xdr_put_str sym_path b else b, s))"

definition nfs_read :: "'s nfs_srv \<Rightarrow> xdr_reader \<Rightarrow> xdr_buf \<Rightarrow> 's \<Rightarrow> 's hout" where
  "nfs_read S r out s =
     getting (xdr_get_fh r) out s (\<lambda>(ino, bad_fh) r.
       let (offset, r) = xdr_get_u64 r; (count, r) = xdr_get_u32 r
       in guarded r out s
         (if bad_fh then bad_handle_attr out s
          else let count = (if MOUNTD_MAX_IO_SIZE < count then MOUNTD_MAX_IO_SIZE else count);
                   ((st, got, eof, post), s) = fs_read S ino offset count s;
                   b = xdr_put_post_op_attr post (xdr_put_u32 st out)
            in (Handled,
                if st = NFS3_OK
                then xdr_put_opaque got (xdr_put_u32 (if eof then 1 else 0) (xdr_put_u32 (of_nat (length got)) b))
                else b, s)))"

definition nfs_write :: "'s nfs_srv \<Rightarrow> xdr_reader \<Rightarrow> xdr_buf \<Rightarrow> 's \<Rightarrow> 's hout" where
  "nfs_write S r out s =
     getting (xdr_get_fh r) out s (\<lambda>(ino, bad_fh) r.
       let (offset, r) = xdr_get_u64 r; (count, r) = xdr_get_u32 r; (stable, r) = xdr_get_u32 r
       in getting (xdr_get_opaque_ptr (unat MOUNTD_MAX_IO_SIZE) r) out s (\<lambda>data r.
         if bad_fh then bad_handle_wcc out s
         else let to_write = (if unat count < length data then unat count else length data);
                  ((st, written, committed, pre, post), s) = fs_write S ino offset (take to_write data) stable s;
                  b = xdr_put_wcc_data (Some pre) post (xdr_put_u32 st out)
           in (Handled,
               if st = NFS3_OK
               then xdr_put_fixed (sv_writeverf S) (xdr_put_u32 committed (xdr_put_u32 written b))
               else b, s)))"

text \<open>The common end of CREATE, MKDIR and SYMLINK.\<close>

definition put_new_object :: "u32 \<times> u64 \<times> nfs_attr \<times> wcc_pre \<times> nfs_attr option \<Rightarrow> xdr_buf \<Rightarrow> xdr_buf" where
  "put_new_object res out =
     (let (st, child, attr, pre, post) = res;
          b = xdr_put_u32 st out;
          b = (if st = NFS3_OK then xdr_put_post_op_attr (Some attr) (xdr_put_post_op_fh True child b) else b)
      in xdr_put_wcc_data (Some pre) post b)"

definition nfs_create :: "'s nfs_srv \<Rightarrow> xdr_reader \<Rightarrow> xdr_buf \<Rightarrow> 's \<Rightarrow> 's hout" where
  "nfs_create S r out s =
     getting (xdr_get_fh r) out s (\<lambda>(dir_ino, bad_fh) r.
     getting (xdr_get_str 1025 r) out s (\<lambda>name r.
       let (cmode, r) = xdr_get_u32 r;
           fin = (\<lambda>sattr. if bad_fh then bad_handle_wcc out s
             else let (res, s) = fs_create S dir_ino name cmode sattr s in (Handled, put_new_object res out, s))
       in if cmode = 0 \<or> cmode = 1 then getting (xdr_get_sattr3 r) out s (\<lambda>sattr r. fin (Some sattr))
          else if cmode = 2 then getting (xdr_get_fixed 8 r) out s (\<lambda>cverf r. fin None)
          else (GarbageArgs, out, s)))"

definition nfs_mkdir :: "'s nfs_srv \<Rightarrow> xdr_reader \<Rightarrow> xdr_buf \<Rightarrow> 's \<Rightarrow> 's hout" where
  "nfs_mkdir S r out s =
     getting (xdr_get_fh r) out s (\<lambda>(dir_ino, bad_fh) r.
     getting (xdr_get_str 1025 r) out s (\<lambda>name r.
     getting (xdr_get_sattr3 r) out s (\<lambda>sattr r.
       if bad_fh then bad_handle_wcc out s
       else let (res, s) = fs_mkdir S dir_ino name sattr s in (Handled, put_new_object res out, s))))"

definition nfs_symlink :: "'s nfs_srv \<Rightarrow> xdr_reader \<Rightarrow> xdr_buf \<Rightarrow> 's \<Rightarrow> 's hout" where
  "nfs_symlink S r out s =
     getting (xdr_get_fh r) out s (\<lambda>(dir_ino, bad_fh) r.
     getting (xdr_get_str 1025 r) out s (\<lambda>name r.
     getting (xdr_get_sattr3 r) out s (\<lambda>sattr r.
     getting (xdr_get_str 1024 r) out s (\<lambda>sym_path r.
       if bad_fh then bad_handle_wcc out s
       else let (res, s) = fs_symlink S dir_ino name sattr sym_path s in (Handled, put_new_object res out, s)))))"

definition nfs_mknod :: "'s nfs_srv \<Rightarrow> xdr_reader \<Rightarrow> xdr_buf \<Rightarrow> 's \<Rightarrow> 's hout" where
  "nfs_mknod S r out s =
     getting (xdr_get_fh r) out s (\<lambda>(dir_ino, bad_fh) r.
     getting (xdr_get_str 1025 r) out s (\<lambda>name r.
       let (ftype, r) = xdr_get_u32 r;
           fin = (\<lambda>r. guarded r out s
             (let (post, s) = (if bad_fh then (None, s)
                    else let ((st, dir_attr), s) = fs_getattr S dir_ino s in (if st = NFS3_OK then Some dir_attr else None, s));
                  b = xdr_put_u32 (if bad_fh then NFS3ERR_BADHANDLE else NFS3ERR_NOTSUPP) out
              in (Handled, xdr_put_wcc_data (Some (attr_to_wcc_pre post)) post b, s)))
       in if ftype = 4 \<or> ftype = 3
          then getting (xdr_get_sattr3 r) out s (\<lambda>sattr r. fin (snd (xdr_get_u32 (snd (xdr_get_u32 r)))))
          else if ftype = 6 \<or> ftype = 7 then getting (xdr_get_sattr3 r) out s (\<lambda>sattr r. fin r)
          else fin r))"

definition nfs_remove :: "'s nfs_srv \<Rightarrow> xdr_reader \<Rightarrow> xdr_buf \<Rightarrow> 's \<Rightarrow> 's hout" where
  "nfs_remove S r out s =
     getting (xdr_get_fh r) out s (\<lambda>(dir_ino, bad_fh) r.
     getting (xdr_get_str 1025 r) out s (\<lambda>name r.
       if bad_fh then bad_handle_wcc out s
       else let ((st, pre, post), s) = fs_remove S dir_ino name s
         in (Handled, xdr_put_wcc_data (Some pre) post (xdr_put_u32 st out), s)))"

definition nfs_rmdir :: "'s nfs_srv \<Rightarrow> xdr_reader \<Rightarrow> xdr_buf \<Rightarrow> 's \<Rightarrow> 's hout" where
  "nfs_rmdir S r out s =
     getting (xdr_get_fh r) out s (\<lambda>(dir_ino, bad_fh) r.
     getting (xdr_get_str 1025 r) out s (\<lambda>name r.
       if bad_fh then bad_handle_wcc out s
       else let ((st, pre, post), s) = fs_rmdir S dir_ino name s
         in (Handled, xdr_put_wcc_data (Some pre) post (xdr_put_u32 st out), s)))"

definition nfs_rename :: "'s nfs_srv \<Rightarrow> xdr_reader \<Rightarrow> xdr_buf \<Rightarrow> 's \<Rightarrow> 's hout" where
  "nfs_rename S r out s =
     getting (xdr_get_fh r) out s (\<lambda>(dir_ino, bad_fh) r.
     getting (xdr_get_str 1025 r) out s (\<lambda>name r.
     getting (xdr_get_fh r) out s (\<lambda>(to_dir_ino, bad_fh2) r.
     getting (xdr_get_str 1025 r) out s (\<lambda>name2 r.
       if bad_fh \<or> bad_fh2
       then (Handled, xdr_put_wcc_data None None (xdr_put_wcc_data None None (xdr_put_u32 NFS3ERR_BADHANDLE out)), s)
       else let ((st, (pre, post), (pre2, post2)), s) = fs_rename S dir_ino name to_dir_ino name2 s
         in (Handled, xdr_put_wcc_data (Some pre2) post2 (xdr_put_wcc_data (Some pre) post (xdr_put_u32 st out)), s)))))"

definition nfs_link :: "'s nfs_srv \<Rightarrow> xdr_reader \<Rightarrow> xdr_buf \<Rightarrow> 's \<Rightarrow> 's hout" where
  "nfs_link S r out s =
     getting (xdr_get_fh r) out s (\<lambda>(ino, bad_fh) r.
     getting (xdr_get_fh r) out s (\<lambda>(dir_ino, bad_fh2) r.
     getting (xdr_get_str 1025 r) out s (\<lambda>name r.
       if bad_fh \<or> bad_fh2
       then (Handled, xdr_put_wcc_data None None (xdr_put_post_op_attr None (xdr_put_u32 NFS3ERR_BADHANDLE out)), s)
       else let ((st, post, pre, dpost), s) = fs_link S ino dir_ino name s
         in (Handled, xdr_put_wcc_data (Some pre) dpost (xdr_put_post_op_attr post (xdr_put_u32 st out)), s))))"

section \<open>Directory listings\<close>

definition xdr_padded_strlen :: "bytes \<Rightarrow> nat" where
  "xdr_padded_strlen s = 4 + length s + xdr_pad (length s)"

text \<open>
  The loop of READDIR over the entries from \<open>idx\<close> on. It stops before an entry that no longer fits, but
  always emits the first one. The result is the index it stopped at.
\<close>

fun readdir_loop :: "nat \<Rightarrow> nat \<Rightarrow> nat \<Rightarrow> nat \<Rightarrow> (u64 \<times> bytes) list \<Rightarrow> xdr_buf \<Rightarrow> nat \<times> xdr_buf" where
  "readdir_loop max_bytes start_len idx emitted [] out = (idx, out)"
| "readdir_loop max_bytes start_len idx emitted ((fileid, name) # es) out =
     (let entry_sz = 4 + 8 + xdr_padded_strlen name + 8;
          used = length (xb_data out) - start_len
      in if 0 < emitted \<and> max_bytes < used + entry_sz + 8 then (idx, out)
         else let b = xdr_put_u32 1 out;
                  b = xdr_put_u64 fileid b;
                  b = xdr_put_str name b;
                  b = xdr_put_u64 (of_nat (idx + 1)) b
           in readdir_loop max_bytes start_len (idx + 1) (emitted + 1) es b)"

definition readdir_start :: "u64 \<Rightarrow> 'a list \<Rightarrow> nat" where
  "readdir_start cookie items = (if unat cookie < length items then unat cookie else length items)"

definition nfs_readdir :: "'s nfs_srv \<Rightarrow> xdr_reader \<Rightarrow> xdr_buf \<Rightarrow> 's \<Rightarrow> 's hout" where
  "nfs_readdir S r out s =
     getting (xdr_get_fh r) out s (\<lambda>(dir_ino, bad_fh) r.
       let (cookie, r) = xdr_get_u64 r
       in getting (xdr_get_fixed 8 r) out s (\<lambda>cverf r.
         let (max_bytes, r) = xdr_get_u32 r
         in guarded r out s
           (if bad_fh then bad_handle_attr out s
            else let ((st, items, post), s) = fs_readdir S dir_ino s
              in if st \<noteq> NFS3_OK then (Handled, xdr_put_post_op_attr post (xdr_put_u32 st out), s)
                 else if max_bytes < 128
                 then (Handled, xdr_put_post_op_attr post (xdr_put_u32 NFS3ERR_TOOSMALL out), s)
                 else let start_len = length (xb_data out);
                          b = xdr_put_u32 NFS3_OK out;
                          b = xdr_put_post_op_attr post b;
                          b = xdr_put_fixed (replicate 8 0) b;
                          i0 = readdir_start cookie items;
                          (idx, b) = readdir_loop (unat max_bytes) start_len i0 0 (drop i0 items) b;
                          b = xdr_put_u32 0 b
                   in (Handled, xdr_put_u32 (if length items \<le> idx then 1 else 0) b, s))))"

fun readdirplus_loop :: "'s nfs_srv \<Rightarrow> nat \<Rightarrow> nat \<Rightarrow> nat \<Rightarrow> nat \<Rightarrow> (u64 \<times> bytes) list \<Rightarrow> xdr_buf \<Rightarrow> 's \<Rightarrow> nat \<times> xdr_buf \<times> 's" where
  "readdirplus_loop S maxcount start_len idx emitted [] out s = (idx, out, s)"
| "readdirplus_loop S maxcount start_len idx emitted ((fileid, name) # es) out s =
     (let entry_sz = 4 + 8 + xdr_padded_strlen name + 8 + 88 + 16;
          used = length (xb_data out) - start_len
      in if 0 < emitted \<and> maxcount < used + entry_sz + 8 then (idx, out, s)
         else let ((st, eattr), s) = fs_getattr S fileid s;
                  eok = (st = NFS3_OK);
                  b = xdr_put_u32 1 out;
                  b = xdr_put_u64 fileid b;
                  b = xdr_put_str name b;
                  b = xdr_put_u64 (of_nat (idx + 1)) b;
                  b = xdr_put_post_op_attr (if eok then Some eattr else None) b;
                  b = xdr_put_post_op_fh eok fileid b
           in readdirplus_loop S maxcount start_len (idx + 1) (emitted + 1) es b s)"

definition nfs_readdirplus :: "'s nfs_srv \<Rightarrow> xdr_reader \<Rightarrow> xdr_buf \<Rightarrow> 's \<Rightarrow> 's hout" where
  "nfs_readdirplus S r out s =
     getting (xdr_get_fh r) out s (\<lambda>(dir_ino, bad_fh) r.
       let (cookie, r) = xdr_get_u64 r
       in getting (xdr_get_fixed 8 r) out s (\<lambda>cverf r.
         let (dircount, r) = xdr_get_u32 r; (maxcount, r) = xdr_get_u32 r
         in guarded r out s
           (if bad_fh then bad_handle_attr out s
            else let ((st, items, post), s) = fs_readdir S dir_ino s
              in if st \<noteq> NFS3_OK then (Handled, xdr_put_post_op_attr post (xdr_put_u32 st out), s)
                 else if maxcount < 256
                 then (Handled, xdr_put_post_op_attr post (xdr_put_u32 NFS3ERR_TOOSMALL out), s)
                 else let start_len = length (xb_data out);
                          b = xdr_put_u32 NFS3_OK out;
                          b = xdr_put_post_op_attr post b;
                          b = xdr_put_fixed (replicate 8 0) b;
                          i0 = readdir_start cookie items;
                          (idx, b, s) = readdirplus_loop S (unat maxcount) start_len i0 0 (drop i0 items) b s;
                          b = xdr_put_u32 0 b
                   in (Handled, xdr_put_u32 (if length items \<le> idx then 1 else 0) b, s))))"

section \<open>File system information\<close>

definition nfs_fsstat :: "'s nfs_srv \<Rightarrow> xdr_reader \<Rightarrow> xdr_buf \<Rightarrow> 's \<Rightarrow> 's hout" where
  "nfs_fsstat S r out s =
     getting (xdr_get_fh r) out s (\<lambda>(ino, bad_fh) r.
       if bad_fh then bad_handle_attr out s
       else let ((st, fsi, post), s) = fs_fsstat S ino s;
                b = xdr_put_post_op_attr post (xdr_put_u32 st out)
         in (Handled,
             if st = NFS3_OK
             then (let b = xdr_put_u64 (fi_tbytes fsi) b;
                       b = xdr_put_u64 (fi_fbytes fsi) b;
                       b = xdr_put_u64 (fi_abytes fsi) b;
                       b = xdr_put_u64 (fi_tfiles fsi) b;
                       b = xdr_put_u64 (fi_ffiles fsi) b;
                       b = xdr_put_u64 (fi_afiles fsi) b
                   in xdr_put_u32 0 b)
             else b, s))"

definition nfs_fsinfo :: "'s nfs_srv \<Rightarrow> xdr_reader \<Rightarrow> xdr_buf \<Rightarrow> 's \<Rightarrow> 's hout" where
  "nfs_fsinfo S r out s =
     getting (xdr_get_fh r) out s (\<lambda>(ino, bad_fh) r.
       if bad_fh then bad_handle_attr out s
       else let ((st, attr), s) = fs_getattr S ino s;
                b = xdr_put_u32 st out;
                b = xdr_put_post_op_attr (if st = NFS3_OK then Some attr else None) b
         in (Handled,
             if st = NFS3_OK
             then (let b = xdr_put_u32 MOUNTD_MAX_IO_SIZE b;
                       b = xdr_put_u32 65536 b;
                       b = xdr_put_u32 4096 b;
                       b = xdr_put_u32 MOUNTD_MAX_IO_SIZE b;
                       b = xdr_put_u32 65536 b;
                       b = xdr_put_u32 4096 b;
                       b = xdr_put_u32 65536 b;
                       b = xdr_put_u64 0x7FFFFFFFFFFFFFFF b;
                       b = xdr_put_u32 1 b;
                       b = xdr_put_u32 0 b
                   in xdr_put_u32 (0x0001 OR 0x0002 OR 0x0008 OR 0x0010) b)
             else b, s))"

definition nfs_pathconf :: "'s nfs_srv \<Rightarrow> xdr_reader \<Rightarrow> xdr_buf \<Rightarrow> 's \<Rightarrow> 's hout" where
  "nfs_pathconf S r out s =
     getting (xdr_get_fh r) out s (\<lambda>(ino, bad_fh) r.
       if bad_fh then bad_handle_attr out s
       else let ((st, attr), s) = fs_getattr S ino s;
                b = xdr_put_u32 st out;
                b = xdr_put_post_op_attr (if st = NFS3_OK then Some attr else None) b
         in (Handled,
             if st = NFS3_OK
             then (let b = xdr_put_u32 1023 b;
                       b = xdr_put_u32 255 b;
                       b = xdr_put_u32 1 b;
                       b = xdr_put_u32 0 b;
                       b = xdr_put_u32 0 b
                   in xdr_put_u32 1 b)
             else b, s))"

definition nfs_commit :: "'s nfs_srv \<Rightarrow> xdr_reader \<Rightarrow> xdr_buf \<Rightarrow> 's \<Rightarrow> 's hout" where
  "nfs_commit S r out s =
     getting (xdr_get_fh r) out s (\<lambda>(ino, bad_fh) r.
       let (offset, r) = xdr_get_u64 r; (count, r) = xdr_get_u32 r
       in guarded r out s
         (if bad_fh then bad_handle_wcc out s
          else let ((st, pre, post), s) = fs_commit S ino s;
                   b = xdr_put_wcc_data (Some pre) post (xdr_put_u32 st out)
            in (Handled, if st = NFS3_OK then xdr_put_fixed (sv_writeverf S) b else b, s)))"

definition handle_nfs_proc :: "'s nfs_srv \<Rightarrow> u32 \<Rightarrow> xdr_reader \<Rightarrow> xdr_buf \<Rightarrow> 's \<Rightarrow> 's hout" where
  "handle_nfs_proc S proc r out s =
     (if proc = 0 then (Handled, out, s)
      else if proc = 1 then nfs_getattr S r out s
      else if proc = 2 then nfs_setattr S r out s
      else if proc = 3 then nfs_lookup S r out s
      else if proc = 4 then nfs_access S r out s
      else if proc = 5 then nfs_readlink S r out s
      else if proc = 6 then nfs_read S r out s
      else if proc = 7 then nfs_write S r out s
      else if proc = 8 then nfs_create S r out s
      else if proc = 9 then nfs_mkdir S r out s
      else if proc = 10 then nfs_symlink S r out s
      else if proc = 11 then nfs_mknod S r out s
      else if proc = 12 then nfs_remove S r out s
      else if proc = 13 then nfs_rmdir S r out s
      else if proc = 14 then nfs_rename S r out s
      else if proc = 15 then nfs_link S r out s
      else if proc = 16 then nfs_readdir S r out s
      else if proc = 17 then nfs_readdirplus S r out s
      else if proc = 18 then nfs_fsstat S r out s
      else if proc = 19 then nfs_fsinfo S r out s
      else if proc = 20 then nfs_pathconf S r out s
      else if proc = 21 then nfs_commit S r out s
      else (ProcUnavail, out, s))"

section \<open>The RPC dispatcher\<close>

text \<open>The result is whether a reply is to be sent (return value 0), the reply and the new state.\<close>

definition dispatch_rpc_call :: "'s nfs_srv \<Rightarrow> bytes \<Rightarrow> xdr_buf \<Rightarrow> 's \<Rightarrow> bool \<times> xdr_buf \<times> 's" where
  "dispatch_rpc_call S msg reply s =
     (let r = \<lparr>xr_data = msg, xr_pos = 0, xr_err = False\<rparr>;
          (xid, r) = xdr_get_u32 r;
          (mtype, r) = xdr_get_u32 r
      in if xr_err r \<or> mtype \<noteq> 0 then (False, reply, s) else
      let (rpcvers, r) = xdr_get_u32 r
      in if xr_err r then (False, reply, s) else
      if rpcvers \<noteq> 2 then
        (let b = xdr_put_u32 xid reply;
             b = xdr_put_u32 1 b;
             b = xdr_put_u32 1 b;
             b = xdr_put_u32 0 b;
             b = xdr_put_u32 2 b;
             b = xdr_put_u32 2 b
         in (\<not> xb_err b, b, s)) else
      let (prog, r) = xdr_get_u32 r;
          (vers, r) = xdr_get_u32 r;
          (proc, r) = xdr_get_u32 r;
          (cred_flavor, r) = xdr_get_u32 r;
          (ok, r) = xdr_skip_opaque 400 r
      in if \<not> ok then (False, reply, s) else
      let (verf_flavor, r) = xdr_get_u32 r;
          (ok, r) = xdr_skip_opaque 400 r
      in if \<not> ok then (False, reply, s) else
      let b = xdr_put_u32 xid reply;
          b = xdr_put_u32 1 b;
          b = xdr_put_u32 0 b;
          b = xdr_put_u32 0 b;
          b = xdr_put_u32 0 b
      in if prog \<noteq> 100005 \<and> prog \<noteq> 100003 then (let b = xdr_put_u32 1 b in (\<not> xb_err b, b, s)) else
      let want_vers = 3
      in if vers \<noteq> want_vers then
        (let b = xdr_put_u32 2 b;
             b = xdr_put_u32 want_vers b;
             b = xdr_put_u32 want_vers b
         in (\<not> xb_err b, b, s)) else
      let stat_pos = length (xb_data b);
          (hrc, b, s) = (if prog = 100005 then handle_mount_proc S proc r (xdr_put_u32 0 b) s
                         else handle_nfs_proc S proc r (xdr_put_u32 0 b) s);
          b = (case hrc of
                 Handled \<Rightarrow> b
               | GarbageArgs \<Rightarrow> xdr_put_u32 4 (b\<lparr>xb_data := take stat_pos (xb_data b)\<rparr>)
               | ProcUnavail \<Rightarrow> xdr_put_u32 3 (b\<lparr>xb_data := take stat_pos (xb_data b)\<rparr>))
      in (\<not> xb_err b, b, s))"

end
