(* ===== verification/MountLib.thy ===== *)
theory MountLib
  imports MountNfs
begin

text \<open>
  Lemmas over the handlers of \<open>MountNfs\<close> that the properties share: a handler that does not answer leaves
  the file system alone, every handler appends whole words to the reply.
\<close>

section \<open>Handlers that do nothing unless they answer\<close>

definition quiet :: "'s hout \<Rightarrow> 's \<Rightarrow> bool" where
  "quiet h s \<longleftrightarrow> (case h of (rc, b, s') \<Rightarrow> rc \<noteq> Handled \<longrightarrow> s' = s)"

lemma quiet_handled [simp]: "quiet (Handled, b, s') s" "quiet (rc, b, s) s"
  by (simp_all add: quiet_def)

lemma quiet_getting: "(\<And>x r. quiet (k x r) s) \<Longrightarrow> quiet (getting g out s k) s"
  by (simp add: getting_def split: option.split prod.split)

lemma quiet_guarded: "quiet h s \<Longrightarrow> quiet (guarded r out s h) s"
  by (simp add: guarded_def)

lemma quiet_bad: "quiet (bad_handle_attr out s) s" "quiet (bad_handle_wcc out s) s"
  by (simp_all add: bad_handle_attr_def bad_handle_wcc_def)

lemmas nfs_defs = nfs_getattr_def nfs_setattr_def nfs_lookup_def nfs_access_def nfs_readlink_def nfs_read_def nfs_write_def
  nfs_create_def nfs_mkdir_def nfs_symlink_def nfs_mknod_def nfs_remove_def nfs_rmdir_def nfs_rename_def nfs_link_def
  nfs_readdir_def nfs_readdirplus_def nfs_fsstat_def nfs_fsinfo_def nfs_pathconf_def nfs_commit_def

lemma quiet_nfs:
  "quiet (nfs_getattr S r out s) s" "quiet (nfs_setattr S r out s) s" "quiet (nfs_lookup S r out s) s"
  "quiet (nfs_access S r out s) s" "quiet (nfs_readlink S r out s) s" "quiet (nfs_read S r out s) s"
  "quiet (nfs_write S r out s) s" "quiet (nfs_create S r out s) s" "quiet (nfs_mkdir S r out s) s"
  "quiet (nfs_symlink S r out s) s" "quiet (nfs_mknod S r out s) s" "quiet (nfs_remove S r out s) s"
  "quiet (nfs_rmdir S r out s) s" "quiet (nfs_rename S r out s) s" "quiet (nfs_link S r out s) s"
  "quiet (nfs_readdir S r out s) s" "quiet (nfs_readdirplus S r out s) s" "quiet (nfs_fsstat S r out s) s"
  "quiet (nfs_fsinfo S r out s) s" "quiet (nfs_pathconf S r out s) s" "quiet (nfs_commit S r out s) s"
  by (unfold nfs_defs Let_def)
    (auto intro!: quiet_getting quiet_guarded simp: quiet_bad split: prod.split)

lemma quiet_nfs_proc: "quiet (handle_nfs_proc S proc r out s) s"
  by (simp add: handle_nfs_proc_def quiet_nfs)

lemma quiet_mount_proc: "quiet (handle_mount_proc S proc r out s) s"
  by (auto simp: handle_mount_proc_def Let_def intro!: quiet_getting)

section \<open>Handlers append whole words\<close>

text \<open>\<open>al b b'\<close>: \<open>b'\<close> is \<open>b\<close> with a multiple of four bytes appended, or out of memory.\<close>

definition al :: "xdr_buf \<Rightarrow> xdr_buf \<Rightarrow> bool" where
  "al b b' \<longleftrightarrow> (\<exists>e. wrote b b' e \<and> 4 dvd length e)"

lemma al_refl [simp]: "al b b"
  using wrote_refl al_def by fastforce

lemma xdr_pad_dvd: "4 dvd n + xdr_pad n"
proof -
  define q m where "q = n div 4" and "m = n mod 4"
  have n: "n = 4 * q + m" "m < 4" by (simp_all add: q_def m_def)
  then have "m = 0 \<or> m = 1 \<or> m = 2 \<or> m = 3" by linarith
  then have "4 dvd m + (4 - m) mod 4" by (elim disjE) simp_all
  moreover have "n + xdr_pad n = 4 * q + (m + (4 - m) mod 4)" using n by (simp add: xdr_pad_def m_def)
  ultimately show ?thesis by simp
qed

lemma dvd_enc: "4 dvd length (enc_opaque s)" "4 dvd length (enc_post_op_fh p ino)" "4 dvd length (enc_post_op_attr a)"
    "4 dvd length (enc_wcc pre post)"
proof -
  show "4 dvd length (enc_opaque s)"
    using xdr_pad_dvd [of "length s"] by (simp add: length_enc_opaque add.assoc)
  show "4 dvd length (enc_post_op_fh p ino)" by (simp add: enc_post_op_fh_def)
  show a: "4 dvd length (enc_post_op_attr a)" for a by (simp add: enc_post_op_attr_def split: option.split)
  show "4 dvd length (enc_wcc pre post)" using a by (simp add: enc_wcc_def split: option.split)
qed

lemma al_step: "(\<And>b b1 e. wrote b b1 e \<Longrightarrow> wrote b (put b1) (e @ e2)) \<Longrightarrow> 4 dvd length e2 \<Longrightarrow> al b b1 \<Longrightarrow> al b (put b1)"
  unfolding al_def by (metis dvd_add length_append)

lemma al_puts:
  "al b b1 \<Longrightarrow> al b (xdr_put_u32 v b1)" "al b b1 \<Longrightarrow> al b (xdr_put_u64 w b1)" "al b b1 \<Longrightarrow> al b (xdr_put_fixed s b1)"
  "al b b1 \<Longrightarrow> al b (xdr_put_opaque s b1)" "al b b1 \<Longrightarrow> al b (xdr_put_str s b1)" "al b b1 \<Longrightarrow> al b (xdr_put_fh ino b1)"
  "al b b1 \<Longrightarrow> al b (xdr_put_post_op_fh p ino b1)" "al b b1 \<Longrightarrow> al b (xdr_put_fattr3 a b1)"
  "al b b1 \<Longrightarrow> al b (xdr_put_post_op_attr ao b1)" "al b b1 \<Longrightarrow> al b (xdr_put_wcc_data pre post b1)"
  by (rule al_step, erule wrote_u32 wrote_u64 wrote_fixed wrote_opaque wrote_str wrote_fh wrote_post_op_fh wrote_fattr3
      wrote_post_op_attr wrote_wcc, simp_all add: dvd_enc xdr_pad_dvd)+

lemma al_if: "(c \<Longrightarrow> al b x) \<Longrightarrow> (\<not> c \<Longrightarrow> al b y) \<Longrightarrow> al b (if c then x else y)"
  by simp

definition answers :: "'s hout \<Rightarrow> xdr_buf \<Rightarrow> bool" where
  "answers h out \<longleftrightarrow> (case h of (rc, b, s') \<Rightarrow> al out b)"

lemma answers_iff: "answers (rc, b, s') out \<longleftrightarrow> al out b"
  by (simp add: answers_def)

lemma answers_getting: "(\<And>x r. answers (k x r) out) \<Longrightarrow> answers (getting g out s k) out"
  by (simp add: getting_def answers_iff split: option.split prod.split)

lemma answers_guarded: "answers h out \<Longrightarrow> answers (guarded r out s h) out"
  by (simp add: guarded_def answers_iff)

lemma al_new_object: "al b b1 \<Longrightarrow> al b (put_new_object res b1)"
  by (simp add: put_new_object_def Let_def split: prod.split) (auto intro!: al_puts)

lemma al_readdir_loop: "readdir_loop m sl idx em es out = (i, b) \<Longrightarrow> al b0 out \<Longrightarrow> al b0 b"
  by (induction m sl idx em es out rule: readdir_loop.induct) (auto simp: Let_def al_puts split: if_splits)

lemma al_readdirplus_loop: "readdirplus_loop S m sl idx em es out s = (i, b, s') \<Longrightarrow> al b0 out \<Longrightarrow> al b0 b"
  by (induction S m sl idx em es out s rule: readdirplus_loop.induct) (auto simp: Let_def al_puts split: if_splits prod.splits)

lemma answers_bad: "answers (bad_handle_attr out s) out" "answers (bad_handle_wcc out s) out"
  by (simp_all add: bad_handle_attr_def bad_handle_wcc_def answers_iff al_puts)

lemma answers_nfs:
  "answers (nfs_getattr S r out s) out" "answers (nfs_setattr S r out s) out" "answers (nfs_lookup S r out s) out"
  "answers (nfs_access S r out s) out" "answers (nfs_readlink S r out s) out" "answers (nfs_read S r out s) out"
  "answers (nfs_write S r out s) out" "answers (nfs_create S r out s) out" "answers (nfs_mkdir S r out s) out"
  "answers (nfs_symlink S r out s) out" "answers (nfs_mknod S r out s) out" "answers (nfs_remove S r out s) out"
  "answers (nfs_rmdir S r out s) out" "answers (nfs_rename S r out s) out" "answers (nfs_link S r out s) out"
  "answers (nfs_fsstat S r out s) out"
  "answers (nfs_fsinfo S r out s) out" "answers (nfs_pathconf S r out s) out" "answers (nfs_commit S r out s) out"
  by (unfold nfs_defs Let_def)
    (auto intro!: answers_getting answers_guarded simp: answers_bad answers_iff al_puts al_new_object split: prod.split)

lemma answers_readdir: "answers (nfs_readdir S r out s) out" "answers (nfs_readdirplus S r out s) out"
  by (unfold nfs_readdir_def nfs_readdirplus_def Let_def)
    (auto intro!: answers_getting answers_guarded al_puts simp: answers_bad answers_iff split: prod.split;
      (erule al_readdir_loop al_readdirplus_loop, intro al_puts al_refl))+


section \<open>Bad handles\<close>

definition refuses :: "'s hout \<Rightarrow> xdr_buf \<Rightarrow> 's \<Rightarrow> bool" where
  "refuses h out s \<longleftrightarrow> (case h of (rc, b, s') \<Rightarrow> s' = s \<and>
     (rc = GarbageArgs \<or> rc = Handled \<and> (\<exists>e. wrote out b (be32_bytes NFS3ERR_BADHANDLE @ e))))"

lemma refuses_getting: "(\<And>x r. g = (Some x, r) \<Longrightarrow> refuses (k x r) out s) \<Longrightarrow> refuses (getting g out s k) out s"
  by (auto simp: getting_def refuses_def split: option.split prod.split)

lemma refuses_guarded: "refuses h out s \<Longrightarrow> refuses (guarded r out s h) out s"
  by (auto simp: guarded_def refuses_def)

lemma refuses_garbage: "refuses (GarbageArgs, out, s) out s"
  by (simp add: refuses_def)

lemma refuses_handled: "wrote out b (be32_bytes NFS3ERR_BADHANDLE @ e) \<Longrightarrow> refuses (Handled, b, s) out s"
  by (auto simp: refuses_def)

lemmas bad_put = wrote_u32 [OF wrote_refl, of _ NFS3ERR_BADHANDLE, unfolded append_Nil]

lemma refuses_bad: "refuses (bad_handle_attr out s) out s" "refuses (bad_handle_wcc out s) out s"
  using refuses_handled [OF wrote_post_op_attr [OF bad_put]] refuses_handled [OF wrote_wcc [OF bad_put]]
  by (simp_all add: bad_handle_attr_def bad_handle_wcc_def)

lemma refuses_more:
  "refuses (Handled, xdr_put_u32 NFS3ERR_BADHANDLE out, s) out s"
  "refuses (Handled, xdr_put_wcc_data pre post (xdr_put_u32 NFS3ERR_BADHANDLE out), s) out s"
  "refuses (Handled, xdr_put_wcc_data None None (xdr_put_wcc_data None None (xdr_put_u32 NFS3ERR_BADHANDLE out)), s) out s"
  "refuses (Handled, xdr_put_wcc_data None None (xdr_put_post_op_attr None (xdr_put_u32 NFS3ERR_BADHANDLE out)), s) out s"
  using refuses_handled [of out _ "[]" s] bad_put [of out] refuses_handled [OF wrote_wcc [OF bad_put]]
    refuses_handled [OF wrote_wcc [OF wrote_wcc [OF bad_put], unfolded append_assoc]]
    refuses_handled [OF wrote_wcc [OF wrote_post_op_attr [OF bad_put], unfolded append_assoc]]
  by simp_all

lemma refuses_nfs:
  assumes "xdr_get_fh r = (Some (ino, True), r1)"
  shows
  "refuses (nfs_getattr S r out s) out s" "refuses (nfs_setattr S r out s) out s" "refuses (nfs_lookup S r out s) out s"
  "refuses (nfs_access S r out s) out s" "refuses (nfs_readlink S r out s) out s" "refuses (nfs_read S r out s) out s"
  "refuses (nfs_write S r out s) out s" "refuses (nfs_create S r out s) out s" "refuses (nfs_mkdir S r out s) out s"
  "refuses (nfs_symlink S r out s) out s" "refuses (nfs_mknod S r out s) out s" "refuses (nfs_remove S r out s) out s"
  "refuses (nfs_rmdir S r out s) out s" "refuses (nfs_rename S r out s) out s" "refuses (nfs_link S r out s) out s"
  "refuses (nfs_readdir S r out s) out s" "refuses (nfs_readdirplus S r out s) out s" "refuses (nfs_fsstat S r out s) out s"
  "refuses (nfs_fsinfo S r out s) out s" "refuses (nfs_pathconf S r out s) out s" "refuses (nfs_commit S r out s) out s"
  using assms
  by (unfold nfs_defs Let_def)
    (auto intro!: refuses_getting refuses_guarded simp: refuses_bad refuses_more refuses_garbage split: prod.split)

lemma proc_cases:
  "(proc :: u32) \<le> 21 \<Longrightarrow> proc \<in> {0, 1, 2, 3, 4, 5, 6, 7, 8, 9, 10, 11, 12, 13, 14, 15, 16, 17, 18, 19, 20, 21}"
  by (simp add: word_le_nat_alt word_unat_eq_iff) presburger

section \<open>The dispatcher\<close>

text \<open>The reply to a call that cannot be executed, by accept status.\<close>

lemma wrote_prefix: "wrote b b' (e1 @ e2) \<Longrightarrow> \<not> xb_err b' \<Longrightarrow> xb_data b' = xb_data b @ e1 @ e2"
  by (simp add: wrote_def)

lemma get_u32_pos: "xdr_get_u32 r = (v, r') \<Longrightarrow> \<not> xr_err r' \<Longrightarrow>
   v = be32 (bslice (xr_pos r) 4 (xr_data r)) \<and> r' = step_by 4 r \<and> xr_pos r + 4 \<le> length (xr_data r) \<and> \<not> xr_err r"
  by (auto simp: xdr_get_u32_def xdr_fail_def step_by_def split: if_splits)

text \<open>Taking the reply back to the accept status and writing another one.\<close>

lemma rewind:
  assumes "wrote b0 b e0" "\<not> xb_err b" "wrote b b1 e1" "\<not> xb_err b2"
    and "b2 = xdr_put_u32 v (b1\<lparr>xb_data := take (length (xb_data b)) (xb_data b1)\<rparr>)"
  shows "xb_data b2 = xb_data b @ be32_bytes v"
proof -
  obtain t where t: "xb_data b1 = xb_data b @ t" using assms(3) by (auto simp: wrote_def)
  have "wrote (b1\<lparr>xb_data := take (length (xb_data b)) (xb_data b1)\<rparr>) b2 (be32_bytes v)"
    unfolding assms(5) using wrote_u32 [OF wrote_refl] by simp
  with assms(4) t show ?thesis by (simp add: wrote_def)
qed

definition call_header :: "u32 \<Rightarrow> bytes" where
  "call_header xid = be32_bytes xid @ be32_bytes 1 @ be32_bytes 0 @ be32_bytes 0 @ be32_bytes 0"

lemma length_call_header [simp]: "length (call_header xid) = 20"
  by (simp add: call_header_def)

lemma handler_answers: "answers (handle_nfs_proc S proc r out s) out" "answers (handle_mount_proc S proc r out s) out"
proof -
  show "answers (handle_nfs_proc S proc r out s) out"
    by (simp add: handle_nfs_proc_def answers_nfs answers_readdir answers_iff)
  show "answers (handle_mount_proc S proc r out s) out"
    by (auto simp: handle_mount_proc_def Let_def answers_iff intro!: answers_getting al_puts)
qed

text \<open>
  What \<open>dispatch_rpc_call\<close> can do, for a reply buffer \<open>b0\<close>: no reply and no effect; a rejected RPC version;
  or an accepted call whose reply starts with the header and an accept status, and which only with
  the status SUCCESS changes the state.
\<close>

lemma header_put:
  "wrote b (xdr_put_u32 0 (xdr_put_u32 0 (xdr_put_u32 0 (xdr_put_u32 1 (xdr_put_u32 xid b))))) (call_header xid)"
  unfolding call_header_def by (rule wrote_eq, (rule wrote_u32 wrote_refl)+) simp

lemma denied_put:
  "wrote b (xdr_put_u32 2 (xdr_put_u32 2 (xdr_put_u32 0 (xdr_put_u32 1 (xdr_put_u32 1 (xdr_put_u32 xid b))))))
     (be32_bytes xid @ be32_bytes 1 @ be32_bytes 1 @ be32_bytes 0 @ be32_bytes 2 @ be32_bytes 2)"
  by (rule wrote_eq, (rule wrote_u32 wrote_refl)+) simp

definition accepted :: "xdr_buf \<Rightarrow> u32 \<Rightarrow> xdr_buf \<Rightarrow> 's \<Rightarrow> 's \<Rightarrow> bool" where
  "accepted b0 xid b s s' \<longleftrightarrow> (\<exists>st t. xb_data b = xb_data b0 @ call_header xid @ be32_bytes st @ t \<and> 4 dvd length t \<and>
     (st \<noteq> 0 \<longrightarrow> s' = s))"

lemma accepted_put:
  "wrote b0 b (call_header xid @ be32_bytes st @ t) \<Longrightarrow> \<not> xb_err b \<Longrightarrow> 4 dvd length t \<Longrightarrow> (st \<noteq> 0 \<longrightarrow> s' = s) \<Longrightarrow>
   accepted b0 xid b s s'"
  unfolding accepted_def wrote_def by blast

text \<open>The part of the dispatcher behind the header.\<close>

lemma accepted_handler:
  assumes h: "(if prog = 100005 then handle_mount_proc S proc r (xdr_put_u32 0 b1) s
               else handle_nfs_proc S proc r (xdr_put_u32 0 b1) s) = (rc, b2, s')"
    and b1: "wrote b0 b1 (call_header xid)"
    and b: "b = (case rc of
                 Handled \<Rightarrow> b2
               | GarbageArgs \<Rightarrow> xdr_put_u32 4 (b2\<lparr>xb_data := take (length (xb_data b1)) (xb_data b2)\<rparr>)
               | ProcUnavail \<Rightarrow> xdr_put_u32 3 (b2\<lparr>xb_data := take (length (xb_data b1)) (xb_data b2)\<rparr>))"
    and ne: "\<not> xb_err b"
  shows "accepted b0 xid b s s'"
proof -
  obtain e where e: "wrote (xdr_put_u32 0 b1) b2 e" "4 dvd length e"
    using h handler_answers [of S proc r "xdr_put_u32 0 b1" s] by (auto simp: answers_def al_def split: if_splits)
  have w: "wrote b1 b2 (be32_bytes 0 @ e)"
    using wrote_trans [OF wrote_u32 [OF wrote_refl] e(1)] by simp
  have q: "rc \<noteq> Handled \<Longrightarrow> s' = s"
    using h quiet_nfs_proc [of S proc r "xdr_put_u32 0 b1" s] quiet_mount_proc [of S proc r "xdr_put_u32 0 b1" s]
    by (auto simp: quiet_def split: if_splits)
  have ne1: "\<not> xb_err b1"
  proof
    assume "xb_err b1"
    with w have "b2 = b1" by (simp add: wrote_def)
    with \<open>xb_err b1\<close> have "xb_err b" unfolding b by (simp add: xdr_put_u32_def xdr_emit_def xdr_reserve_def split: hrc.split)
    with ne show False by simp
  qed
  show ?thesis
  proof (cases rc)
    case Handled
    with b have "wrote b0 b (call_header xid @ be32_bytes 0 @ e)" using wrote_trans [OF b1 w] by simp
    then show ?thesis using ne e(2) by (rule accepted_put) simp
  next
    case GarbageArgs
    with b have "xb_data b = xb_data b1 @ be32_bytes 4" by (intro rewind [OF b1 ne1 w ne]) simp
    with b1 ne1 q GarbageArgs show ?thesis
      unfolding accepted_def by (intro exI [of _ 4] exI [of _ "[]"]) (simp add: wrote_def)
  next
    case ProcUnavail
    with b have "xb_data b = xb_data b1 @ be32_bytes 3" by (intro rewind [OF b1 ne1 w ne]) simp
    with b1 ne1 q ProcUnavail show ?thesis
      unfolding accepted_def by (intro exI [of _ 3] exI [of _ "[]"]) (simp add: wrote_def)
  qed
qed

lemma dispatch_cases:
  assumes d: "dispatch_rpc_call S msg b0 s = (ok, b, s')"
  obtains "\<not> ok" "b = b0" "s' = s" | "\<not> ok" "xb_err b"
    | "ok" "\<not> xb_err b" "12 \<le> length msg" "s' = s"
      "xb_data b = xb_data b0 @ be32_bytes (be32 msg) @ be32_bytes 1 @ be32_bytes 1 @ be32_bytes 0 @ be32_bytes 2 @ be32_bytes 2"
    | "ok" "\<not> xb_err b" "12 \<le> length msg" "accepted b0 (be32 msg) b s s'"
proof -
  let ?r = "\<lparr>xr_data = msg, xr_pos = 0, xr_err = False\<rparr>"
  obtain xid r1 where 1: "xdr_get_u32 ?r = (xid, r1)" by fastforce
  obtain mtype r2 where 2: "xdr_get_u32 r1 = (mtype, r2)" by fastforce
  show thesis
  proof (cases "xr_err r2 \<or> mtype \<noteq> 0")
    case True
    with d 1 2 show ?thesis by (intro that(1)) (auto simp: dispatch_rpc_call_def Let_def)
  next
    case m: False
    obtain rpcvers r3 where 3: "xdr_get_u32 r2 = (rpcvers, r3)" by fastforce
    show thesis
    proof (cases "xr_err r3")
      case True
      with d 1 2 3 m show ?thesis by (intro that(1)) (auto simp: dispatch_rpc_call_def Let_def)
    next
      case r3: False
      note p3 = get_u32_pos [OF 3 r3]
      note p2 = get_u32_pos [OF 2 p3 [THEN conjunct2, THEN conjunct2, THEN conjunct2]]
      note p1 = get_u32_pos [OF 1 p2 [THEN conjunct2, THEN conjunct2, THEN conjunct2]]
      have len: "12 \<le> length msg" and xid: "xid = be32 msg"
        using p1 p2 p3 by (auto simp: be32_def bslice_def)
      show thesis
      proof (cases "rpcvers = 2")
        case False
        with d 1 2 3 m r3 have b: "b = xdr_put_u32 2 (xdr_put_u32 2 (xdr_put_u32 0 (xdr_put_u32 1 (xdr_put_u32 1 (xdr_put_u32 xid b0)))))"
            "ok \<longleftrightarrow> \<not> xb_err b" "s' = s" by (auto simp: dispatch_rpc_call_def Let_def)
        with denied_put [of b0 xid] len xid show ?thesis
          by (cases ok) (auto intro: that(2,3) simp: wrote_def)
      next
        case v: True
        obtain prog r4 where 4: "xdr_get_u32 r3 = (prog, r4)" by fastforce
        obtain vers r5 where 5: "xdr_get_u32 r4 = (vers, r5)" by fastforce
        obtain proc r6 where 6: "xdr_get_u32 r5 = (proc, r6)" by fastforce
        obtain cf r7 where 7: "xdr_get_u32 r6 = (cf, r7)" by fastforce
        obtain k8 r8 where 8: "xdr_skip_opaque 400 r7 = (k8, r8)" by fastforce
        obtain vf r9 where 9: "xdr_get_u32 r8 = (vf, r9)" by fastforce
        obtain k10 r10 where 10: "xdr_skip_opaque 400 r9 = (k10, r10)" by fastforce
        note gets = 1 2 3 4 5 6 7 8 9 10
        show thesis
        proof (cases "k8 \<and> k10")
          case False
          with d gets m r3 v have "(ok, b, s') = (False, b0, s)"
            by (cases k8) (simp_all add: dispatch_rpc_call_def Let_def)
          then show ?thesis by (intro that(1)) simp_all
        next
          case k: True
          define b1 where "b1 = xdr_put_u32 0 (xdr_put_u32 0 (xdr_put_u32 0 (xdr_put_u32 1 (xdr_put_u32 xid b0))))"
          have w1: "wrote b0 b1 (call_header xid)" by (simp add: b1_def header_put)
          have main: "ok \<longleftrightarrow> \<not> xb_err b" "\<not> xb_err b \<Longrightarrow> accepted b0 xid b s s'"
          proof -
            consider (unavail) "prog \<noteq> 100005 \<and> prog \<noteq> 100003"
              | (mismatch) "\<not> (prog \<noteq> 100005 \<and> prog \<noteq> 100003)" "vers \<noteq> 3"
              | (call) "\<not> (prog \<noteq> 100005 \<and> prog \<noteq> 100003)" "vers = 3" by blast
            then have "(ok \<longleftrightarrow> \<not> xb_err b) \<and> (\<not> xb_err b \<longrightarrow> accepted b0 xid b s s')"
            proof cases
              case unavail
              then have b: "b = xdr_put_u32 1 b1" "ok \<longleftrightarrow> \<not> xb_err b" "s' = s"
                using d gets m r3 v k by (auto simp: dispatch_rpc_call_def Let_def b1_def)
              then show ?thesis
                using accepted_put [of b0 b xid 1 "[]" s' s] wrote_u32 [OF w1, of 1] by simp
            next
              case mismatch
              then have b: "b = xdr_put_u32 3 (xdr_put_u32 3 (xdr_put_u32 2 b1))" "ok \<longleftrightarrow> \<not> xb_err b" "s' = s"
                using d gets m r3 v k by (auto simp: dispatch_rpc_call_def Let_def b1_def)
              then show ?thesis
                using accepted_put [of b0 b xid 2 "be32_bytes 3 @ be32_bytes 3" s' s]
                  wrote_u32 [OF wrote_u32 [OF wrote_u32 [OF w1, of 2], of 3], of 3] by simp
            next
              case call
              obtain rc b2 s2 where h: "(if prog = 100005 then handle_mount_proc S proc r10 (xdr_put_u32 0 b1) s
                 else handle_nfs_proc S proc r10 (xdr_put_u32 0 b1) s) = (rc, b2, s2)" by (metis prod_cases3)
              define B where "B = (case rc of
                 Handled \<Rightarrow> b2
               | GarbageArgs \<Rightarrow> xdr_put_u32 4 (b2\<lparr>xb_data := take (length (xb_data b1)) (xb_data b2)\<rparr>)
               | ProcUnavail \<Rightarrow> xdr_put_u32 3 (b2\<lparr>xb_data := take (length (xb_data b1)) (xb_data b2)\<rparr>))"
              have "dispatch_rpc_call S msg b0 s = (\<not> xb_err B, B, s2)"
                using gets m r3 v k call h
                by (cases "prog = 100005"; cases rc) (simp_all add: dispatch_rpc_call_def Let_def b1_def B_def)
              with d have "(ok \<longleftrightarrow> \<not> xb_err b) \<and> b = B \<and> s2 = s'" by auto
              then show ?thesis using accepted_handler [OF h w1, of b] unfolding B_def by blast
            qed
            then show "ok \<longleftrightarrow> \<not> xb_err b" "\<not> xb_err b \<Longrightarrow> accepted b0 xid b s s'" by blast+
          qed
          then show thesis using that(2,4) len unfolding xid by blast
        qed
      qed
    qed
  qed
qed

section \<open>Directory pages\<close>

definition enc_entry :: "nat \<Rightarrow> u64 \<times> bytes \<Rightarrow> bytes" where
  "enc_entry i e = be32_bytes 1 @ enc_u64 (fst e) @ enc_opaque (snd e) @ enc_u64 (of_nat (i + 1))"

fun enc_entries :: "nat \<Rightarrow> (u64 \<times> bytes) list \<Rightarrow> bytes" where
  "enc_entries i [] = []"
| "enc_entries i (e # es) = enc_entry i e @ enc_entries (i + 1) es"

lemma length_enc_entry: "length (enc_entry i (f, n)) = 4 + 8 + xdr_padded_strlen n + 8"
  by (simp add: enc_entry_def xdr_padded_strlen_def length_enc_opaque)

lemma entry_put:
  "wrote b (xdr_put_u64 (of_nat (i + 1)) (xdr_put_str n (xdr_put_u64 f (xdr_put_u32 1 b)))) (enc_entry i (f, n))"
  unfolding enc_entry_def fst_conv snd_conv
  by (rule wrote_eq, (rule wrote_u32 wrote_u64 wrote_str wrote_refl)+) simp

lemma wrote_not_err: "wrote b b' e \<Longrightarrow> \<not> xb_err b' \<Longrightarrow> \<not> xb_err b \<and> xb_data b' = xb_data b @ e"
  by (auto simp: wrote_def)

text \<open>
  The loop emits the entries from \<open>idx\<close> on, at least one if there is one, and stops early only when the
  next entry would not fit; the reply plus its two closing words stays within the limit, unless the
  only entry emitted is longer than the limit.
\<close>

lemma readdir_loop_spec:
  assumes "readdir_loop m sl idx em es out = (j, b)" "\<not> xb_err b" "sl \<le> length (xb_data out)"
    and "0 < em \<Longrightarrow> length (xb_data out) - sl + 8 \<le> m \<or> em = 1"
  shows "\<exists>k \<le> length es. j = idx + k \<and> wrote out b (enc_entries idx (take k es)) \<and> (em = 0 \<and> es \<noteq> [] \<longrightarrow> 0 < k) \<and>
    (length (xb_data b) - sl + 8 \<le> m \<or> em + k \<le> 1)"
  using assms
proof (induction m sl idx em es out rule: readdir_loop.induct)
  case (1 m sl idx em out)
  then show ?case by (auto simp: wrote_refl)
next
  case (2 m sl idx em f n es out)
  let ?sz = "4 + 8 + xdr_padded_strlen n + 8" and ?used = "length (xb_data out) - sl"
  show ?case
  proof (cases "0 < em \<and> m < ?used + ?sz + 8")
    case True
    with 2 show ?thesis by (intro exI [of _ 0]) (auto simp: wrote_refl)
  next
    case False
    define b1 where "b1 = xdr_put_u64 (of_nat (idx + 1)) (xdr_put_str n (xdr_put_u64 f (xdr_put_u32 1 out)))"
    have w1: "wrote out b1 (enc_entry idx (f, n))" unfolding b1_def by (rule entry_put)
    have "readdir_loop m sl idx em ((f, n) # es) out = readdir_loop m sl (idx + 1) (em + 1) es b1"
      unfolding readdir_loop.simps(2) Let_def b1_def by (rule if_not_P [OF False])
    then have rest: "readdir_loop m sl (idx + 1) (em + 1) es b1 = (j, b)" using "2.prems"(1) by simp
    obtain e' where e': "wrote b1 b e'" using al_readdir_loop [OF rest al_refl] by (auto simp: al_def)
    have ne1: "\<not> xb_err b1" using wrote_not_err [OF e' "2.prems"(2)] by simp
    have d1: "xb_data b1 = xb_data out @ enc_entry idx (f, n)" using wrote_not_err [OF w1 ne1] by simp
    have "length (xb_data b1) - sl + 8 \<le> m \<or> em + 1 = 1"
      using False "2.prems"(3) by (auto simp: d1 length_enc_entry)
    moreover have "sl \<le> length (xb_data b1)" using "2.prems"(3) d1 by simp
    moreover note IH = "2.IH" [OF refl refl False refl refl refl refl, folded b1_def]
    ultimately obtain k where k: "k \<le> length es" "j = idx + 1 + k" "wrote b1 b (enc_entries (idx + 1) (take k es))"
      "length (xb_data b) - sl + 8 \<le> m \<or> em + 1 + k \<le> 1"
      using rest "2.prems"(2) by (auto simp: b1_def)
    show ?thesis
      using k wrote_trans [OF w1 k(3)] by (intro exI [of _ "Suc k"]) auto
  qed
qed

definition enc_entry_plus :: "nat \<Rightarrow> u64 \<times> bytes \<Rightarrow> nfs_attr option \<Rightarrow> bytes" where
  "enc_entry_plus i e a = enc_entry i e @ enc_post_op_attr a @ enc_post_op_fh (a \<noteq> None) (fst e)"

fun enc_entries_plus :: "nat \<Rightarrow> ((u64 \<times> bytes) \<times> nfs_attr option) list \<Rightarrow> bytes" where
  "enc_entries_plus i [] = []"
| "enc_entries_plus i ((e, a) # es) = enc_entry_plus i e a @ enc_entries_plus (i + 1) es"

lemma length_enc_entry_plus: "length (enc_entry_plus i (f, n) a) \<le> 4 + 8 + xdr_padded_strlen n + 8 + 88 + 16"
  by (simp add: enc_entry_plus_def length_enc_entry enc_post_op_attr_def enc_post_op_fh_def split: option.split)

lemma entry_plus_put:
  "wrote b (xdr_put_post_op_fh (a \<noteq> None) f (xdr_put_post_op_attr a
      (xdr_put_u64 (of_nat (i + 1)) (xdr_put_str n (xdr_put_u64 f (xdr_put_u32 1 b)))))) (enc_entry_plus i (f, n) a)"
  unfolding enc_entry_plus_def fst_conv append_assoc [symmetric]
  by (rule wrote_post_op_fh, rule wrote_post_op_attr, rule entry_put)

lemma readdirplus_loop_spec:
  assumes "readdirplus_loop S m sl idx em es out s = (j, b, s')" "\<not> xb_err b" "sl \<le> length (xb_data out)"
    and "0 < em \<Longrightarrow> length (xb_data out) - sl + 8 \<le> m \<or> em = 1"
  shows "\<exists>k \<le> length es. \<exists>as. length as = k \<and> j = idx + k \<and> wrote out b (enc_entries_plus idx (zip (take k es) as)) \<and>
    (em = 0 \<and> es \<noteq> [] \<longrightarrow> 0 < k) \<and> (length (xb_data b) - sl + 8 \<le> m \<or> em + k \<le> 1)"
  using assms
proof (induction es arbitrary: idx em out s)
  case Nil
  then show ?case by (auto simp: wrote_refl)
next
  case (Cons fn es)
  obtain f n where fn: "fn = (f, n)" by fastforce
  note prems = Cons.prems [unfolded fn]
  let ?sz = "4 + 8 + xdr_padded_strlen n + 8 + 88 + 16" and ?used = "length (xb_data out) - sl"
  show ?case
  proof (cases "0 < em \<and> m < ?used + ?sz + 8")
    case True
    with prems have "j = idx" "b = out" by simp_all
    with True prems(4) show ?thesis by (intro exI [of _ 0]) (auto simp: wrote_refl fn)
  next
    case False
    obtain st ea s1 where g: "fs_getattr S f s = ((st, ea), s1)" by (metis prod.collapse)
    define a where "a = (if st = NFS3_OK then Some ea else None)"
    have an: "(st = NFS3_OK) = (a \<noteq> None)" by (simp add: a_def)
    define b1 where "b1 = xdr_put_post_op_fh (a \<noteq> None) f (xdr_put_post_op_attr a
      (xdr_put_u64 (of_nat (idx + 1)) (xdr_put_str n (xdr_put_u64 f (xdr_put_u32 1 out)))))"
    have w1: "wrote out b1 (enc_entry_plus idx (f, n) a)" unfolding b1_def by (rule entry_plus_put)
    have "readdirplus_loop S m sl idx em ((f, n) # es) out s = readdirplus_loop S m sl (idx + 1) (em + 1) es b1 s1"
      unfolding readdirplus_loop.simps(2) Let_def g prod.case an [symmetric] a_def [symmetric] b1_def
      by (rule if_not_P [OF False])
    then have rest: "readdirplus_loop S m sl (idx + 1) (em + 1) es b1 s1 = (j, b, s')" using prems(1) by simp
    obtain e' where e': "wrote b1 b e'" using al_readdirplus_loop [OF rest al_refl] by (auto simp: al_def)
    have ne1: "\<not> xb_err b1" using wrote_not_err [OF e' prems(2)] by simp
    have d1: "xb_data b1 = xb_data out @ enc_entry_plus idx (f, n) a" using wrote_not_err [OF w1 ne1] by simp
    have "length (xb_data b1) - sl + 8 \<le> m \<or> em + 1 = 1"
      using False prems(3) length_enc_entry_plus [of idx f n a] by (auto simp: d1)
    moreover have "sl \<le> length (xb_data b1)" using prems(3) d1 by simp
    ultimately obtain k as where k: "k \<le> length es" "length as = k" "j = idx + 1 + k"
      "wrote b1 b (enc_entries_plus (idx + 1) (zip (take k es) as))" "length (xb_data b) - sl + 8 \<le> m \<or> em + 1 + k \<le> 1"
      using Cons.IH [OF rest prems(2)] by blast
    show ?thesis
      using k wrote_trans [OF w1 k(4)] unfolding fn by (intro exI [of _ "Suc k"] conjI exI [of _ "a # as"]) auto
  qed
qed

lemma zeros8: "wrote b b1 e \<Longrightarrow> wrote b (xdr_put_fixed (replicate 8 0) b1) (e @ replicate 8 0)"
  using wrote_fixed [of b b1 e "replicate 8 0"] by simp

text \<open>The head of a listing.\<close>

lemma page_head:
  "wrote out (xdr_put_fixed (replicate 8 0) (xdr_put_post_op_attr post (xdr_put_u32 NFS3_OK out)))
     (be32_bytes NFS3_OK @ enc_post_op_attr post @ replicate 8 0)"
  by (rule wrote_eq, (rule zeros8 wrote_post_op_attr wrote_u32 wrote_refl)+) simp

lemma wrote_mono: "wrote b b' e \<Longrightarrow> length (xb_data b) \<le> length (xb_data b')"
  by (auto simp: wrote_def)

section \<open>A small server for the witnesses\<close>

text \<open>
  The state counts the operations; every directory has one entry and every inode has the same
  attributes.
\<close>

definition sample_attr :: nfs_attr where
  "sample_attr = \<lparr>at_type = NF3DIR, at_mode = 0x1FF, at_nlink = 1, at_uid = 0, at_gid = 0, at_size = 4096, at_used = 4096,
     at_rdev1 = 0, at_rdev2 = 0, at_fsid = 1, at_fileid = 5, at_atime_sec = 0, at_atime_nsec = 0, at_mtime_sec = 9,
     at_mtime_nsec = 0, at_ctime_sec = 9, at_ctime_nsec = 0\<rparr>"

definition sample_fs :: "nat fs_backend" where
  "sample_fs = \<lparr>fb_sync = Suc, fb_getattr = \<lambda>_ n. ((NFS3_OK, sample_attr), Suc n), fb_setattr = \<lambda>_ _ n. ((NFS3_OK, sample_attr), Suc n),
     fb_lookup = \<lambda>_ _ n. ((2, 0, sample_attr), Suc n), fb_readlink = \<lambda>_ n. ((22, [], None), Suc n),
     fb_read = \<lambda>_ _ _ n. ((21, [], False, None), Suc n),
     fb_write = \<lambda>_ _ _ _ n. ((21, 0, 0, attr_to_wcc_pre None, None), Suc n),
     fb_create = \<lambda>_ _ _ _ n. ((30, 0, sample_attr, attr_to_wcc_pre None, None), Suc n),
     fb_mkdir = \<lambda>_ _ _ n. ((30, 0, sample_attr, attr_to_wcc_pre None, None), Suc n),
     fb_symlink = \<lambda>_ _ _ _ n. ((30, 0, sample_attr, attr_to_wcc_pre None, None), Suc n),
     fb_remove = \<lambda>_ _ n. ((30, attr_to_wcc_pre None, None), Suc n), fb_rmdir = \<lambda>_ _ n. ((30, attr_to_wcc_pre None, None), Suc n),
     fb_rename = \<lambda>_ _ _ _ n. ((30, (attr_to_wcc_pre None, None), (attr_to_wcc_pre None, None)), Suc n),
     fb_link = \<lambda>_ _ _ n. ((30, None, attr_to_wcc_pre None, None), Suc n),
     fb_readdir = \<lambda>_ n. ((NFS3_OK, [(5, [0x2E])], Some sample_attr), Suc n),
     fb_fsstat = \<lambda>_ n. ((NFS3_OK, \<lparr>fi_tbytes = 1, fi_fbytes = 1, fi_abytes = 1, fi_tfiles = 1, fi_ffiles = 1, fi_afiles = 1\<rparr>, None), Suc n),
     fb_commit = \<lambda>_ n. ((NFS3_OK, attr_to_wcc_pre None, None), Suc n)\<rparr>"

definition sample_srv :: "nat nfs_srv" where
  "sample_srv = \<lparr>sv_kind = FS_KIND_NTFS, sv_ntfs = sample_fs, sv_ext = sample_fs, sv_writeverf = replicate 8 1\<rparr>"

definition empty_reply :: xdr_buf where
  "empty_reply = \<lparr>xb_data = [], xb_cap = 0, xb_err = False, xb_mem = 4194304\<rparr>"

definition reader_of :: "bytes \<Rightarrow> xdr_reader" where
  "reader_of msg = \<lparr>xr_data = msg, xr_pos = 0, xr_err = False\<rparr>"

lemma reads_at_self: "reads_at (reader_of m) m"
  by (simp add: reads_at_def reader_of_def)

end
