(* ===== verification/MountProps.thy ===== *)
theory MountProps
  imports MountLib MountCache
begin

text \<open>
  The properties of the NFS server: what a request can and cannot do to the file system, the shape of
  the replies, directory listings page by page.
\<close>

text \<open>
  A request whose file handle is malformed (not eight bytes, or the inode number 0)
  never reaches the file system: every NFSv3 procedure from GETATTR to COMMIT leaves the state as it
  is and either rejects the arguments as garbage or answers with the status \<open>NFS3ERR_BADHANDLE\<close>.
\<close>

theorem nfs_bad_handle:
  assumes "xdr_get_fh r = (Some (ino, True), r1)" and "1 \<le> proc" "proc \<le> 21"
    and "handle_nfs_proc S proc r out s = (rc, b, s')"
  shows "s' = s \<and> (rc = GarbageArgs \<or> rc = Handled \<and>
    (xb_err b \<or> (\<exists>e. xb_data b = xb_data out @ be32_bytes NFS3ERR_BADHANDLE @ e)))"
proof -
  have "proc \<noteq> 0" using assms(2) by auto
  with proc_cases [OF assms(3)] have "refuses (handle_nfs_proc S proc r out s) out s"
    using refuses_nfs [OF assms(1), of S out s] by (auto simp: handle_nfs_proc_def)
  with assms(4) show ?thesis by (auto simp: refuses_def wrote_def)
qed

text \<open>
  C12: what a reply tells about the file system. Whenever \<open>dispatch_rpc_call\<close> returns a
  reply, it starts with the transaction id of the call and the word REPLY and is a whole number of
  words; and if the file system has changed, then the call was accepted with the status SUCCESS: a
  call that is denied, for an unknown program, version or procedure, or with garbage arguments changes
  nothing, and neither does a message that gets no reply because it cannot be parsed.
\<close>

theorem dispatch_effects:
  assumes d: "dispatch_rpc_call S msg b0 s = (ok, b, s')" and b0: "xb_data b0 = []"
  shows "(ok \<longrightarrow> 12 \<le> length msg \<and> take 8 (xb_data b) = be32_bytes (be32 msg) @ be32_bytes 1 \<and> 4 dvd length (xb_data b)) \<and>
    (\<not> xb_err b \<and> s' \<noteq> s \<longrightarrow> ok \<and> bslice 20 4 (xb_data b) = be32_bytes 0)"
  using dispatch_cases [OF d]
proof cases
  case 4
  from 4(4) obtain st t where b: "xb_data b = call_header (be32 msg) @ be32_bytes st @ t" "4 dvd length t" "st \<noteq> 0 \<longrightarrow> s' = s"
    by (auto simp: accepted_def b0)
  have "take 8 (call_header (be32 msg)) = be32_bytes (be32 msg) @ be32_bytes 1" by (simp add: call_header_def)
  moreover have "bslice 20 4 (xb_data b) = be32_bytes st" by (simp add: b(1) bslice_def)
  ultimately show ?thesis using 4(1-3) b by auto
qed (simp_all add: b0)

theorem dispatch_effects_witness:
  "\<exists>ok b s'. dispatch_rpc_call sample_srv (be32_bytes 77 @ be32_bytes 0 @ be32_bytes 2 @ be32_bytes 100003 @ be32_bytes 3
      @ be32_bytes 99 @ be32_bytes 0 @ be32_bytes 0 @ be32_bytes 0 @ be32_bytes 0) empty_reply 0 = (ok, b, s') \<and>
    (\<not> xb_err b \<and> s' \<noteq> 0 \<longrightarrow> ok \<and> bslice 20 4 (xb_data b) = be32_bytes 0)"
proof -
  obtain ok b s' where d: "dispatch_rpc_call sample_srv (be32_bytes 77 @ be32_bytes 0 @ be32_bytes 2 @ be32_bytes 100003 @ be32_bytes 3
      @ be32_bytes 99 @ be32_bytes 0 @ be32_bytes 0 @ be32_bytes 0 @ be32_bytes 0) empty_reply 0 = (ok, b, s')"
    using prod_cases3 by blast
  from dispatch_effects [OF d] d show ?thesis by (auto simp: empty_reply_def)
qed

definition sample_listing :: bytes where
  "sample_listing = enc_fh 5 @ enc_u64 0 @ replicate 8 0 @ be32_bytes 512"

lemma sample_listing_reads:
  "xdr_get_fh (reader_of sample_listing) = (Some (5, False), step_by 12 (reader_of sample_listing))"
  "xdr_get_u64 (step_by 12 (reader_of sample_listing)) = (0, step_by 20 (reader_of sample_listing))"
  "xdr_get_fixed 8 (step_by 20 (reader_of sample_listing)) = (Some (replicate 8 0), step_by 28 (reader_of sample_listing))"
  "xdr_get_u32 (step_by 28 (reader_of sample_listing)) = (512, step_by 32 (reader_of sample_listing))"
proof -
  have r: "reads_at (reader_of sample_listing) (enc_fh 5)" "reads_at (step_by 12 (reader_of sample_listing)) (enc_u64 0)"
      "reads_at (step_by 20 (reader_of sample_listing)) (replicate 8 0)"
      "reads_at (step_by 28 (reader_of sample_listing)) (be32_bytes 512)"
    using reads_at_self [of sample_listing] unfolding sample_listing_def reads_at_append by simp_all
  show "xdr_get_fh (reader_of sample_listing) = (Some (5, False), step_by 12 (reader_of sample_listing))"
    using get_fh_at [OF r(1)] by simp
  show "xdr_get_u64 (step_by 12 (reader_of sample_listing)) = (0, step_by 20 (reader_of sample_listing))"
    using get_u64_at [OF r(2)] by simp
  have "reads_at (step_by 28 (reader_of sample_listing)) []" using r(4) by (simp add: reads_at_def)
  then show "xdr_get_fixed 8 (step_by 20 (reader_of sample_listing)) = (Some (replicate 8 0), step_by 28 (reader_of sample_listing))"
    using get_fixed_at [of "step_by 20 (reader_of sample_listing)" "replicate 8 0"] r(3) by (simp add: reads_at_append)
  show "xdr_get_u32 (step_by 28 (reader_of sample_listing)) = (512, step_by 32 (reader_of sample_listing))"
    using get_u32_at [OF r(4)] by simp
qed

lemma sample_readdir: "fs_readdir sample_srv 5 0 = ((NFS3_OK, [(5, [0x2E])], Some sample_attr), 1)"
  by (simp add: fs_readdir_def fs_ops_def sample_srv_def sample_fs_def)

lemma sample_listing_ok: "\<not> xb_err (fst (snd (nfs_readdir sample_srv (reader_of sample_listing) empty_reply 0)))"
proof -
  let ?b0 = "xdr_put_fixed (replicate 8 0) (xdr_put_post_op_attr (Some sample_attr) (xdr_put_u32 NFS3_OK empty_reply))"
  let ?b1 = "xdr_put_u64 (of_nat (0 + 1)) (xdr_put_str [0x2E] (xdr_put_u64 5 (xdr_put_u32 1 ?b0)))"
  have e: "\<not> xr_err (step_by 32 (reader_of sample_listing))" by (simp add: reader_of_def)
  have "nfs_readdir sample_srv (reader_of sample_listing) empty_reply 0 =
      (Handled, xdr_put_u32 1 (xdr_put_u32 0 ?b1), 1)"
    using e by (simp add: nfs_readdir_def sample_listing_reads getting_def guarded_def sample_readdir readdir_start_def Let_def)
  moreover have "wrote empty_reply (xdr_put_u32 1 (xdr_put_u32 0 ?b1))
     (be32_bytes NFS3_OK @ enc_post_op_attr (Some sample_attr) @ replicate 8 0 @ enc_entry 0 (5, [0x2E]) @ be32_bytes 0 @ be32_bytes 1)"
    by (rule wrote_eq, (rule wrote_u32 wrote_trans [OF _ entry_put] page_head)+) simp
  then have "\<not> xb_err (xdr_put_u32 1 (xdr_put_u32 0 ?b1))"
    by (simp add: wrote_def mem_for_def empty_reply_def length_enc_entry enc_post_op_attr_def xdr_padded_strlen_def xdr_pad_def)
  ultimately show ?thesis by simp
qed

text \<open>
  C13: a READDIR request from cookie \<open>c\<close> is answered with the entries of the directory
  from number \<open>c\<close> on, in order, each with the cookie that continues behind it; at least one entry is
  sent if one is left, so a client that goes on from the last cookie reaches the end; the end-of-list
  flag is set exactly when the last entry was sent; and the reply fits the limit the client gave
  unless it consists of a single entry that alone does not fit.
\<close>

theorem nfs_readdir_page:
  assumes "xdr_get_fh r = (Some (ino, False), r1)" "xdr_get_u64 r1 = (c, r2)" "xdr_get_fixed 8 r2 = (Some v, r3)"
    and "xdr_get_u32 r3 = (mx, r4)" "\<not> xr_err r4" "128 \<le> mx"
    and "fs_readdir S ino s = ((NFS3_OK, items, post), s1)"
    and h: "nfs_readdir S r out s = (rc, b, s')" and ne: "\<not> xb_err b"
  defines "i0 \<equiv> min (unat c) (length items)"
  shows "rc = Handled \<and> s' = s1 \<and> (\<exists>k. i0 + k \<le> length items \<and> (i0 < length items \<longrightarrow> 0 < k) \<and>
    xb_data b = xb_data out @ be32_bytes NFS3_OK @ enc_post_op_attr post @ replicate 8 0
      @ enc_entries i0 (take k (drop i0 items)) @ be32_bytes 0 @ be32_bytes (if i0 + k = length items then 1 else 0) \<and>
    (length (xb_data b) - length (xb_data out) \<le> unat mx \<or> k \<le> 1))"
proof -
  have st: "readdir_start c items = i0" by (simp add: readdir_start_def i0_def min_def)
  define b0 where "b0 = xdr_put_fixed (replicate 8 0) (xdr_put_post_op_attr post (xdr_put_u32 NFS3_OK out))"
  obtain j b1 where l: "readdir_loop (unat mx) (length (xb_data out)) i0 0 (drop i0 items) b0 = (j, b1)" by fastforce
  have nm: "\<not> mx < 128" using assms(6) by simp
  have b: "b = xdr_put_u32 (if length items \<le> j then 1 else 0) (xdr_put_u32 0 b1)" "rc = Handled" "s' = s1"
    using h l nm assms(1-5,7)
    by (simp_all add: nfs_readdir_def getting_def guarded_def Let_def st b0_def)
  have tail: "wrote b1 b (be32_bytes 0 @ be32_bytes (if length items \<le> j then 1 else 0))"
    unfolding b(1) by (rule wrote_eq, (rule wrote_u32 wrote_refl)+) simp
  note head = page_head [of out post, folded b0_def]
  have ne1: "\<not> xb_err b1" using wrote_not_err [OF tail ne] by simp
  have "length (xb_data out) \<le> length (xb_data b0)" using wrote_mono [OF head] .
  from readdir_loop_spec [OF l ne1 this] obtain k where k: "k \<le> length items - i0" "j = i0 + k"
    "wrote b0 b1 (enc_entries i0 (take k (drop i0 items)))" "i0 < length items \<longrightarrow> 0 < k"
    "length (xb_data b1) - length (xb_data out) + 8 \<le> unat mx \<or> k \<le> 1" by auto
  have d: "xb_data b1 = xb_data out @ be32_bytes NFS3_OK @ enc_post_op_attr post @ replicate 8 0
      @ enc_entries i0 (take k (drop i0 items))"
    using wrote_not_err [OF wrote_trans [OF head k(3)] ne1] by simp
  have db: "xb_data b = xb_data b1 @ be32_bytes 0 @ be32_bytes (if length items \<le> j then 1 else 0)"
    using wrote_not_err [OF tail ne] by simp
  have i0: "i0 \<le> length items" by (simp add: i0_def)
  then have e: "(length items \<le> j) = (i0 + k = length items)" using k(1,2) by auto
  have "length (xb_data b) - length (xb_data out) = length (xb_data b1) - length (xb_data out) + 8"
    using d by (simp add: db)
  with k b(2,3) d db e i0 show ?thesis by (intro conjI exI [of _ k]) auto
qed

theorem nfs_readdir_page_witness:
  "\<exists>b. nfs_readdir sample_srv (reader_of sample_listing) empty_reply 0 = (Handled, b, 1) \<and>
    (\<exists>k > 0. xb_data b = be32_bytes NFS3_OK @ enc_post_op_attr (Some sample_attr) @ replicate 8 0
      @ enc_entries 0 (take k [(5, [0x2E])]) @ be32_bytes 0 @ be32_bytes (if k = 1 then 1 else 0))"
proof -
  obtain rc b s' where h: "nfs_readdir sample_srv (reader_of sample_listing) empty_reply 0 = (rc, b, s')"
    using prod_cases3 by blast
  have ne: "\<not> xb_err b" using sample_listing_ok h by simp
  have ok: "\<not> xr_err (step_by 32 (reader_of sample_listing))" "128 \<le> (512 :: u32)" by (simp_all add: reader_of_def)
  have i0: "min (unat (0 :: u64)) (length [(5 :: u64, [0x2E :: byte])]) = 0" by simp
  obtain k where k: "rc = Handled" "s' = 1" "0 < length [(5 :: u64, [0x2E :: byte])] \<longrightarrow> 0 < k"
    "xb_data b = xb_data empty_reply @ be32_bytes NFS3_OK @ enc_post_op_attr (Some sample_attr) @ replicate 8 0
      @ enc_entries 0 (take k (drop 0 [(5, [0x2E])])) @ be32_bytes 0
      @ be32_bytes (if 0 + k = length [(5 :: u64, [0x2E :: byte])] then 1 else 0)"
    using nfs_readdir_page [OF sample_listing_reads ok sample_readdir h ne] unfolding i0 by blast
  have "xb_data b = be32_bytes NFS3_OK @ enc_post_op_attr (Some sample_attr) @ replicate 8 0
      @ enc_entries 0 (take k [(5, [0x2E])]) @ be32_bytes 0 @ be32_bytes (if k = 1 then 1 else 0)"
    using k(4) by (simp only: empty_reply_def xdr_buf.simps drop_0 add_0 append_Nil list.size One_nat_def)
  moreover have "0 < k" using k(3) by simp
  ultimately show ?thesis using h k(1,2) by blast
qed

end
