(* ===== verification/MountRecord.thy ===== *)
theory MountRecord
  imports MountLib
begin

text \<open>
  The TCP side of \<open>macos/src/mountd_nfs.c\<close>: record marking (RFC 5531) in \<open>client_on_readable\<close>, and the
  sending of replies.

  The socket is a list of events: what the next calls to \<open>recv\<close> and \<open>send\<close> meet. A \<open>RxData\<close> event is a
  block of bytes that has arrived; a call takes as much of it as it has asked for. When the list is
  used up, \<open>recv\<close> would block and \<open>send\<close> takes everything.
\<close>

section \<open>Sockets\<close>

datatype rx = RxData bytes | RxIntr | RxAgain | RxError

datatype tx = TxSome nat | TxIntr | TxAgain bool | TxError

text \<open>How a receive loop ends: all bytes are there, it would block, or the connection is gone.\<close>

datatype rx_status = RxFull | RxBlocked | RxClosed

text \<open>
  The two receive loops of \<open>client_on_readable\<close>, over the header and over the fragment: \<open>want\<close> bytes are
  still missing, \<open>acc\<close> has been stored. An empty block is the end of the stream (\<open>recv\<close> returns 0);
  \<open>RxAgain\<close> is EAGAIN.
\<close>

fun recv_until :: "nat \<Rightarrow> bytes \<Rightarrow> rx list \<Rightarrow> rx_status \<times> bytes \<times> rx list" where
  "recv_until want acc evs =
     (if want = 0 then (RxFull, acc, evs)
      else case evs of
        [] \<Rightarrow> (RxBlocked, acc, [])
      | RxData bs # es \<Rightarrow>
          if bs = [] then (RxClosed, acc, es)
          else if length bs \<le> want then recv_until (want - length bs) (acc @ bs) es
          else (RxFull, acc @ take want bs, RxData (drop want bs) # es)
      | RxIntr # es \<Rightarrow> recv_until want acc es
      | RxAgain # es \<Rightarrow> (RxBlocked, acc, es)
      | RxError # es \<Rightarrow> (RxClosed, acc, es))"

declare recv_until.simps [simp del]

lemma recv_until_simps [simp]:
  "recv_until 0 acc evs = (RxFull, acc, evs)"
  "0 < want \<Longrightarrow> recv_until want acc [] = (RxBlocked, acc, [])"
  "0 < want \<Longrightarrow> recv_until want acc (RxData bs # es) =
     (if bs = [] then (RxClosed, acc, es)
      else if length bs \<le> want then recv_until (want - length bs) (acc @ bs) es
      else (RxFull, acc @ take want bs, RxData (drop want bs) # es))"
  "0 < want \<Longrightarrow> recv_until want acc (RxIntr # es) = recv_until want acc es"
  "0 < want \<Longrightarrow> recv_until want acc (RxAgain # es) = (RxBlocked, acc, es)"
  "0 < want \<Longrightarrow> recv_until want acc (RxError # es) = (RxClosed, acc, es)"
  by (simp_all add: recv_until.simps)

text \<open>
  \<open>send_all_loopback\<close>: the bytes that went out, whether all did, and the rest of the schedule. After
  EAGAIN the code polls for five seconds and goes on if the socket became writable.
\<close>

fun send_all_loopback :: "bytes \<Rightarrow> tx list \<Rightarrow> bool \<times> bytes \<times> tx list" where
  "send_all_loopback buf ts =
     (if buf = [] then (True, [], ts)
      else case ts of
        [] \<Rightarrow> (True, buf, [])
      | TxSome n # ts' \<Rightarrow>
          if n = 0 then (False, [], ts')
          else (let (ok, out, ts'') = send_all_loopback (drop n buf) ts' in (ok, take n buf @ out, ts''))
      | TxIntr # ts' \<Rightarrow> send_all_loopback buf ts'
      | TxAgain writable # ts' \<Rightarrow> if writable then send_all_loopback buf ts' else (False, [], ts')
      | TxError # ts' \<Rightarrow> (False, [], ts'))"

declare send_all_loopback.simps [simp del]

definition send_rpc_record :: "bytes \<Rightarrow> tx list \<Rightarrow> bool \<times> bytes \<times> tx list" where
  "send_rpc_record payload ts =
     (if 0x7FFFFFFF < length payload then (False, [], ts)
      else let rm = 0x80000000 OR of_nat (length payload);
               (ok, out, ts) = send_all_loopback (be32_bytes rm) ts
        in if \<not> ok then (False, out, ts)
           else if payload = [] then (True, out, ts)
           else (let (ok, out2, ts) = send_all_loopback payload ts in (ok, out @ out2, ts)))"

section \<open>A client\<close>

text \<open>
  \<open>RpcClient\<close>: \<open>rc_hdr\<close> is the \<open>hdr_got\<close> bytes of the header, \<open>rc_msg\<close> the \<open>msg_len\<close> bytes of the
  message, \<open>rc_cap\<close> is \<open>msg_cap\<close>; \<open>rc_mem\<close> is the largest block \<open>realloc\<close> grants.
\<close>

record rpc_client =
  rc_hdr :: bytes
  rc_frag_rem :: u32
  rc_frag_last :: bool
  rc_have_hdr :: bool
  rc_msg :: bytes
  rc_cap :: nat
  rc_mem :: nat

definition MOUNTD_MAX_RPC_MSG :: nat where
  "MOUNTD_MAX_RPC_MSG = 2 * 1024 * 1024"

text \<open>The header is complete: read it, check the size, make room.\<close>

definition client_header :: "bytes \<Rightarrow> rpc_client \<Rightarrow> rpc_client option" where
  "client_header hdr c =
     (let rm = be32 hdr;
          c = c\<lparr>rc_frag_last := (rm AND 0x80000000 \<noteq> 0), rc_frag_rem := rm AND 0x7FFFFFFF, rc_hdr := [], rc_have_hdr := True\<rparr>;
          need = length (rc_msg c) + unat (rc_frag_rem c)
      in if MOUNTD_MAX_RPC_MSG < unat (rc_frag_rem c) \<or> MOUNTD_MAX_RPC_MSG < need then None
         else if need > rc_cap c then
           (let ncap = xdr_grow (if rc_cap c \<noteq> 0 then rc_cap c * 2 else 4096) need
            in if rc_mem c < ncap then None else Some (c\<lparr>rc_cap := ncap\<rparr>))
         else Some c)"

text \<open>The message is complete: dispatch it and send the reply.\<close>

definition client_message :: "'s nfs_srv \<Rightarrow> rpc_client \<Rightarrow> tx list \<Rightarrow> 's \<Rightarrow> bool \<times> rpc_client \<times> bytes \<times> tx list \<times> 's" where
  "client_message S c ts s =
     (let reply = \<lparr>xb_data = [], xb_cap = 0, xb_err = False, xb_mem = rc_mem c\<rparr>;
          (drc_ok, reply, s) = dispatch_rpc_call S (rc_msg c) reply s;
          c = c\<lparr>rc_msg := []\<rparr>
      in if \<not> drc_ok then (False, c, [], ts, s)
         else (let (ok, out, ts) = send_rpc_record (xb_data reply) ts in (ok, c, out, ts, s)))"

fun rx_size :: "rx list \<Rightarrow> nat" where
  "rx_size [] = 0"
| "rx_size (RxData bs # es) = Suc (length bs) + rx_size es"
| "rx_size (e # es) = Suc (rx_size es)"

lemma recv_until_size:
  "recv_until want acc evs = (st, acc', evs') \<Longrightarrow>
   rx_size evs' \<le> rx_size evs \<and> (0 < want \<and> evs \<noteq> [] \<longrightarrow> rx_size evs' < rx_size evs) \<and> (0 < want \<and> evs = [] \<longrightarrow> st = RxBlocked)"
proof (induction evs arbitrary: want acc)
  case Nil
  then show ?case by (cases "want = 0") auto
next
  case (Cons e es)
  show ?case
  proof (cases "want = 0")
    case True
    with Cons.prems show ?thesis by simp
  next
    case False
    then have w: "0 < want" by simp
    show ?thesis
    proof (cases e)
      case (RxData bs)
      with Cons.prems w Cons.IH [of "want - length bs" "acc @ bs"] show ?thesis by (auto split: if_splits)
    next
      case RxIntr
      with Cons.prems w Cons.IH [of want acc] show ?thesis by auto
    qed (use Cons.prems w in auto)
  qed
qed

text \<open>
  One round of \<open>client_on_readable\<close> up to the point where a fragment is complete: the header if it is not
  there yet, then the fragment. \<open>RxFull\<close> says the fragment is complete.
\<close>

definition client_body :: "rpc_client \<Rightarrow> rx list \<Rightarrow> rx_status \<times> rpc_client \<times> rx list" where
  "client_body c evs =
     (let (st, msg, evs) = recv_until (unat (rc_frag_rem c)) (rc_msg c) evs;
          c = c\<lparr>rc_frag_rem := rc_frag_rem c - of_nat (length msg - length (rc_msg c)), rc_msg := msg\<rparr>
      in (st, if st = RxFull then c\<lparr>rc_have_hdr := False\<rparr> else c, evs))"

definition client_fragment :: "rpc_client \<Rightarrow> rx list \<Rightarrow> rx_status \<times> rpc_client \<times> rx list" where
  "client_fragment c evs =
     (if rc_have_hdr c then client_body c evs
      else let (st, hdr, evs) = recv_until (4 - length (rc_hdr c)) (rc_hdr c) evs
        in case st of
             RxClosed \<Rightarrow> (RxClosed, c\<lparr>rc_hdr := hdr\<rparr>, evs)
           | RxBlocked \<Rightarrow> (RxBlocked, c\<lparr>rc_hdr := hdr\<rparr>, evs)
           | RxFull \<Rightarrow>
               (case client_header hdr c of
                  None \<Rightarrow> (RxClosed, c\<lparr>rc_hdr := []\<rparr>, evs)
                | Some c \<Rightarrow> client_body c evs))"

lemma client_body_size:
  "client_body c evs = (st, c', evs') \<Longrightarrow>
   rx_size evs' \<le> rx_size evs \<and> rc_hdr c' = rc_hdr c \<and> (st = RxFull \<longrightarrow> \<not> rc_have_hdr c')"
  using recv_until_size [of "unat (rc_frag_rem c)" "rc_msg c" evs]
  by (fastforce simp: client_body_def Let_def split: prod.splits if_splits)

lemma client_header_hdr:
  "client_header hdr c = Some c' \<Longrightarrow> rc_hdr c' = [] \<and> rc_have_hdr c'"
  by (auto simp: client_header_def Let_def split: if_splits)

lemma client_fragment_size:
  assumes "client_fragment c evs = (RxFull, c', evs')"
  shows "rx_size evs' \<le> rx_size evs" "\<not> rc_have_hdr c'"
    "rc_have_hdr c \<longrightarrow> rc_hdr c' = rc_hdr c" "\<not> rc_have_hdr c \<longrightarrow> rc_hdr c' = []"
    "\<not> rc_have_hdr c \<and> length (rc_hdr c) < 4 \<longrightarrow> rx_size evs' < rx_size evs"
proof -
  have "rx_size evs' \<le> rx_size evs \<and> \<not> rc_have_hdr c' \<and> (rc_have_hdr c \<longrightarrow> rc_hdr c' = rc_hdr c)
      \<and> (\<not> rc_have_hdr c \<longrightarrow> rc_hdr c' = []) \<and> (\<not> rc_have_hdr c \<and> length (rc_hdr c) < 4 \<longrightarrow> rx_size evs' < rx_size evs)"
  proof (cases "rc_have_hdr c")
    case True
    with assms client_body_size [of c evs RxFull c' evs'] show ?thesis by (simp add: client_fragment_def)
  next
    case False
    obtain st hdr evs1 where r: "recv_until (4 - length (rc_hdr c)) (rc_hdr c) evs = (st, hdr, evs1)"
      by (metis prod_cases3)
    from assms False r obtain c1 where st: "st = RxFull" and c1: "client_header hdr c = Some c1"
      and b: "client_body c1 evs1 = (RxFull, c', evs')"
      by (auto simp: client_fragment_def split: rx_status.splits option.splits)
    from recv_until_size [OF r] client_body_size [OF b] client_header_hdr [OF c1] False st
    show ?thesis by (cases "evs = []") auto
  qed
  then show "rx_size evs' \<le> rx_size evs" "\<not> rc_have_hdr c'"
    "rc_have_hdr c \<longrightarrow> rc_hdr c' = rc_hdr c" "\<not> rc_have_hdr c \<longrightarrow> rc_hdr c' = []"
    "\<not> rc_have_hdr c \<and> length (rc_hdr c) < 4 \<longrightarrow> rx_size evs' < rx_size evs" by auto
qed

definition client_rank :: "rpc_client \<Rightarrow> nat" where
  "client_rank c = (if rc_have_hdr c then 2 else if 4 \<le> length (rc_hdr c) then 1 else 0)"

lemma client_fragment_less:
  assumes "client_fragment c evs = (RxFull, c', evs')"
  shows "rx_size evs' < rx_size evs \<or> rx_size evs' = rx_size evs \<and> client_rank c' < client_rank c"
  using client_fragment_size [OF assms] by (auto simp: client_rank_def)

lemma client_message_keeps:
  "client_message S c ts s = (ok, c', out, ts', s') \<Longrightarrow> rc_hdr c' = rc_hdr c \<and> rc_have_hdr c' = rc_have_hdr c"
  by (auto simp: client_message_def Let_def split: prod.splits if_splits)

text \<open>
  \<open>client_on_readable\<close>: whether the client stays open (return value 0), the client, what was sent, the
  rest of both schedules, the file system.
\<close>

function client_on_readable ::
    "'s nfs_srv \<Rightarrow> rpc_client \<Rightarrow> rx list \<Rightarrow> tx list \<Rightarrow> 's \<Rightarrow> bool \<times> rpc_client \<times> bytes \<times> rx list \<times> tx list \<times> 's" where
  "client_on_readable S c evs ts s =
     (case client_fragment c evs of
        (RxClosed, c1, evs1) \<Rightarrow> (False, c1, [], evs1, ts, s)
      | (RxBlocked, c1, evs1) \<Rightarrow> (True, c1, [], evs1, ts, s)
      | (RxFull, c1, evs1) \<Rightarrow>
          if \<not> rc_frag_last c1 then client_on_readable S c1 evs1 ts s
          else (case client_message S c1 ts s of
                  (False, c2, out, ts2, s2) \<Rightarrow> (False, c2, out, evs1, ts2, s2)
                | (True, c2, out, ts2, s2) \<Rightarrow>
                    (let (ok, c3, out3, evs3, ts3, s3) = client_on_readable S c2 evs1 ts2 s2
                     in (ok, c3, out @ out3, evs3, ts3, s3))))"
  by pat_completeness auto

termination
proof (relation "measures [\<lambda>(S, c, evs, ts, s). rx_size evs, \<lambda>(S, c, evs, ts, s). client_rank c]", goal_cases)
  case 1
  show ?case by simp
next
  case (2 S c evs ts s x y c1 evs1)
  then have "client_fragment c evs = (RxFull, c1, evs1)" by simp
  from client_fragment_less [OF this] show ?case by auto
next
  case (3 S c evs ts s x y c1 evs1 z b2 c2 b3 out b4 ts2 s2)
  then have f: "client_fragment c evs = (RxFull, c1, evs1)" by simp
  from 3 have "client_message S c1 ts s = (True, c2, out, ts2, s2)" by simp
  then have "client_rank c2 = client_rank c1" by (auto dest!: client_message_keeps simp: client_rank_def)
  with client_fragment_less [OF f] show ?case by auto
qed

declare client_on_readable.simps [simp del]

text \<open>
  What the poll loop of \<open>main\<close> does with one client: it calls \<open>client_on_readable\<close> every time the socket
  is readable, until the client is closed. Each element of the list is what has arrived since the fin
  call; what a call leaves unread is still there at the next one.
\<close>

definition client_close :: "rpc_client \<Rightarrow> rpc_client" where
  "client_close c = c\<lparr>rc_hdr := [], rc_frag_rem := 0, rc_frag_last := False, rc_have_hdr := False, rc_msg := [], rc_cap := 0\<rparr>"

definition put_back :: "rx list \<Rightarrow> rx list list \<Rightarrow> rx list list" where
  "put_back r calls = (case calls of [] \<Rightarrow> [] | evs # calls \<Rightarrow> (r @ evs) # calls)"

lemma length_put_back [simp]: "length (put_back r calls) = length calls"
  by (simp add: put_back_def split: list.split)

function client_calls :: "'s nfs_srv \<Rightarrow> rpc_client \<Rightarrow> rx list list \<Rightarrow> tx list \<Rightarrow> 's \<Rightarrow> bool \<times> rpc_client \<times> bytes \<times> tx list \<times> 's" where
  "client_calls S c [] ts s = (True, c, [], ts, s)"
| "client_calls S c (evs # calls) ts s =
     (case client_on_readable S c evs ts s of
        (False, c1, out, r, ts1, s1) \<Rightarrow> (False, client_close c1, out, ts1, s1)
      | (True, c1, out, r, ts1, s1) \<Rightarrow>
          (let (ok, c2, out2, ts2, s2) = client_calls S c1 (put_back r calls) ts1 s1 in (ok, c2, out @ out2, ts2, s2)))"
  by pat_completeness auto
termination by (relation "measure (\<lambda>(S, c, calls, ts, s). length calls)") auto

section \<open>The poll loop\<close>

text \<open>A slot of \<open>clients\<close>: the descriptor, \<open>None\<close> for -1, and the rest of the structure.\<close>

record slot =
  sl_fd :: "nat option"
  sl_client :: rpc_client

definition MAX_RPC_CLIENTS :: nat where "MAX_RPC_CLIENTS = 32"

definition slot_close :: "slot \<Rightarrow> slot" where
  "slot_close sl = sl\<lparr>sl_fd := None, sl_client := client_close (sl_client sl)\<rparr>"

text \<open>A connection that \<open>accept\<close> returns: descriptor, peer address, and whether \<open>set_nonblock_cloexec\<close> works on it.\<close>

record conn =
  cn_fd :: nat
  cn_inet :: bool
  cn_addr :: u32
  cn_nonblock :: bool

definition INADDR_LOOPBACK :: u32 where "INADDR_LOOPBACK = 0x7F000001"

fun place_client :: "nat \<Rightarrow> slot list \<Rightarrow> slot list" where
  "place_client fd [] = []"
| "place_client fd (sl # sls) = (if sl_fd sl = None then sl\<lparr>sl_fd := Some fd\<rparr> # sls else sl # place_client fd sls)"

definition accept_client :: "conn \<Rightarrow> slot list \<Rightarrow> slot list" where
  "accept_client cn sls =
     (if \<not> cn_inet cn \<or> cn_addr cn \<noteq> INADDR_LOOPBACK \<or> \<not> cn_nonblock cn then sls else place_client (cn_fd cn) sls)"

text \<open>A client with \<open>revents\<close>: which slot, POLLERR/POLLHUP/POLLNVAL, POLLIN, and what its socket holds.\<close>

record wake =
  wk_slot :: nat
  wk_err :: bool
  wk_in :: bool
  wk_rx :: "rx list"
  wk_tx :: "tx list"

definition serve_wake :: "'s nfs_srv \<Rightarrow> wake \<Rightarrow> slot list \<times> 's \<Rightarrow> slot list \<times> 's" where
  "serve_wake S w st =
     (let (sls, s) = st; ci = wk_slot w; sl = sls ! ci
      in if length sls \<le> ci \<or> sl_fd sl = None then (sls, s)
         else if wk_err w then (sls[ci := slot_close sl], s)
         else if wk_in w then
           (let (ok, c, out, evs, ts, s) = client_on_readable S (sl_client sl) (wk_rx w) (wk_tx w) s;
                sl = sl\<lparr>sl_client := c\<rparr>
            in (sls[ci := if ok then sl else slot_close sl], s))
         else (sls, s))"

text \<open>One turn of the loop: the new connections, then the clients that \<open>poll\<close> reported.\<close>

definition poll_round :: "'s nfs_srv \<Rightarrow> conn list \<Rightarrow> wake list \<Rightarrow> slot list \<times> 's \<Rightarrow> slot list \<times> 's" where
  "poll_round S conns wakes st = fold (serve_wake S) wakes (fold accept_client conns (fst st), snd st)"

end
