(* ===== verification/MountStream.thy ===== *)
theory MountStream
  imports MountRecord
begin

text \<open>
  What a client of the NFS server sees of the transport: the server does not depend on how the network
  cuts the byte stream, a stream of record-marked messages is served message by message, a slot of the
  poll loop keeps nothing of a closed connection.
\<close>

section \<open>Readable events and the bytes they carry\<close>

fun rx_bytes :: "rx list \<Rightarrow> bytes" where
  "rx_bytes [] = []"
| "rx_bytes (RxData bs # es) = bs @ rx_bytes es"
| "rx_bytes (e # es) = rx_bytes es"

definition benign :: "rx list \<Rightarrow> bool" where
  "benign es \<longleftrightarrow> (\<forall>e\<in>set es. e = RxIntr \<or> (\<exists>bs. e = RxData bs \<and> bs \<noteq> []))"

lemma benign_simps [simp]:
  "benign []" "benign (RxIntr # es) = benign es" "benign (RxData bs # es) \<longleftrightarrow> bs \<noteq> [] \<and> benign es"
  "\<not> benign (RxAgain # es)" "\<not> benign (RxError # es)"
  "benign (es1 @ es2) \<longleftrightarrow> benign es1 \<and> benign es2"
  by (auto simp: benign_def)

lemma rx_bytes_append [simp]: "rx_bytes (es1 @ es2) = rx_bytes es1 @ rx_bytes es2"
  by (induction es1 rule: rx_bytes.induct) auto

lemma recv_until_benign:
  assumes "benign evs"
  shows "if length (rx_bytes evs) < want then recv_until want acc evs = (RxBlocked, acc @ rx_bytes evs, [])
    else \<exists>es. recv_until want acc evs = (RxFull, acc @ take want (rx_bytes evs), es) \<and> rx_bytes es = drop want (rx_bytes evs) \<and> benign es"
  using assms
proof (induction evs arbitrary: want acc)
  case Nil
  then show ?case by (cases want) auto
next
  case (Cons e es)
  show ?case
  proof (cases "want = 0")
    case True
    with Cons.prems show ?thesis by simp
  next
    case False
    then have w: "0 < want" by simp
    show ?thesis
    proof (cases e)
      case (RxData bs)
      show ?thesis
      proof (cases "length bs \<le> want")
        case True
        with Cons.IH [of "want - length bs" "acc @ bs"] Cons.prems w RxData show ?thesis
          by (auto simp: less_diff_conv2 split: if_splits)
      next
        case False
        with Cons.prems w RxData show ?thesis by auto
      qed
    next
      case RxIntr
      with Cons.IH [of want acc] Cons.prems w show ?thesis by simp
    qed (use Cons.prems in simp_all)
  qed
qed

lemma recv_until_more:
  assumes "benign evs" "recv_until want acc evs = (st, got, evs')"
  shows "(st = RxFull \<longrightarrow> recv_until want acc (evs @ rest) = (RxFull, got, evs' @ rest)) \<and>
    (st = RxBlocked \<longrightarrow> evs' = [] \<and> length acc \<le> length got \<and> length got < length acc + want \<and>
       recv_until want acc (evs @ rest) = recv_until (want - (length got - length acc)) got rest) \<and> st \<noteq> RxClosed"
  using assms
proof (induction evs arbitrary: want acc)
  case Nil
  then show ?case by (cases "want = 0") auto
next
  case (Cons e es)
  show ?case
  proof (cases "want = 0")
    case True
    with Cons.prems show ?thesis by simp
  next
    case False
    then have w: "0 < want" by simp
    show ?thesis
    proof (cases e)
      case (RxData bs)
      show ?thesis
      proof (cases "length bs \<le> want")
        case True
        with Cons.prems w RxData have "recv_until (want - length bs) (acc @ bs) es = (st, got, evs')" by simp
        from Cons.IH [OF _ this] Cons.prems w RxData True show ?thesis by auto
      next
        case False
        with Cons.prems w RxData show ?thesis by auto
      qed
    next
      case RxIntr
      with Cons.IH [of want acc] Cons.prems w show ?thesis by simp
    qed (use Cons.prems in simp_all)
  qed
qed

lemma recv_until_grows: "recv_until want acc evs = (st, got, evs') \<Longrightarrow> \<exists>t. got = acc @ t \<and> length t \<le> want"
proof (induction evs arbitrary: want acc)
  case Nil
  then show ?case by (cases "want = 0") auto
next
  case (Cons e es)
  show ?case
  proof (cases "want = 0")
    case True
    with Cons.prems show ?thesis by simp
  next
    case False
    then have w: "0 < want" by simp
    show ?thesis
    proof (cases e)
      case (RxData bs)
      with Cons.prems w Cons.IH [of "want - length bs" "acc @ bs"] show ?thesis by (fastforce split: if_splits)
    next
      case RxIntr
      with Cons.prems w Cons.IH [of want acc] show ?thesis by auto
    qed (use Cons.prems w in auto)
  qed
qed

lemma client_body_more:
  assumes b: "benign evs" and c: "client_body c evs = (st, c', evs')"
  shows "(st = RxFull \<longrightarrow> client_body c (evs @ rest) = (RxFull, c', evs' @ rest)) \<and>
    (st = RxBlocked \<longrightarrow> evs' = [] \<and> rc_have_hdr c' = rc_have_hdr c \<and> client_body c (evs @ rest) = client_body c' rest) \<and> st \<noteq> RxClosed"
proof -
  obtain st1 got evs1 where r: "recv_until (unat (rc_frag_rem c)) (rc_msg c) evs = (st1, got, evs1)" by (metis prod_cases3)
  note m = recv_until_more [OF b r, of rest]
  from c r have st: "st1 = st" and e: "evs1 = evs'"
    and c': "c' = (let c = c\<lparr>rc_frag_rem := rc_frag_rem c - of_nat (length got - length (rc_msg c)), rc_msg := got\<rparr>
       in if st = RxFull then c\<lparr>rc_have_hdr := False\<rparr> else c)"
    by (auto simp: client_body_def Let_def)
  consider "st = RxFull" | "st = RxBlocked" | "st = RxClosed" by (cases st)
  then show ?thesis
  proof cases
    case 1
    with m st e c' show ?thesis by (simp add: client_body_def)
  next
    case 2
    obtain st2 got2 evs2 where r2: "recv_until (unat (rc_frag_rem c) - (length got - length (rc_msg c))) got rest = (st2, got2, evs2)"
      by (metis prod_cases3)
    from recv_until_grows [OF r] obtain t where t: "got = rc_msg c @ t" by auto
    from recv_until_grows [OF r2] obtain t2 where t2: "got2 = got @ t2" by auto
    from m st 2 t have k: "length t < unat (rc_frag_rem c)" by simp
    then have rem: "unat (rc_frag_rem c - of_nat (length t)) = unat (rc_frag_rem c) - length t"
      by (simp add: unat_minus_of_nat)
    from 2 st m r2 t t2 e c' rem show ?thesis by (simp add: client_body_def algebra_simps)
  next
    case 3
    with m st show ?thesis by simp
  qed
qed

lemma client_fragment_more:
  assumes b: "benign evs" and c: "client_fragment c evs = (st, c', evs')"
  shows "(st \<noteq> RxBlocked \<longrightarrow> client_fragment c (evs @ rest) = (st, c', evs' @ rest)) \<and>
    (st = RxBlocked \<longrightarrow> evs' = [] \<and> client_fragment c (evs @ rest) = client_fragment c' rest)"
proof (cases "rc_have_hdr c")
  case True
  with c have "client_body c evs = (st, c', evs')" by (simp add: client_fragment_def)
  from client_body_more [OF b this, of rest] True show ?thesis by (cases st) (simp_all add: client_fragment_def)
next
  case False
  obtain st1 got evs1 where r: "recv_until (4 - length (rc_hdr c)) (rc_hdr c) evs = (st1, got, evs1)" by (metis prod_cases3)
  note m = recv_until_more [OF b r, of rest]
  from recv_until_benign [OF b, of "4 - length (rc_hdr c)" "rc_hdr c"] r have b1: "benign evs1"
    by (auto split: if_splits)
  consider "st1 = RxFull" "client_header got c = None" | c1 where "st1 = RxFull" "client_header got c = Some c1"
    | "st1 = RxBlocked" using m by (cases st1; cases "client_header got c") auto
  then show ?thesis
  proof cases
    case 1
    with c m r False show ?thesis by (auto simp: client_fragment_def)
  next
    case 2
    with c r False have "client_body c1 evs1 = (st, c', evs')" by (simp add: client_fragment_def)
    with client_body_more [OF b1 this, of rest] client_header_hdr [OF 2(2)] 2 m r False show ?thesis
      by (cases st) (simp_all add: client_fragment_def)
  next
    case 3
    with c r False have c': "c' = c\<lparr>rc_hdr := got\<rparr>" "st = RxBlocked" "evs' = evs1" by (auto simp: client_fragment_def)
    have h: "client_header h (c\<lparr>rc_hdr := got\<rparr>) = client_header h c" for h by (simp add: client_header_def)
    have w: "4 - length got = 4 - length (rc_hdr c) - (length got - length (rc_hdr c))"
      using m 3 by simp
    obtain st2 got2 e2 where r2: "recv_until (4 - length got) got rest = (st2, got2, e2)" by (metis prod_cases3)
    from m 3 w r2 have "recv_until (4 - length (rc_hdr c)) (rc_hdr c) (evs @ rest) = (st2, got2, e2)" by metis
    moreover from m 3 have "evs1 = []" by simp
    ultimately show ?thesis using c' False h r2
      by (cases st2; cases "client_header got2 c") (simp_all add: client_fragment_def)
  qed
qed

definition same_rx :: "rx list \<Rightarrow> rx list \<Rightarrow> bool" where
  "same_rx e1 e2 \<longleftrightarrow> benign e1 \<and> benign e2 \<and> rx_bytes e1 = rx_bytes e2"

lemma recv_until_same:
  "same_rx e1 e2 \<Longrightarrow> recv_until want acc e1 = (st, got, r1) \<Longrightarrow>
   \<exists>r2. recv_until want acc e2 = (st, got, r2) \<and> same_rx r1 r2"
  using recv_until_benign [of e1 want acc] recv_until_benign [of e2 want acc]
  by (auto simp: same_rx_def split: if_splits)

lemma client_body_same:
  assumes e: "same_rx e1 e2" and c: "client_body c e1 = (st, c', r1)"
  shows "\<exists>r2. client_body c e2 = (st, c', r2) \<and> same_rx r1 r2"
proof -
  obtain st1 got f1 where r: "recv_until (unat (rc_frag_rem c)) (rc_msg c) e1 = (st1, got, f1)" by (metis prod_cases3)
  from recv_until_same [OF e r] c r show ?thesis by (auto simp: client_body_def Let_def)
qed

lemma client_fragment_same:
  assumes e: "same_rx e1 e2" and c: "client_fragment c e1 = (st, c', r1)"
  shows "\<exists>r2. client_fragment c e2 = (st, c', r2) \<and> same_rx r1 r2"
proof (cases "rc_have_hdr c")
  case True
  with c client_body_same [OF e, of c] show ?thesis by (simp add: client_fragment_def)
next
  case False
  obtain st1 got f1 where r: "recv_until (4 - length (rc_hdr c)) (rc_hdr c) e1 = (st1, got, f1)" by (metis prod_cases3)
  from recv_until_same [OF e r] obtain f2 where
    r2: "recv_until (4 - length (rc_hdr c)) (rc_hdr c) e2 = (st1, got, f2)" and f: "same_rx f1 f2" by blast
  consider c1 where "st1 = RxFull" "client_header got c = Some c1" | "st1 \<noteq> RxFull \<or> client_header got c = None"
    by fastforce
  then show ?thesis
  proof cases
    case 1
    with c r False have "client_body c1 f1 = (st, c', r1)" by (simp add: client_fragment_def)
    from client_body_same [OF f this] r2 1 False show ?thesis by (simp add: client_fragment_def)
  next
    case 2
    with c r r2 f False show ?thesis by (auto simp: client_fragment_def split: rx_status.splits)
  qed
qed

lemma client_on_readable_induct [case_names step]:
  assumes "\<And>S c evs ts s.
      (\<And>c1 evs1. client_fragment c evs = (RxFull, c1, evs1) \<Longrightarrow> \<not> rc_frag_last c1 \<Longrightarrow> P S c1 evs1 ts s) \<Longrightarrow>
      (\<And>c1 evs1 c2 out ts2 s2. client_fragment c evs = (RxFull, c1, evs1) \<Longrightarrow> rc_frag_last c1 \<Longrightarrow>
         client_message S c1 ts s = (True, c2, out, ts2, s2) \<Longrightarrow> P S c2 evs1 ts2 s2) \<Longrightarrow> P S c evs ts s"
  shows "P S c evs ts s"
proof (induction S c evs ts s rule: client_on_readable.induct)
  case (1 S c evs ts s)
  show ?case
  proof (rule assms)
    show "P S c1 evs1 ts s" if "client_fragment c evs = (RxFull, c1, evs1)" "\<not> rc_frag_last c1" for c1 evs1
      using 1(1) [OF that(1) [symmetric] refl refl that(2)] .
    show "P S c2 evs1 ts2 s2" if "client_fragment c evs = (RxFull, c1, evs1)" "rc_frag_last c1"
      "client_message S c1 ts s = (True, c2, out, ts2, s2)" for c1 evs1 c2 out ts2 s2
      using 1(2) [OF that(1) [symmetric] refl refl _ that(3) [symmetric] refl refl refl refl] that(2) by simp
  qed
qed

lemma client_on_readable_cases:
  obtains (closed) c1 evs1 where "client_fragment c evs = (RxClosed, c1, evs1)"
      "client_on_readable S c evs ts s = (False, c1, [], evs1, ts, s)"
  | (blocked) c1 evs1 where "client_fragment c evs = (RxBlocked, c1, evs1)"
      "client_on_readable S c evs ts s = (True, c1, [], evs1, ts, s)"
  | (partial) c1 evs1 where "client_fragment c evs = (RxFull, c1, evs1)" "\<not> rc_frag_last c1"
      "client_on_readable S c evs ts s = client_on_readable S c1 evs1 ts s"
  | (refused) c1 evs1 c2 out ts2 s2 where "client_fragment c evs = (RxFull, c1, evs1)" "rc_frag_last c1"
      "client_message S c1 ts s = (False, c2, out, ts2, s2)"
      "client_on_readable S c evs ts s = (False, c2, out, evs1, ts2, s2)"
  | (answered) c1 evs1 c2 out ts2 s2 ok c3 out3 evs3 ts3 s3 where
      "client_fragment c evs = (RxFull, c1, evs1)" "rc_frag_last c1"
      "client_message S c1 ts s = (True, c2, out, ts2, s2)"
      "client_on_readable S c2 evs1 ts2 s2 = (ok, c3, out3, evs3, ts3, s3)"
      "client_on_readable S c evs ts s = (ok, c3, out @ out3, evs3, ts3, s3)"
proof -
  obtain st c1 evs1 where f: "client_fragment c evs = (st, c1, evs1)" by (metis prod_cases3)
  obtain b c2 out ts2 s2 where m: "client_message S c1 ts s = (b, c2, out, ts2, s2)" by (metis prod_cases5)
  obtain ok c3 out3 evs3 ts3 s3 where n: "client_on_readable S c2 evs1 ts2 s2 = (ok, c3, out3, evs3, ts3, s3)"
    by (metis prod_cases6)
  note eq = client_on_readable.simps [of S c evs ts s, unfolded f prod.case]
  consider "st = RxClosed" | "st = RxBlocked" | "st = RxFull" "\<not> rc_frag_last c1" | "st = RxFull" "rc_frag_last c1" "\<not> b"
    | "st = RxFull" "rc_frag_last c1" b by (cases st) auto
  then show ?thesis
  proof cases
    case 1
    with closed f eq show ?thesis by simp
  next
    case 2
    with blocked f eq show ?thesis by simp
  next
    case 3
    with partial f eq show ?thesis by simp
  next
    case 4
    with refused f eq m show ?thesis by simp
  next
    case 5
    with answered f eq m n show ?thesis by simp
  qed
qed

lemma client_on_readable_same:
  "same_rx e1 e2 \<Longrightarrow> client_on_readable S c e1 ts s = (ok, c', out, r1, ts', s') \<Longrightarrow>
   \<exists>r2. client_on_readable S c e2 ts s = (ok, c', out, r2, ts', s') \<and> same_rx r1 r2"
proof (induction S c e1 ts s arbitrary: e2 ok c' out r1 ts' s' rule: client_on_readable_induct)
  case (step S c e1 ts s)
  note e2 = client_on_readable.simps [of S c e2 ts s]
  show ?case
  proof (cases rule: client_on_readable_cases [of c e1 S ts s])
    case (closed c1 evs1)
    with client_fragment_same [OF step(3) closed(1)] step(4) e2 show ?thesis by auto
  next
    case (blocked c1 evs1)
    with client_fragment_same [OF step(3) blocked(1)] step(4) e2 show ?thesis by auto
  next
    case (partial c1 evs1)
    from client_fragment_same [OF step(3) partial(1)] obtain f2 where
      "client_fragment c e2 = (RxFull, c1, f2)" "same_rx evs1 f2" by blast
    with step(1) [OF partial(1, 2), of f2] step(4) partial e2 show ?thesis by auto
  next
    case (refused c1 evs1 c2 out ts2 s2)
    with client_fragment_same [OF step(3) refused(1)] step(4) e2 show ?thesis by auto
  next
    case (answered c1 evs1 c2 out2 ts2 s2 ok3 c3 out3 evs3 ts3 s3)
    from client_fragment_same [OF step(3) answered(1)] obtain f2 where
      f: "client_fragment c e2 = (RxFull, c1, f2)" "same_rx evs1 f2" by blast
    from step(2) [OF answered(1-3) f(2) answered(4)] obtain r2 where
      "client_on_readable S c2 f2 ts2 s2 = (ok3, c3, out3, r2, ts3, s3)" "same_rx evs3 r2" by blast
    with step(4) answered f e2 show ?thesis by auto
  qed
qed

lemma client_on_readable_more:
  "benign e \<Longrightarrow> client_on_readable S c e ts s = (ok, c', out, r, ts', s') \<Longrightarrow>
   benign r \<and> (if ok then r = [] \<and> client_on_readable S c (e @ rest) ts s =
      (case client_on_readable S c' rest ts' s' of (ok2, c2, out2, r2, ts2, s2) \<Rightarrow> (ok2, c2, out @ out2, r2, ts2, s2))
    else client_on_readable S c (e @ rest) ts s = (False, c', out, r @ rest, ts', s'))"
proof (induction S c e ts s arbitrary: ok c' out r ts' s' rule: client_on_readable_induct)
  case (step S c e ts s)
  have b: "benign f" if "client_fragment c e = (st, c1, f)" for st c1 f
    using client_fragment_same [of e e c st c1 f] step(3) that by (auto simp: same_rx_def)
  note m = client_fragment_more [OF step(3), of c _ _ _ rest]
  note rec = client_on_readable.simps [of S c "e @ rest" ts s]
  show ?case
  proof (cases rule: client_on_readable_cases [of c e S ts s])
    case (closed c1 evs1)
    with m [OF closed(1)] b [OF closed(1)] step(4) rec show ?thesis by auto
  next
    case (blocked c1 evs1)
    have "client_on_readable S c (e @ rest) ts s = client_on_readable S c1 rest ts s"
      using m [OF blocked(1)] rec client_on_readable.simps [of S c1 rest ts s] by simp
    with m [OF blocked(1)] blocked step(4) show ?thesis by (auto split: prod.split)
  next
    case (partial c1 evs1)
    with step(1) [OF partial(1, 2) b [OF partial(1)]] m [OF partial(1)] step(4) rec show ?thesis by auto
  next
    case (refused c1 evs1 c2 out ts2 s2)
    with m [OF refused(1)] b [OF refused(1)] step(4) rec show ?thesis by auto
  next
    case (answered c1 evs1 c2 out2 ts2 s2 ok3 c3 out3 evs3 ts3 s3)
    with step(2) [OF answered(1-3) b [OF answered(1)] answered(4)] m [OF answered(1)] step(4) rec
    show ?thesis by (auto split: prod.splits)
  qed
qed

text \<open>A client that waits for bytes; this is how every call leaves an open client.\<close>

definition settled :: "rpc_client \<Rightarrow> bool" where
  "settled c \<longleftrightarrow> (if rc_have_hdr c then rc_frag_rem c \<noteq> 0 else length (rc_hdr c) < 4)"

lemma settled_idle:
  assumes "settled c"
  shows "client_on_readable S c [] ts s = (True, c, [], [], ts, s)"
proof (cases "rc_have_hdr c")
  case True
  with assms have "0 < unat (rc_frag_rem c)" by (simp add: settled_def unat_gt_0)
  with True show ?thesis by (simp add: client_on_readable.simps client_fragment_def client_body_def)
next
  case False
  with assms show ?thesis by (simp add: client_on_readable.simps client_fragment_def settled_def)
qed

lemma client_body_settled:
  assumes b: "benign evs" and c: "client_body c evs = (RxBlocked, c', evs')" "rc_have_hdr c"
  shows "settled c'"
proof -
  obtain st got r where r: "recv_until (unat (rc_frag_rem c)) (rc_msg c) evs = (st, got, r)" by (metis prod_cases3)
  with c have st: "st = RxBlocked"
    and c': "c' = c\<lparr>rc_frag_rem := rc_frag_rem c - of_nat (length got - length (rc_msg c)), rc_msg := got\<rparr>"
    by (auto simp: client_body_def Let_def)
  have "length got < length (rc_msg c) + unat (rc_frag_rem c)" "length (rc_msg c) \<le> length got"
    using recv_until_more [OF b r] st by auto
  then have "unat (rc_frag_rem c - of_nat (length got - length (rc_msg c))) \<noteq> 0"
    by (subst unat_minus_of_nat) auto
  with c' c show ?thesis by (auto simp: settled_def)
qed

lemma client_fragment_settled:
  assumes b: "benign evs" and c: "client_fragment c evs = (RxBlocked, c', evs')"
  shows "settled c'"
proof (cases "rc_have_hdr c")
  case True
  with c client_body_settled [OF b] show ?thesis by (simp add: client_fragment_def)
next
  case False
  obtain st got r where r: "recv_until (4 - length (rc_hdr c)) (rc_hdr c) evs = (st, got, r)" by (metis prod_cases3)
  from recv_until_benign [OF b, of "4 - length (rc_hdr c)" "rc_hdr c"] r have b1: "benign r" by (auto split: if_splits)
  consider c1 where "st = RxFull" "client_header got c = Some c1" | "st = RxBlocked"
    using c r False by (cases st; cases "client_header got c") (auto simp: client_fragment_def)
  then show ?thesis
  proof cases
    case 1
    with c r False have "client_body c1 r = (RxBlocked, c', evs')" by (simp add: client_fragment_def)
    with client_body_settled [OF b1] client_header_hdr [OF 1(2)] show ?thesis by simp
  next
    case 2
    from recv_until_more [OF b r, of "[]"] 2 have "length got < 4" by auto
    with 2 c r False show ?thesis by (auto simp: client_fragment_def settled_def)
  qed
qed

lemma client_on_readable_settled:
  "benign evs \<Longrightarrow> client_on_readable S c evs ts s = (True, c', out, r, ts', s') \<Longrightarrow> settled c'"
proof (induction S c evs ts s arbitrary: c' out r ts' s' rule: client_on_readable_induct)
  case (step S c evs ts s)
  have b: "benign f" if "client_fragment c evs = (st, c1, f)" for st c1 f
    using client_fragment_same [of evs evs c st c1 f] step(3) that by (auto simp: same_rx_def)
  show ?case
  proof (cases rule: client_on_readable_cases [of c evs S ts s])
    case (blocked c1 evs1)
    with client_fragment_settled [OF step(3) blocked(1)] step(4) show ?thesis by simp
  next
    case (partial c1 evs1)
    with step(1) [OF partial(1, 2) b [OF partial(1)]] step(4) show ?thesis by simp
  next
    case (answered c1 evs1 c2 out2 ts2 s2 ok3 c3 out3 evs3 ts3 s3)
    with step(2) [OF answered(1-3) b [OF answered(1)]] step(4) show ?thesis by auto
  qed (use step(4) in simp_all)
qed

lemma client_calls_concat:
  assumes "\<forall>evs\<in>set calls. benign evs" "settled c"
    "client_on_readable S c (concat calls) ts s = (ok, c', out, r, ts', s')"
  shows "client_calls S c calls ts s = (ok, if ok then c' else client_close c', out, ts', s')"
  using assms
proof (induction calls arbitrary: c ts s ok c' out r ts' s')
  case Nil
  with settled_idle [OF Nil(2), of S ts s] show ?case by simp
next
  case (Cons evs calls)
  obtain ok1 c1 out1 r1 ts1 s1 where h: "client_on_readable S c evs ts s = (ok1, c1, out1, r1, ts1, s1)" by (metis prod_cases6)
  obtain ok2 c2 out2 r2 ts2 s2 where h2: "client_on_readable S c1 (concat calls) ts1 s1 = (ok2, c2, out2, r2, ts2, s2)" by (metis prod_cases6)
  have p: "put_back [] calls = calls" by (simp add: put_back_def split: list.split)
  from Cons.prems(1) have b: "benign evs" by simp
  show ?case
  proof (cases ok1)
    case True
    with h have "client_on_readable S c evs ts s = (True, c1, out1, r1, ts1, s1)" by simp
    then have "settled c1" by (rule client_on_readable_settled [OF b])
    moreover from True client_on_readable_more [OF b h, of "concat calls"] h2 Cons.prems(3)
    have "r1 = []" "ok = ok2" "c' = c2" "out = out1 @ out2" "ts' = ts2" "s' = s2" by auto
    ultimately show ?thesis using Cons.IH [OF _ _ h2] Cons.prems(1) True h p by auto
  next
    case False
    with client_on_readable_more [OF b h, of "concat calls"] Cons.prems h show ?thesis by auto
  qed
qed

lemma benign_concat [simp]: "benign (concat calls) \<longleftrightarrow> (\<forall>evs\<in>set calls. benign evs)"
  by (induction calls) auto

text \<open>
  C15: the server does not depend on how the network cuts the stream. Whatever pieces the
  bytes arrive in, and over however many calls of \<open>client_on_readable\<close> (interrupted ones included), the
  client ends in the same state, is closed or kept open alike, is sent the same bytes, and the file
  system is the same as if everything had arrived at once - for any bytes, well formed or not.
\<close>

theorem client_chunking:
  assumes "\<forall>evs\<in>set calls. benign evs" "settled c" "rx_bytes (concat calls) = bs" "bs \<noteq> []"
  shows "client_calls S c calls ts s = client_calls S c [[RxData bs]] ts s"
proof -
  obtain ok c' out r ts' s' where h: "client_on_readable S c (concat calls) ts s = (ok, c', out, r, ts', s')" by (metis prod_cases6)
  have "same_rx (concat calls) [RxData bs]" using assms by (simp add: same_rx_def)
  from client_on_readable_same [OF this h] obtain r2 where
    h2: "client_on_readable S c (concat [[RxData bs]]) ts s = (ok, c', out, r2, ts', s')" by auto
  have b2: "\<forall>evs\<in>set [[RxData bs]]. benign evs" using assms(4) by simp
  show ?thesis using client_calls_concat [OF assms(1, 2) h] client_calls_concat [OF b2 assms(2) h2] by simp
qed

definition fresh_client :: "nat \<Rightarrow> rpc_client" where
  "fresh_client mem = \<lparr>rc_hdr = [], rc_frag_rem = 0, rc_frag_last = False, rc_have_hdr = False, rc_msg = [], rc_cap = 0, rc_mem = mem\<rparr>"

lemma fresh_client_settled: "settled (fresh_client mem)"
  by (simp add: settled_def fresh_client_def)

theorem client_chunking_witness:
  "client_calls sample_srv (fresh_client 4096)
     [[RxData [0x80], RxIntr, RxData [0, 0]], [], [RxData [4, 9], RxData [9, 9]], [RxData [9, 7]]] [] 0 =
   client_calls sample_srv (fresh_client 4096) [[RxData [0x80, 0, 0, 4, 9, 9, 9, 9, 7]]] [] 0"
  by (rule client_chunking) (simp_all add: fresh_client_settled)

section \<open>A stream of records\<close>

text \<open>The sender's side: a fragment with its header, a message cut into fragments, and what the server owes for a list of messages.\<close>

definition frag_bytes :: "bool \<Rightarrow> bytes \<Rightarrow> bytes" where
  "frag_bytes fin b = be32_bytes ((if fin then 0x80000000 else 0) OR of_nat (length b)) @ b"

fun record_bytes :: "bytes list \<Rightarrow> bytes" where
  "record_bytes [] = []"
| "record_bytes [b] = frag_bytes True b"
| "record_bytes (b # bs) = frag_bytes False b @ record_bytes bs"

fun serve_calls :: "'s nfs_srv \<Rightarrow> nat \<Rightarrow> bytes list \<Rightarrow> tx list \<Rightarrow> 's \<Rightarrow> bool \<times> bytes \<times> tx list \<times> 's" where
  "serve_calls S mem [] ts s = (True, [], ts, s)"
| "serve_calls S mem (m # ms) ts s =
     (case dispatch_rpc_call S m \<lparr>xb_data = [], xb_cap = 0, xb_err = False, xb_mem = mem\<rparr> s of
        (False, _, s) \<Rightarrow> (False, [], ts, s)
      | (True, reply, s) \<Rightarrow>
          (case send_rpc_record (xb_data reply) ts of
             (False, out, ts) \<Rightarrow> (False, out, ts, s)
           | (True, out, ts) \<Rightarrow>
               (let (ok, out2, ts, s) = serve_calls S mem ms ts s in (ok, out @ out2, ts, s))))"

lemma frag_word:
  assumes "n \<le> MOUNTD_MAX_RPC_MSG"
  defines "w \<equiv> (of_nat n :: u32)"
  shows "(0x80000000 OR w) AND 0x80000000 \<noteq> 0" "(0x80000000 OR w) AND 0x7FFFFFFF = w"
    "w AND 0x80000000 = 0" "w AND 0x7FFFFFFF = w" "unat w = n"
proof -
  show n: "unat w = n" using assms by (simp add: MOUNTD_MAX_RPC_MSG_def unat_of_nat_small)
  have b: "i < 22" if "bit w i" for i
    using bit_small [of w 22 i] n assms(1) that by (auto simp: MOUNTD_MAX_RPC_MSG_def)
  have m: "(0x7FFFFFFF :: u32) = mask 31" by (simp add: mask_eq_exp_minus_1)
  have e: "(0x80000000 :: u32) = push_bit 31 1" by (simp add: push_bit_eq_mult)
  show w: "w AND 0x7FFFFFFF = w" unfolding m
  proof (rule bit_word_eqI)
    show "bit (w AND mask 31) k = bit w k" for k using b [of k] by (cases "bit w k") (auto simp: bit_simps)
  qed
  then show "(0x80000000 OR w) AND 0x7FFFFFFF = w" by (simp add: bit.conj_disj_distrib2)
  have "(w AND 0x7FFFFFFF) AND 0x80000000 = w AND (0x7FFFFFFF AND 0x80000000)" by (rule and.assoc)
  with w show "w AND 0x80000000 = 0" by simp
  have "bit ((0x80000000 OR w) AND (0x80000000 :: u32)) 31" unfolding e by (simp add: bit_simps)
  then show "(0x80000000 OR w) AND 0x80000000 \<noteq> 0" by (metis bit_0_eq bot_apply bot_bool_def)
qed

definition idle :: "rpc_client \<Rightarrow> bool" where
  "idle c \<longleftrightarrow> \<not> rc_have_hdr c \<and> rc_hdr c = [] \<and> 2 ^ 22 \<le> rc_mem c"

lemma client_fragment_next:
  assumes c: "idle c" and b: "benign evs" "rx_bytes evs = frag_bytes fin b @ rest"
    and n: "length (rc_msg c) + length b \<le> MOUNTD_MAX_RPC_MSG"
  shows "\<exists>c1 evs1. client_fragment c evs = (RxFull, c1, evs1) \<and> idle c1 \<and> rc_frag_last c1 = fin \<and>
    rc_msg c1 = rc_msg c @ b \<and> rc_mem c1 = rc_mem c \<and> benign evs1 \<and> rx_bytes evs1 = rest"
proof -
  define w :: u32 where "w = (if fin then 0x80000000 else 0) OR of_nat (length b)"
  have nb: "length b \<le> MOUNTD_MAX_RPC_MSG" using n by simp
  have w1: "w AND 0x7FFFFFFF = of_nat (length b)" "(w AND 0x80000000 \<noteq> 0) = fin" "unat (of_nat (length b) :: u32) = length b"
    using frag_word [OF nb] by (auto simp: w_def)
  from b have "\<not> length (rx_bytes evs) < 4" "take 4 (rx_bytes evs) = be32_bytes w" "drop 4 (rx_bytes evs) = b @ rest"
    by (simp_all add: frag_bytes_def w_def)
  with recv_until_benign [OF b(1), of 4 "[]"] obtain e1 where
    r1: "recv_until 4 [] evs = (RxFull, be32_bytes w, e1)" and e1: "rx_bytes e1 = b @ rest" "benign e1" by auto
  from e1 recv_until_benign [OF e1(2), of "length b" "rc_msg c"] obtain e2 where
    r2: "recv_until (length b) (rc_msg c) e1 = (RxFull, rc_msg c @ b, e2)" and e2: "rx_bytes e2 = rest" "benign e2" by auto
  have grow: "xdr_grow (if rc_cap c \<noteq> 0 then rc_cap c * 2 else 4096) (length (rc_msg c) + length b) \<le> rc_mem c"
    if "rc_cap c < length (rc_msg c) + length b"
    using that c n xdr_grow_le [of "if rc_cap c \<noteq> 0 then rc_cap c * 2 else 4096" "length (rc_msg c) + length b"]
    by (auto simp: idle_def MOUNTD_MAX_RPC_MSG_def split: if_splits)
  obtain c1 where c1: "client_header (be32_bytes w) c = Some c1"
    and c1': "rc_msg c1 = rc_msg c" "rc_frag_rem c1 = of_nat (length b)" "rc_frag_last c1 = fin" "rc_mem c1 = rc_mem c"
      "rc_hdr c1 = []" "rc_have_hdr c1"
    using w1 nb n grow
    by (cases "rc_cap c < length (rc_msg c) + length b") (simp_all add: client_header_def Let_def cong: if_cong)
  from c c1 r1 have "client_fragment c evs = client_body c1 e1" by (simp add: client_fragment_def idle_def)
  with r2 e2 c1' w1 c show ?thesis by (simp add: client_body_def idle_def)
qed

lemma settled_idle_iff: "idle c \<Longrightarrow> settled c"
  by (simp add: idle_def settled_def)

lemma idle_blocked:
  assumes "idle c" "benign evs" "rx_bytes evs = []"
  shows "\<exists>c' r. client_on_readable S c evs ts s = (True, c', [], r, ts, s) \<and> rc_msg c' = rc_msg c \<and> idle c'"
proof -
  have e: "same_rx [] evs" using assms by (simp add: same_rx_def)
  have "client_on_readable S c [] ts s = (True, c, [], [], ts, s)"
    by (rule settled_idle) (rule settled_idle_iff [OF assms(1)])
  from client_on_readable_same [OF e this] assms(1) show ?thesis by blast
qed

lemma serve_message:
  assumes c: "client_message S c ts s = (ok, c', out, ts', s')"
  shows "c' = c\<lparr>rc_msg := []\<rparr>"
    "serve_calls S (rc_mem c) (rc_msg c # ms) ts s = (if ok then
       (case serve_calls S (rc_mem c) ms ts' s' of (ok2, out2, ts2, s2) \<Rightarrow> (ok2, out @ out2, ts2, s2))
     else (False, out, ts', s'))"
  using assms by (auto simp: client_message_def Let_def split: prod.splits if_splits bool.splits)

lemma client_serves_record:
  assumes "idle c" "benign evs" "rx_bytes evs = record_bytes frs @ rest" "frs \<noteq> []"
    "length (rc_msg c) + length (concat frs) \<le> MOUNTD_MAX_RPC_MSG"
  shows "\<exists>c1 evs1. idle c1 \<and> rc_msg c1 = rc_msg c @ concat frs \<and> rc_mem c1 = rc_mem c \<and> benign evs1 \<and> rx_bytes evs1 = rest \<and>
    client_on_readable S c evs ts s =
     (case client_message S c1 ts s of
        (False, c2, out, ts2, s2) \<Rightarrow> (False, c2, out, evs1, ts2, s2)
      | (True, c2, out, ts2, s2) \<Rightarrow>
          (let (ok, c3, out3, evs3, ts3, s3) = client_on_readable S c2 evs1 ts2 s2 in (ok, c3, out @ out3, evs3, ts3, s3)))"
  using assms
proof (induction frs arbitrary: c evs rule: record_bytes.induct)
  case (2 b)
  then have "rx_bytes evs = frag_bytes True b @ rest" "length (rc_msg c) + length b \<le> MOUNTD_MAX_RPC_MSG" by simp_all
  from client_fragment_next [OF 2(1, 2) this] obtain c1 evs1 where
    "client_fragment c evs = (RxFull, c1, evs1)" "idle c1" "rc_frag_last c1" "rc_msg c1 = rc_msg c @ b"
    "rc_mem c1 = rc_mem c" "benign evs1" "rx_bytes evs1 = rest" by auto
  then show ?case by (intro exI [of _ c1] exI [of _ evs1]) (simp add: client_on_readable.simps [of S c evs])
next
  case (3 b b2 bs)
  then have "rx_bytes evs = frag_bytes False b @ record_bytes (b2 # bs) @ rest"
    "length (rc_msg c) + length b \<le> MOUNTD_MAX_RPC_MSG" by simp_all
  from client_fragment_next [OF 3(2, 3) this] obtain c1 evs1 where
    f: "client_fragment c evs = (RxFull, c1, evs1)" "idle c1" "\<not> rc_frag_last c1" "rc_msg c1 = rc_msg c @ b"
      "rc_mem c1 = rc_mem c" "benign evs1" "rx_bytes evs1 = record_bytes (b2 # bs) @ rest" by auto
  have "length (rc_msg c1) + length (concat (b2 # bs)) \<le> MOUNTD_MAX_RPC_MSG" using 3(6) f(4) by simp
  from 3(1) [OF f(2, 6, 7) _ this] f show ?case
    by (simp add: client_on_readable.simps [of S c evs])
qed simp

lemma client_serves_records:
  assumes "idle c" "rc_msg c = []" "benign evs" "rx_bytes evs = concat (map record_bytes ms)"
    "\<forall>m\<in>set ms. m \<noteq> [] \<and> length (concat m) \<le> MOUNTD_MAX_RPC_MSG"
    "serve_calls S (rc_mem c) (map concat ms) ts s = (ok, out, ts', s')"
  shows "\<exists>c' r. client_on_readable S c evs ts s = (ok, c', out, r, ts', s') \<and> rc_msg c' = []"
  using assms
proof (induction ms arbitrary: c evs ts s ok out ts' s')
  case Nil
  with idle_blocked [OF Nil(1, 3), of S ts s] show ?case by auto
next
  case (Cons m ms)
  then have m: "m \<noteq> []" "length (rc_msg c) + length (concat m) \<le> MOUNTD_MAX_RPC_MSG" "rx_bytes evs = record_bytes m @ concat (map record_bytes ms)"
    by simp_all
  from client_serves_record [OF Cons.prems(1, 3) m(3, 1, 2), of S ts s] Cons.prems(2) obtain c1 evs1 where
    c1: "idle c1" "rc_msg c1 = concat m" "rc_mem c1 = rc_mem c" "benign evs1" "rx_bytes evs1 = concat (map record_bytes ms)"
    and run: "client_on_readable S c evs ts s =
     (case client_message S c1 ts s of
        (False, c2, out, ts2, s2) \<Rightarrow> (False, c2, out, evs1, ts2, s2)
      | (True, c2, out, ts2, s2) \<Rightarrow>
          (let (ok, c3, out3, evs3, ts3, s3) = client_on_readable S c2 evs1 ts2 s2 in (ok, c3, out @ out3, evs3, ts3, s3)))"
    by auto
  obtain ok2 c2 out2 ts2 s2 where d: "client_message S c1 ts s = (ok2, c2, out2, ts2, s2)" by (metis prod_cases5)
  note c2 = serve_message(1) [OF d]
  note sv = serve_message(2) [OF d, of "map concat ms", unfolded c1(2,3)]
  show ?case
  proof (cases ok2)
    case False
    with run d sv c2 Cons.prems(6) show ?thesis by auto
  next
    case True
    obtain ok3 out3 ts3 s3 where r: "serve_calls S (rc_mem c2) (map concat ms) ts2 s2 = (ok3, out3, ts3, s3)" by (metis prod_cases4)
    have "idle c2" "rc_msg c2 = []" "rc_mem c2 = rc_mem c" using c1 c2 by (simp_all add: idle_def)
    from Cons.IH [OF this(1, 2) c1(4, 5) _ r] Cons.prems(5) obtain c' r where
      "client_on_readable S c2 evs1 ts2 s2 = (ok3, c', out3, r, ts3, s3)" "rc_msg c' = []" by auto
    with run d sv Cons.prems(6) r \<open>rc_mem c2 = rc_mem c\<close> True show ?thesis by auto
  qed
qed

text \<open>
  C14: a stream of record-marked messages is served as the messages one by one: each message
  of at most 2 MiB, in any number of fragments (empty ones included) and however the stream is cut, is
  put together and given once, in order, to \<open>dispatch_rpc_call\<close>, and its reply is sent before the next
  message is looked at; the first message that is refused or whose reply cannot be sent closes the
  client. Nothing of the stream is left in the buffer.
\<close>

theorem client_records:
  assumes c: "idle c" "rc_msg c = []" and b: "\<forall>evs\<in>set calls. benign evs"
    and bs: "rx_bytes (concat calls) = concat (map record_bytes ms)"
    and ms: "\<forall>m\<in>set ms. m \<noteq> [] \<and> length (concat m) \<le> MOUNTD_MAX_RPC_MSG"
    and s: "serve_calls S (rc_mem c) (map concat ms) ts s = (ok, out, ts', s')"
  shows "\<exists>c'. client_calls S c calls ts s = (ok, c', out, ts', s') \<and> rc_msg c' = []"
proof -
  from b have "benign (concat calls)" by simp
  from client_serves_records [OF c this bs ms s] obtain c' r where
    h: "client_on_readable S c (concat calls) ts s = (ok, c', out, r, ts', s')" "rc_msg c' = []" by blast
  from client_calls_concat [OF b settled_idle_iff [OF c(1)] h(1)] h(2) show ?thesis by (auto simp: client_close_def)
qed

lemma sample_record:
  "record_bytes [[1, 2], [], [3 :: byte]] = [0, 0, 0, 2, 1, 2, 0, 0, 0, 0, 0x80, 0, 0, 1, 3]"
proof -
  have "frag_bytes False [1, 2 :: byte] = [0, 0, 0, 2, 1, 2]" "frag_bytes False [] = [0, 0, 0, 0]"
    "frag_bytes True [3 :: byte] = [0x80, 0, 0, 1, 3]"
    unfolding frag_bytes_def be32_bytes_def by simp_all
  note f = this
  show ?thesis by (simp only: record_bytes.simps f append.simps)
qed

theorem client_records_witness:
  "\<exists>ok out s c'. client_calls sample_srv (fresh_client (2 ^ 22))
       [[RxData [0, 0, 0], RxIntr], [RxData [2, 1, 2, 0, 0, 0, 0, 0x80], RxData [0, 0, 1]], [RxData [3]]] [] 0 = (ok, c', out, [], s) \<and>
     serve_calls sample_srv (2 ^ 22) [[1, 2, 3]] [] 0 = (ok, out, [], s) \<and> rc_msg c' = []"
proof -
  obtain ok out ts s where h: "serve_calls sample_srv (2 ^ 22) [[1, 2, 3]] [] 0 = (ok, out, ts, s)" by (metis prod_cases4)
  have "\<exists>c'. client_calls sample_srv (fresh_client (2 ^ 22))
       [[RxData [0, 0, 0], RxIntr], [RxData [2, 1, 2, 0, 0, 0, 0, 0x80], RxData [0, 0, 1]], [RxData [3]]] [] 0 = (ok, c', out, ts, s) \<and> rc_msg c' = []"
  proof (rule client_records [where ms = "[[[1, 2], [], [3]]]"])
    show "rx_bytes (concat [[RxData [0, 0, 0], RxIntr], [RxData [2, 1, 2, 0, 0, 0, 0, 0x80], RxData [0, 0, 1]], [RxData [3]]]) =
        concat (map record_bytes [[[1, 2], [], [3]]])"
      by (simp add: sample_record del: record_bytes.simps)
    show "serve_calls sample_srv (rc_mem (fresh_client (2 ^ 22))) (map concat [[[1, 2], [], [3]]]) [] 0 = (ok, out, ts, s)"
      using h by (simp add: fresh_client_def)
  qed (simp_all add: idle_def fresh_client_def MOUNTD_MAX_RPC_MSG_def)
  moreover have "ts = []" using h by (auto simp: send_rpc_record_def send_all_loopback.simps Let_def split: prod.splits bool.splits if_splits)
  ultimately show ?thesis using h by blast
qed

section \<open>The slots of the poll loop\<close>

definition slot_ok :: "slot \<Rightarrow> bool" where
  "slot_ok sl \<longleftrightarrow> (sl_fd sl = None \<longrightarrow> sl_client sl = client_close (sl_client sl))"

definition fds_of :: "slot list \<Rightarrow> nat set" where
  "fds_of sls = {fd. Some fd \<in> sl_fd ` set sls}"

lemma client_close_idem [simp]: "client_close (client_close c) = client_close c"
  by (simp add: client_close_def)

lemma place_client_ok:
  "list_all slot_ok sls \<Longrightarrow> list_all slot_ok (place_client fd sls) \<and> length (place_client fd sls) = length sls \<and>
   fds_of (place_client fd sls) \<subseteq> insert fd (fds_of sls)"
  by (induction sls) (auto simp: slot_ok_def fds_of_def)

lemma accept_clients_ok:
  "list_all slot_ok sls \<Longrightarrow> list_all slot_ok (fold accept_client conns sls) \<and> length (fold accept_client conns sls) = length sls \<and>
   fds_of (fold accept_client conns sls) \<subseteq> fds_of sls \<union> cn_fd ` {cn \<in> set conns. cn_inet cn \<and> cn_addr cn = INADDR_LOOPBACK}"
proof (induction conns arbitrary: sls)
  case (Cons cn conns)
  have "list_all slot_ok (accept_client cn sls)" "length (accept_client cn sls) = length sls"
    "fds_of (accept_client cn sls) \<subseteq> fds_of sls \<union> cn_fd ` {x \<in> {cn}. cn_inet x \<and> cn_addr x = INADDR_LOOPBACK}"
    using place_client_ok [OF Cons.prems, of "cn_fd cn"] Cons.prems by (auto simp: accept_client_def)
  with Cons.IH [of "accept_client cn sls"] show ?case by auto
qed simp

lemma serve_wake_ok:
  assumes "list_all slot_ok sls" "serve_wake S w (sls, s) = (sls', s')"
  shows "list_all slot_ok sls' \<and> length sls' = length sls \<and> fds_of sls' \<subseteq> fds_of sls"
proof -
  have upd: "list_all slot_ok (sls[i := sl]) \<and> fds_of (sls[i := sl]) \<subseteq> fds_of sls"
    if "slot_ok sl" "i < length sls" "sl_fd sl \<in> {None, sl_fd (sls ! i)}" for i sl
  proof -
    have "set (sls[i := sl]) \<subseteq> insert sl (set sls)" by (rule set_update_subset_insert)
    moreover have "sl_fd (sls ! i) \<in> sl_fd ` set sls" using that(2) by simp
    ultimately show ?thesis using assms(1) that by (fastforce simp: fds_of_def list_all_iff)
  qed
  have r: "slot_ok (slot_close sl)" "sl_fd (slot_close sl) = None" for sl
    by (simp_all add: slot_ok_def slot_close_def)
  show ?thesis
  proof (cases "length sls \<le> wk_slot w \<or> sl_fd (sls ! wk_slot w) = None \<or> \<not> wk_err w \<and> \<not> wk_in w")
    case True
    with assms show ?thesis by (auto simp: serve_wake_def Let_def split: if_splits prod.splits)
  next
    case False
    then have i: "wk_slot w < length sls" by simp
    obtain ok c out evs ts s1 where h: "client_on_readable S (sl_client (sls ! wk_slot w)) (wk_rx w) (wk_tx w) s = (ok, c, out, evs, ts, s1)"
      by (metis prod_cases6)
    have "slot_ok ((sls ! wk_slot w)\<lparr>sl_client := c\<rparr>)" using False by (auto simp: slot_ok_def)
    from upd [OF this i] upd [OF r(1) i, of "sls ! wk_slot w"] r(2) [of "sls ! wk_slot w"]
    have "?thesis" if "sls' = sls[wk_slot w := slot_close (sls ! wk_slot w)] \<or>
        sls' = sls[wk_slot w := (sls ! wk_slot w)\<lparr>sl_client := c\<rparr>] \<or>
        sls' = sls[wk_slot w := slot_close ((sls ! wk_slot w)\<lparr>sl_client := c\<rparr>)]"
      using that upd [OF r(1) i, of "(sls ! wk_slot w)\<lparr>sl_client := c\<rparr>"] r(2) by auto
    moreover have "\<not> length sls \<le> wk_slot w" "sl_fd (sls ! wk_slot w) \<noteq> None" "\<not> wk_err w \<Longrightarrow> wk_in w" using False by auto
    ultimately show ?thesis
      using assms(2) h by (cases "wk_err w"; cases ok) (simp_all add: serve_wake_def Let_def del: not_None_eq not_le)
  qed
qed

lemma serve_wakes_ok:
  "list_all slot_ok sls \<Longrightarrow> fold (serve_wake S) ws (sls, s) = (sls', s') \<Longrightarrow>
   list_all slot_ok sls' \<and> length sls' = length sls \<and> fds_of sls' \<subseteq> fds_of sls"
proof (induction ws arbitrary: sls s)
  case (Cons w ws)
  obtain sls1 s1 where h: "serve_wake S w (sls, s) = (sls1, s1)" by (metis surj_pair)
  from serve_wake_ok [OF Cons.prems(1) h] Cons.IH [of sls1 s1] Cons.prems(2) h show ?case by auto
qed simp

text \<open>
  The state of the poll loop, turn by turn. The number of slots never changes; a
  free slot is always clean, so that a new connection never continues a half-received message of the
  one before; and every connection that is served was served before or has just been accepted from
  the loopback address.
\<close>

theorem poll_round_slots:
  assumes "list_all slot_ok sls" "poll_round S conns wakes (sls, s) = (sls', s')"
  shows "list_all slot_ok sls' \<and> length sls' = length sls \<and>
    fds_of sls' \<subseteq> fds_of sls \<union> cn_fd ` {cn \<in> set conns. cn_inet cn \<and> cn_addr cn = INADDR_LOOPBACK}"
proof -
  note a = accept_clients_ok [OF assms(1), of conns]
  from serve_wakes_ok [of "fold accept_client conns sls" S wakes s sls' s'] a assms(2) show ?thesis
    by (auto simp: poll_round_def)
qed

end
