(* ===== verification/CLib.thy ===== *)
theory CLib
  imports Prelude "HOL-Library.Monad_Syntax"
begin

text \<open>
  The C library functions on strings that the Linux port uses, as functions on byte lists. A C string
  inside a buffer is the buffer up to the first NUL (\<open>cstr\<close>). A read through a pointer into a buffer
  is a partial function: \<open>None\<close> is a read outside the buffer, so a theorem that a routine returns
  \<open>Some\<close> says that it never reads out of bounds.
\<close>

section \<open>Checked reads\<close>

definition rd16 :: "bytes \<Rightarrow> nat \<Rightarrow> u16 option" where
  "rd16 b i = (if i + 2 \<le> length b then Some (get_le16 b i) else None)"

definition rd32 :: "bytes \<Rightarrow> nat \<Rightarrow> u32 option" where
  "rd32 b i = (if i + 4 \<le> length b then Some (get_le32 b i) else None)"

definition rdn :: "bytes \<Rightarrow> nat \<Rightarrow> nat \<Rightarrow> bytes option" where
  "rdn b i n = (if i + n \<le> length b then Some (bslice i n b) else None)"

lemma rd_in [simp]:
  "i + 2 \<le> length b \<Longrightarrow> rd16 b i = Some (get_le16 b i)"
  "i + 4 \<le> length b \<Longrightarrow> rd32 b i = Some (get_le32 b i)"
  "i + n \<le> length b \<Longrightarrow> rdn b i n = Some (bslice i n b)"
  by (simp_all add: rd16_def rd32_def rdn_def)

section \<open>C strings\<close>

definition ascii :: "string \<Rightarrow> bytes" where
  "ascii s = map of_char s"

definition cstr :: "bytes \<Rightarrow> bytes" where
  "cstr b = takeWhile (\<lambda>c. c \<noteq> 0) b"

text \<open>\<open>strncmp(p, q, n) == 0\<close>\<close>

definition strncmp_eq :: "nat \<Rightarrow> bytes \<Rightarrow> bytes \<Rightarrow> bool" where
  "strncmp_eq n p q \<longleftrightarrow> cstr (take n p) = cstr (take n q)"

text \<open>The string begins with \<open>p\<close>: \<open>strncmp(s, p, strlen(p)) == 0\<close>, or \<open>strstr(s, p) == s\<close>.\<close>

definition starts :: "bytes \<Rightarrow> bytes \<Rightarrow> bool" where
  "starts p s \<longleftrightarrow> take (length p) s = p"

text \<open>\<open>strstr\<close>: the string from the first place on where \<open>p\<close> stands.\<close>

fun strstr :: "bytes \<Rightarrow> bytes \<Rightarrow> bytes option" where
  "strstr p [] = (if p = [] then Some [] else None)"
| "strstr p (c # s) = (if starts p (c # s) then Some (c # s) else strstr p s)"

text \<open>The part after the last \<open>c\<close> (the whole string when there is none).\<close>

definition after_last :: "byte \<Rightarrow> bytes \<Rightarrow> bytes" where
  "after_last c s = rev (takeWhile (\<lambda>x. x \<noteq> c) (rev s))"

text \<open>\<open>snprintf\<close> into a buffer of \<open>cap\<close> bytes.\<close>

definition clip :: "nat \<Rightarrow> bytes \<Rightarrow> bytes" where
  "clip cap s = take (cap - 1) s"

text \<open>
  \<open>fgets\<close> with a buffer of \<open>cap\<close> bytes, called until the end of the file: the pieces it returns, each
  at most \<open>cap - 1\<close> bytes and ending with a newline where the line fits.
\<close>

function fgets_all :: "nat \<Rightarrow> bytes \<Rightarrow> bytes list" where
  "fgets_all cap s =
     (if s = [] \<or> cap < 2 then []
      else let l = takeWhile (\<lambda>c. c \<noteq> 10) s;
               piece = take (cap - 1) (if length l < length s then l @ [10] else l)
           in piece # fgets_all cap (drop (length piece) s))"
  by pat_completeness auto

termination
proof (relation "measure (\<lambda>(cap, s). length s)", goal_cases)
  case (2 cap s l piece)
  then have "l \<noteq> [] \<or> length l < length s" by (cases s) auto
  with 2 have "piece \<noteq> []" by auto
  with 2 show ?case by auto
qed simp

declare fgets_all.simps [simp del]

text \<open>\<open>strchr\<close> followed by cutting the string there: the part before and the part after the character.\<close>

definition split_at :: "byte \<Rightarrow> bytes \<Rightarrow> (bytes \<times> bytes) option" where
  "split_at c s = (case dropWhile (\<lambda>x. x \<noteq> c) s of [] \<Rightarrow> None | _ # rest \<Rightarrow> Some (takeWhile (\<lambda>x. x \<noteq> c) s, rest))"

text \<open>The tokens \<open>strtok_r\<close> finds with a single delimiter: the non-empty pieces.\<close>

fun pieces :: "byte \<Rightarrow> bytes \<Rightarrow> bytes list" where
  "pieces d [] = [[]]"
| "pieces d (c # s) = (if c = d then [] # pieces d s else case pieces d s of [] \<Rightarrow> [[c]] | p # ps \<Rightarrow> (c # p) # ps)"

definition strtok :: "byte \<Rightarrow> bytes \<Rightarrow> bytes list" where
  "strtok d s = filter (\<lambda>p. p \<noteq> []) (pieces d s)"

definition is_space :: "byte \<Rightarrow> bool" where
  "is_space c \<longleftrightarrow> c = 32 \<or> 9 \<le> c \<and> c \<le> 13"

definition to_lower :: "byte \<Rightarrow> byte" where
  "to_lower c = (if 65 \<le> c \<and> c \<le> 90 then c + 32 else c)"

definition strcasecmp_eq :: "bytes \<Rightarrow> bytes \<Rightarrow> bool" where
  "strcasecmp_eq s t \<longleftrightarrow> map to_lower s = map to_lower t"

section \<open>\<open>strtoul\<close>\<close>

text \<open>The value of a digit in the given base.\<close>

definition digit_val :: "nat \<Rightarrow> byte \<Rightarrow> nat option" where
  "digit_val base c =
     (let v = if 48 \<le> c \<and> c \<le> 57 then unat c - 48
              else if 97 \<le> c \<and> c \<le> 122 then unat c - 87
              else if 65 \<le> c \<and> c \<le> 90 then unat c - 55 else base
      in if v < base then Some v else None)"

fun digits_val :: "nat \<Rightarrow> nat \<Rightarrow> bytes \<Rightarrow> nat" where
  "digits_val base acc [] = acc"
| "digits_val base acc (c # s) = (case digit_val base c of None \<Rightarrow> acc | Some v \<Rightarrow> digits_val base (acc * base + v) s)"

text \<open>The prefix "0x" counts only when a hexadecimal digit follows.\<close>

definition strtoul_base :: "nat \<Rightarrow> bytes \<Rightarrow> nat \<times> bytes" where
  "strtoul_base base s =
     (let hex = 3 \<le> length s \<and> s ! 0 = 48 \<and> (s ! 1 = 120 \<or> s ! 1 = 88) \<and> digit_val 16 (s ! 2) \<noteq> None
      in if (base = 0 \<or> base = 16) \<and> hex then (16, drop 2 s)
         else if base = 0 then (if s \<noteq> [] \<and> hd s = 48 then 8 else 10, s)
         else (base, s))"

text \<open>
  \<open>strtoul\<close> with \<open>unsigned long\<close> of 64 bits: blanks, a sign, digits; out of range gives \<open>ULONG_MAX\<close>,
  a minus sign negates in the word.
\<close>

definition strtoul :: "nat \<Rightarrow> bytes \<Rightarrow> u64" where
  "strtoul base s =
     (let s = dropWhile is_space s;
          neg = s \<noteq> [] \<and> hd s = 45;
          s = if s \<noteq> [] \<and> (hd s = 45 \<or> hd s = 43) then tl s else s;
          (bs, s) = strtoul_base base s;
          v = digits_val bs 0 s
      in if 2 ^ 64 \<le> v then - 1 else if neg then - of_nat v else of_nat v)"

section \<open>Lemmas\<close>

lemma cstr_no_nul: "0 \<notin> set s \<Longrightarrow> cstr s = s"
  unfolding cstr_def by (rule takeWhile_eq_all_conv [THEN iffD2]) auto

lemma cstr_append_nul: "0 \<notin> set s \<Longrightarrow> cstr (s @ 0 # t) = s"
  unfolding cstr_def by (subst takeWhile_append2) auto

lemma pieces_no_delim: "d \<notin> set s \<Longrightarrow> pieces d s = [s]"
  by (induction s) auto

lemma pieces_append: "d \<notin> set s \<Longrightarrow> pieces d (s @ d # t) = s # pieces d t"
  by (induction s) auto

text \<open>Lines joined with the delimiter are found again.\<close>

lemma strtok_lines:
  "\<forall>l\<in>set ls. d \<notin> set l \<and> l \<noteq> [] \<Longrightarrow> strtok d (concat (map (\<lambda>l. l @ [d]) ls)) = ls"
  by (induction ls) (auto simp: strtok_def pieces_append)

lemma split_at_append: "c \<notin> set s \<Longrightarrow> split_at c (s @ c # t) = Some (s, t)"
proof -
  assume c: "c \<notin> set s"
  then have "dropWhile (\<lambda>x. x \<noteq> c) (s @ c # t) = c # t" by (subst dropWhile_append2) auto
  moreover from c have "takeWhile (\<lambda>x. x \<noteq> c) (s @ c # t) = s" by (subst takeWhile_append2) auto
  ultimately show ?thesis by (simp add: split_at_def)
qed

text \<open>The bytes \<open>e\<close> stand at offset \<open>off\<close> of the buffer.\<close>

definition sits :: "bytes \<Rightarrow> nat \<Rightarrow> bytes \<Rightarrow> bool" where
  "sits d off e \<longleftrightarrow> off + length e \<le> length d \<and> bslice off (length e) d = e"

lemma sits_append: "sits d off (e1 @ e2) \<longleftrightarrow> sits d off e1 \<and> sits d (off + length e1) e2"
proof -
  have "bslice off (length e1 + length e2) d = bslice off (length e1) d @ bslice (off + length e1) (length e2) d"
    by (simp add: bslice_def take_add add.commute)
  then show ?thesis by (auto simp: sits_def bslice_def)
qed

lemma sits_self: "sits (p @ e @ t) (length p) e"
  by (simp add: sits_def bslice_def)

lemma sits_get32: "sits d off (le32_bytes v) \<Longrightarrow> rd32 d off = Some v"
  by (simp add: sits_def get_le32_bslice [of off d] get_le32_bytes)

lemma sits_rdn: "sits d off e \<Longrightarrow> n = length e \<Longrightarrow> rdn d off n = Some e"
  by (simp add: sits_def)

lemma bslice_add: "bslice off (n + m) d = bslice off n d @ bslice (off + n) m d"
  by (simp only: bslice_def take_add drop_drop add.commute [of n off])

lemma bslice_join: "i \<le> k \<Longrightarrow> k \<le> n \<Longrightarrow> bslice i (k - i) d @ bslice k (n - k) d = bslice i (n - i) d"
  using bslice_add [of i "k - i" "n - k" d] by simp

section \<open>Decimal numbers\<close>

text \<open>\<open>%u\<close>, \<open>%llu\<close>\<close>

fun dec :: "nat \<Rightarrow> bytes" where
  "dec n = (if n < 10 then [of_nat (48 + n)] else dec (n div 10) @ [of_nat (48 + n mod 10)])"

declare dec.simps [simp del]

lemma digit_val_10: "n < 10 \<Longrightarrow> digit_val 10 (of_nat (48 + n)) = Some n"
proof -
  assume n: "n < 10"
  then have u: "unat (of_nat (48 + n) :: byte) = 48 + n" by (simp add: unat_of_nat_small del: of_nat_add)
  with n show ?thesis by (simp add: digit_val_def Let_def word_le_nat_alt del: of_nat_add)
qed

lemma digits_val_append:
  "\<forall>c\<in>set s. digit_val base c \<noteq> None \<Longrightarrow> digits_val base acc (s @ t) = digits_val base (digits_val base acc s) t"
  by (induction s arbitrary: acc) auto

lemma dec_digits: "\<forall>c\<in>set (dec n). \<exists>m<10. c = of_nat (48 + m)"
proof (induction n rule: dec.induct)
  case (1 n)
  show ?case
  proof (cases "n < 10")
    case True
    then show ?thesis by (subst dec.simps) auto
  next
    case False
    moreover have "\<exists>m<10. (of_nat (48 + n mod 10) :: byte) = of_nat (48 + m)" by (intro exI [of _ "n mod 10"]) simp
    ultimately show ?thesis using 1 by (subst dec.simps) (auto simp del: of_nat_add)
  qed
qed

lemma dec_is_digits: "\<forall>c\<in>set (dec n). digit_val 10 c \<noteq> None"
  using dec_digits [of n] digit_val_10 by fastforce

lemma digits_val_dec: "digits_val 10 0 (dec n) = n"
proof (induction n rule: dec.induct)
  case (1 n)
  show ?case
  proof (cases "n < 10")
    case True
    then show ?thesis using digit_val_10 [OF True] by (subst dec.simps) simp
  next
    case False
    then have "digits_val 10 0 (dec n) = digits_val 10 (digits_val 10 0 (dec (n div 10))) [of_nat (48 + n mod 10)]"
      by (subst dec.simps) (simp add: digits_val_append dec_is_digits)
    also have "\<dots> = n" using 1 False digit_val_10 [of "n mod 10"] by simp
    finally show ?thesis .
  qed
qed

lemma dec_first: "dec n = c # s \<Longrightarrow> \<not> is_space c \<and> c \<noteq> 45 \<and> c \<noteq> 43"
proof -
  assume "dec n = c # s"
  then have "c \<in> set (dec n)" by simp
  with dec_digits obtain m where m: "m < 10" "c = of_nat (48 + m)" by blast
  then have "unat c = 48 + m" by (simp add: unat_of_nat_small del: of_nat_add)
  with m(1) show ?thesis by (auto simp: is_space_def word_le_nat_alt)
qed

lemma dec_not_empty: "dec n \<noteq> []"
  by (subst dec.simps) simp

lemma strtoul_dec:
  assumes "n < 2 ^ 64" "t = [] \<or> digit_val 10 (hd t) = None"
  shows "strtoul 10 (dec n @ t) = of_nat n"
proof -
  obtain c s where d: "dec n = c # s" using dec_not_empty by (cases "dec n") auto
  note f = dec_first [OF d]
  have "digits_val 10 0 (dec n @ t) = n"
    using assms(2) by (cases t) (auto simp: digits_val_append dec_is_digits digits_val_dec)
  with f d assms(1) show ?thesis by (simp add: strtoul_def strtoul_base_def Let_def)
qed

end
