(* ===== verification/BootPe.thy ===== *)
theory BootPe
  imports CLib
begin

text \<open>
  The PE reader of \<open>src/linux/bootcheck.c\<close>: headers, sections, the Authenticode byte stream and the
  resource tree. Every access to the file goes through \<open>rd16\<close>, \<open>rd32\<close> or \<open>rdn\<close>. Results have two
  layers: the outer \<open>None\<close> is a read outside the file, the inner one is the error return of the C code.
\<close>

section \<open>Headers\<close>

record pe =
  pe_b :: bytes
  pe_plus :: bool
  pe_pe :: nat
  pe_machine :: u16
  pe_nsec :: nat
  pe_opt :: nat
  pe_dd :: nat
  pe_secs :: nat
  pe_headers :: nat

definition pe_open :: "bytes \<Rightarrow> pe option option" where
  "pe_open b =
     (if length b < 0x100 then Some None
      else do {
        mz \<leftarrow> rdn b 0 2;
        if mz \<noteq> [0x4D, 0x5A] then Some None
        else do {
          pew \<leftarrow> rd32 b 0x3c;
          let p = unat pew;
          if p + 24 + 96 > length b then Some None
          else do {
            sg \<leftarrow> rdn b p 4;
            if sg \<noteq> [0x50, 0x45, 0, 0] then Some None
            else do {
              machine \<leftarrow> rd16 b (p + 4);
              nsec \<leftarrow> rd16 b (p + 6);
              osz \<leftarrow> rd16 b (p + 20);
              let opt = p + 24;
              magic \<leftarrow> rd16 b opt;
              if magic \<noteq> 0x10b \<and> magic \<noteq> 0x20b then Some None
              else do {
                headers \<leftarrow> rd32 b (opt + 60);
                let dd = opt + (if magic = 0x20b then 112 else 96);
                let secs = opt + unat osz;
                if dd + 8 * 16 > length b \<or> secs + unat nsec * 40 > length b then Some None
                else Some (Some \<lparr>pe_b = b, pe_plus = (magic = 0x20b), pe_pe = p, pe_machine = machine,
                  pe_nsec = unat nsec, pe_opt = opt, pe_dd = dd, pe_secs = secs, pe_headers = unat headers\<rparr>)
              }
            }
          }
        }
      })"

datatype pe_arch = X64 | IA32 | ARM | AARCH64 | OtherArch

definition pe_arch :: "pe \<Rightarrow> pe_arch" where
  "pe_arch pe =
     (if pe_machine pe = 0x8664 then X64
      else if pe_machine pe = 0x14c then IA32
      else if pe_machine pe = 0x1c0 \<or> pe_machine pe = 0x1c4 then ARM
      else if pe_machine pe = 0xaa64 then AARCH64
      else OtherArch)"

definition sec_hdr :: "pe \<Rightarrow> nat \<Rightarrow> nat" where
  "sec_hdr pe i = pe_secs pe + i * 40"

section \<open>The Authenticode stream\<close>

text \<open>The insertion of section \<open>i\<close> into the sorted part of \<open>idx\<close>, from position \<open>j\<close> downwards.\<close>

fun sift :: "pe \<Rightarrow> nat \<Rightarrow> nat list \<Rightarrow> nat \<Rightarrow> nat list option" where
  "sift pe i idx 0 = Some (idx[0 := i])"
| "sift pe i idx (Suc j) = do {
     a \<leftarrow> rd32 (pe_b pe) (sec_hdr pe (idx ! j) + 20);
     b \<leftarrow> rd32 (pe_b pe) (sec_hdr pe i + 20);
     if a > b then sift pe i (idx[Suc j := idx ! j]) j else Some (idx[Suc j := i])
   }"

fun sort_sections :: "pe \<Rightarrow> nat \<Rightarrow> nat list \<Rightarrow> nat list option" where
  "sort_sections pe 0 idx = Some idx"
| "sort_sections pe (Suc n) idx = do { idx \<leftarrow> sort_sections pe n idx; sift pe n idx n }"

text \<open>The sections in file order: the bytes that are hashed and the running total.\<close>

fun hash_sections :: "pe \<Rightarrow> nat list \<Rightarrow> nat \<Rightarrow> (bytes \<times> nat) option option" where
  "hash_sections pe [] tot = Some (Some ([], tot))"
| "hash_sections pe (k # ks) tot = do {
     rs \<leftarrow> rd32 (pe_b pe) (sec_hdr pe k + 16);
     rp \<leftarrow> rd32 (pe_b pe) (sec_hdr pe k + 20);
     if rs = 0 then hash_sections pe ks tot
     else if unat rp + unat rs > length (pe_b pe) then Some None
     else do {
       chunk \<leftarrow> rdn (pe_b pe) (unat rp) (unat rs);
       r \<leftarrow> hash_sections pe ks (tot + unat rs);
       Some (map_option (\<lambda>(bs, t). (chunk @ bs, t)) r)
     }
   }"

text \<open>\<open>pe_sha256\<close> without the digest: the bytes that go into SHA-256. The index array has 96 places.\<close>

definition pe_stream :: "pe \<Rightarrow> bytes option option" where
  "pe_stream pe = do {
     let b = pe_b pe;
     let chk = pe_opt pe + 64;
     let sec_dir = pe_dd pe + 4 * 8;
     cert_size \<leftarrow> rd32 b (sec_dir + 4);
     if pe_headers pe > length b \<or> sec_dir + 8 > pe_headers pe then Some None
     else do {
       h1 \<leftarrow> rdn b 0 chk;
       h2 \<leftarrow> rdn b (chk + 4) (sec_dir - (chk + 4));
       h3 \<leftarrow> rdn b (sec_dir + 8) (pe_headers pe - (sec_dir + 8));
       let n = min (pe_nsec pe) 96;
       idx \<leftarrow> sort_sections pe n (replicate 96 0);
       r \<leftarrow> hash_sections pe (take n idx) (pe_headers pe);
       case r of
         None \<Rightarrow> Some None
       | Some (secs, tot) \<Rightarrow>
           let end = (if cert_size \<noteq> 0 \<and> unat cert_size \<le> length b then length b - unat cert_size else length b)
           in if length b > tot \<and> end > tot
              then map_option (\<lambda>t. Some (h1 @ h2 @ h3 @ secs @ t)) (rdn b tot (end - tot))
              else Some (Some (h1 @ h2 @ h3 @ secs))
     }
   }"

section \<open>Sections and addresses\<close>

text \<open>The contents of the first section with the given name; the copy is NUL-terminated.\<close>

fun section_from :: "pe \<Rightarrow> bytes \<Rightarrow> nat \<Rightarrow> nat \<Rightarrow> bytes option option" where
  "section_from pe name i 0 = Some None"
| "section_from pe name i (Suc n) = do {
     h \<leftarrow> rdn (pe_b pe) (sec_hdr pe i) 8;
     if \<not> strncmp_eq 8 h name then section_from pe name (Suc i) n
     else do {
       vs \<leftarrow> rd32 (pe_b pe) (sec_hdr pe i + 8);
       rs \<leftarrow> rd32 (pe_b pe) (sec_hdr pe i + 16);
       rp \<leftarrow> rd32 (pe_b pe) (sec_hdr pe i + 20);
       let m = unat (if vs \<noteq> 0 \<and> vs < rs then vs else rs);
       if unat rp + m > length (pe_b pe) then Some None
       else map_option Some (rdn (pe_b pe) (unat rp) m)
     }
   }"

definition pe_section_text :: "pe \<Rightarrow> bytes \<Rightarrow> bytes option option" where
  "pe_section_text pe name = section_from pe name 0 (pe_nsec pe)"

fun rva_from :: "pe \<Rightarrow> u32 \<Rightarrow> nat \<Rightarrow> nat \<Rightarrow> nat option option" where
  "rva_from pe rva i 0 = Some None"
| "rva_from pe rva i (Suc n) = do {
     va \<leftarrow> rd32 (pe_b pe) (sec_hdr pe i + 12);
     vs \<leftarrow> rd32 (pe_b pe) (sec_hdr pe i + 8);
     rs \<leftarrow> rd32 (pe_b pe) (sec_hdr pe i + 16);
     rp \<leftarrow> rd32 (pe_b pe) (sec_hdr pe i + 20);
     let span = (if vs > rs then vs else rs);
     if rva \<ge> va \<and> rva - va < span then
       (let off = unat rp + unat (rva - va) in Some (if off < length (pe_b pe) then Some off else None))
     else rva_from pe rva (Suc i) n
   }"

definition rva_to_off :: "pe \<Rightarrow> u32 \<Rightarrow> nat option option" where
  "rva_to_off pe rva = rva_from pe rva 0 (pe_nsec pe)"

section \<open>The resource tree\<close>

text \<open>Comparison of a UTF-16 name of \<open>length name\<close> units with an 8-bit one.\<close>

fun utf16_eq :: "bytes \<Rightarrow> nat \<Rightarrow> bytes \<Rightarrow> bool option" where
  "utf16_eq b off [] = Some True"
| "utf16_eq b off (c # cs) = do {
     u \<leftarrow> rd16 b off;
     if u \<noteq> ucast c then Some False else utf16_eq b (off + 2) cs
   }"

definition rsrc_match :: "pe \<Rightarrow> nat \<Rightarrow> bytes \<Rightarrow> bool \<Rightarrow> u32 \<Rightarrow> bool option" where
  "rsrc_match pe root name inside nm =
     (if inside \<or> nm AND 0x80000000 = 0 then Some inside
      else let so = root + unat (nm AND 0x7fffffff) in
        if so + 2 \<le> length (pe_b pe) then do {
          l \<leftarrow> rd16 (pe_b pe) so;
          if unat l = length name \<and> so + 2 + unat l * 2 \<le> length (pe_b pe) then utf16_eq (pe_b pe) (so + 2) name
          else Some inside
        } else Some inside)"

text \<open>The entries \<open>i, i + 1, ..\<close> of one directory; \<open>sub\<close> searches a subdirectory.\<close>

fun rsrc_loop :: "(nat \<Rightarrow> bool \<Rightarrow> (u32 \<times> u32) option option) \<Rightarrow> pe \<Rightarrow> nat \<Rightarrow> bytes \<Rightarrow> nat \<Rightarrow> bool \<Rightarrow> nat \<Rightarrow> nat \<Rightarrow>
    (u32 \<times> u32) option option" where
  "rsrc_loop sub pe root name dir inside i 0 = Some None"
| "rsrc_loop sub pe root name dir inside i (Suc n) = do {
     let e = dir + 16 + i * 8;
     if e + 8 > length (pe_b pe) then Some None
     else do {
       nm \<leftarrow> rd32 (pe_b pe) e;
       ofs \<leftarrow> rd32 (pe_b pe) (e + 4);
       matched \<leftarrow> rsrc_match pe root name inside nm;
       if ofs AND 0x80000000 \<noteq> 0 then do {
         r \<leftarrow> sub (root + unat (ofs AND 0x7fffffff)) matched;
         case r of Some x \<Rightarrow> Some (Some x) | None \<Rightarrow> rsrc_loop sub pe root name dir inside (Suc i) n
       }
       else if matched then
         (let de = root + unat ofs in
          if de + 16 > length (pe_b pe) then Some None
          else do {
            rva \<leftarrow> rd32 (pe_b pe) de;
            sz \<leftarrow> rd32 (pe_b pe) (de + 4);
            Some (Some (rva, sz))
          })
       else rsrc_loop sub pe root name dir inside (Suc i) n
     }
   }"

text \<open>The number is how many more levels may be entered: \<open>5 - depth\<close> in the code.\<close>

fun rsrc_find :: "pe \<Rightarrow> nat \<Rightarrow> bytes \<Rightarrow> nat \<Rightarrow> nat \<Rightarrow> bool \<Rightarrow> (u32 \<times> u32) option option" where
  "rsrc_find pe root name 0 dir inside = Some None"
| "rsrc_find pe root name (Suc levels) dir inside =
     (if dir + 16 > length (pe_b pe) then Some None
      else do {
        named \<leftarrow> rd16 (pe_b pe) (dir + 12);
        ids \<leftarrow> rd16 (pe_b pe) (dir + 14);
        if unat named + unat ids > 512 then Some None
        else rsrc_loop (rsrc_find pe root name levels) pe root name dir inside 0 (unat named + unat ids)
      })"

end
