(* ===== verification/BootCheck.thy ===== *)
theory BootCheck
  imports BootPe
begin

text \<open>
  The verdict of \<open>src/linux/bootcheck.c\<close> over the PE reader: SBAT generations, security version numbers,
  the UEFI DBX, the signature, one file and a directory tree.

  OpenSSL is not part of the program: \<open>sha256\<close> is its digest and \<open>pkcs7\<close> its parser of the certificate
  table (the common name of the signer's issuer and the digests of the to-be-signed parts of the
  bundled certificates), both fields of \<open>boot_env\<close> with the file system they are used on.
\<close>

section \<open>Revocation levels\<close>

definition sbat_level :: bytes where
  "sbat_level = ascii ''sbat,1,2025051000'' @ [10] @ ascii ''shim,4'' @ [10] @ ascii ''grub,5'' @ [10]
     @ ascii ''grub.proxmox,2'' @ [10] @ ascii ''BOOTMGRSECURITYVERSIONNUMBER,0x70000''"

record level =
  lv_product :: bytes
  lv_version :: u32

definition load_levels :: "bytes \<Rightarrow> nat \<Rightarrow> level list" where
  "load_levels txt max_n = take max_n
     (List.map_filter (\<lambda>ln. case split_at 44 ln of
          None \<Rightarrow> None
        | Some (p, v) \<Rightarrow> Some \<lparr>lv_product = take 63 p, lv_version = ucast (strtoul 0 v)\<rparr>)
       (strtok 10 txt))"

definition is_upper :: "bytes \<Rightarrow> bool" where
  "is_upper s \<longleftrightarrow> list_all (\<lambda>c. 65 \<le> c \<and> c \<le> 90) s"

text \<open>What is written into \<open>detail\<close>.\<close>

datatype detail =
  NoDetail
| SbatBelow bytes u32 u32
| SvnBelow u32 u32
| DbxHash
| DbxCert
| MayFailPca2011
| WillFailCa2023

text \<open>The first level that revokes a line of the \<open>.sbat\<close> section.\<close>

definition sbat_line :: "level list \<Rightarrow> bytes \<Rightarrow> detail option" where
  "sbat_line lvs ln =
     (case split_at 44 ln of
        None \<Rightarrow> None
      | Some (p, v) \<Rightarrow>
          let ver = ucast (strtoul 10 v) in
          case List.find (\<lambda>l. \<not> is_upper (lv_product l) \<and> p = lv_product l \<and> ver < lv_version l) lvs of
            None \<Rightarrow> None
          | Some l \<Rightarrow> Some (SbatBelow p ver (lv_version l)))"

fun first_some :: "('a \<Rightarrow> 'b option) \<Rightarrow> 'a list \<Rightarrow> 'b option" where
  "first_some f [] = None"
| "first_some f (x # xs) = (case f x of Some y \<Rightarrow> Some y | None \<Rightarrow> first_some f xs)"

definition revoked_by_sbat :: "pe \<Rightarrow> detail option option" where
  "revoked_by_sbat pe = do {
     sb \<leftarrow> pe_section_text pe (ascii ''.sbat'');
     case sb of
       None \<Rightarrow> Some None
     | Some txt \<Rightarrow> Some (first_some (sbat_line (load_levels sbat_level 16)) (strtok 10 (cstr txt)))
   }"

fun svn_levels :: "pe \<Rightarrow> nat \<Rightarrow> level list \<Rightarrow> detail option option" where
  "svn_levels pe root [] = Some None"
| "svn_levels pe root (l # ls) =
     (if \<not> is_upper (lv_product l) then svn_levels pe root ls
      else do {
        r \<leftarrow> rsrc_find pe root (lv_product l) 5 root False;
        case r of
          None \<Rightarrow> svn_levels pe root ls
        | Some (rva, sz) \<Rightarrow>
            if sz \<noteq> 4 then svn_levels pe root ls
            else do {
              off \<leftarrow> rva_to_off pe rva;
              case off of
                None \<Rightarrow> svn_levels pe root ls
              | Some off \<Rightarrow>
                  if off + 4 > length (pe_b pe) then svn_levels pe root ls
                  else do {
                    v \<leftarrow> rd32 (pe_b pe) off;
                    if v < lv_version l then Some (Some (SvnBelow v (lv_version l))) else svn_levels pe root ls
                  }
            }
      })"

definition revoked_by_svn :: "pe \<Rightarrow> detail option option" where
  "revoked_by_svn pe = do {
     rr \<leftarrow> rd32 (pe_b pe) (pe_dd pe + 2 * 8);
     rs \<leftarrow> rd32 (pe_b pe) (pe_dd pe + 2 * 8 + 4);
     if rr = 0 \<or> rs = 0 then Some None
     else do {
       root \<leftarrow> rva_to_off pe rr;
       case root of
         None \<Rightarrow> Some None
       | Some root \<Rightarrow> svn_levels pe root (load_levels sbat_level 16)
     }
   }"

section \<open>The DBX\<close>

definition GUID_SHA256 :: bytes where
  "GUID_SHA256 = [0x26, 0x16, 0xc4, 0xc1, 0x4c, 0x50, 0x92, 0x40, 0xac, 0xa9, 0x41, 0xf9, 0x36, 0x93, 0x43, 0x28]"

definition GUID_X509_SHA256 :: bytes where
  "GUID_X509_SHA256 = [0x92, 0xa4, 0xd2, 0x3b, 0xc0, 0x96, 0x79, 0x40, 0xb4, 0x20, 0xfc, 0xf9, 0x8e, 0xf1, 0x03, 0xed]"

text \<open>The entries of one signature list, \<open>ssz\<close> bytes apart.\<close>

fun dbx_entries :: "bytes \<Rightarrow> bool \<Rightarrow> bool \<Rightarrow> nat \<Rightarrow> bytes \<Rightarrow> bytes list \<Rightarrow> nat \<Rightarrow> nat \<Rightarrow> detail option option" where
  "dbx_entries d is_sha is_x509 ssz hash tbs e 0 = Some None"
| "dbx_entries d is_sha is_x509 ssz hash tbs e (Suc n) =
     (if (is_sha \<or> is_x509) \<and> ssz \<ge> 48 - (if is_sha then 16 else 0) then do {
        v \<leftarrow> rdn d (e + 16) 32;
        if is_sha \<and> v = hash then Some (Some DbxHash)
        else if is_x509 \<and> v \<in> set tbs then Some (Some DbxCert)
        else dbx_entries d is_sha is_x509 ssz hash tbs (e + ssz) n
      }
      else dbx_entries d is_sha is_x509 ssz hash tbs (e + ssz) n)"

text \<open>One signature list at \<open>off\<close>: \<open>None\<close> ends the loop, otherwise the size of the list and whether it hits.\<close>

definition dbx_list :: "bytes \<Rightarrow> bytes \<Rightarrow> bytes list \<Rightarrow> nat \<Rightarrow> (nat \<times> detail option) option option" where
  "dbx_list d hash tbs off =
     (if off + 28 > length d then Some None
      else do {
        g \<leftarrow> rdn d off 16;
        lsz \<leftarrow> rd32 d (off + 16);
        hsz \<leftarrow> rd32 d (off + 20);
        ssz \<leftarrow> rd32 d (off + 24);
        if lsz < 28 \<or> off + unat lsz > length d \<or> ssz < 16 \<or> unat hsz + 28 > unat lsz then Some None
        else do {
          r \<leftarrow> dbx_entries d (g = GUID_SHA256) (g = GUID_X509_SHA256) (unat ssz) hash tbs (off + 28 + unat hsz)
                 ((unat lsz - 28 - unat hsz) div unat ssz);
          Some (Some (unat lsz, r))
        }
      })"

lemma dbx_list_advances: "dbx_list d hash tbs off = Some (Some (lsz, r)) \<Longrightarrow> 28 \<le> lsz \<and> off + lsz \<le> length d"
  by (auto simp: dbx_list_def word_less_nat_alt not_less split: if_splits Option.bind_splits)

function dbx_lists :: "bytes \<Rightarrow> bytes \<Rightarrow> bytes list \<Rightarrow> nat \<Rightarrow> detail option option" where
  "dbx_lists d hash tbs off =
     (case dbx_list d hash tbs off of
        None \<Rightarrow> None
      | Some None \<Rightarrow> Some None
      | Some (Some (lsz, Some h)) \<Rightarrow> Some (Some h)
      | Some (Some (lsz, None)) \<Rightarrow> dbx_lists d hash tbs (off + lsz))"
  by pat_completeness auto

termination
  by (relation "measure (\<lambda>(d, hash, tbs, off). length d - off)") (auto dest!: dbx_list_advances)

declare dbx_lists.simps [simp del]

definition dbx_scan :: "bytes \<Rightarrow> bytes \<Rightarrow> bytes list \<Rightarrow> detail option option" where
  "dbx_scan d hash tbs =
     (if length d > 16 + 24 then do { dl \<leftarrow> rd32 d 16; dbx_lists d hash tbs (16 + unat dl) } else Some None)"

section \<open>The environment\<close>

record boot_env =
  be_env :: "bytes option"
  be_exe_dir :: bytes
  be_is_dir :: "bytes \<Rightarrow> bool"
  be_file :: "bytes \<Rightarrow> bytes option"
  be_sha256 :: "bytes \<Rightarrow> bytes"
  be_pkcs7 :: "bytes \<Rightarrow> (bytes \<times> bytes list) option"

definition read_all :: "boot_env \<Rightarrow> bytes \<Rightarrow> nat \<Rightarrow> bytes option" where
  "read_all E path max_n =
     (case be_file E path of
        None \<Rightarrow> None
      | Some b \<Rightarrow> if b = [] \<or> length b > max_n then None else Some b)"

definition MAX_EFI :: nat where "MAX_EFI = 64 * 2 ^ 20"

text \<open>\<open>snprintf(buf, cap, "%s", s)\<close> keeps at most \<open>cap - 1\<close> characters.\<close>

definition dbx_dir :: "boot_env \<Rightarrow> bytes option" where
  "dbx_dir E = List.find (be_is_dir E) (map (take 1151)
     ((case be_env E of Some e \<Rightarrow> if e = [] then [] else [e] | None \<Rightarrow> []) @
      (if be_exe_dir E = [] then []
       else [be_exe_dir E @ ascii ''/../share/rufux/dbx'', be_exe_dir E @ ascii ''/../res/dbx'']) @
      [ascii ''/usr/share/rufux/dbx'', ascii ''/usr/local/share/rufux/dbx'']))"

definition arch_name :: "pe_arch \<Rightarrow> bytes" where
  "arch_name a = (case a of X64 \<Rightarrow> ascii ''x64'' | IA32 \<Rightarrow> ascii ''ia32'' | ARM \<Rightarrow> ascii ''arm''
     | AARCH64 \<Rightarrow> ascii ''aarch64'' | OtherArch \<Rightarrow> ascii ''other'')"

definition dbx_has :: "boot_env \<Rightarrow> pe_arch \<Rightarrow> bytes \<Rightarrow> bytes list \<Rightarrow> detail option option" where
  "dbx_has E arch hash tbs =
     (case dbx_dir E of
        None \<Rightarrow> Some None
      | Some dir \<Rightarrow>
          if arch = OtherArch then Some None
          else case read_all E (take 1299 (dir @ ascii ''/dbx_'' @ arch_name arch @ ascii ''.efiauth2'')) (8 * 2 ^ 20) of
            None \<Rightarrow> Some None
          | Some d \<Rightarrow> dbx_scan d hash tbs)"

section \<open>The signature\<close>

record sig =
  sg_issuer :: bytes
  sg_tbs :: "bytes list"

text \<open>\<open>Some None\<close> is a file without a usable signature (\<open>signed_\<close> stays 0).\<close>

definition read_sig :: "boot_env \<Rightarrow> pe \<Rightarrow> sig option option" where
  "read_sig E pe = do {
     let b = pe_b pe;
     let sd = pe_dd pe + 4 * 8;
     off \<leftarrow> rd32 b sd;
     sz \<leftarrow> rd32 b (sd + 4);
     if off = 0 \<or> sz < 16 \<or> unat off + unat sz > length b then Some None
     else do {
       dl \<leftarrow> rd32 b (unat off);
       kind \<leftarrow> rd16 b (unat off + 6);
       if dl < 8 \<or> dl > sz \<or> kind \<noteq> 2 then Some None
       else do {
         der \<leftarrow> rdn b (unat off + 8) (unat dl - 8);
         Some (map_option (\<lambda>(cn, certs). \<lparr>sg_issuer = take 127 cn, sg_tbs = take 16 certs\<rparr>) (be_pkcs7 E der))
       }
     }
   }"

section \<open>One file\<close>

datatype boot_state =
  RUFUX_BOOT_NOTPE | RUFUX_BOOT_UNSIGNED | RUFUX_BOOT_OK | RUFUX_BOOT_REVOKED_DBX | RUFUX_BOOT_REVOKED_SBAT | RUFUX_BOOT_REVOKED_SVN

definition rufux_bootcheck_state_name :: "boot_state \<Rightarrow> bytes" where
  "rufux_bootcheck_state_name s = (case s of
     RUFUX_BOOT_NOTPE \<Rightarrow> ascii ''not-efi'' | RUFUX_BOOT_UNSIGNED \<Rightarrow> ascii ''unsigned'' | RUFUX_BOOT_OK \<Rightarrow> ascii ''ok''
   | RUFUX_BOOT_REVOKED_DBX \<Rightarrow> ascii ''revoked-dbx'' | RUFUX_BOOT_REVOKED_SBAT \<Rightarrow> ascii ''revoked-sbat''
   | RUFUX_BOOT_REVOKED_SVN \<Rightarrow> ascii ''revoked-svn'')"

record boot_check =
  bc_state :: boot_state
  bc_arch :: "pe_arch option"
  bc_signer :: bytes
  bc_detail :: detail

definition verdict :: "boot_env \<Rightarrow> pe \<Rightarrow> sig \<Rightarrow> bytes \<Rightarrow> (boot_state \<times> detail) option" where
  "verdict E pe sig h = do {
     dbx \<leftarrow> dbx_has E (pe_arch pe) h (sg_tbs sig);
     case dbx of Some d \<Rightarrow> Some (RUFUX_BOOT_REVOKED_DBX, d)
     | None \<Rightarrow> do {
         sbat \<leftarrow> revoked_by_sbat pe;
         case sbat of Some d \<Rightarrow> Some (RUFUX_BOOT_REVOKED_SBAT, d)
         | None \<Rightarrow> do {
             svn \<leftarrow> revoked_by_svn pe;
             case svn of Some d \<Rightarrow> Some (RUFUX_BOOT_REVOKED_SVN, d)
             | None \<Rightarrow> Some (RUFUX_BOOT_OK,
                 if sg_issuer sig = ascii ''Microsoft Windows Production PCA 2011'' then MayFailPca2011
                 else if sg_issuer sig = ascii ''Windows UEFI CA 2023'' then WillFailCa2023 else NoDetail)
           }
       }
   }"

text \<open>\<open>Some None\<close> is the return value -1.\<close>

definition bootcheck_bytes :: "boot_env \<Rightarrow> bytes \<Rightarrow> boot_check option option" where
  "bootcheck_bytes E b = do {
     p \<leftarrow> pe_open b;
     case p of
       None \<Rightarrow> Some (Some \<lparr>bc_state = RUFUX_BOOT_NOTPE, bc_arch = None, bc_signer = [], bc_detail = NoDetail\<rparr>)
     | Some pe \<Rightarrow> do {
         s \<leftarrow> read_sig E pe;
         case s of
           None \<Rightarrow> Some (Some \<lparr>bc_state = RUFUX_BOOT_UNSIGNED, bc_arch = Some (pe_arch pe), bc_signer = [], bc_detail = NoDetail\<rparr>)
         | Some sig \<Rightarrow> do {
             st \<leftarrow> pe_stream pe;
             case st of
               None \<Rightarrow> Some None
             | Some bytes \<Rightarrow> do {
                 (state, d) \<leftarrow> verdict E pe sig (be_sha256 E bytes);
                 Some (Some \<lparr>bc_state = state, bc_arch = Some (pe_arch pe), bc_signer = sg_issuer sig, bc_detail = d\<rparr>)
               }
           }
       }
   }"

definition rufux_bootcheck_file :: "boot_env \<Rightarrow> bytes \<Rightarrow> boot_check option option" where
  "rufux_bootcheck_file E path =
     (case read_all E path MAX_EFI of None \<Rightarrow> Some None | Some b \<Rightarrow> bootcheck_bytes E b)"

section \<open>A directory tree\<close>

text \<open>
  What \<open>lstat\<close>, \<open>opendir\<close> and \<open>readdir\<close> show: a readable directory with its entries in \<open>readdir\<close> order, a
  regular file, anything else (links, devices, unreadable directories, names \<open>lstat\<close> fails on).
\<close>

datatype node = NDir "(bytes \<times> node) list" | NReg | NOther

definition has_ext :: "bytes \<Rightarrow> bytes \<Rightarrow> bool" where
  "has_ext n ext \<longleftrightarrow> length n > length ext \<and> strcasecmp_eq (drop (length n - length ext) n) ext"

datatype boot_log = LogRevoked bytes boot_check | LogUnsigned bytes boot_check | LogSigned bytes boot_check | LogNoEfi

definition revoked :: "boot_state \<Rightarrow> bool" where
  "revoked s \<longleftrightarrow> s \<in> {RUFUX_BOOT_REVOKED_DBX, RUFUX_BOOT_REVOKED_SBAT, RUFUX_BOOT_REVOKED_SVN}"

definition log_entry :: "bytes \<Rightarrow> boot_check \<Rightarrow> boot_log" where
  "log_entry name c =
     (if revoked (bc_state c) then LogRevoked name c
      else if bc_state c = RUFUX_BOOT_UNSIGNED then LogUnsigned name c else LogSigned name c)"

text \<open>
  The state of the walk: how many loaders are revoked, how many were checked, the log. \<open>levels\<close> is
  \<open>9 - depth\<close>. The check itself is a function of the path, \<open>None\<close> when it returns -1.
\<close>

type_synonym walk_state = "nat \<times> nat \<times> boot_log list"

definition walk_file :: "(bytes \<Rightarrow> boot_check option) \<Rightarrow> bytes \<Rightarrow> bytes \<Rightarrow> walk_state \<Rightarrow> walk_state" where
  "walk_file check path name st =
     (case st of (rev_n, checked, lg) \<Rightarrow>
       if \<not> has_ext name (ascii ''.efi'') then st
       else case check path of
         None \<Rightarrow> st
       | Some c \<Rightarrow>
           if bc_state c = RUFUX_BOOT_NOTPE then st
           else (if revoked (bc_state c) then rev_n + 1 else rev_n, checked + 1, lg @ [log_entry name c]))"

fun walk_entries :: "(bytes \<Rightarrow> boot_check option) \<Rightarrow> (bytes \<Rightarrow> (bytes \<times> node) list \<Rightarrow> walk_state \<Rightarrow> walk_state) \<Rightarrow> bytes \<Rightarrow>
    (bytes \<times> node) list \<Rightarrow> walk_state \<Rightarrow> walk_state" where
  "walk_entries check sub dir [] st = st"
| "walk_entries check sub dir ((name, nd) # es) st =
     (if name = ascii ''.'' \<or> name = ascii ''..'' then walk_entries check sub dir es st
      else let p = dir @ [47] @ name in
        walk_entries check sub dir es
          (case nd of
             NDir es' \<Rightarrow> sub p es' st
           | NReg \<Rightarrow> walk_file check p name st
           | NOther \<Rightarrow> st))"

fun walk :: "(bytes \<Rightarrow> boot_check option) \<Rightarrow> nat \<Rightarrow> bytes \<Rightarrow> (bytes \<times> node) list \<Rightarrow> walk_state \<Rightarrow> walk_state" where
  "walk check 0 dir es st = st"
| "walk check (Suc levels) dir es st =
     (if fst (snd st) > 256 then st else walk_entries check (walk check levels) dir es st)"

definition rufux_bootcheck_tree :: "(bytes \<Rightarrow> boot_check option) \<Rightarrow> bytes \<Rightarrow> node \<Rightarrow> nat \<times> boot_log list" where
  "rufux_bootcheck_tree check root nd =
     (case (case nd of NDir es \<Rightarrow> walk check 9 root es (0, 0, []) | _ \<Rightarrow> (0, 0, [])) of
        (rev_n, checked, lg) \<Rightarrow> (rev_n, if checked = 0 then lg @ [LogNoEfi] else lg))"

end
