(* ===== verification/BootProps.thy ===== *)
theory BootProps
  imports BootCheck "HOL-Library.Multiset"
begin

text \<open>
  Two properties of the boot loader check: it reads inside the file whatever the file holds, and the
  Authenticode stream is the one of the specification.
\<close>

section \<open>No read outside the file\<close>

definition pe_wf :: "pe \<Rightarrow> bool" where
  "pe_wf pe \<longleftrightarrow> pe_opt pe + 96 \<le> pe_dd pe \<and> pe_dd pe + 128 \<le> length (pe_b pe) \<and>
     pe_secs pe + pe_nsec pe * 40 \<le> length (pe_b pe)"

lemma pe_open_safe: "\<exists>r. pe_open b = Some r \<and> (\<forall>pe. r = Some pe \<longrightarrow> pe_wf pe \<and> pe_b pe = b)"
proof (cases "length b < 0x100")
  case True
  then show ?thesis by (simp add: pe_open_def)
next
  case False
  define p where "p = unat (get_le32 b 0x3c)"
  show ?thesis
  proof (cases "p + 24 + 96 > length b")
    case True
    with False show ?thesis by (auto simp: pe_open_def p_def Let_def)
  next
    case p: False
    from False p show ?thesis
      by (simp add: pe_open_def Let_def pe_wf_def flip: p_def)
  qed
qed

lemma sec_in: "pe_wf pe \<Longrightarrow> i < pe_nsec pe \<Longrightarrow> k \<le> 40 \<Longrightarrow> sec_hdr pe i + k \<le> length (pe_b pe)"
proof -
  assume w: "pe_wf pe" and i: "i < pe_nsec pe" and k: "k \<le> 40"
  from i have "(i + 1) * 40 \<le> pe_nsec pe * 40" by (intro mult_right_mono) auto
  with w k show ?thesis by (simp add: sec_hdr_def pe_wf_def)
qed

lemma sec_rd32 [simp]:
  "pe_wf pe \<Longrightarrow> i < pe_nsec pe \<Longrightarrow> k \<le> 36 \<Longrightarrow> rd32 (pe_b pe) (sec_hdr pe i + k) = Some (get_le32 (pe_b pe) (sec_hdr pe i + k))"
  using sec_in [of pe i "k + 4"] by simp

lemma sec_rdn [simp]:
  "pe_wf pe \<Longrightarrow> i < pe_nsec pe \<Longrightarrow> n \<le> 40 \<Longrightarrow> rdn (pe_b pe) (sec_hdr pe i) n = Some (bslice (sec_hdr pe i) n (pe_b pe))"
  using sec_in [of pe i n] by simp

definition sec_ptr :: "pe \<Rightarrow> nat \<Rightarrow> u32" where
  "sec_ptr pe i = get_le32 (pe_b pe) (sec_hdr pe i + 20)"

definition sec_size :: "pe \<Rightarrow> nat \<Rightarrow> u32" where
  "sec_size pe i = get_le32 (pe_b pe) (sec_hdr pe i + 16)"

text \<open>The sorting loop keeps its array sound and sorts.\<close>

lemma sift_spec:
  assumes "pe_wf pe" "i < pe_nsec pe" "\<forall>k<j. idx ! k < pe_nsec pe" "j < length idx"
  shows "\<exists>r xs ys. sift pe i idx j = Some r \<and> length r = length idx \<and> drop (Suc j) r = drop (Suc j) idx \<and>
    take j idx = xs @ ys \<and> take (Suc j) r = xs @ i # ys \<and> (\<forall>y\<in>set ys. sec_ptr pe y > sec_ptr pe i) \<and>
    (xs \<noteq> [] \<longrightarrow> sec_ptr pe (last xs) \<le> sec_ptr pe i)"
  using assms
proof (induction j arbitrary: idx)
  case 0
  then have "take (Suc 0) (idx[0 := i]) = [i]" by (cases idx) auto
  with 0 show ?case by (intro exI [of _ "idx[0 := i]"] exI [of _ "[]"]) simp
next
  case (Suc j)
  from Suc.prems have j: "idx ! j < pe_nsec pe" by simp
  show ?case
  proof (cases "sec_ptr pe (idx ! j) > sec_ptr pe i")
    case True
    let ?d = "idx[Suc j := idx ! j]"
    from Suc.IH [of ?d] Suc.prems obtain r xs ys where
      r: "sift pe i ?d j = Some r" "length r = length ?d" "drop (Suc j) r = drop (Suc j) ?d"
        "take j ?d = xs @ ys" "take (Suc j) r = xs @ i # ys" "\<forall>y\<in>set ys. sec_ptr pe y > sec_ptr pe i"
        "xs \<noteq> [] \<longrightarrow> sec_ptr pe (last xs) \<le> sec_ptr pe i" by auto
    have "r ! Suc j = drop (Suc j) r ! 0" using r(2) Suc.prems by simp
    also have "\<dots> = idx ! j" using r(3) Suc.prems by simp
    finally have "take (Suc (Suc j)) r = xs @ i # (ys @ [idx ! j])"
      using r(2,5) Suc.prems by (simp add: take_Suc_conv_app_nth)
    moreover have "take (Suc j) idx = xs @ (ys @ [idx ! j])"
      using r(4) Suc.prems by (simp add: take_Suc_conv_app_nth)
    moreover have "drop (Suc (Suc j)) r = drop (Suc (Suc j)) idx"
      using arg_cong [OF r(3), of "drop 1"] by simp
    moreover have "sift pe i idx (Suc j) = Some r"
      using True r(1) Suc.prems j by (simp add: sec_ptr_def)
    ultimately show ?thesis using r True
      by (intro exI [of _ r] exI [of _ xs] exI [of _ "ys @ [idx ! j]"]) auto
  next
    case False
    have "sift pe i idx (Suc j) = Some (idx[Suc j := i])"
      using False Suc.prems j by (simp add: sec_ptr_def)
    moreover have "take (Suc (Suc j)) (idx[Suc j := i]) = take (Suc j) idx @ [i]"
      using Suc.prems by (simp add: take_Suc_conv_app_nth [of "Suc j" "idx[Suc j := i]"])
    moreover have "last (take (Suc j) idx) = idx ! j" using Suc.prems by (simp add: take_Suc_conv_app_nth)
    ultimately show ?thesis using False Suc.prems
      by (intro exI [of _ "idx[Suc j := i]"] exI [of _ "take (Suc j) idx"] exI [of _ "[]"]) auto
  qed
qed

lemma sorted_wrt_insert:
  assumes "sorted (map f (xs @ ys))" "\<forall>y\<in>set ys. f y > f i" "xs \<noteq> [] \<longrightarrow> f (last xs) \<le> f i"
  shows "sorted (map f (xs @ i # ys))"
proof -
  have "\<forall>x\<in>set xs. f x \<le> f i"
  proof (cases xs rule: rev_cases)
    case (snoc zs z)
    with assms show ?thesis by (fastforce simp: sorted_append)
  qed simp
  with assms show ?thesis by (fastforce simp: sorted_append)
qed

lemma sort_spec:
  assumes "pe_wf pe" "n \<le> pe_nsec pe" "n \<le> length idx"
  shows "\<exists>r. sort_sections pe n idx = Some r \<and> length r = length idx \<and> mset (take n r) = mset [0..<n] \<and>
    sorted (map (sec_ptr pe) (take n r))"
  using assms
proof (induction n)
  case (Suc n)
  then obtain r where r: "sort_sections pe n idx = Some r" "length r = length idx" "mset (take n r) = mset [0..<n]"
    "sorted (map (sec_ptr pe) (take n r))" by auto
  have "set (take n r) = {0..<n}" using mset_eq_setD [OF r(3)] by simp
  then have "\<forall>k<n. r ! k < pe_nsec pe"
    using Suc.prems r(2) by (metis atLeastLessThan_iff in_set_conv_nth length_take less_le_trans min.absorb2 nth_take Suc_leD)
  from sift_spec [OF Suc.prems(1) _ this, of n] Suc.prems r(2) obtain r' xs ys where
    r': "sift pe n r n = Some r'" "length r' = length r" "take n r = xs @ ys" "take (Suc n) r' = xs @ n # ys"
      "\<forall>y\<in>set ys. sec_ptr pe y > sec_ptr pe n" "xs \<noteq> [] \<longrightarrow> sec_ptr pe (last xs) \<le> sec_ptr pe n" by auto
  have "mset (take (Suc n) r') = mset [0..<Suc n]" using r(3) r'(3,4) by simp
  moreover have "sorted (map (sec_ptr pe) (take (Suc n) r'))"
    using sorted_wrt_insert [of "sec_ptr pe" xs ys n] r(4) r' by simp
  ultimately show ?case using r r' by simp
qed simp

lemma hash_sections_safe:
  assumes "pe_wf pe" "\<forall>k\<in>set ks. k < pe_nsec pe"
  shows "\<exists>r. hash_sections pe ks t = Some r"
  using assms
proof (induction ks arbitrary: t)
  case (Cons k ks)
  from Cons.IH [of "t + unat (sec_size pe k)"] Cons.IH [of t] Cons.prems show ?case
    by (auto simp: sec_size_def)
qed simp

lemma sorted_indices_in:
  assumes "mset (take n r) = mset [0..<n]" "n \<le> pe_nsec pe"
  shows "\<forall>k\<in>set (take n r). k < pe_nsec pe"
proof -
  have "set (take n r) = {0..<n}" using mset_eq_setD [OF assms(1)] by simp
  with assms(2) show ?thesis by auto
qed

lemma pe_stream_safe: "pe_wf pe \<Longrightarrow> \<exists>r. pe_stream pe = Some r"
proof -
  assume w: "pe_wf pe"
  define n where "n = min (pe_nsec pe) 96"
  from sort_spec [OF w, of n "replicate 96 0"] obtain r where
    r: "sort_sections pe n (replicate 96 0) = Some r" "mset (take n r) = mset [0..<n]" by (auto simp: n_def)
  from hash_sections_safe [OF w sorted_indices_in [OF r(2)], of "pe_headers pe"] obtain h where
    h: "hash_sections pe (take n r) (pe_headers pe) = Some h" by (auto simp: n_def)
  from w have d: "pe_dd pe + 4 * 8 + 4 + 4 \<le> length (pe_b pe)" "pe_opt pe + 64 \<le> length (pe_b pe)"
    "pe_opt pe + 64 + 4 + (pe_dd pe + 4 * 8 - (pe_opt pe + 64 + 4)) \<le> length (pe_b pe)" by (simp_all add: pe_wf_def)
  show ?thesis
  proof (cases "pe_headers pe > length (pe_b pe) \<or> pe_dd pe + 4 * 8 + 8 > pe_headers pe")
    case True
    with d show ?thesis by (auto simp: pe_stream_def Let_def)
  next
    case False
    have "\<exists>z. (if length (pe_b pe) > tot \<and> end > tot
              then map_option (\<lambda>t. Some (x @ t)) (rdn (pe_b pe) tot (end - tot))
              else Some (Some x)) = Some z" if "end \<le> length (pe_b pe)" for tot "end" x
      using that by auto
    then show ?thesis
      using False d r(1) h by (cases h) (auto simp: pe_stream_def Let_def simp flip: n_def)
  qed
qed

lemma section_from_safe: "pe_wf pe \<Longrightarrow> i + n \<le> pe_nsec pe \<Longrightarrow> \<exists>r. section_from pe name i n = Some r"
proof (induction n arbitrary: i)
  case (Suc n)
  from Suc.IH [of "Suc i"] Suc.prems show ?case by (auto simp: Let_def not_less)
qed simp

lemma rva_from_safe: "pe_wf pe \<Longrightarrow> i + n \<le> pe_nsec pe \<Longrightarrow> \<exists>r. rva_from pe rva i n = Some r"
proof (induction n arbitrary: i)
  case (Suc n)
  from Suc.IH [of "Suc i"] Suc.prems show ?case by (auto simp: Let_def)
qed simp

lemma section_text_safe: "pe_wf pe \<Longrightarrow> \<exists>r. pe_section_text pe name = Some r"
  unfolding pe_section_text_def by (rule section_from_safe) simp_all

lemma rva_safe: "pe_wf pe \<Longrightarrow> \<exists>r. rva_to_off pe rva = Some r"
  unfolding rva_to_off_def by (rule rva_from_safe) simp_all

lemma utf16_eq_safe: "off + length name * 2 \<le> length b \<Longrightarrow> \<exists>r. utf16_eq b off name = Some r"
proof (induction name arbitrary: off)
  case (Cons c cs)
  from Cons.IH [of "off + 2"] Cons.prems show ?case by auto
qed auto

lemma rsrc_match_safe: "\<exists>r. rsrc_match pe root name inside nm = Some r"
proof -
  let ?so = "root + unat (nm AND 0x7fffffff)"
  have "\<exists>r. utf16_eq (pe_b pe) (?so + 2) name = Some r" if "?so + 2 + length name * 2 \<le> length (pe_b pe)"
    using that by (intro utf16_eq_safe) simp
  then show ?thesis by (auto simp: rsrc_match_def Let_def)
qed

lemma rsrc_loop_safe:
  assumes "\<And>dir inside. \<exists>r. sub dir inside = Some r"
  shows "\<exists>r. rsrc_loop sub pe root name dir inside i n = Some r"
proof (induction n arbitrary: i)
  case (Suc n)
  show ?case
  proof (cases "dir + 16 + i * 8 + 8 \<le> length (pe_b pe)")
    case True
    obtain m where m: "rsrc_match pe root name inside (get_le32 (pe_b pe) (dir + 16 + i * 8)) = Some m"
      using rsrc_match_safe by blast
    obtain r where r: "sub (root + unat (get_le32 (pe_b pe) (dir + 16 + i * 8 + 4) AND 0x7fffffff)) m = Some r"
      using assms by blast
    from True m r Suc.IH [of "Suc i"] show ?thesis
      by (cases r) (auto simp: Let_def not_less)
  qed (simp add: Let_def not_le)
qed simp

lemma rsrc_find_safe: "\<exists>r. rsrc_find pe root name levels dir inside = Some r"
proof (induction levels arbitrary: dir inside)
  case (Suc levels)
  from rsrc_loop_safe [OF Suc.IH] show ?case by (auto simp: not_less)
qed simp

lemma svn_levels_safe: "pe_wf pe \<Longrightarrow> \<exists>r. svn_levels pe root ls = Some r"
proof (induction ls)
  case (Cons l ls)
  obtain r where r: "rsrc_find pe root (lv_product l) 5 root False = Some r" using rsrc_find_safe by blast
  obtain f where f: "\<And>rva. rva_to_off pe rva = Some (f rva)" using rva_safe [OF Cons.prems] by metis
  from Cons r f show ?case
    by (auto simp: not_less split: option.splits prod.splits)
qed simp

lemma revoked_by_svn_safe: "pe_wf pe \<Longrightarrow> \<exists>r. revoked_by_svn pe = Some r"
proof -
  assume w: "pe_wf pe"
  obtain r where r: "rva_to_off pe (get_le32 (pe_b pe) (pe_dd pe + 16)) = Some r" using rva_safe [OF w] by blast
  from w have "pe_dd pe + 2 * 8 + 4 \<le> length (pe_b pe)" "pe_dd pe + 2 * 8 + 4 + 4 \<le> length (pe_b pe)"
    by (simp_all add: pe_wf_def)
  with r svn_levels_safe [OF w] show ?thesis
    by (cases r) (auto simp: revoked_by_svn_def)
qed

lemma revoked_by_sbat_safe: "pe_wf pe \<Longrightarrow> \<exists>r. revoked_by_sbat pe = Some r"
  using section_text_safe [of pe "ascii ''.sbat''"] by (auto simp: revoked_by_sbat_def split: option.split)

lemma read_sig_safe: "pe_wf pe \<Longrightarrow> \<exists>r. read_sig E pe = Some r"
proof -
  assume w: "pe_wf pe"
  define off where "off = get_le32 (pe_b pe) (pe_dd pe + 32)"
  define sz where "sz = get_le32 (pe_b pe) (pe_dd pe + 36)"
  from w have "pe_dd pe + 32 + 4 \<le> length (pe_b pe)" "pe_dd pe + 36 + 4 \<le> length (pe_b pe)" by (simp_all add: pe_wf_def)
  then have d: "rd32 (pe_b pe) (pe_dd pe + 32) = Some off" "rd32 (pe_b pe) (36 + pe_dd pe) = Some sz"
    by (simp_all add: off_def sz_def add.commute)
  show ?thesis
  proof (cases "off = 0 \<or> sz < 16 \<or> unat off + unat sz > length (pe_b pe)")
    case True
    with d show ?thesis by (simp add: read_sig_def Let_def)
  next
    case False
    then have "16 \<le> unat sz" "unat off + unat sz \<le> length (pe_b pe)" by (auto simp: word_less_nat_alt)
    then have r: "unat off + 4 \<le> length (pe_b pe)" "unat off + 6 + 2 \<le> length (pe_b pe)" by auto
    define dl where "dl = get_le32 (pe_b pe) (unat off)"
    have "unat off + 8 + (unat dl - 8) \<le> length (pe_b pe)" if "\<not> (dl < 8 \<or> dl > sz)"
      using that \<open>unat off + unat sz \<le> _\<close> by (auto simp: word_less_nat_alt)
    with False d r show ?thesis by (auto simp: read_sig_def Let_def simp flip: dl_def)
  qed
qed

text \<open>
  C19: the check never reads outside the file it was given, whatever the file holds:
  headers, section table, resource tree, signature and section contents are all bounded before they
  are read. The only other input is the DBX file; when scanning it stays in bounds, the whole check does.
\<close>

theorem bootcheck_in_bounds:
  assumes dbx: "\<And>arch hash tbs. dbx_has E arch hash tbs \<noteq> None"
  shows "bootcheck_bytes E b \<noteq> None"
proof -
  obtain r where r: "pe_open b = Some r" "\<forall>pe. r = Some pe \<longrightarrow> pe_wf pe" using pe_open_safe by blast
  show ?thesis
  proof (cases r)
    case None
    with r show ?thesis by (simp add: bootcheck_bytes_def)
  next
    case (Some pe)
    with r have w: "pe_wf pe" by simp
    obtain s where s: "read_sig E pe = Some s" using read_sig_safe [OF w] by blast
    obtain st where st: "pe_stream pe = Some st" using pe_stream_safe [OF w] by blast
    have "verdict E pe sig h \<noteq> None" for sig h
    proof -
      obtain d where "dbx_has E (pe_arch pe) h (sg_tbs sig) = Some d" using dbx by blast
      moreover obtain a c where "revoked_by_sbat pe = Some a" "revoked_by_svn pe = Some c"
        using revoked_by_sbat_safe [OF w] revoked_by_svn_safe [OF w] by blast
      ultimately show ?thesis by (auto simp: verdict_def split: option.split)
    qed
    then have "\<exists>v. verdict E pe sig h = Some v" for sig h by auto
    then obtain f where f: "\<And>sig h. verdict E pe sig h = Some (f sig h)" by metis
    from r(1) Some s st f show ?thesis
      by (cases s; cases st) (simp_all add: bootcheck_bytes_def split: prod.split)
  qed
qed


section \<open>The Authenticode stream\<close>

text \<open>
  The sections \<open>ks\<close>, in this order, fill the file from \<open>from\<close> to \<open>stop\<close> without gap or overlap; empty
  sections do not count.
\<close>

fun tiles :: "pe \<Rightarrow> nat list \<Rightarrow> nat \<Rightarrow> nat \<Rightarrow> bool" where
  "tiles pe [] start stop \<longleftrightarrow> start = stop"
| "tiles pe (k # ks) start stop \<longleftrightarrow>
     (if sec_size pe k = 0 then tiles pe ks start stop
      else unat (sec_ptr pe k) = start \<and> tiles pe ks (start + unat (sec_size pe k)) stop)"

lemma tiles_le: "tiles pe ks start stop \<Longrightarrow> start \<le> stop"
  by (induction ks arbitrary: start) (fastforce split: if_splits)+

lemma tiles_filter: "tiles pe ks start stop \<longleftrightarrow> tiles pe (filter (\<lambda>k. sec_size pe k \<noteq> 0) ks) start stop"
  by (induction ks arbitrary: start) auto

lemma tiles_sorted:
  "tiles pe ks start stop \<Longrightarrow> \<forall>k\<in>set ks. sec_size pe k \<noteq> 0 \<Longrightarrow>
   sorted_wrt (<) (map (sec_ptr pe) ks) \<and> (\<forall>k\<in>set ks. start \<le> unat (sec_ptr pe k))"
proof (induction ks arbitrary: start)
  case (Cons k ks)
  then have k: "unat (sec_ptr pe k) = start" "tiles pe ks (start + unat (sec_size pe k)) stop" "sec_size pe k \<noteq> 0" by auto
  from Cons.IH [OF k(2)] Cons.prems(2) have
    ih: "sorted_wrt (<) (map (sec_ptr pe) ks)" "\<forall>j\<in>set ks. start + unat (sec_size pe k) \<le> unat (sec_ptr pe j)" by auto
  have "0 < unat (sec_size pe k)" using k(3) by (simp add: unat_gt_0)
  with ih(2) k(1) have "\<forall>j\<in>set ks. sec_ptr pe k < sec_ptr pe j \<and> start \<le> unat (sec_ptr pe j)"
    by (fastforce simp: word_less_nat_alt)
  with ih(1) k(1) show ?case by simp
qed simp

text \<open>File order is unique: any order that tiles gives the same non-empty sections as the sorted one.\<close>

lemma tiles_sort:
  assumes t: "tiles pe ks start stop" and m: "mset ks = mset ks'" and s: "sorted (map (sec_ptr pe) ks')"
  shows "tiles pe ks' start stop"
proof -
  let ?f = "filter (\<lambda>k. sec_size pe k \<noteq> 0)"
  from t have t1: "tiles pe (?f ks) start stop" using tiles_filter by blast
  then have lt: "sorted_wrt (<) (map (sec_ptr pe) (?f ks))" using tiles_sorted by fastforce
  then have sd: "sorted (map (sec_ptr pe) (?f ks))" "distinct (map (sec_ptr pe) (?f ks))"
    using strict_sorted_iff by blast+
  have s': "sorted (map (sec_ptr pe) (?f ks'))" using s by (rule sorted_filter)
  have mf: "mset (?f ks) = mset (?f ks')" using m by (simp add: mset_filter)
  then have "mset (map (sec_ptr pe) (?f ks)) = mset (map (sec_ptr pe) (?f ks'))" by (simp add: mset_map)
  from mset_eq_imp_distinct_iff [OF this] sd(2) have "distinct (map (sec_ptr pe) (?f ks'))" by blast
  moreover have "set (?f ks) = set (?f ks')" using mf by (metis set_mset_mset)
  moreover have "inj_on (sec_ptr pe) (set (?f ks) \<union> set (?f ks'))"
    using sd(2) calculation(2) by (simp add: distinct_map)
  ultimately have "?f ks = ?f ks'" using map_sorted_distinct_set_unique sd s' by blast
  with t1 show ?thesis using tiles_filter by metis
qed

lemma hash_tiles:
  assumes w: "pe_wf pe" and t: "tiles pe ks start stop" and le: "stop \<le> length (pe_b pe)" and k: "\<forall>k\<in>set ks. k < pe_nsec pe"
  shows "hash_sections pe ks start = Some (Some (bslice start (stop - start) (pe_b pe), stop))"
  using t k
proof (induction ks arbitrary: start)
  case (Cons k ks)
  have k: "k < pe_nsec pe" using Cons.prems by simp
  note rd = sec_rd32 [OF w k, of 16] sec_rd32 [OF w k, of 20]
  show ?case
  proof (cases "sec_size pe k = 0")
    case True
    with Cons rd show ?thesis by (simp add: sec_size_def)
  next
    case False
    let ?n = "unat (sec_size pe k)"
    from False Cons.prems have p: "unat (sec_ptr pe k) = start" "tiles pe ks (start + ?n) stop" by auto
    from tiles_le [OF p(2)] have u: "start + ?n \<le> stop" .
    from Cons.IH [OF p(2)] Cons.prems have
      ih: "hash_sections pe ks (start + ?n) = Some (Some (bslice (start + ?n) (stop - (start + ?n)) (pe_b pe), stop))" by simp
    have "bslice start (stop - start) (pe_b pe) = bslice start ?n (pe_b pe) @ bslice (start + ?n) (stop - (start + ?n)) (pe_b pe)"
      using bslice_add [of start ?n "stop - (start + ?n)" "pe_b pe"] u by simp
    moreover have "start + ?n \<le> length (pe_b pe)" using u le by simp
    ultimately show ?thesis using False rd ih p(1) by (simp add: sec_size_def sec_ptr_def)
  qed
qed simp

text \<open>
  C18: what is hashed is what the PE signing specification says. For a file whose
  sections, in whatever order the section table lists them, fill the space between the headers and the
  appended data, the digest covers the whole file in order except the checksum, the certificate-table
  directory entry and the certificate table of \<open>c\<close> bytes at the end.
\<close>

theorem authenticode_stream:
  assumes op: "pe_open b = Some (Some pe)" and n: "pe_nsec pe \<le> 96"
    and t: "mset ks = mset [0..<pe_nsec pe]" "tiles pe ks (pe_headers pe) stop"
    and h: "pe_dd pe + 40 \<le> pe_headers pe"
    and c: "unat (get_le32 b (pe_dd pe + 36)) = c" "stop + c \<le> length b"
  shows "pe_stream pe = Some (Some (take (pe_opt pe + 64) b
      @ bslice (pe_opt pe + 68) (pe_dd pe + 32 - (pe_opt pe + 68)) b
      @ bslice (pe_dd pe + 40) (length b - c - (pe_dd pe + 40)) b))"
proof -
  from pe_open_safe [of b] op have w: "pe_wf pe" and b: "pe_b pe = b" by auto
  define m where "m = min (pe_nsec pe) 96"
  have m: "m = pe_nsec pe" using n by (simp add: m_def)
  from sort_spec [OF w, of m "replicate 96 0"] n m obtain r where
    r: "sort_sections pe m (replicate 96 0) = Some r" "mset (take m r) = mset [0..<m]" "sorted (map (sec_ptr pe) (take m r))" by auto
  have t': "tiles pe (take m r) (pe_headers pe) stop"
    by (rule tiles_sort [OF t(2)]) (use t(1) r m in simp_all)
  have hs: "hash_sections pe (take m r) (pe_headers pe) = Some (Some (bslice (pe_headers pe) (stop - pe_headers pe) b, stop))"
    using hash_tiles [OF w t' _ sorted_indices_in [OF r(2)]] c(2) m b by simp
  note hu = tiles_le [OF t']
  from w h b have d: "36 + pe_dd pe + 4 \<le> length b" "pe_opt pe + 64 \<le> length b" "pe_opt pe + 68 \<le> pe_dd pe + 32" "pe_dd pe + 32 \<le> length b"
    by (simp_all add: pe_wf_def)
  have cs: "rd32 b (pe_dd pe + 4 * 8 + 4) = Some (get_le32 b (pe_dd pe + 36))" using d by (simp add: add.commute)
  define E where "E = length b - c"
  then have E: "stop \<le> E" "E \<le> length b" using c(2) by simp_all
  have e: "(if get_le32 b (pe_dd pe + 36) \<noteq> 0 \<and> unat (get_le32 b (pe_dd pe + 36)) \<le> length b
      then length b - unat (get_le32 b (pe_dd pe + 36)) else length b) = E"
    using c by (auto simp: unat_eq_0 E_def)
  have h1: "rdn b 0 (pe_opt pe + 64) = Some (take (pe_opt pe + 64) b)" using d by (simp add: take_eq_bslice)
  have h2: "rdn b (pe_opt pe + 64 + 4) (pe_dd pe + 4 * 8 - (pe_opt pe + 64 + 4)) =
      Some (bslice (pe_opt pe + 68) (pe_dd pe + 32 - (pe_opt pe + 68)) b)" using d by (simp add: add.commute)
  have h3: "rdn b (pe_dd pe + 4 * 8 + 8) (pe_headers pe - (pe_dd pe + 4 * 8 + 8)) =
      Some (bslice (pe_dd pe + 40) (pe_headers pe - (pe_dd pe + 40)) b)" using h hu c by (simp add: add.commute)
  have join: "bslice (pe_dd pe + 40) (pe_headers pe - (pe_dd pe + 40)) b @ bslice (pe_headers pe) (stop - pe_headers pe) b
      @ bslice stop (E - stop) b = bslice (pe_dd pe + 40) (E - (pe_dd pe + 40)) b"
    using h hu E by (simp add: bslice_join)
  have tail: "rdn b stop (E - stop) = Some (bslice stop (E - stop) b)" using E by simp
  have g: "\<not> (pe_headers pe > length b \<or> pe_dd pe + 4 * 8 + 8 > pe_headers pe)" using h hu c(2) by auto
  show ?thesis
  proof (cases "E > stop")
    case True
    then have "length b > stop" using E by simp
    with True g show ?thesis unfolding E_def [symmetric] using r(1) hs
      by (simp only: pe_stream_def Let_def b cs h1 h2 h3 m_def [symmetric] bind.bind_lunit e tail join simp_thms if_False if_True
          option.case prod.case option.map append_assoc)
  next
    case False
    with E have "E = stop" by simp
    with False g show ?thesis unfolding E_def [symmetric] using r(1) hs join
      by (simp add: pe_stream_def Let_def b cs [simplified] h1 h2 [simplified] h3 [simplified] e [simplified] flip: m_def)
  qed
qed
end
