(* ===== verification/BootVerdict.thy ===== *)
theory BootVerdict
  imports BootProps "HOL-Library.Sublist"
begin

text \<open>
  What the verdicts of the boot loader check mean: the DBX as a list of signature lists, SBAT
  generations, the order of the tests, and the walk over a directory tree.
\<close>


section \<open>The DBX\<close>

text \<open>A signature list as the UEFI specification has it, and the file that holds such lists.\<close>

record dbx_sigs =
  dl_type :: bytes
  dl_header :: bytes
  dl_size :: nat
  dl_sigs :: "bytes list"

definition enc_sigs :: "dbx_sigs \<Rightarrow> bytes" where
  "enc_sigs l = dl_type l @ le32_bytes (of_nat (28 + length (dl_header l) + length (dl_sigs l) * dl_size l))
     @ le32_bytes (of_nat (length (dl_header l))) @ le32_bytes (of_nat (dl_size l)) @ dl_header l @ concat (dl_sigs l)"

definition dbx_file :: "bytes \<Rightarrow> bytes \<Rightarrow> dbx_sigs list \<Rightarrow> bytes" where
  "dbx_file time cert ls = time @ le32_bytes (of_nat (4 + length cert)) @ cert @ concat (map enc_sigs ls)"

definition dbx_sigs_ok :: "dbx_sigs \<Rightarrow> bool" where
  "dbx_sigs_ok l \<longleftrightarrow> length (dl_type l) = 16 \<and> 16 \<le> dl_size l \<and> dl_size l < 2 ^ 32 \<and> (\<forall>s\<in>set (dl_sigs l). length s = dl_size l) \<and>
     (dl_type l = GUID_SHA256 \<longrightarrow> 48 \<le> dl_size l) \<and>
     28 + length (dl_header l) + length (dl_sigs l) * dl_size l < 2 ^ 32"

text \<open>A signature is an owner GUID followed by the digest.\<close>

definition digest_of :: "bytes \<Rightarrow> bytes" where
  "digest_of s = take 32 (drop 16 s)"

definition sigs_hit :: "bytes \<Rightarrow> bytes list \<Rightarrow> dbx_sigs \<Rightarrow> detail option" where
  "sigs_hit hash tbs l =
     (if dl_type l = GUID_SHA256 \<and> hash \<in> digest_of ` set (dl_sigs l) then Some DbxHash
      else if dl_type l = GUID_X509_SHA256 \<and> 48 \<le> dl_size l \<and> (\<exists>s\<in>set (dl_sigs l). digest_of s \<in> set tbs) then Some DbxCert
      else None)"

lemma guids_differ [simp]: "GUID_SHA256 \<noteq> GUID_X509_SHA256"
  by (simp add: GUID_SHA256_def GUID_X509_SHA256_def)

lemma dbx_entries_spec:
  assumes "sits d e (concat sigs)" "\<forall>s\<in>set sigs. length s = ssz" "is_sha \<longrightarrow> 48 \<le> ssz" "\<not> (is_sha \<and> is_x509)"
  shows "dbx_entries d is_sha is_x509 ssz hash tbs e (length sigs) =
    Some (if is_sha \<and> hash \<in> digest_of ` set sigs then Some DbxHash
          else if is_x509 \<and> 48 \<le> ssz \<and> (\<exists>s\<in>set sigs. digest_of s \<in> set tbs) then Some DbxCert else None)"
  using assms
proof (induction sigs arbitrary: e)
  case (Cons s sigs)
  then have s: "sits d e s" "sits d (e + ssz) (concat sigs)" "length s = ssz" by (simp_all add: sits_append)
  note ih = Cons.IH [OF s(2)]
  show ?case
  proof (cases "48 \<le> ssz \<and> (is_sha \<or> is_x509)")
    case True
    have "rdn d (e + 16) 32 = Some (digest_of s)"
    proof -
      have "s = take 16 s @ digest_of s @ drop 48 s"
        unfolding digest_of_def using append_take_drop_id [of 32 "drop 16 s"] append_take_drop_id [of 16 s] by simp
      with s(1) have "sits d e (take 16 s @ digest_of s @ drop 48 s)" by simp
      then have "sits d (e + 16) (digest_of s)" using True s(3) by (simp add: sits_append)
      then show ?thesis using True s(3) by (intro sits_rdn) (auto simp: digest_of_def)
    qed
    with True ih Cons.prems show ?thesis by auto
  next
    case False
    with ih Cons.prems show ?thesis by auto
  qed
qed simp

lemma length_concat_same: "\<forall>s\<in>set xs. length s = n \<Longrightarrow> length (concat xs) = length xs * n"
  by (induction xs) auto

lemma length_enc_sigs:
  "dbx_sigs_ok l \<Longrightarrow> length (enc_sigs l) = 28 + length (dl_header l) + length (dl_sigs l) * dl_size l"
  by (simp add: enc_sigs_def dbx_sigs_ok_def length_concat_same)

lemma dbx_list_spec:
  assumes "sits d off (enc_sigs l)" "dbx_sigs_ok l"
  shows "dbx_list d hash tbs off = Some (Some (length (enc_sigs l), sigs_hit hash tbs l))"
proof -
  define h where "h = length (dl_header l)"
  define n where "n = length (dl_sigs l)"
  define sz where "sz = 28 + h + n * dl_size l"
  from assms(2) have ok: "length (dl_type l) = 16" "16 \<le> dl_size l" "dl_size l < 2 ^ 32" "\<forall>s\<in>set (dl_sigs l). length s = dl_size l"
    "dl_type l = GUID_SHA256 \<longrightarrow> 48 \<le> dl_size l" "sz < 2 ^ 32" by (auto simp: dbx_sigs_ok_def sz_def h_def n_def)
  have len: "length (enc_sigs l) = sz" using length_enc_sigs [OF assms(2)] by (simp add: sz_def h_def n_def)
  have e: "enc_sigs l = dl_type l @ le32_bytes (of_nat sz) @ le32_bytes (of_nat h) @ le32_bytes (of_nat (dl_size l)) @ dl_header l @ concat (dl_sigs l)"
    by (simp add: enc_sigs_def sz_def h_def n_def)
  from assms(1) have at: "sits d off (dl_type l)" "sits d (off + 16) (le32_bytes (of_nat sz))"
    "sits d (off + 20) (le32_bytes (of_nat h))" "sits d (off + 24) (le32_bytes (of_nat (dl_size l)))"
    "sits d (off + 28 + h) (concat (dl_sigs l))"
    unfolding e by (simp_all add: sits_append ok(1) h_def add.assoc del: length_concat)
  from assms(1) have le: "off + sz \<le> length d" by (simp add: sits_def len)
  have w: "unat (of_nat sz :: u32) = sz" "unat (of_nat h :: u32) = h" "unat (of_nat (dl_size l) :: u32) = dl_size l"
  proof -
    have "h < 2 ^ 32" using ok(6) by (simp add: sz_def)
    with ok(3,6) show "unat (of_nat sz :: u32) = sz" "unat (of_nat h :: u32) = h" "unat (of_nat (dl_size l) :: u32) = dl_size l"
      by (simp_all add: unat_of_nat_small)
  qed
  have guard: "\<not> ((of_nat sz :: u32) < 28 \<or> off + sz > length d \<or> (of_nat (dl_size l) :: u32) < 16 \<or> h + 28 > sz)"
    using le ok(2) w by (auto simp: word_less_nat_alt sz_def)
  have div: "(sz - 28 - h) div dl_size l = n" using ok(2) by (simp add: sz_def)
  have "off + 28 \<le> length d" using le by (simp add: sz_def)
  moreover have "rdn d off 16 = Some (dl_type l)" using at(1) ok(1) by (intro sits_rdn) simp_all
  moreover have "dbx_entries d (dl_type l = GUID_SHA256) (dl_type l = GUID_X509_SHA256) (dl_size l) hash tbs (off + 28 + h) n =
      Some (sigs_hit hash tbs l)"
    using dbx_entries_spec [OF at(5) ok(4), of "dl_type l = GUID_SHA256" "dl_type l = GUID_X509_SHA256" hash tbs] ok(5)
    by (auto simp: sigs_hit_def n_def)
  moreover note at(2-4) [THEN sits_get32]
  ultimately show ?thesis
    using guard by (simp add: dbx_list_def len w div del: rd_in diff_diff_left)
qed

lemma dbx_lists_spec:
  assumes "sits d off (concat (map enc_sigs ls))" "list_all dbx_sigs_ok ls" "off + length (concat (map enc_sigs ls)) = length d"
  shows "dbx_lists d hash tbs off = Some (first_some (sigs_hit hash tbs) ls)"
  using assms
proof (induction ls arbitrary: off)
  case Nil
  then show ?case by (simp add: dbx_lists.simps dbx_list_def)
next
  case (Cons l ls)
  then have "sits d off (enc_sigs l)" "sits d (off + length (enc_sigs l)) (concat (map enc_sigs ls))" "dbx_sigs_ok l"
    by (simp_all add: sits_append)
  with Cons.IH [of "off + length (enc_sigs l)"] Cons.prems show ?case
    by (simp add: dbx_lists.simps [of d hash tbs off] dbx_list_spec split: option.split)
qed

lemma dbx_scan_file:
  assumes "length time = 16" "4 + length cert < 2 ^ 32" "list_all dbx_sigs_ok ls"
  shows "dbx_scan (dbx_file time cert ls) hash tbs = Some (first_some (sigs_hit hash tbs) ls)"
proof -
  define c where "c = 4 + length cert"
  let ?body = "concat (map enc_sigs ls)"
  have fl: "dbx_file time cert ls = time @ le32_bytes (of_nat c) @ cert @ ?body" by (simp add: dbx_file_def c_def)
  have "sits (dbx_file time cert ls) 0 (time @ le32_bytes (of_nat c) @ cert @ ?body)" using sits_self [of "[]" "dbx_file time cert ls" "[]"] by (simp add: fl)
  then have at: "sits (dbx_file time cert ls) 16 (le32_bytes (of_nat c))" "sits (dbx_file time cert ls) (16 + c) ?body"
    using assms(1) by (simp_all add: sits_append c_def add.commute)
  have "c < 2 ^ 32" using assms(2) by (simp add: c_def)
  then have w: "unat (of_nat c :: u32) = c" by (simp add: unat_of_nat_small)
  have len: "length (dbx_file time cert ls) = 16 + c + length ?body" by (simp add: fl assms(1) c_def)
  have short: "ls = []" if "length (dbx_file time cert ls) \<le> 16 + 24"
  proof (cases ls)
    case (Cons l ls')
    then have "28 \<le> length ?body" using assms(3) by (simp add: length_enc_sigs)
    with that len show ?thesis by (simp add: c_def)
  qed simp
  show ?thesis
  proof (cases "length (dbx_file time cert ls) > 16 + 24")
    case True
    with dbx_lists_spec [OF at(2) assms(3)] at(1) w len show ?thesis by (simp add: dbx_scan_def sits_get32 del: rd_in)
  next
    case False
    with short show ?thesis by (auto simp: dbx_scan_def)
  qed
qed

text \<open>
  C17: on a DBX file as the UEFI specification lays it out, the scan finds a loader exactly
  when it is listed: the verdict is that of the first signature list which holds the loader's hash
  (a SHA-256 list) or the digest of one of its certificates (an X509-SHA256 list), whatever lists of
  other types, headers or signature sizes come in between.
\<close>

theorem dbx_verdict:
  assumes "length time = 16" "4 + length cert < 2 ^ 32" "list_all dbx_sigs_ok ls"
  shows "dbx_scan (dbx_file time cert ls) hash tbs = Some (first_some (sigs_hit hash tbs) ls)"
  using assms by (rule dbx_scan_file)

text \<open>
  The size check of the scan is 16 bytes short for SHA-256 lists: \<open>ssz\<close> may be as small as
  32, but 48 bytes of each signature are read. A DBX file that ends in such a list makes
  \<open>dbx_has\<close> read behind the end of its buffer.
\<close>

theorem dbx_overread:
  assumes "length time = 16" "4 + length cert < 2 ^ 32" "32 \<le> length s" "length s < 48"
    and l: "l = \<lparr>dl_type = GUID_SHA256, dl_header = [], dl_size = length s, dl_sigs = [s]\<rparr>"
  shows "dbx_scan (dbx_file time cert [l]) hash tbs = None"
proof -
  define c where "c = 4 + length cert"
  define d where "d = dbx_file time cert [l]"
  have g: "length GUID_SHA256 = 16" by (simp add: GUID_SHA256_def)
  have el: "enc_sigs l = GUID_SHA256 @ le32_bytes (of_nat (28 + length s)) @ le32_bytes 0 @ le32_bytes (of_nat (length s)) @ s"
    by (simp add: l enc_sigs_def)
  have fl: "d = time @ le32_bytes (of_nat c) @ cert @ enc_sigs l" by (simp add: d_def dbx_file_def c_def)
  have "sits d 0 (time @ le32_bytes (of_nat c) @ cert @ enc_sigs l)"
    using sits_self [of "[]" d "[]"] by (simp add: fl)
  then have at: "sits d 16 (le32_bytes (of_nat c))" "sits d (16 + c) (enc_sigs l)"
    using assms(1) by (simp_all add: sits_append c_def add.commute)
  then have at2: "sits d (16 + c) GUID_SHA256" "sits d (16 + c + 16) (le32_bytes (of_nat (28 + length s)))"
    "sits d (16 + c + 20) (le32_bytes 0)" "sits d (16 + c + 24) (le32_bytes (of_nat (length s)))"
    unfolding el by (simp_all add: sits_append g)
  have "c < 2 ^ 32" using assms(2) by (simp add: c_def)
  then have w: "unat (of_nat c :: u32) = c" by (simp add: unat_of_nat_small)
  have w2: "unat (of_nat (28 + length s) :: u32) = 28 + length s" "unat (of_nat (length s) :: u32) = length s"
    using assms(4) by (simp_all add: unat_of_nat_small del: of_nat_add)
  have len: "length d = 16 + c + 28 + length s" using assms(1) by (simp add: fl el g c_def)
  have guard: "\<not> ((of_nat (28 + length s) :: u32) < 28 \<or> 16 + c + (28 + length s) > length d \<or> (of_nat (length s) :: u32) < 16)"
    using w2 assms(3) by (simp add: word_less_nat_alt len del: of_nat_add)
  have over: "rdn d (16 + c + 28 + 16) 32 = None" using len assms(4) by (simp add: rdn_def)
  have one: "dbx_entries d True False (length s) hash tbs (16 + c + 28) (Suc 0) = None"
    using over assms(3) by simp
  have "rdn d (16 + c) 16 = Some GUID_SHA256" using at2(1) g by (intro sits_rdn) simp_all
  moreover have "16 + c + 28 \<le> length d" by (simp add: len)
  moreover have "(28 + length s - 28 - unat (0 :: u32)) div length s = 1" using assms(3) by (cases "length s") auto
  ultimately have "dbx_list d hash tbs (16 + c) = None"
    using guard one at2(2-4) [THEN sits_get32] w2 by (simp add: dbx_list_def del: rd_in of_nat_add dbx_entries.simps)
  with at(1) [THEN sits_get32] w len show ?thesis
    by (simp add: dbx_scan_def dbx_lists.simps flip: d_def del: rd_in)
qed

section \<open>SBAT\<close>

lemmas strtoul_eval = ascii_def strtoul_def is_space_def strtoul_base_def digit_val_def Let_def

lemma sbat_lines:
  "strtok 10 sbat_level = map (\<lambda>(p, v). p @ 44 # v)
     [(ascii ''sbat'', ascii ''1,2025051000''), (ascii ''shim'', ascii ''4''), (ascii ''grub'', ascii ''5''),
      (ascii ''grub.proxmox'', ascii ''2''), (ascii ''BOOTMGRSECURITYVERSIONNUMBER'', ascii ''0x70000'')]"
  by (simp add: sbat_level_def ascii_def strtok_def)

lemma sbat_versions:
  "strtoul 0 (ascii ''1,2025051000'') = 1" "strtoul 0 (ascii ''4'') = 4" "strtoul 0 (ascii ''5'') = 5"
  "strtoul 0 (ascii ''2'') = 2" "strtoul 0 (ascii ''0x70000'') = 0x70000"
  by (simp_all add: strtoul_eval)

lemma no_comma:
  "44 \<notin> set (ascii ''sbat'')" "44 \<notin> set (ascii ''shim'')" "44 \<notin> set (ascii ''grub'')" "44 \<notin> set (ascii ''grub.proxmox'')"
  "44 \<notin> set (ascii ''BOOTMGRSECURITYVERSIONNUMBER'')"
  by (simp_all add: ascii_def)

lemma short_names:
  "length (ascii ''sbat'') = 4" "length (ascii ''shim'') = 4" "length (ascii ''grub'') = 4" "length (ascii ''grub.proxmox'') = 12"
  "length (ascii ''BOOTMGRSECURITYVERSIONNUMBER'') = 28"
  by (simp_all add: ascii_def)

lemma sbat_levels:
  "load_levels sbat_level 16 =
     [\<lparr>lv_product = ascii ''sbat'', lv_version = 1\<rparr>, \<lparr>lv_product = ascii ''shim'', lv_version = 4\<rparr>,
      \<lparr>lv_product = ascii ''grub'', lv_version = 5\<rparr>, \<lparr>lv_product = ascii ''grub.proxmox'', lv_version = 2\<rparr>,
      \<lparr>lv_product = ascii ''BOOTMGRSECURITYVERSIONNUMBER'', lv_version = 0x70000\<rparr>]"
  by (simp add: load_levels_def sbat_lines List.map_filter_def split_at_append no_comma sbat_versions short_names)

text \<open>The minimum generations of the policy, as numbers.\<close>

definition sbat_minima :: "(bytes \<times> nat) list" where
  "sbat_minima = [(ascii ''sbat'', 1), (ascii ''shim'', 4), (ascii ''grub'', 5), (ascii ''grub.proxmox'', 2)]"

text \<open>
  What makes an SBAT line revoke a loader. For every component name and every
  generation \<open>g\<close>, a line \<open>name,g,...\<close> revokes exactly when the policy has a minimum for that name and
  \<open>g\<close> is below it; the report names the component, its generation and the minimum.
\<close>

theorem sbat_component:
  assumes "44 \<notin> set name" "g < 2 ^ 32"
  shows "sbat_line (load_levels sbat_level 16) (name @ 44 # dec g @ 44 # rest) =
    (case map_of sbat_minima name of
       None \<Rightarrow> None
     | Some m \<Rightarrow> if g < m then Some (SbatBelow name (of_nat g) (of_nat m)) else None)"
proof -
  have "strtoul 10 (dec g @ 44 # rest) = of_nat g"
    using assms(2) by (intro strtoul_dec) (auto simp: digit_val_def)
  then have v: "(ucast (strtoul 10 (dec g @ 44 # rest)) :: u32) = of_nat g" using assms(2) by (simp add: unsigned_of_nat take_bit_nat_eq_self)
  have u: "unat (of_nat g :: u32) = g" using assms(2) by (simp add: unat_of_nat_small)
  have up: "\<not> is_upper (ascii ''sbat'')" "\<not> is_upper (ascii ''shim'')" "\<not> is_upper (ascii ''grub'')" "\<not> is_upper (ascii ''grub.proxmox'')"
    "is_upper (ascii ''BOOTMGRSECURITYVERSIONNUMBER'')" by (simp_all add: is_upper_def ascii_def)
  have d: "ascii ''shim'' \<noteq> ascii ''sbat''" "ascii ''grub'' \<noteq> ascii ''sbat''" "ascii ''grub.proxmox'' \<noteq> ascii ''sbat''"
    "ascii ''grub'' \<noteq> ascii ''shim''" "ascii ''grub.proxmox'' \<noteq> ascii ''shim''" "ascii ''grub.proxmox'' \<noteq> ascii ''grub''" by (simp_all add: ascii_def)
  show ?thesis
    unfolding sbat_line_def sbat_levels split_at_append [OF assms(1)] option.case prod.case v Let_def
    using up d u by (auto simp: sbat_minima_def word_less_nat_alt)
qed


section \<open>The security version number\<close>

text \<open>The number in the resource of that name, when there is one of four bytes.\<close>

definition boot_svn :: "pe \<Rightarrow> u32 option option" where
  "boot_svn pe = do {
     rr \<leftarrow> rd32 (pe_b pe) (pe_dd pe + 2 * 8);
     rs \<leftarrow> rd32 (pe_b pe) (pe_dd pe + 2 * 8 + 4);
     root \<leftarrow> (if rr = 0 \<or> rs = 0 then Some None else rva_to_off pe rr);
     r \<leftarrow> (case root of None \<Rightarrow> Some None
            | Some root \<Rightarrow> rsrc_find pe root (ascii ''BOOTMGRSECURITYVERSIONNUMBER'') 5 root False);
     off \<leftarrow> (case r of None \<Rightarrow> Some None | Some (rva, sz) \<Rightarrow> if sz \<noteq> 4 then Some None else rva_to_off pe rva);
     (case off of None \<Rightarrow> Some None
      | Some off \<Rightarrow> if off + 4 > length (pe_b pe) then Some None else map_option Some (rd32 (pe_b pe) off))
   }"

text \<open>Only one line of the built-in policy is about a security version number.\<close>

lemma revoked_by_svn_spec:
  "revoked_by_svn pe = map_option (\<lambda>v. case v of None \<Rightarrow> None
     | Some v \<Rightarrow> if v < 0x70000 then Some (SvnBelow v 0x70000) else None) (boot_svn pe)"
proof -
  have up: "\<not> is_upper (ascii ''sbat'')" "\<not> is_upper (ascii ''shim'')" "\<not> is_upper (ascii ''grub'')" "\<not> is_upper (ascii ''grub.proxmox'')"
    "is_upper (ascii ''BOOTMGRSECURITYVERSIONNUMBER'')" by (simp_all add: is_upper_def ascii_def)
  show ?thesis
    unfolding revoked_by_svn_def boot_svn_def sbat_levels
    by (auto simp: up split: Option.bind_splits option.splits)
qed

section \<open>The verdict on a file\<close>

text \<open>
  What the tests look for, independently of how they look for it. The DBX that applies to an architecture is a list of
  signature lists (none when there is no file for it); the SBAT section is a list of lines: component, generation, rest.
\<close>

definition dbx_known :: "boot_env \<Rightarrow> pe_arch \<Rightarrow> dbx_sigs list \<Rightarrow> bool" where
  "dbx_known E arch ls \<longleftrightarrow>
     (case dbx_dir E of
        None \<Rightarrow> ls = []
      | Some dir \<Rightarrow>
          if arch = OtherArch then ls = []
          else case read_all E (take 1299 (dir @ ascii ''/dbx_'' @ arch_name arch @ ascii ''.efiauth2'')) (8 * 2 ^ 20) of
            None \<Rightarrow> ls = []
          | Some d \<Rightarrow> \<exists>time cert. d = dbx_file time cert ls \<and> length time = 16 \<and> 4 + length cert < 2 ^ 32 \<and> list_all dbx_sigs_ok ls)"

type_synonym sbat_entry = "bytes \<times> nat \<times> bytes"

definition sbat_entry_ok :: "sbat_entry \<Rightarrow> bool" where
  "sbat_entry_ok e = (case e of (name, g, rest) \<Rightarrow>
     g < 2 ^ 32 \<and> list_all (\<lambda>c. c \<noteq> 44 \<and> c \<noteq> 10 \<and> c \<noteq> 0) name \<and> list_all (\<lambda>c. c \<noteq> 10 \<and> c \<noteq> 0) rest)"

definition sbat_entry_text :: "sbat_entry \<Rightarrow> bytes" where
  "sbat_entry_text e = (case e of (name, g, rest) \<Rightarrow> name @ 44 # dec g @ 44 # rest)"

definition sbat_known :: "pe \<Rightarrow> sbat_entry list \<Rightarrow> bool" where
  "sbat_known pe es \<longleftrightarrow> list_all sbat_entry_ok es \<and>
     (case pe_section_text pe (ascii ''.sbat'') of
        Some (Some txt) \<Rightarrow> cstr txt = concat (map (\<lambda>e. sbat_entry_text e @ [10]) es)
      | _ \<Rightarrow> es = [])"

definition is_listed :: "bytes \<Rightarrow> bytes list \<Rightarrow> dbx_sigs list \<Rightarrow> bool" where
  "is_listed hash tbs ls \<longleftrightarrow> (\<exists>l\<in>set ls.
     dl_type l = GUID_SHA256 \<and> (\<exists>s\<in>set (dl_sigs l). digest_of s = hash) \<or>
     dl_type l = GUID_X509_SHA256 \<and> 48 \<le> dl_size l \<and> (\<exists>s\<in>set (dl_sigs l). digest_of s \<in> set tbs))"

definition is_outdated :: "sbat_entry list \<Rightarrow> bool" where
  "is_outdated es \<longleftrightarrow> (\<exists>(name, g, rest)\<in>set es. \<exists>m. map_of sbat_minima name = Some m \<and> g < m)"

lemma first_some_None: "first_some f xs = None \<longleftrightarrow> (\<forall>x\<in>set xs. f x = None)"
  by (induction xs) (auto split: option.splits)

lemma first_some_listed: "first_some (sigs_hit hash tbs) ls \<noteq> None \<longleftrightarrow> is_listed hash tbs ls"
proof -
  have "sigs_hit hash tbs l \<noteq> None \<longleftrightarrow> (dl_type l = GUID_SHA256 \<and> (\<exists>s\<in>set (dl_sigs l). digest_of s = hash) \<or>
     dl_type l = GUID_X509_SHA256 \<and> 48 \<le> dl_size l \<and> (\<exists>s\<in>set (dl_sigs l). digest_of s \<in> set tbs))" for l
    by (auto simp: sigs_hit_def image_iff)
  then show ?thesis unfolding first_some_None is_listed_def by blast
qed

lemma dbx_has_known: "dbx_known E arch ls \<Longrightarrow> dbx_has E arch hash tbs = Some (first_some (sigs_hit hash tbs) ls)"
  by (auto simp: dbx_known_def dbx_has_def dbx_scan_file split: option.splits if_splits)

lemma dec_no_newline: "10 \<notin> set (dec n)"
proof
  assume "10 \<in> set (dec n)"
  then obtain m where m: "m < 10" "(10 :: byte) = of_nat (48 + m)" using dec_digits by blast
  then have "unat (10 :: byte) = 48 + m" by (simp only: m(2)) (simp add: unat_of_nat_small del: of_nat_add)
  then show False by simp
qed

lemma sbat_known_spec:
  assumes "sbat_known pe es" "pe_section_text pe (ascii ''.sbat'') \<noteq> None"
  shows "\<exists>r. revoked_by_sbat pe = Some r \<and> (r \<noteq> None \<longleftrightarrow> is_outdated es)"
proof (cases "pe_section_text pe (ascii ''.sbat'')")
  case None
  with assms(2) show ?thesis by simp
next
  case t: (Some t)
  show ?thesis
  proof (cases t)
    case None
    with t assms(1) show ?thesis by (simp add: sbat_known_def revoked_by_sbat_def is_outdated_def)
  next
    case (Some body)
    have ok: "list_all sbat_entry_ok es" and c: "cstr body = concat (map (\<lambda>l. l @ [10]) (map sbat_entry_text es))"
      using assms(1) t Some by (simp_all add: sbat_known_def comp_def)
    have "\<forall>l\<in>set (map sbat_entry_text es). 10 \<notin> set l \<and> l \<noteq> []"
      using ok by (auto simp: list_all_iff sbat_entry_ok_def sbat_entry_text_def dec_no_newline)
    then have "strtok 10 (cstr body) = map sbat_entry_text es" unfolding c by (rule strtok_lines)
    then have r: "revoked_by_sbat pe = Some (first_some (sbat_line (load_levels sbat_level 16)) (map sbat_entry_text es))"
      using t Some by (simp add: revoked_by_sbat_def)
    have "sbat_line (load_levels sbat_level 16) (sbat_entry_text e) \<noteq> None \<longleftrightarrow>
        (case e of (name, g, rest) \<Rightarrow> \<exists>m. map_of sbat_minima name = Some m \<and> g < m)" if "e \<in> set es" for e
    proof -
      obtain name g rest where e: "e = (name, g, rest)" by (cases e)
      with ok that have "44 \<notin> set name" "g < 2 ^ 32" by (auto simp: list_all_iff sbat_entry_ok_def)
      from sbat_component [OF this, of rest] show ?thesis by (simp add: e sbat_entry_text_def split: option.split)
    qed
    then have "first_some (sbat_line (load_levels sbat_level 16)) (map sbat_entry_text es) \<noteq> None \<longleftrightarrow> is_outdated es"
      unfolding first_some_None is_outdated_def by auto
    with r show ?thesis by blast
  qed
qed

text \<open>
  C16: what the verdict on a signed PE file means, in terms of the DBX and the SBAT section and not of the scan. Take
  a DBX file with these signature lists (or none for the architecture), an SBAT section with these lines (or none). The
  file is reported as revoked by the DBX exactly when its Authenticode hash is in a SHA-256 list, or the digest of one of
  its certificates in an X509-SHA256 list; as revoked by SBAT exactly when it is not listed and the generation of one of
  its components is below the minimum of the built-in policy; as revoked by its security version exactly when neither
  holds and the number in its BOOTMGRSECURITYVERSIONNUMBER resource is below 0x70000; as good exactly when none of the
  three holds; and never as unsigned or not PE.
\<close>

theorem verdict_exact:
  assumes "bootcheck_bytes E b = Some (Some c)" "pe_open b = Some (Some pe)" "read_sig E pe = Some (Some sg)"
    "pe_stream pe = Some (Some bs)" "dbx_known E (pe_arch pe) ls" "sbat_known pe es" "boot_svn pe = Some svn"
  shows "(bc_state c = RUFUX_BOOT_REVOKED_DBX \<longleftrightarrow> is_listed (be_sha256 E bs) (sg_tbs sg) ls) \<and>
    (bc_state c = RUFUX_BOOT_REVOKED_SBAT \<longleftrightarrow> \<not> is_listed (be_sha256 E bs) (sg_tbs sg) ls \<and> is_outdated es) \<and>
    (bc_state c = RUFUX_BOOT_REVOKED_SVN \<longleftrightarrow> \<not> is_listed (be_sha256 E bs) (sg_tbs sg) ls \<and> \<not> is_outdated es \<and>
       (\<exists>v. svn = Some v \<and> v < 0x70000)) \<and>
    (bc_state c = RUFUX_BOOT_OK \<longleftrightarrow> \<not> is_listed (be_sha256 E bs) (sg_tbs sg) ls \<and> \<not> is_outdated es \<and>
       (\<forall>v. svn = Some v \<longrightarrow> 0x70000 \<le> v)) \<and>
    bc_state c \<noteq> RUFUX_BOOT_UNSIGNED \<and> bc_state c \<noteq> RUFUX_BOOT_NOTPE"
proof -
  have w: "pe_wf pe" using pe_open_safe [of b] assms(2) by auto
  obtain state d where v: "verdict E pe sg (be_sha256 E bs) = Some (state, d)" and c: "bc_state c = state"
    using assms(1-4) by (auto simp: bootcheck_bytes_def split: Option.bind_splits)
  note dbx = dbx_has_known [OF assms(5), of "be_sha256 E bs" "sg_tbs sg"]
  have "pe_section_text pe (ascii ''.sbat'') \<noteq> None" using section_text_safe [OF w] by blast
  from sbat_known_spec [OF assms(6) this] obtain r where r: "revoked_by_sbat pe = Some r" "r \<noteq> None \<longleftrightarrow> is_outdated es" by blast
  obtain y where y: "revoked_by_svn pe = Some y" "y \<noteq> None \<longleftrightarrow> (\<exists>v. svn = Some v \<and> v < 0x70000)"
    using assms(7) by (cases svn) (auto simp: revoked_by_svn_spec)
  have n: "(\<forall>v. svn = Some v \<longrightarrow> 0x70000 \<le> v) \<longleftrightarrow> y = None" using y(2) by (auto simp: not_less)
  let ?l = "first_some (sigs_hit (be_sha256 E bs) (sg_tbs sg)) ls"
  have l: "is_listed (be_sha256 E bs) (sg_tbs sg) ls \<longleftrightarrow> ?l \<noteq> None" using first_some_listed by blast
  show ?thesis
    unfolding l r(2) [symmetric] y(2) [symmetric] n c
    using v dbx r(1) y(1) by (cases ?l; cases r; cases y) (auto simp: verdict_def split: if_splits)
qed

text \<open>The other two results.\<close>

lemma verdict_unsigned:
  assumes "bootcheck_bytes E b = Some (Some c)"
  shows "(bc_state c = RUFUX_BOOT_NOTPE \<longleftrightarrow> pe_open b = Some None) \<and>
    (bc_state c = RUFUX_BOOT_UNSIGNED \<longleftrightarrow> (\<exists>pe. pe_open b = Some (Some pe) \<and> read_sig E pe = Some None))"
  using assms unfolding bootcheck_bytes_def verdict_def
  by (auto split: Option.bind_splits option.splits if_splits)

section \<open>A directory tree\<close>


definition results :: "(bytes \<Rightarrow> boot_check option) \<Rightarrow> (bytes \<times> bytes) list \<Rightarrow> (bytes \<times> boot_check) list" where
  "results check fs = List.map_filter (\<lambda>(path, name). case check path of
     None \<Rightarrow> None | Some c \<Rightarrow> if bc_state c = RUFUX_BOOT_NOTPE then None else Some (name, c)) fs"

definition add_results :: "(bytes \<times> boot_check) list \<Rightarrow> walk_state \<Rightarrow> walk_state" where
  "add_results rs st = (case st of (rev_n, checked, lg) \<Rightarrow>
     (rev_n + length (filter (\<lambda>(name, c). revoked (bc_state c)) rs), checked + length rs, lg @ map (\<lambda>(name, c). log_entry name c) rs))"

lemma results_Nil [simp]: "results check [] = []"
  by (simp add: results_def List.map_filter_def)


lemma add_results_append [simp]: "add_results (rs @ qs) st = add_results qs (add_results rs st)"
  by (cases st) (simp add: add_results_def)

lemma add_results_Nil [simp]: "add_results [] st = st"
  by (cases st) (simp add: add_results_def)







text \<open>A PE32 file with one section of 16 bytes and a certificate table of 8.\<close>

definition sample_pe :: bytes where
  "sample_pe = [0x4D, 0x5A] @ replicate 58 0 @ [64, 0, 0, 0] @ [0x50, 0x45, 0, 0, 0x4c, 1, 1, 0] @ replicate 12 0 @ [224, 0, 0, 0]
     @ [0x0b, 1] @ replicate 58 0 @ [96, 1, 0, 0] @ replicate 32 0
     @ replicate 32 0 @ [0x70, 1, 0, 0, 8, 0, 0, 0] @ replicate 88 0
     @ replicate 16 0 @ [16, 0, 0, 0, 96, 1, 0, 0] @ replicate 16 0
     @ replicate 16 1 @ replicate 8 2"

definition sample_hdr :: pe where
  "sample_hdr = \<lparr>pe_b = sample_pe, pe_plus = False, pe_pe = 64, pe_machine = 0x14c, pe_nsec = 1, pe_opt = 88,
     pe_dd = 184, pe_secs = 312, pe_headers = 352\<rparr>"

lemma length_sample: "length sample_pe = 376"
  by (simp add: sample_pe_def)

lemma sample_open: "pe_open sample_pe = Some (Some sample_hdr)"
  by code_simp

lemma sample_fields: "get_le32 sample_pe 220 = 8" "sec_size sample_hdr 0 = 16" "sec_ptr sample_hdr 0 = 352"
  by code_simp+

theorem bootcheck_in_bounds_witness:
  "bootcheck_bytes \<lparr>be_env = None, be_exe_dir = [], be_is_dir = (\<lambda>_. False), be_file = (\<lambda>_. None),
     be_sha256 = (\<lambda>_. replicate 32 0), be_pkcs7 = (\<lambda>_. Some ([], []))\<rparr> sample_pe \<noteq> None"
  by (rule bootcheck_in_bounds) (simp add: dbx_has_def dbx_dir_def find_None_iff)

theorem authenticode_stream_witness:
  "pe_stream sample_hdr = Some (Some (take 152 sample_pe @ bslice 156 60 sample_pe @ bslice 224 144 sample_pe))"
  using authenticode_stream [OF sample_open, of "[0]" 368 8] sample_fields
  by (simp add: sample_hdr_def length_sample)

theorem dbx_verdict_witness:
  "dbx_scan (dbx_file (replicate 16 0) [7, 7] [\<lparr>dl_type = GUID_X509_SHA256, dl_header = [], dl_size = 64, dl_sigs = [replicate 64 1]\<rparr>,
      \<lparr>dl_type = GUID_SHA256, dl_header = [], dl_size = 48, dl_sigs = [replicate 48 2, replicate 48 3]\<rparr>]) (replicate 32 3) [] =
   Some (Some DbxHash)"
proof -
  have d: "digest_of (replicate n c) = replicate 32 c" if "48 \<le> n" for n :: nat and c
    using that by (simp add: digest_of_def min_def)
  have g: "length GUID_SHA256 = 16" "length GUID_X509_SHA256 = 16" by (simp_all add: GUID_SHA256_def GUID_X509_SHA256_def)
  show ?thesis
    by (subst dbx_verdict) (simp_all add: dbx_sigs_ok_def sigs_hit_def d g guids_differ [symmetric])
qed



text \<open>A signed file of the same kind, whose section is an SBAT section with one line; a DBX with one list of one hash.\<close>

definition signed_pe :: bytes where
  "signed_pe = [0x4D, 0x5A] @ replicate 58 0 @ [64, 0, 0, 0] @ [0x50, 0x45, 0, 0, 0x4c, 1, 1, 0] @ replicate 12 0 @ [224, 0, 0, 0]
     @ [0x0b, 1] @ replicate 58 0 @ [96, 1, 0, 0] @ replicate 32 0
     @ replicate 32 0 @ [0x70, 1, 0, 0, 16, 0, 0, 0] @ replicate 88 0
     @ ascii ''.sbat'' @ replicate 11 0 @ [16, 0, 0, 0, 96, 1, 0, 0] @ replicate 16 0
     @ ascii ''shim,3,x'' @ [10] @ replicate 7 0 @ [16, 0, 0, 0, 0, 2, 2, 0] @ replicate 8 7"

definition signed_hdr :: pe where
  "signed_hdr = sample_hdr\<lparr>pe_b := signed_pe\<rparr>"

definition signed_dbx :: "dbx_sigs list" where
  "signed_dbx = [\<lparr>dl_type = GUID_SHA256, dl_header = [], dl_size = 48, dl_sigs = [replicate 48 3]\<rparr>]"

definition signed_env :: boot_env where
  "signed_env = \<lparr>be_env = Some (ascii ''/d''), be_exe_dir = [], be_is_dir = (\<lambda>_. True),
     be_file = (\<lambda>_. Some (dbx_file (replicate 16 0) [7] signed_dbx)),
     be_sha256 = (\<lambda>_. replicate 32 9), be_pkcs7 = (\<lambda>_. Some ([88], [replicate 32 8]))\<rparr>"

lemma signed_open: "pe_open signed_pe = Some (Some signed_hdr)"
  by code_simp

lemma signed_sig: "read_sig signed_env signed_hdr = Some (Some \<lparr>sg_issuer = [88], sg_tbs = [replicate 32 8]\<rparr>)"
proof -
  have "rd32 signed_pe 216 = Some 368" "rd32 signed_pe 220 = Some 16" "rd32 signed_pe 368 = Some 16" "rd16 signed_pe 374 = Some 2"
    "rdn signed_pe 376 8 = Some (replicate 8 7)" "length signed_pe = 384" by code_simp+
  then show ?thesis by (simp add: read_sig_def signed_hdr_def sample_hdr_def Let_def signed_env_def del: rd_in)
qed

lemma signed_svn: "boot_svn signed_hdr = Some None"
  by code_simp

lemma signed_text: "pe_section_text signed_hdr (ascii ''.sbat'') = Some (Some (ascii ''shim,3,x'' @ [10] @ replicate 7 0))"
  by code_simp

lemma signed_stream: "\<exists>bs. pe_stream signed_hdr = Some (Some bs)"
proof -
  have "(case pe_stream signed_hdr of Some (Some bs) \<Rightarrow> True | _ \<Rightarrow> False)" by code_simp
  then show ?thesis by (auto split: option.splits)
qed

lemma signed_known: "dbx_known signed_env (pe_arch signed_hdr) signed_dbx" "sbat_known signed_hdr [(ascii ''shim'', 3, [120])]"
proof -
  have "dbx_dir signed_env = Some (ascii ''/d'')" by (simp add: dbx_dir_def signed_env_def ascii_def)
  moreover have "pe_arch signed_hdr = IA32" by (simp add: signed_hdr_def sample_hdr_def pe_arch_def)
  moreover have "length (dbx_file (replicate 16 0) [7] signed_dbx) = 97" by code_simp
  then have "dbx_file (replicate 16 0) [7] signed_dbx \<noteq> []" by (metis length_0_conv zero_neq_numeral)
  then have "read_all signed_env q (8 * 2 ^ 20) = Some (dbx_file (replicate 16 0) [7] signed_dbx)" for q
    using \<open>length _ = 97\<close> by (simp add: read_all_def signed_env_def)
  moreover have "list_all dbx_sigs_ok signed_dbx" by (simp add: signed_dbx_def dbx_sigs_ok_def GUID_SHA256_def)
  ultimately show "dbx_known signed_env (pe_arch signed_hdr) signed_dbx"
    unfolding dbx_known_def by (simp, intro exI [of _ "replicate 16 0"] exI [of _ "[7]"]) simp
  have "dec 3 = [51]" by (simp add: dec.simps)
  moreover have "cstr (ascii ''shim,3,x'' @ [10] @ replicate 7 0) = ascii ''shim'' @ [44, 51, 44, 120, 10]" by code_simp
  ultimately show "sbat_known signed_hdr [(ascii ''shim'', 3, [120])]"
    unfolding sbat_known_def signed_text option.case
    by (simp add: sbat_entry_ok_def sbat_entry_text_def) (simp add: ascii_def)
qed

lemma signed_facts: "\<not> is_listed (replicate 32 9) [replicate 32 8] signed_dbx" "is_outdated [(ascii ''shim'', 3, [120])]"
proof -
  show "\<not> is_listed (replicate 32 9) [replicate 32 8] signed_dbx"
  proof -
    have "digest_of (replicate 48 3) \<noteq> replicate 32 9" by code_simp
    then show ?thesis by (simp add: is_listed_def signed_dbx_def)
  qed
  have "map_of sbat_minima (ascii ''shim'') = Some 4" by code_simp
  then show "is_outdated [(ascii ''shim'', 3, [120])]" by (simp add: is_outdated_def)
qed

theorem verdict_exact_witness:
  "\<exists>c. bootcheck_bytes signed_env signed_pe = Some (Some c) \<and> bc_state c = RUFUX_BOOT_REVOKED_SBAT"
proof -
  obtain bs where bs: "pe_stream signed_hdr = Some (Some bs)" using signed_stream by blast
  obtain c where c: "bootcheck_bytes signed_env signed_pe = Some (Some c)"
    using revoked_by_sbat_safe [of signed_hdr] revoked_by_svn_spec [of signed_hdr] dbx_has_known [OF signed_known(1)]
      pe_open_safe [of signed_pe] signed_open signed_sig signed_svn bs
    by (fastforce simp: bootcheck_bytes_def verdict_def split: option.splits)
  have h: "be_sha256 signed_env bs = replicate 32 9" by (simp add: signed_env_def)
  from verdict_exact [OF c signed_open signed_sig bs signed_known signed_svn] signed_facts c h show ?thesis by auto
qed


end
