(* ===== verification/Mjson.thy ===== *)
theory Mjson
  imports CLib
begin

text \<open>
  The JSON reader of \<open>src/linux/mjson.c\<close>. The parser's position is the rest of the text; a result is an
  error or the value with the rest. A number is represented by the text \<open>strtod\<close> converts: which
  characters it takes is modelled here, the rounding to \<open>double\<close> is not. Memory allocation succeeds.

  \<open>parse_members\<close>, the loop over the members of an array or object, has a bound on the number of rounds;
  the length of the text is enough (\<open>MjFuel\<close> is never returned, see \<open>MjsonProps\<close>).
\<close>

section \<open>Values and errors\<close>

datatype mj =
  MJ_NULL
| MJ_BOOL bool
| MJ_NUM bytes
| MJ_STR bytes
| MJ_ARR "mj list"
| MJ_OBJ "(bytes \<times> mj) list"

datatype mj_error =
  NoInput | TooLarge | TooDeep | UnexpectedEnd | ControlChar | BadUEscape | BadEscape | Unterminated
| ExpectedName | ExpectedColon | ExpectedCommaBrace | ExpectedCommaBracket | BadNumber | UnexpectedChar
| TrailingData | MjFuel

type_synonym 'a parsed = "mj_error + 'a \<times> bytes"

definition MJ_MAX_DEPTH :: nat where "MJ_MAX_DEPTH = 64"

definition MJ_MAX_TEXT :: nat where "MJ_MAX_TEXT = 64 * 2 ^ 20"

section \<open>Strings\<close>

definition skip_ws :: "bytes \<Rightarrow> bytes" where
  "skip_ws s = dropWhile (\<lambda>c. c = 32 \<or> c = 9 \<or> c = 10 \<or> c = 13) s"

text \<open>One step of the loop of \<open>hex4\<close>.\<close>

definition hex_step :: "u32 option \<Rightarrow> byte \<Rightarrow> u32 option" where
  "hex_step v c = (case v of None \<Rightarrow> None | Some v \<Rightarrow>
     let v = push_bit 4 v in
     if 48 \<le> c \<and> c \<le> 57 then Some (v OR ucast (c - 48))
     else if 97 \<le> c \<and> c \<le> 102 then Some (v OR ucast (c - 97 + 10))
     else if 65 \<le> c \<and> c \<le> 70 then Some (v OR ucast (c - 65 + 10))
     else None)"

definition hex4 :: "bytes \<Rightarrow> u32 option" where
  "hex4 p = foldl hex_step (Some 0) (take 4 p)"

definition put_utf8 :: "u32 \<Rightarrow> bytes" where
  "put_utf8 cp =
     (if cp < 0x80 then [ucast cp]
      else if cp < 0x800 then [ucast (0xC0 OR drop_bit 6 cp), ucast (0x80 OR (cp AND 0x3F))]
      else if cp < 0x10000 then
        [ucast (0xE0 OR drop_bit 12 cp), ucast (0x80 OR (drop_bit 6 cp AND 0x3F)), ucast (0x80 OR (cp AND 0x3F))]
      else
        [ucast (0xF0 OR drop_bit 18 cp), ucast (0x80 OR (drop_bit 12 cp AND 0x3F)),
         ucast (0x80 OR (drop_bit 6 cp AND 0x3F)), ucast (0x80 OR (cp AND 0x3F))])"

text \<open>The code point of a \<open>\u\<close> escape and the text after it; a high surrogate takes a low one that follows.\<close>

definition u_escape :: "bytes \<Rightarrow> (u32 \<times> bytes) option" where
  "u_escape s =
     (if length s < 4 then None
      else case hex4 s of
        None \<Rightarrow> None
      | Some cp \<Rightarrow>
          let s = drop 4 s;
              (cp, s) =
                (if 0xD800 \<le> cp \<and> cp < 0xDC00 \<and> 6 \<le> length s \<and> s ! 0 = 92 \<and> s ! 1 = 117 then
                   (case hex4 (drop 2 s) of
                      None \<Rightarrow> (cp, s)
                    | Some lo \<Rightarrow>
                        if 0xDC00 \<le> lo \<and> lo < 0xE000
                        then (0x10000 + push_bit 10 (cp - 0xD800) + (lo - 0xDC00), drop 6 s) else (cp, s))
                 else (cp, s))
          in Some (if cp = 0 then 0xFFFD else cp, s))"

definition simple_escape :: "byte \<Rightarrow> byte option" where
  "simple_escape e =
     (if e = 34 then Some 34 else if e = 92 then Some 92 else if e = 47 then Some 47
      else if e = 98 then Some 8 else if e = 102 then Some 12 else if e = 110 then Some 10
      else if e = 114 then Some 13 else if e = 116 then Some 9 else None)"

definition emit :: "bytes \<Rightarrow> bytes parsed \<Rightarrow> bytes parsed" where
  "emit bs r = (case r of Inl e \<Rightarrow> Inl e | Inr (s, rest) \<Rightarrow> Inr (bs @ s, rest))"

lemma u_escape_shorter: "u_escape s = Some (cp, r) \<Longrightarrow> length r < length s"
  by (auto simp: u_escape_def Let_def split: option.splits if_splits prod.splits)

text \<open>The body of the loop of \<open>parse_string\<close>: what one character or escape stands for, and the text after it.\<close>

definition char_step :: "byte \<Rightarrow> bytes \<Rightarrow> bytes parsed" where
  "char_step c s =
     (if c < 0x20 then Inl ControlChar
      else if c \<noteq> 92 then Inr ([c], s)
      else case s of
        [] \<Rightarrow> Inl Unterminated
      | e # s \<Rightarrow>
          (case simple_escape e of
             Some x \<Rightarrow> Inr ([x], s)
           | None \<Rightarrow>
               if e \<noteq> 117 then Inl BadEscape
               else case u_escape s of
                 None \<Rightarrow> Inl BadUEscape
               | Some (cp, s) \<Rightarrow> Inr (put_utf8 cp, s)))"

lemma char_step_shorter: "char_step c s = Inr (bs, r) \<Longrightarrow> length r \<le> length s"
  by (auto simp: char_step_def dest!: u_escape_shorter split: if_splits list.splits option.splits)

text \<open>The loop, after the opening quote.\<close>

function parse_chars :: "bytes \<Rightarrow> bytes parsed" where
  "parse_chars [] = Inl Unterminated"
| "parse_chars (c # s) =
     (if c = 34 then Inr ([], s)
      else case char_step c s of
        Inl e \<Rightarrow> Inl e
      | Inr (bs, r) \<Rightarrow> emit bs (parse_chars r))"
  by pat_completeness auto

termination
  by (relation "measure length") (auto dest!: char_step_shorter)

definition parse_string :: "bytes \<Rightarrow> bytes parsed" where
  "parse_string s = parse_chars (tl s)"

section \<open>Numbers\<close>

definition is_dig :: "byte \<Rightarrow> bool" where
  "is_dig c \<longleftrightarrow> 48 \<le> c \<and> c \<le> 57"

definition is_hex :: "byte \<Rightarrow> bool" where
  "is_hex c \<longleftrightarrow> digit_val 16 c \<noteq> None"

definition is_alnum_us :: "byte \<Rightarrow> bool" where
  "is_alnum_us c \<longleftrightarrow> is_dig c \<or> 65 \<le> c \<and> c \<le> 90 \<or> 97 \<le> c \<and> c \<le> 122 \<or> c = 95"

definition run_len :: "(byte \<Rightarrow> bool) \<Rightarrow> bytes \<Rightarrow> nat" where
  "run_len P s = length (takeWhile P s)"

definition ci_prefix :: "bytes \<Rightarrow> bytes \<Rightarrow> bool" where
  "ci_prefix p s \<longleftrightarrow> length p \<le> length s \<and> strcasecmp_eq (take (length p) s) p"

text \<open>Digits, a point, digits; 0 when there is no digit.\<close>

definition mantissa_len :: "(byte \<Rightarrow> bool) \<Rightarrow> bytes \<Rightarrow> nat" where
  "mantissa_len P s =
     (let n = run_len P s; t = drop n s; m = (if t \<noteq> [] \<and> hd t = 46 then run_len P (tl t) else 0)
      in if n + m = 0 then 0 else if t \<noteq> [] \<and> hd t = 46 then n + 1 + m else n)"

text \<open>An exponent counts only when it has a digit.\<close>

definition exponent_len :: "byte \<Rightarrow> bytes \<Rightarrow> nat" where
  "exponent_len x s =
     (if s \<noteq> [] \<and> to_lower (hd s) = x then
        (let t = tl s; sg = (if t \<noteq> [] \<and> (hd t = 43 \<or> hd t = 45) then 1 else 0); n = run_len is_dig (drop sg t)
         in if n = 0 then 0 else 1 + sg + n)
      else 0)"

definition nan_len :: "bytes \<Rightarrow> nat" where
  "nan_len s =
     (let t = drop 3 s; n = run_len is_alnum_us (tl t)
      in if t \<noteq> [] \<and> hd t = 40 \<and> n + 1 < length t \<and> t ! (n + 1) = 41 then 3 + n + 2 else 3)"

text \<open>How many characters \<open>strtod\<close> takes in the C locale; the text does not start with a blank.\<close>

definition strtod_len :: "bytes \<Rightarrow> nat" where
  "strtod_len s =
     (let sg = (if s \<noteq> [] \<and> (hd s = 43 \<or> hd s = 45) then 1 else 0);
          t = drop sg s;
          hm = (if 2 \<le> length t \<and> t ! 0 = 48 \<and> to_lower (t ! 1) = 120 then mantissa_len is_hex (drop 2 t) else 0);
          dm = mantissa_len is_dig t;
          n = (if ci_prefix (ascii ''infinity'') t then 8
               else if ci_prefix (ascii ''inf'') t then 3
               else if ci_prefix (ascii ''nan'') t then nan_len t
               else if hm \<noteq> 0 then 2 + hm + exponent_len 112 (drop (2 + hm) t)
               else if dm \<noteq> 0 then dm + exponent_len 101 (drop dm t)
               else 0)
      in if n = 0 then 0 else sg + n)"

section \<open>Values\<close>

text \<open>The name of a member up to the colon; an array has none.\<close>

definition member_name :: "bool \<Rightarrow> bytes \<Rightarrow> bytes parsed" where
  "member_name obj s =
     (if \<not> obj then Inr ([], s)
      else if s = [] \<or> hd s \<noteq> 34 then Inl ExpectedName
      else case parse_string s of
        Inl e \<Rightarrow> Inl e
      | Inr (key, s) \<Rightarrow>
          (let s = skip_ws s in if s = [] \<or> hd s \<noteq> 58 then Inl ExpectedColon else Inr (key, tl s)))"

text \<open>
  The loop over the members; \<open>sub\<close> parses a member's value, \<open>fuel\<close> bounds the rounds: the name, the
  value, the separator, and on.
\<close>

fun parse_members :: "(bytes \<Rightarrow> mj parsed) \<Rightarrow> bool \<Rightarrow> nat \<Rightarrow> bytes \<Rightarrow> (bytes \<times> mj) list parsed" where
  "parse_members sub obj 0 s = Inl MjFuel"
| "parse_members sub obj (Suc fuel) s =
     (case member_name obj (skip_ws s) of
        Inl e \<Rightarrow> Inl e
      | Inr (key, s) \<Rightarrow>
          (case sub s of
             Inl e \<Rightarrow> Inl e
           | Inr (kid, s) \<Rightarrow>
               (let s = skip_ws s in
                if s \<noteq> [] \<and> hd s = 44 then
                  (case parse_members sub obj fuel (tl s) of
                     Inl e \<Rightarrow> Inl e
                   | Inr (kids, s) \<Rightarrow> Inr ((key, kid) # kids, s))
                else if s \<noteq> [] \<and> hd s = (if obj then 125 else 93) then Inr ([(key, kid)], tl s)
                else Inl (if obj then ExpectedCommaBrace else ExpectedCommaBracket))))"

definition mk_container :: "bool \<Rightarrow> (bytes \<times> mj) list \<Rightarrow> mj" where
  "mk_container obj kids = (if obj then MJ_OBJ kids else MJ_ARR (map snd kids))"

text \<open>\<open>parse_value\<close>; the number is how many more levels are allowed, \<open>MJ_MAX_DEPTH + 1 - depth\<close>.\<close>

fun parse_value :: "nat \<Rightarrow> bytes \<Rightarrow> mj parsed" where
  "parse_value 0 s = Inl TooDeep"
| "parse_value (Suc levels) s =
     (let s = skip_ws s in
      if s = [] then Inl UnexpectedEnd
      else let c = hd s in
        if c = 123 \<or> c = 91 then
          (let obj = (c = 123); close = (if obj then 125 else 93); t = skip_ws (tl s)
           in if t \<noteq> [] \<and> hd t = close then Inr (mk_container obj [], tl t)
              else case parse_members (parse_value levels) obj (length s) t of
                Inl e \<Rightarrow> Inl e
              | Inr (kids, r) \<Rightarrow> Inr (mk_container obj kids, r))
        else if c = 34 then
          (case parse_string s of Inl e \<Rightarrow> Inl e | Inr (str, r) \<Rightarrow> Inr (MJ_STR str, r))
        else if starts (ascii ''true'') s then Inr (MJ_BOOL True, drop 4 s)
        else if starts (ascii ''false'') s then Inr (MJ_BOOL False, drop 5 s)
        else if starts (ascii ''null'') s then Inr (MJ_NULL, drop 4 s)
        else if c = 45 \<or> 48 \<le> c \<and> c \<le> 57 then
          (let n = strtod_len s in if n = 0 then Inl BadNumber else Inr (MJ_NUM (take n s), drop n s))
        else Inl UnexpectedChar)"

text \<open>\<open>None\<close> is a NULL pointer; otherwise the text is a C string.\<close>

definition mj_parse :: "bytes option \<Rightarrow> mj_error + mj" where
  "mj_parse text =
     (case text of
        None \<Rightarrow> Inl NoInput
      | Some s \<Rightarrow>
          if length s > MJ_MAX_TEXT then Inl TooLarge
          else
            let s = (if starts [0xEF, 0xBB, 0xBF] s then drop 3 s else s)
            in case parse_value (MJ_MAX_DEPTH + 1) s of
                 Inl e \<Rightarrow> Inl e
               | Inr (v, r) \<Rightarrow> if skip_ws r \<noteq> [] then Inl TrailingData else Inr v)"

section \<open>Access\<close>

datatype mj_type = T_NULL | T_BOOL | T_NUM | T_STR | T_ARR | T_OBJ

definition mj_type :: "mj option \<Rightarrow> mj_type" where
  "mj_type j = (case j of None \<Rightarrow> T_NULL | Some v \<Rightarrow>
     (case v of MJ_NULL \<Rightarrow> T_NULL | MJ_BOOL _ \<Rightarrow> T_BOOL | MJ_NUM _ \<Rightarrow> T_NUM | MJ_STR _ \<Rightarrow> T_STR | MJ_ARR _ \<Rightarrow> T_ARR | MJ_OBJ _ \<Rightarrow> T_OBJ))"

definition mj_len :: "mj option \<Rightarrow> nat" where
  "mj_len j = (case j of Some (MJ_ARR vs) \<Rightarrow> length vs | Some (MJ_OBJ kvs) \<Rightarrow> length kvs | _ \<Rightarrow> 0)"

definition mj_at :: "mj option \<Rightarrow> nat \<Rightarrow> mj option" where
  "mj_at j i = (case j of
     Some (MJ_ARR vs) \<Rightarrow> if i < length vs then Some (vs ! i) else None
   | Some (MJ_OBJ kvs) \<Rightarrow> if i < length kvs then Some (snd (kvs ! i)) else None
   | _ \<Rightarrow> None)"

definition mj_key_at :: "mj option \<Rightarrow> nat \<Rightarrow> bytes option" where
  "mj_key_at j i = (case j of Some (MJ_OBJ kvs) \<Rightarrow> if i < length kvs then Some (fst (kvs ! i)) else None | _ \<Rightarrow> None)"

definition mj_str :: "mj option \<Rightarrow> bytes option" where
  "mj_str j = (case j of Some (MJ_STR s) \<Rightarrow> Some s | _ \<Rightarrow> None)"

text \<open>A number as the text it was read from; \<open>None\<close> stands for 0.\<close>

definition mj_num :: "mj option \<Rightarrow> bytes option" where
  "mj_num j = (case j of Some (MJ_NUM d) \<Rightarrow> Some d | _ \<Rightarrow> None)"

definition mj_bool :: "mj option \<Rightarrow> bool" where
  "mj_bool j = (case j of Some (MJ_BOOL b) \<Rightarrow> b | _ \<Rightarrow> False)"

definition mj_get :: "mj option \<Rightarrow> bytes \<Rightarrow> mj option" where
  "mj_get j key = (case j of Some (MJ_OBJ kvs) \<Rightarrow> map_of kvs key | _ \<Rightarrow> None)"

definition mj_get_str :: "mj option \<Rightarrow> bytes \<Rightarrow> bytes \<Rightarrow> bytes" where
  "mj_get_str j key def = (case mj_str (mj_get j key) of Some s \<Rightarrow> s | None \<Rightarrow> def)"

text \<open>The number under a key, as the text it was read from; \<open>None\<close> stands for the default.\<close>

definition mj_get_num :: "mj option \<Rightarrow> bytes \<Rightarrow> bytes option" where
  "mj_get_num j key = (case mj_get j key of Some (MJ_NUM d) \<Rightarrow> Some d | _ \<Rightarrow> None)"

end
