(* ===== verification/MjsonProps.thy ===== *)
theory MjsonProps
  imports Mjson
begin

text \<open>
  The properties of the JSON reader: it returns on every text, bounds the depth of what it returns, and
  reads back every document.
\<close>

section \<open>Progress and termination\<close>

lemma skip_ws_le: "length (skip_ws s) \<le> length s"
  unfolding skip_ws_def by (rule length_dropWhile_le)

lemma emit_Inr: "emit bs r = Inr (s, t) \<longleftrightarrow> (\<exists>u. r = Inr (u, t) \<and> s = bs @ u)"
  by (auto simp: emit_def split: sum.splits)

lemma parse_chars_shorter: "parse_chars s = Inr (t, r) \<Longrightarrow> length r < length s"
proof (induction s arbitrary: t r rule: parse_chars.induct)
  case (2 c s)
  then show ?case
    by (fastforce simp: emit_Inr dest: char_step_shorter split: if_splits sum.splits prod.splits)
qed simp

lemma parse_string_shorter: "parse_string s = Inr (t, r) \<Longrightarrow> length r < length s"
  using parse_chars_shorter [of "tl s" t r] by (cases s) (auto simp: parse_string_def)

lemma char_step_no_fuel: "char_step c s \<noteq> Inl MjFuel"
  by (auto simp: char_step_def split: list.split option.split)

lemma parse_chars_no_fuel: "parse_chars s \<noteq> Inl MjFuel"
proof (induction s rule: parse_chars.induct)
  case (2 c s)
  show ?case
  proof (cases "char_step c s")
    case (Inl e)
    with char_step_no_fuel [of c s] show ?thesis by auto
  next
    case (Inr br)
    obtain bs r where br: "br = (bs, r)" by (cases br)
    with 2 Inr show ?thesis by (cases "parse_chars r") (auto simp: emit_def)
  qed
qed simp

text \<open>A parser of values that makes progress and never runs out of rounds.\<close>

definition good_sub :: "(bytes \<Rightarrow> mj parsed) \<Rightarrow> bool" where
  "good_sub sub \<longleftrightarrow> (\<forall>s. sub s \<noteq> Inl MjFuel) \<and> (\<forall>s v r. sub s = Inr (v, r) \<longrightarrow> length r < length s)"

lemma member_name_good:
  "member_name obj s \<noteq> Inl MjFuel \<and> (\<forall>key r. member_name obj s = Inr (key, r) \<longrightarrow> length r \<le> length s)"
proof (cases "parse_string s")
  case (Inl e)
  then show ?thesis using parse_chars_no_fuel [of "tl s"] by (auto simp: member_name_def parse_string_def)
next
  case (Inr kv)
  obtain k v where kv: "kv = (k, v)" by (cases kv)
  from parse_string_shorter [OF Inr [unfolded kv]] skip_ws_le [of v] show ?thesis
    by (auto simp: member_name_def Inr kv Let_def)
qed

lemma parse_members_good:
  assumes "good_sub sub"
  shows "(length s < fuel \<longrightarrow> parse_members sub obj fuel s \<noteq> Inl MjFuel) \<and>
    (\<forall>kids r. parse_members sub obj fuel s = Inr (kids, r) \<longrightarrow> length r < length s)"
proof (induction fuel arbitrary: s)
  case (Suc fuel)
  note n = member_name_good [of obj "skip_ws s"] and ws = skip_ws_le [of s]
  show ?case
  proof (cases "member_name obj (skip_ws s)")
    case (Inl e)
    with n show ?thesis by simp
  next
    case (Inr ku)
    obtain key u where ku: "ku = (key, u)" by (cases ku)
    with n ws Inr have u: "length u \<le> length s" by auto
    show ?thesis
    proof (cases "sub u")
      case (Inl e)
      with assms have "e \<noteq> MjFuel" by (auto simp: good_sub_def)
      with \<open>member_name obj (skip_ws s) = Inr ku\<close> Inl ku show ?thesis by simp
    next
      case kr0: (Inr kr)
      obtain kid r where kr: "kr = (kid, r)" by (cases kr)
      with kr0 assms have "length r < length u" by (auto simp: good_sub_def)
      with u skip_ws_le [of r] have w: "length (skip_ws r) < length s" by simp
      define q where "q = parse_members sub obj fuel (tl (skip_ws r))"
      from Suc.IH [of "tl (skip_ws r)"] w Inr ku kr0 kr show ?thesis
        unfolding q_def [symmetric]
        by (cases q) (auto simp: Let_def q_def [symmetric])
    qed
  qed
qed simp

lemma parse_value_good: "good_sub (parse_value levels)"
proof (induction levels)
  case 0
  show ?case by (simp add: good_sub_def)
next
  case (Suc levels)
  have "parse_value (Suc levels) s \<noteq> Inl MjFuel \<and> (\<forall>v r. parse_value (Suc levels) s = Inr (v, r) \<longrightarrow> length r < length s)" for s
  proof -
    define t where "t = skip_ws s"
    have t: "length t \<le> length s" by (simp add: t_def skip_ws_le)
    show ?thesis
    proof (cases t)
      case Nil
      then show ?thesis by (simp add: t_def)
    next
      case (Cons c t')
      have u: "length (skip_ws t') < length t" using skip_ws_le [of t'] Cons by simp
      note m = parse_members_good [OF Suc, of "skip_ws t'" "length t" "c = 123"]
      have str: "parse_string t \<noteq> Inl MjFuel" "\<And>x r. parse_string t = Inr (x, r) \<Longrightarrow> length r < length t"
        using parse_chars_no_fuel parse_string_shorter by (auto simp: parse_string_def)
      show ?thesis
        using t u m str Cons
        by (fastforce simp: Let_def t_def [symmetric] split: sum.splits prod.splits if_splits)
    qed
  qed
  then show ?case unfolding good_sub_def by blast
qed

section \<open>Depth\<close>

fun height :: "mj \<Rightarrow> nat" where
  "height (MJ_ARR vs) = Suc (Max (insert 0 (set (map height vs))))"
| "height (MJ_OBJ kvs) = Suc (Max (insert 0 (set (map (\<lambda>kv. height (snd kv)) kvs))))"
| "height _ = Suc 0"

lemma height_mk: "height (mk_container obj kids) \<le> Suc n \<longleftrightarrow> (\<forall>kv\<in>set kids. height (snd kv) \<le> n)"
  by (auto simp: mk_container_def)

lemma parse_members_height:
  assumes "\<And>s v r. sub s = Inr (v, r) \<Longrightarrow> height v \<le> n"
  shows "parse_members sub obj fuel s = Inr (kids, r) \<Longrightarrow> (k, v) \<in> set kids \<Longrightarrow> height v \<le> n"
proof (induction fuel arbitrary: s kids r)
  case (Suc fuel)
  then show ?case
    by (auto simp: Let_def split: sum.splits prod.splits if_splits dest!: assms)
qed simp

lemma parse_value_height: "parse_value levels s = Inr (v, r) \<Longrightarrow> height v \<le> levels"
proof (induction levels arbitrary: s v r)
  case (Suc levels)
  have m: "height u \<le> levels" if "parse_members (parse_value levels) obj n t = Inr (kids, q)" "(k, u) \<in> set kids" for obj n t kids q k u
    using that by (rule parse_members_height [rotated]) (rule Suc.IH)
  from Suc.prems show ?case
    by (auto simp: Let_def height_mk split: if_splits sum.splits prod.splits) (use m in blast)+
qed simp

text \<open>
  C22: reading a document ends and cannot be driven deep: whatever the text, the parser
  returns a value or one of its errors (the bound on the member loop is never what stops it), the text
  is at most 64 MiB long and the value nests at most 64 containers deep - the recursion of every
  routine that walks the value is bounded with it.
\<close>

theorem mj_parse_bounded:
  "mj_parse doc \<noteq> Inl MjFuel \<and>
   (\<forall>v. mj_parse doc = Inr v \<longrightarrow> height v \<le> MJ_MAX_DEPTH + 1 \<and> (\<exists>s. doc = Some s \<and> length s \<le> MJ_MAX_TEXT))"
proof (intro conjI allI impI)
  have g: "parse_value (MJ_MAX_DEPTH + 1) s \<noteq> Inl MjFuel" for s
    using parse_value_good [of "MJ_MAX_DEPTH + 1"] unfolding good_sub_def by blast
  show "mj_parse doc \<noteq> Inl MjFuel"
    using g by (auto simp: mj_parse_def Let_def split: option.splits sum.splits simp del: parse_value.simps)
  fix v
  assume p: "mj_parse doc = Inr v"
  then obtain s u r where "doc = Some s" "parse_value (MJ_MAX_DEPTH + 1) u = Inr (v, r)" "length s \<le> MJ_MAX_TEXT"
    by (cases doc) (auto simp: mj_parse_def Let_def split: if_splits sum.splits simp del: parse_value.simps)
  with parse_value_height show "height v \<le> MJ_MAX_DEPTH + 1" "\<exists>s. doc = Some s \<and> length s \<le> MJ_MAX_TEXT" by blast+
qed

section \<open>Round trip\<close>

definition hex_digit :: "nat \<Rightarrow> byte" where
  "hex_digit n = (if n < 10 then of_nat (48 + n) else of_nat (87 + n))"

definition print_char :: "byte \<Rightarrow> bytes" where
  "print_char c =
     (if c = 34 \<or> c = 92 then [92, c]
      else if c < 0x20 then [92, 117, 48, 48, hex_digit (unat c div 16), hex_digit (unat c mod 16)]
      else [c])"

definition print_str :: "bytes \<Rightarrow> bytes" where
  "print_str s = 34 # concat (map print_char s) @ [34]"

fun joined :: "bytes list \<Rightarrow> bytes" where
  "joined [] = []"
| "joined [p] = p"
| "joined (p # ps) = p @ 44 # joined ps"

fun print_mj :: "mj \<Rightarrow> bytes" where
  "print_mj MJ_NULL = ascii ''null''"
| "print_mj (MJ_BOOL b) = (if b then ascii ''true'' else ascii ''false'')"
| "print_mj (MJ_NUM t) = t"
| "print_mj (MJ_STR s) = print_str s"
| "print_mj (MJ_ARR vs) = 91 # joined (map print_mj vs) @ [93]"
| "print_mj (MJ_OBJ kvs) = 123 # joined (map (\<lambda>kv. print_str (fst kv) @ 58 # print_mj (snd kv)) kvs) @ [125]"

lemma hex_step_digit:
  "n < 16 \<Longrightarrow> hex_step (Some v) (hex_digit n) = Some (push_bit 4 v OR of_nat n)"
proof -
  assume "n < 16"
  then have "n \<in> {0, 1, 2, 3, 4, 5, 6, 7, 8, 9, 10, 11, 12, 13, 14, 15}"
    unfolding insert_iff empty_iff by presburger
  then show ?thesis
    by (elim insertE) (simp_all add: hex_digit_def hex_step_def Let_def)
qed

lemma print_control:
  fixes c :: byte
  assumes "c < 0x20" "c \<noteq> 0"
  shows "u_escape (48 # 48 # hex_digit (unat c div 16) # hex_digit (unat c mod 16) # s) = Some (ucast c, s)"
proof -
  have n: "unat c div 16 < 16" "unat c mod 16 < 16" using assms by (simp_all add: word_less_nat_alt)
  have z: "hex_step (Some 0) 48 = Some 0" by (simp add: hex_step_def)
  have "hex4 (48 # 48 # hex_digit (unat c div 16) # hex_digit (unat c mod 16) # s) =
      Some (push_bit 4 (of_nat (unat c div 16)) OR of_nat (unat c mod 16))"
    by (simp add: hex4_def z hex_step_digit n)
  moreover have "push_bit 4 (of_nat (unat c div 16)) OR of_nat (unat c mod 16) = (ucast c :: u32)"
  proof -
    have "c \<in> {1, 2, 3, 4, 5, 6, 7, 8, 9, 10, 11, 12, 13, 14, 15, 16, 17, 18, 19, 20, 21, 22, 23, 24, 25, 26, 27, 28, 29, 30, 31}"
    proof -
      have "unat c \<in> {1..31}" using assms by (simp add: word_less_nat_alt unat_gt_0 Suc_le_eq)
      then have "unat c \<in> {1, 2, 3, 4, 5, 6, 7, 8, 9, 10, 11, 12, 13, 14, 15, 16, 17, 18, 19, 20, 21, 22, 23, 24, 25, 26, 27, 28, 29, 30, 31}"
        unfolding insert_iff empty_iff atLeastAtMost_iff by presburger
      then show ?thesis by (auto simp: word_unat_eq_iff)
    qed
    then show ?thesis by (elim insertE) simp_all
  qed
  moreover have "\<not> 0xD800 \<le> (ucast c :: u32)"
  proof -
    have "unat c < 2 ^ 32" using unsigned_less [of c, where ?'a = nat] by simp
    then have "unat (ucast c :: u32) = unat c" by (simp add: unsigned_ucast_eq take_bit_nat_eq_self)
    with assms show ?thesis by (simp add: word_less_nat_alt word_le_nat_alt)
  qed
  moreover have "(ucast c :: u32) \<noteq> 0"
  proof -
    have "unat c < 2 ^ 32" using unsigned_less [of c, where ?'a = nat] by simp
    then have "unat (ucast c :: u32) = unat c" by (simp add: unsigned_ucast_eq take_bit_nat_eq_self)
    with assms show ?thesis by (metis unat_0 unsigned_word_eqI)
  qed
  ultimately show ?thesis by (simp add: u_escape_def Let_def)
qed

text \<open>The numbers of the JSON grammar: sign, digits, fraction, exponent.\<close>

definition json_number :: "bytes \<Rightarrow> bool" where
  "json_number t \<longleftrightarrow> (\<exists>sg ds fr ex. t = sg @ ds @ fr @ ex \<and> sg \<in> {[], [45]} \<and> ds \<noteq> [] \<and> list_all is_dig ds \<and>
     (fr = [] \<or> (\<exists>fs. fr = 46 # fs \<and> fs \<noteq> [] \<and> list_all is_dig fs)) \<and>
     (ex = [] \<or> (\<exists>e es xs. ex = e # es @ xs \<and> e \<in> {101, 69} \<and> es \<in> {[], [43], [45]} \<and> xs \<noteq> [] \<and> list_all is_dig xs)))"

text \<open>What may follow a value: nothing, a comma, a closing bracket.\<close>

definition ends :: "bytes \<Rightarrow> bool" where
  "ends rest \<longleftrightarrow> rest = [] \<or> hd rest \<in> {44, 93, 125}"

lemma run_len_append: "list_all P s \<Longrightarrow> t = [] \<or> \<not> P (hd t) \<Longrightarrow> run_len P (s @ t) = length s"
  by (induction s) (auto simp: run_len_def takeWhile_eq_Nil_iff)

lemma dig_not: "is_dig c \<Longrightarrow> c \<notin> {43, 45, 46, 44, 93, 125, 69, 101, 120, 88, 105, 110, 73, 78}"
  by (auto simp: is_dig_def)

lemma ends_not_dig: "ends rest \<Longrightarrow> rest = [] \<or> \<not> is_dig (hd rest)"
  by (auto simp: ends_def is_dig_def)

lemma to_lower_dig: "is_dig c \<Longrightarrow> to_lower c = c"
  by (auto simp: is_dig_def to_lower_def word_le_nat_alt)

lemma exponent_len_none: "s = [] \<or> to_lower (hd s) \<noteq> x \<Longrightarrow> exponent_len x s = 0"
  by (auto simp: exponent_len_def)

lemma ci_prefix_head: "is_dig c \<Longrightarrow> 97 \<le> x \<Longrightarrow> \<not> ci_prefix (x # p) (c # s)"
proof -
  assume c: "is_dig c" and x: "97 \<le> x"
  from x have "to_lower x = x" by (simp add: to_lower_def word_le_nat_alt)
  moreover have "c \<noteq> x" using c x by (auto simp: is_dig_def word_le_nat_alt)
  ultimately show ?thesis using to_lower_dig [OF c] by (simp add: ci_prefix_def strcasecmp_eq_def)
qed

lemma exponent_len_json:
  assumes "ex = [] \<or> (\<exists>e es xs. ex = e # es @ xs \<and> e \<in> {101, 69} \<and> es \<in> {[], [43], [45]} \<and> xs \<noteq> [] \<and> list_all is_dig xs)"
    "ends rest"
  shows "exponent_len 101 (ex @ rest) = length ex"
proof (cases "ex = []")
  case True
  with assms(2) show ?thesis by (auto simp: ends_def to_lower_def intro!: exponent_len_none)
next
  case False
  with assms(1) obtain e es xs where e: "ex = e # es @ xs" "e \<in> {101, 69}" "es \<in> {[], [43], [45]}" "xs \<noteq> []" "list_all is_dig xs"
    by auto
  have r: "run_len is_dig (xs @ rest) = length xs" by (rule run_len_append) (use e assms(2) ends_not_dig in auto)
  have h: "hd (xs @ rest) \<noteq> 43 \<and> hd (xs @ rest) \<noteq> 45" using e(4,5) dig_not by (cases xs) auto
  from e r h show ?thesis by (auto simp: exponent_len_def to_lower_def Let_def)
qed

lemma strtod_json:
  assumes "json_number t" "ends rest"
  shows "strtod_len (t @ rest) = length t \<and> t \<noteq> [] \<and> (hd t = 45 \<or> is_dig (hd t))"
proof -
  from assms(1) obtain sg ds fr ex where t: "t = sg @ ds @ fr @ ex" "sg \<in> {[], [45]}" "ds \<noteq> []" "list_all is_dig ds"
    "fr = [] \<or> (\<exists>fs. fr = 46 # fs \<and> fs \<noteq> [] \<and> list_all is_dig fs)"
    and ex: "ex = [] \<or> (\<exists>e es xs. ex = e # es @ xs \<and> e \<in> {101, 69} \<and> es \<in> {[], [43], [45]} \<and> xs \<noteq> [] \<and> list_all is_dig xs)"
    unfolding json_number_def by blast
  define u where "u = ex @ rest"
  have u: "u = [] \<or> \<not> is_dig (hd u) \<and> hd u \<noteq> 46" using ex assms(2) by (auto simp: u_def ends_def is_dig_def)
  have hx: "u = [] \<or> to_lower (hd u) \<noteq> 120" using ex assms(2) by (auto simp: u_def ends_def to_lower_def)
  obtain d ds' where d: "ds = d # ds'" "is_dig d" using t(3,4) by (cases ds) auto
  have m: "mantissa_len is_dig (ds @ fr @ u) = length ds + length fr"
  proof (cases "fr = []")
    case True
    have "run_len is_dig (ds @ u) = length ds" by (rule run_len_append) (use t u in auto)
    with True t(3) u show ?thesis by (auto simp: mantissa_len_def Let_def)
  next
    case False
    with t(5) obtain fs where fs: "fr = 46 # fs" "fs \<noteq> []" "list_all is_dig fs" by auto
    have "run_len is_dig (ds @ fr @ u) = length ds" by (rule run_len_append) (use t fs dig_not in \<open>auto simp: is_dig_def\<close>)
    moreover have "run_len is_dig (fs @ u) = length fs" by (rule run_len_append) (use fs u in auto)
    ultimately show ?thesis using fs t(3) by (simp add: mantissa_len_def Let_def)
  qed
  have nox: "\<not> (2 \<le> length (ds @ fr @ u) \<and> to_lower ((ds @ fr @ u) ! 1) = 120)"
  proof (cases ds')
    case Nil
    with d t(5) hx show ?thesis by (cases u) (auto simp: to_lower_def)
  next
    case (Cons c cs)
    with d t(4) have "is_dig c" by simp
    with to_lower_dig [OF this] dig_not [OF this] d Cons show ?thesis by auto
  qed
  have nohex: "(if 2 \<le> length (ds @ fr @ u) \<and> (ds @ fr @ u) ! 0 = 48 \<and> to_lower ((ds @ fr @ u) ! 1) = 120
      then mantissa_len is_hex (drop 2 (ds @ fr @ u)) else 0) = 0" using nox by auto
  have noname: "\<not> ci_prefix (ascii ''infinity'') (ds @ fr @ u)" "\<not> ci_prefix (ascii ''inf'') (ds @ fr @ u)" "\<not> ci_prefix (ascii ''nan'') (ds @ fr @ u)"
    using d ci_prefix_head [OF d(2), of 105] ci_prefix_head [OF d(2), of 110] by (simp_all add: ascii_def)
  have e: "exponent_len 101 (drop (length ds + length fr) (ds @ fr @ u)) = length ex"
    using exponent_len_json [OF ex assms(2)] by (simp add: u_def)
  have core: "strtod_len (sg @ ds @ fr @ u) = length sg + (length ds + length fr + length ex)"
  proof -
    have "drop (if sg @ ds @ fr @ u \<noteq> [] \<and> (hd (sg @ ds @ fr @ u) = 43 \<or> hd (sg @ ds @ fr @ u) = 45) then 1 else 0) (sg @ ds @ fr @ u) = ds @ fr @ u"
      "(if sg @ ds @ fr @ u \<noteq> [] \<and> (hd (sg @ ds @ fr @ u) = 43 \<or> hd (sg @ ds @ fr @ u) = 45) then 1 else 0) = length sg"
      using t(2) d dig_not [OF d(2)] by auto
    with m e noname nohex t(3) show ?thesis
      unfolding strtod_len_def Let_def by (simp only:) simp
  qed
  then show ?thesis using t d by (auto simp: u_def)
qed

lemma emit_simp: "emit bs (Inr (s, t)) = Inr (bs @ s, t)"
  by (simp add: emit_def)

lemma char_step_print:
  assumes "c \<noteq> 0"
  shows "parse_chars (print_char c @ s) = emit [c] (parse_chars s)"
proof -
  consider (q) "c = 34 \<or> c = 92" | (ctl) "c < 0x20" | (plain) "c \<noteq> 34" "c \<noteq> 92" "\<not> c < 0x20" by blast
  then show ?thesis
  proof cases
    case q
    then show ?thesis by (elim disjE) (simp_all add: print_char_def char_step_def simple_escape_def)
  next
    case ctl
    then have n: "c \<noteq> 34" "c \<noteq> 92" by auto
    have "put_utf8 (ucast c) = [c]"
    proof -
      have "unat c < 2 ^ 32" using unsigned_less [of c, where ?'a = nat] by simp
      then have "unat (ucast c :: u32) = unat c" by (simp add: unsigned_ucast_eq take_bit_nat_eq_self)
      with ctl have "(ucast c :: u32) < 0x80" by (simp add: word_less_nat_alt)
      moreover have "ucast (ucast c :: u32) = c" by (rule bit_word_eqI) (auto simp: bit_ucast_iff)
      ultimately show ?thesis by (simp add: put_utf8_def)
    qed
    with ctl n print_control [OF ctl assms, of s] show ?thesis
      by (simp add: print_char_def char_step_def simple_escape_def)
  next
    case plain
    then show ?thesis by (simp add: print_char_def char_step_def)
  qed
qed

lemma parse_string_print:
  assumes "0 \<notin> set t"
  shows "parse_string (print_str t @ s) = Inr (t, s)"
proof -
  have "parse_chars (concat (map print_char t) @ 34 # s) = Inr (t, s)"
    using assms by (induction t) (simp_all add: char_step_print emit_simp)
  then show ?thesis by (simp add: parse_string_def print_str_def)
qed

text \<open>The values the printer can represent: C strings, numbers of the JSON grammar.\<close>

fun wf_mj :: "mj \<Rightarrow> bool" where
  "wf_mj (MJ_NUM t) = json_number t"
| "wf_mj (MJ_STR s) = (0 \<notin> set s)"
| "wf_mj (MJ_ARR vs) = (\<forall>v\<in>set vs. wf_mj v)"
| "wf_mj (MJ_OBJ kvs) = (\<forall>kv\<in>set kvs. 0 \<notin> set (fst kv) \<and> wf_mj (snd kv))"
| "wf_mj _ = True"

text \<open>A parser that reads back the printed form of a list of members, each under its name.\<close>

definition print_member :: "bool \<Rightarrow> bytes \<times> mj \<Rightarrow> bytes" where
  "print_member obj kv = (if obj then print_str (fst kv) @ 58 # print_mj (snd kv) else print_mj (snd kv))"

definition reads :: "(bytes \<Rightarrow> mj parsed) \<Rightarrow> mj \<Rightarrow> bool" where
  "reads sub v \<longleftrightarrow> (\<forall>rest. ends rest \<longrightarrow> sub (print_mj v @ rest) = Inr (v, rest))"

definition no_ws :: "bytes \<Rightarrow> bool" where
  "no_ws s \<longleftrightarrow> s \<noteq> [] \<and> hd s \<notin> {32, 9, 10, 13, 44, 93, 125}"

lemma skip_ws_no: "no_ws s \<Longrightarrow> skip_ws (s @ t) = s @ t"
  by (cases s) (auto simp: no_ws_def skip_ws_def)

lemma skip_ws_cons: "c \<notin> {32, 9, 10, 13} \<Longrightarrow> skip_ws (c # s) = c # s"
  by (simp add: skip_ws_def)

lemma skip_ws_ends: "ends s \<Longrightarrow> skip_ws s = s"
  by (cases s) (auto simp: ends_def skip_ws_def)

lemma no_ws_number: "json_number t \<Longrightarrow> no_ws t"
  using strtod_json [of t "[]"] by (auto simp: no_ws_def ends_def is_dig_def)

lemma no_ws_print: "wf_mj v \<Longrightarrow> no_ws (print_mj v)"
  using no_ws_number by (cases v) (auto simp: no_ws_def print_str_def ascii_def)

lemma no_ws_member: "wf_mj (snd kv) \<Longrightarrow> no_ws (print_member obj kv)"
  using no_ws_print by (auto simp: print_member_def no_ws_def print_str_def)

lemma member_name_print:
  assumes "obj \<longrightarrow> 0 \<notin> set (fst kv)" "wf_mj (snd kv)"
  shows "member_name obj (skip_ws (print_member obj kv @ rest)) = Inr (if obj then fst kv else [], print_mj (snd kv) @ rest)"
proof -
  have "skip_ws (print_member obj kv @ rest) = print_member obj kv @ rest"
    by (rule skip_ws_no) (rule no_ws_member [OF assms(2)])
  then show ?thesis
    using assms parse_string_print [of "fst kv" "58 # print_mj (snd kv) @ rest"] skip_ws_cons [of 58]
    by (cases obj) (auto simp: print_member_def member_name_def print_str_def Let_def)
qed

lemma parse_members_print:
  assumes "kids \<noteq> []" "length kids \<le> fuel"
    "\<And>kv. kv \<in> set kids \<Longrightarrow> reads sub (snd kv) \<and> wf_mj (snd kv) \<and> (if obj then 0 \<notin> set (fst kv) else fst kv = [])"
  shows "parse_members sub obj fuel (joined (map (print_member obj) kids) @ (if obj then 125 else 93) # rest) = Inr (kids, rest)"
  using assms
proof (induction kids arbitrary: fuel)
  case (Cons kv kids)
  then obtain n where n: "fuel = Suc n" by (cases fuel) auto
  have kv: "reads sub (snd kv)" "wf_mj (snd kv)" "obj \<longrightarrow> 0 \<notin> set (fst kv)" "(if obj then fst kv else []) = fst kv"
    using Cons.prems(3) [of kv] by (auto split: if_splits)
  show ?case
  proof (cases kids)
    case Nil
    have "ends ((if obj then 125 else 93) # rest)" by (simp add: ends_def)
    with kv show ?thesis
      by (simp add: n Nil member_name_print [OF kv(3,2)] reads_def skip_ws_cons Let_def)
  next
    case (Cons kv' kids')
    have "ends (44 # joined (map (print_member obj) kids) @ (if obj then 125 else 93) # rest)" by (simp add: ends_def)
    moreover have "parse_members sub obj n (joined (map (print_member obj) kids) @ (if obj then 125 else 93) # rest) = Inr (kids, rest)"
      by (rule Cons.IH) (use Cons Cons.prems n in auto)
    ultimately show ?thesis
      using kv Cons by (simp add: n member_name_print [OF kv(3,2)] reads_def skip_ws_cons Let_def)
  qed
qed simp

lemma starts_no: "s \<noteq> [] \<Longrightarrow> p \<noteq> [] \<Longrightarrow> hd s \<noteq> hd p \<Longrightarrow> \<not> starts p s"
  by (cases s; cases p) (auto simp: starts_def)

lemma parse_value_number:
  assumes "json_number t" "ends rest"
  shows "parse_value (Suc d) (t @ rest) = Inr (MJ_NUM t, rest)"
proof -
  note st = strtod_json [OF assms]
  have ws: "skip_ws (t @ rest) = t @ rest" by (rule skip_ws_no) (rule no_ws_number [OF assms(1)])
  have h: "hd (t @ rest) = hd t" "t @ rest \<noteq> []" using st by auto
  have c: "hd t \<notin> {123, 91, 34, 116, 102, 110}" "hd t = 45 \<or> 48 \<le> hd t \<and> hd t \<le> 57"
    using st by (auto simp: is_dig_def)
  have w: "\<not> starts (ascii ''true'') (t @ rest)" "\<not> starts (ascii ''false'') (t @ rest)" "\<not> starts (ascii ''null'') (t @ rest)"
    using c(1) h by (simp_all add: ascii_def starts_no)
  have l: "length t \<noteq> 0" using st by simp
  show ?thesis
    using c st l by (simp add: ws h w Let_def)
qed

lemma joined_no_ws: "no_ws p \<Longrightarrow> no_ws (joined (p # ps))"
  by (cases ps) (auto simp: no_ws_def)

lemma length_joined: "(\<And>p. p \<in> set ps \<Longrightarrow> p \<noteq> []) \<Longrightarrow> length ps \<le> length (joined ps)"
proof (induction ps rule: joined.induct)
  case (3 p q ps)
  have "p \<noteq> []" "length (q # ps) \<le> length (joined (q # ps))" using 3 by auto
  then show ?case by (cases p) auto
qed (auto simp: Suc_le_eq)

lemma parse_container_print:
  assumes "\<And>kv. kv \<in> set kids \<Longrightarrow> reads (parse_value d) (snd kv) \<and> wf_mj (snd kv) \<and> (if obj then 0 \<notin> set (fst kv) else fst kv = [])"
  shows "parse_value (Suc d) ((if obj then 123 else 91) # joined (map (print_member obj) kids) @ (if obj then 125 else 93) # rest) =
    Inr (mk_container obj kids, rest)"
proof (cases kids)
  case Nil
  then show ?thesis by (simp add: skip_ws_cons Let_def)
next
  case (Cons kv kids')
  define body where "body = joined (map (print_member obj) kids)"
  have nw: "no_ws body" unfolding body_def Cons list.map by (rule joined_no_ws) (rule no_ws_member, use assms Cons in auto)
  have len: "length kids \<le> length body"
  proof -
    have "length (map (print_member obj) kids) \<le> length body"
      unfolding body_def by (rule length_joined) (use assms no_ws_member in \<open>auto simp: no_ws_def\<close>)
    then show ?thesis by simp
  qed
  have ne: "body \<noteq> []" "hd body \<noteq> 125" "hd body \<noteq> 93" using nw by (auto simp: no_ws_def)
  have pm: "parse_members (parse_value d) obj n (body @ (if obj then 125 else 93) # rest) = Inr (kids, rest)" if "length kids \<le> n" for n
    unfolding body_def by (rule parse_members_print) (use Cons that assms in auto)
  show ?thesis
    unfolding body_def [symmetric]
    using ne pm len by (cases obj) (simp_all add: skip_ws_cons skip_ws_no [OF nw] Let_def del: parse_members.simps)
qed

lemma reads_print: "wf_mj v \<Longrightarrow> height v \<le> d \<Longrightarrow> reads (parse_value d) v"
proof (induction v arbitrary: d)
  case MJ_NULL
  then show ?case by (cases d) (auto simp: reads_def ascii_def skip_ws_def starts_def Let_def)
next
  case (MJ_BOOL b)
  then show ?case by (cases d) (auto simp: reads_def ascii_def skip_ws_def starts_def Let_def)
next
  case (MJ_NUM t)
  then show ?case by (cases d) (auto simp: reads_def parse_value_number simp del: parse_value.simps(2))
next
  case (MJ_STR s)
  then show ?case
    using parse_string_print [of s] by (cases d) (auto simp: reads_def print_str_def skip_ws_def Let_def)
next
  case (MJ_ARR vs)
  then obtain n where d: "d = Suc n" by (cases d) auto
  have k: "\<And>v. v \<in> set vs \<Longrightarrow> reads (parse_value n) v \<and> wf_mj v" using MJ_ARR by (auto simp: d)
  have m: "map (print_member False) (map (Pair []) vs) = map print_mj vs" by (simp add: print_member_def)
  have "parse_value (Suc n) ((if False then 123 else 91) # joined (map (print_member False) (map (Pair []) vs)) @
      (if False then 125 else 93) # rest) = Inr (mk_container False (map (Pair []) vs), rest)" for rest
    by (rule parse_container_print) (use k in auto)
  then have "parse_value (Suc n) (91 # joined (map print_mj vs) @ 93 # rest) = Inr (MJ_ARR vs, rest)" for rest
    unfolding m by (simp add: mk_container_def comp_def del: parse_value.simps(2))
  then show ?case by (simp add: reads_def d del: parse_value.simps(2))
next
  case (MJ_OBJ kvs)
  then obtain n where d: "d = Suc n" by (cases d) auto
  have k: "\<And>kv. kv \<in> set kvs \<Longrightarrow> reads (parse_value n) (snd kv) \<and> wf_mj (snd kv) \<and> 0 \<notin> set (fst kv)"
    using MJ_OBJ by (fastforce simp: d)
  have "map (print_member True) kvs = map (\<lambda>kv. print_str (fst kv) @ 58 # print_mj (snd kv)) kvs" by (simp add: print_member_def)
  with parse_container_print [of kvs n True] k show ?case
    by (auto simp: reads_def d mk_container_def simp del: parse_value.simps(2))
qed

lemma mj_parse_print:
  assumes "wf_mj v" "height v \<le> MJ_MAX_DEPTH + 1" "bom \<in> {[], [0xEF, 0xBB, 0xBF]}" "length (bom @ print_mj v) \<le> MJ_MAX_TEXT"
  shows "mj_parse (Some (bom @ print_mj v)) = Inr v"
proof -
  have "hd (print_mj v) \<noteq> 0xEF" "print_mj v \<noteq> []"
  proof -
    show "print_mj v \<noteq> []" using no_ws_print [OF assms(1)] by (simp add: no_ws_def)
    show "hd (print_mj v) \<noteq> 0xEF"
      using assms(1) strtod_json [of _ "[]"] by (cases v) (auto simp: print_str_def ascii_def ends_def is_dig_def dest!: strtod_json [where rest = "[]"])
  qed
  then have "(if starts [0xEF, 0xBB, 0xBF] (bom @ print_mj v) then drop 3 (bom @ print_mj v) else bom @ print_mj v) = print_mj v"
    using assms(3) starts_no [of "print_mj v" "[0xEF, 0xBB, 0xBF]"] by (auto simp: starts_def)
  moreover have "parse_value (MJ_MAX_DEPTH + 1) (print_mj v) = Inr (v, [])"
    using reads_print [OF assms(1,2)] unfolding reads_def by (metis append_Nil2 ends_def)
  ultimately show ?thesis
    using assms(4) by (simp add: mj_parse_def skip_ws_def Let_def del: parse_value.simps)
qed

text \<open>
  C21: the reader inverts a printer: for every value whose strings have no NUL byte, whose
  numbers are numbers of the JSON grammar and that nests at most 64 containers deep, the printed text
  (with the byte order mark a BOM-writing editor puts in front, or without) reads back as the value, member
  names, order, escapes of quotes, backslashes and control characters included.
\<close>

theorem mj_roundtrip:
  assumes "wf_mj v" "height v \<le> MJ_MAX_DEPTH + 1" "bom \<in> {[], [0xEF, 0xBB, 0xBF]}" "length (bom @ print_mj v) \<le> MJ_MAX_TEXT"
  shows "mj_parse (Some (bom @ print_mj v)) = Inr v"
  using assms by (rule mj_parse_print)

definition mj_sample :: mj where
  "mj_sample = MJ_OBJ [(ascii ''a'', MJ_ARR [MJ_NULL, MJ_BOOL True, MJ_NUM (ascii ''-1.5e3'')]), ([10, 34], MJ_STR (ascii ''b''))]"

lemma json_number_sample: "json_number (ascii ''-1.5e3'')"
  unfolding json_number_def
  by (rule exI [of _ "[45]"], rule exI [of _ "[49]"], rule exI [of _ "[46, 53]"], rule exI [of _ "[101, 51]"])
     (simp add: ascii_def is_dig_def, rule exI [of _ "[]"], simp add: is_dig_def)

theorem mj_roundtrip_witness: "mj_parse (Some (print_mj mj_sample)) = Inr mj_sample"
proof -
  have "wf_mj mj_sample" using json_number_sample by (simp add: mj_sample_def) (simp add: ascii_def)
  moreover have "height mj_sample \<le> MJ_MAX_DEPTH + 1" by (simp add: mj_sample_def MJ_MAX_DEPTH_def)
  moreover have "length ([] @ print_mj mj_sample) \<le> MJ_MAX_TEXT"
    by (simp add: mj_sample_def MJ_MAX_TEXT_def print_str_def print_char_def ascii_def)
  ultimately show ?thesis using mj_roundtrip [of mj_sample "[]"] by simp
qed

lemma parse_value_sample: "parse_value (MJ_MAX_DEPTH + 1) [91, 91, 93, 93] = Inr (MJ_ARR [MJ_ARR []], [])"
proof -
  have i: "parse_value (Suc m) [91, 93, 93] = Inr (MJ_ARR [], [93])" for m
    by (simp add: skip_ws_def mk_container_def Let_def)
  have "parse_value (Suc (Suc m)) [91, 91, 93, 93] = Inr (MJ_ARR [MJ_ARR []], [])" for m
    unfolding parse_value.simps(2) [of "Suc m"]
    by (simp add: i skip_ws_def member_name_def mk_container_def Let_def del: parse_value.simps)
  moreover have "MJ_MAX_DEPTH + 1 = Suc (Suc (MJ_MAX_DEPTH - 1))" by (simp add: MJ_MAX_DEPTH_def)
  ultimately show ?thesis by (simp only:)
qed

theorem mj_parse_bounded_witness:
  "mj_parse (Some (ascii ''[[]]'')) = Inr (MJ_ARR [MJ_ARR []]) \<and> height (MJ_ARR [MJ_ARR []]) \<le> MJ_MAX_DEPTH + 1"
proof -
  have "mj_parse (Some (ascii ''[[]]'')) = Inr (MJ_ARR [MJ_ARR []])"
    using parse_value_sample
    by (simp add: mj_parse_def MJ_MAX_TEXT_def ascii_def starts_def skip_ws_def Let_def del: parse_value.simps)
  with mj_parse_bounded [of "Some (ascii ''[[]]'')"] show ?thesis by blast
qed

end
