(* ===== verification/Device.thy ===== *)
theory Device
  imports CLib
begin

text \<open>
  The device list and the target check of \<open>src/linux/device.c\<close>. What the program sees of the machine is
  a record: \<open>stat\<close>, the entries of \<open>/sys/block\<close> in the order of \<open>readdir\<close>, the contents of text files
  under \<open>/sys\<close> and \<open>/proc\<close>, symbolic links, and the size the block layer reports for a device that can be
  opened. The calls only read it.
\<close>

section \<open>The machine\<close>

datatype fkind = REG | BLK | OtherKind

record st =
  st_kind :: fkind
  st_id :: "nat \<times> nat"
  st_size :: nat

record sys_env =
  se_stat :: "bytes \<Rightarrow> st option"
  se_block :: "bytes list option"
  se_file :: "bytes \<Rightarrow> bytes option"
  se_link :: "bytes \<Rightarrow> bytes option"
  se_blksize :: "bytes \<Rightarrow> u64 option"

section \<open>Reading the system files\<close>

text \<open>The first line without its end; \<open>None\<close> when there is no file or nothing in it.\<close>

definition read_first_line :: "sys_env \<Rightarrow> bytes \<Rightarrow> nat \<Rightarrow> bytes option" where
  "read_first_line E path cap =
     (case se_file E path of
        None \<Rightarrow> None
      | Some txt \<Rightarrow>
          (case fgets_all cap txt of [] \<Rightarrow> None | l # _ \<Rightarrow> Some (takeWhile (\<lambda>c. c \<notin> {0, 13, 10}) l)))"

definition sys_path :: "bytes \<Rightarrow> string \<Rightarrow> bytes" where
  "sys_path name leaf = clip 256 (ascii ''/sys/block/'' @ name @ ascii leaf)"

definition dev_size_bytes :: "sys_env \<Rightarrow> bytes \<Rightarrow> bytes \<Rightarrow> u64" where
  "dev_size_bytes E sysname devnode =
     (case se_blksize E devnode of
        Some b \<Rightarrow> if b > 0 then b else
          (case read_first_line E (sys_path sysname ''/size'') 64 of None \<Rightarrow> 0 | Some l \<Rightarrow> strtoul 10 l * 512)
      | None \<Rightarrow>
          (case read_first_line E (sys_path sysname ''/size'') 64 of None \<Rightarrow> 0 | Some l \<Rightarrow> strtoul 10 l * 512))"

definition dev_is_mounted :: "sys_env \<Rightarrow> bytes \<Rightarrow> bool" where
  "dev_is_mounted E sysname =
     (case se_file E (ascii ''/proc/mounts'') of
        None \<Rightarrow> False
      | Some txt \<Rightarrow> list_ex (\<lambda>line. starts (clip 96 (ascii ''/dev/'' @ sysname)) (cstr line)) (fgets_all 1024 txt))"

text \<open>The target of the \<open>device\<close> link, as the C string in a buffer of 512 bytes.\<close>

definition device_link :: "sys_env \<Rightarrow> bytes \<Rightarrow> bytes option" where
  "device_link E sysname =
     (case se_link E (sys_path sysname ''/device'') of
        None \<Rightarrow> None
      | Some t \<Rightarrow> if t = [] then None else Some (cstr (take 511 t)))"

definition has_sub :: "string \<Rightarrow> bytes \<Rightarrow> bool" where
  "has_sub p s \<longleftrightarrow> strstr (ascii p) s \<noteq> None"

definition detect_transport :: "sys_env \<Rightarrow> bytes \<Rightarrow> bool \<Rightarrow> bytes" where
  "detect_transport E sysname removable =
     (if starts (ascii ''nvme'') sysname then ascii ''nvme''
      else if starts (ascii ''mmcblk'') sysname then ascii ''mmc''
      else if starts (ascii ''vd'') sysname then ascii ''virt''
      else
        let fallback = (if removable then ascii ''usb'' else ascii ''unknown'') in
        case device_link E sysname of
          None \<Rightarrow> fallback
        | Some t \<Rightarrow>
            if has_sub ''usb'' t then ascii ''usb''
            else if has_sub ''ata'' t \<or> has_sub ''sata'' t then ascii ''sata''
            else fallback)"

section \<open>The list of devices\<close>

record device =
  dv_sysname :: bytes
  dv_devnode :: bytes
  dv_vendor :: bytes
  dv_model :: bytes
  dv_serial :: bytes
  dv_transport :: bytes
  dv_size :: u64
  dv_removable :: bool
  dv_usb :: bool
  dv_mounted :: bool

text \<open>Loop devices, RAM disks, device-mapper and zram devices are not drives.\<close>

definition virtual_name :: "bytes \<Rightarrow> bool" where
  "virtual_name n \<longleftrightarrow> starts (ascii ''loop'') n \<or> starts (ascii ''ram'') n \<or> starts (ascii ''dm-'') n \<or> starts (ascii ''zram'') n"

definition dot_name :: "bytes \<Rightarrow> bool" where
  "dot_name n \<longleftrightarrow> n \<noteq> [] \<and> hd n = 46"

definition isprint :: "byte \<Rightarrow> bool" where
  "isprint c \<longleftrightarrow> 32 \<le> c \<and> c \<le> 126"

definition blank_unprintable :: "bytes \<Rightarrow> bytes" where
  "blank_unprintable s = map (\<lambda>c. if isprint c then c else 32) s"

definition line_or_empty :: "sys_env \<Rightarrow> bytes \<Rightarrow> bytes" where
  "line_or_empty E path = (case read_first_line E path 128 of None \<Rightarrow> [] | Some l \<Rightarrow> l)"

text \<open>\<open>buf[0] == '1'\<close>\<close>

definition flag_set :: "bytes \<Rightarrow> bool" where
  "flag_set l \<longleftrightarrow> l \<noteq> [] \<and> hd l = 49"

definition describe :: "sys_env \<Rightarrow> bytes \<Rightarrow> bool \<Rightarrow> device" where
  "describe E name removable =
     \<lparr>dv_sysname = clip 64 name,
      dv_devnode = clip 128 (ascii ''/dev/'' @ name),
      dv_vendor = blank_unprintable (line_or_empty E (sys_path name ''/device/vendor'')),
      dv_model = blank_unprintable (line_or_empty E (sys_path name ''/device/model'')),
      dv_serial = (case read_first_line E (sys_path name ''/device/serial'') 128 of
                     Some l \<Rightarrow> l | None \<Rightarrow> line_or_empty E (sys_path name ''/serial'')),
      dv_transport = clip 32 (detect_transport E name removable),
      dv_size = dev_size_bytes E (clip 64 name) (clip 128 (ascii ''/dev/'' @ name)),
      dv_removable = removable,
      dv_usb = (case device_link E name of None \<Rightarrow> False | Some t \<Rightarrow> has_sub ''usb'' t),
      dv_mounted = dev_is_mounted E name\<rparr>"

text \<open>One directory entry: the device it shows, or \<open>None\<close> when it is passed over.\<close>

definition list_entry :: "sys_env \<Rightarrow> bool \<Rightarrow> bytes \<Rightarrow> device option" where
  "list_entry E include_fixed name =
     (if dot_name name \<or> virtual_name name then None
      else case read_first_line E (sys_path name ''/removable'') 128 of
        None \<Rightarrow> None
      | Some l \<Rightarrow>
          if \<not> flag_set l \<and> \<not> include_fixed then None
          else let dev = describe E name (flag_set l) in if dv_size dev = 0 then None else Some dev)"

fun list_loop :: "sys_env \<Rightarrow> bool \<Rightarrow> nat \<Rightarrow> bytes list \<Rightarrow> device list \<Rightarrow> device list" where
  "list_loop E fixed max_n [] out = out"
| "list_loop E fixed max_n (e # es) out =
     (if length out < max_n then
        list_loop E fixed max_n es (case list_entry E fixed e of None \<Rightarrow> out | Some d \<Rightarrow> out @ [d])
      else out)"

text \<open>\<open>None\<close> is the return value -1.\<close>

definition rufux_list_devices :: "sys_env \<Rightarrow> nat \<Rightarrow> bool \<Rightarrow> device list option" where
  "rufux_list_devices E max_n include_fixed = map_option (\<lambda>es. list_loop E include_fixed max_n es []) (se_block E)"

section \<open>The list as JSON\<close>

definition json_escape :: "bytes \<Rightarrow> bytes" where
  "json_escape s = concat (map (\<lambda>c. if c = 34 \<or> c = 92 then [92, c] else [c]) s)"

definition json_bool :: "bool \<Rightarrow> bytes" where
  "json_bool b = (if b then ascii ''true'' else ascii ''false'')"

definition quoted :: "bytes \<Rightarrow> bytes" where
  "quoted s = [34] @ s @ [34]"

text \<open>A member \<open>"key":value\<close>\<close>

definition member :: "string \<Rightarrow> bytes \<Rightarrow> bytes" where
  "member key val = quoted (ascii key) @ [58] @ val"

definition device_json :: "device \<Rightarrow> bytes" where
  "device_json d =
     [123] @ member ''node'' (quoted (dv_devnode d)) @ [44] @ member ''sys'' (quoted (dv_sysname d)) @ [44]
     @ member ''size_bytes'' (dec (unat (dv_size d))) @ [44] @ member ''removable'' (json_bool (dv_removable d)) @ [44]
     @ member ''usb'' (json_bool (dv_usb d)) @ [44] @ member ''mounted'' (json_bool (dv_mounted d)) @ [44]
     @ member ''transport'' (quoted (dv_transport d)) @ [44] @ member ''vendor'' (quoted (json_escape (dv_vendor d))) @ [44]
     @ member ''model'' (quoted (json_escape (dv_model d))) @ [44]
     @ member ''serial'' (quoted (json_escape (dv_serial d))) @ [125]"

fun device_lines :: "device list \<Rightarrow> bytes" where
  "device_lines [] = []"
| "device_lines (d # ds) = [32, 32] @ device_json d @ (if ds \<noteq> [] then [44] else []) @ [10] @ device_lines ds"

text \<open>What is printed.\<close>

definition rufux_print_devices_json :: "device list \<Rightarrow> bytes" where
  "rufux_print_devices_json ds = [91, 10] @ device_lines ds @ [93, 10]"

section \<open>The target check\<close>

datatype target_error =
  NotThere | RegularFile | NotBlockDevice | NoDisk | NoRemovableFlag bytes | FixedDisk | MountedDisk bytes | NoCapacity

text \<open>The entry of \<open>/sys/block\<close> with the longest name that starts the name of the device.\<close>

definition disk_step :: "bytes \<Rightarrow> bytes \<Rightarrow> nat \<times> bytes \<Rightarrow> nat \<times> bytes" where
  "disk_step base e s =
     (if dot_name e then s
      else if strncmp_eq (length e) base e \<and> length e > fst s then (length e, clip 64 e) else s)"

definition disk_of :: "bytes \<Rightarrow> bytes list \<Rightarrow> bytes" where
  "disk_of base es = snd (fold (disk_step base) es (0, []))"

text \<open>\<open>None\<close> is the return value 0: the target may be written.\<close>

definition rufux_check_target :: "sys_env \<Rightarrow> bytes \<Rightarrow> bool \<Rightarrow> bool \<Rightarrow> target_error option" where
  "rufux_check_target E path allow_fixed allow_file =
     (case se_stat E path of
        None \<Rightarrow> Some NotThere
      | Some s \<Rightarrow>
          if st_kind s = REG then (if \<not> allow_file then Some RegularFile else None)
          else if st_kind s \<noteq> BLK then Some NotBlockDevice
          else
            let base = after_last 47 path;
                disk = (case se_block E of None \<Rightarrow> [] | Some es \<Rightarrow> disk_of base es)
            in if disk = [] then Some NoDisk
               else case read_first_line E (sys_path disk ''/removable'') 64 of
                 None \<Rightarrow> Some (NoRemovableFlag disk)
               | Some l \<Rightarrow>
                   if \<not> flag_set l \<and> \<not> allow_fixed then Some FixedDisk
                   else if dev_is_mounted E disk then Some (MountedDisk disk)
                   else if dev_size_bytes E disk path = 0 then Some NoCapacity
                   else None)"

end
