(* ===== verification/DeviceProps.thy ===== *)
theory DeviceProps
  imports Device MjsonProps
begin

text \<open>
  The properties of the device list and the target check: what may be written, the agreement of the two, and
  the JSON form of the list read back by the JSON reader.
\<close>

section \<open>The target check\<close>

lemma starts_strncmp:
  assumes "0 \<notin> set e"
  shows "strncmp_eq (length e) s e \<longleftrightarrow> starts e s"
proof
  assume "strncmp_eq (length e) s e"
  then have c: "cstr (take (length e) s) = e" using cstr_no_nul [OF assms] by (simp add: strncmp_eq_def)
  moreover have "length (cstr (take (length e) s)) \<le> length (take (length e) s)"
    unfolding cstr_def by (rule length_takeWhile_le)
  ultimately have "length (cstr (take (length e) s)) = length (take (length e) s)" by simp
  moreover have "cstr t = take (length (cstr t)) t" for t unfolding cstr_def by (rule takeWhile_eq_take)
  ultimately show "starts e s" using c by (metis starts_def take_all order_refl)
next
  assume "starts e s"
  then show "strncmp_eq (length e) s e" by (simp add: strncmp_eq_def starts_def)
qed

definition short_name :: "bytes \<Rightarrow> bool" where
  "short_name e \<longleftrightarrow> e \<noteq> [] \<and> length e < 64 \<and> 0 \<notin> set e"

definition is_disk :: "bytes \<Rightarrow> bytes \<Rightarrow> bool" where
  "is_disk base e \<longleftrightarrow> \<not> dot_name e \<and> starts e base"

text \<open>The longest entry so far.\<close>

definition best_of :: "bytes \<Rightarrow> bytes list \<Rightarrow> bytes \<Rightarrow> bool" where
  "best_of base es d \<longleftrightarrow>
     (if \<exists>e\<in>set es. is_disk base e then d \<in> set es \<and> is_disk base d \<and> (\<forall>e\<in>set es. is_disk base e \<longrightarrow> length e \<le> length d)
      else d = [])"

lemma disk_fold:
  assumes "\<forall>e\<in>set es. short_name e"
  shows "best_of base es (snd (fold (disk_step base) es (0, []))) \<and>
    fst (fold (disk_step base) es (0, [])) = length (snd (fold (disk_step base) es (0, [])))"
  using assms
proof (induction es rule: rev_induct)
  case (snoc e es)
  define s where "s = fold (disk_step base) es (0, [])"
  have IH: "best_of base es (snd s)" "fst s = length (snd s)" using snoc by (auto simp: s_def)
  have e: "short_name e" using snoc.prems by simp
  have step: "disk_step base e s = (if is_disk base e \<and> length e > length (snd s) then (length e, e) else s)"
    using e IH(2) starts_strncmp [of e base] by (simp add: disk_step_def is_disk_def short_name_def clip_def)
  have f: "fold (disk_step base) (es @ [e]) (0, []) = disk_step base e s" by (simp add: s_def)
  have pos: "0 < length e" using e by (simp add: short_name_def)
  show ?case
    unfolding f step using IH pos by (fastforce simp: best_of_def split: if_splits)
qed (simp add: best_of_def)

lemma disk_of_best: "\<forall>e\<in>set es. short_name e \<Longrightarrow> best_of base es (disk_of base es)"
  unfolding disk_of_def using disk_fold [of es base] by blast

lemma starts_same_length: "starts d s \<Longrightarrow> starts e s \<Longrightarrow> length d = length e \<Longrightarrow> d = e"
  by (metis starts_def)

lemma best_of_unique: "best_of base es d \<Longrightarrow> best_of base es e \<Longrightarrow> d = e"
  by (auto simp: best_of_def is_disk_def split: if_splits intro!: starts_same_length le_antisym)

text \<open>What a block device must satisfy to be written.\<close>

definition writable_disk :: "sys_env \<Rightarrow> bytes \<Rightarrow> bool \<Rightarrow> bytes \<Rightarrow> bool" where
  "writable_disk E path allow_fixed d \<longleftrightarrow>
     (\<exists>l. read_first_line E (sys_path d ''/removable'') 64 = Some l \<and> (flag_set l \<or> allow_fixed)) \<and>
     \<not> dev_is_mounted E d \<and> dev_size_bytes E d path \<noteq> 0"

text \<open>
  C4: what may be written. Apart from a regular file with \<open>--allow-file\<close>, a target is
  accepted exactly when it is a block device whose disk - the entry of \<open>/sys/block\<close> with the longest
  name that begins the device's name - is known, removable (unless \<open>--allow-fixed\<close>), has a capacity and
  nothing of it in \<open>/proc/mounts\<close>.
\<close>

theorem check_target_exact:
  assumes "\<And>es. se_block E = Some es \<Longrightarrow> \<forall>e\<in>set es. short_name e"
  shows "rufux_check_target E path allow_fixed allow_file = None \<longleftrightarrow>
    (\<exists>s. se_stat E path = Some s \<and>
      (st_kind s = REG \<and> allow_file \<or>
       st_kind s = BLK \<and> (\<exists>es d. se_block E = Some es \<and> d \<in> set es \<and> is_disk (after_last 47 path) d \<and>
         (\<forall>e\<in>set es. is_disk (after_last 47 path) e \<longrightarrow> length e \<le> length d) \<and> writable_disk E path allow_fixed d)))"
proof (cases "se_stat E path")
  case (Some s)
  let ?base = "after_last 47 path"
  show ?thesis
  proof (cases "st_kind s = BLK")
    case True
    show ?thesis
    proof (cases "se_block E")
      case (Some es)
      from assms [OF this] have sn: "\<forall>e\<in>set es. short_name e" .
      note best = disk_of_best [OF sn, of ?base]
      have "(disk_of ?base es \<noteq> [] \<and> writable_disk E path allow_fixed (disk_of ?base es)) \<longleftrightarrow>
        (\<exists>d. d \<in> set es \<and> is_disk ?base d \<and> (\<forall>e\<in>set es. is_disk ?base e \<longrightarrow> length e \<le> length d) \<and>
          writable_disk E path allow_fixed d)" (is "?l \<longleftrightarrow> ?r")
      proof
        assume ?l
        with best show ?r by (auto simp: best_of_def split: if_splits)
      next
        assume ?r
        then obtain d where d: "d \<in> set es" "is_disk ?base d" "\<forall>e\<in>set es. is_disk ?base e \<longrightarrow> length e \<le> length d"
          "writable_disk E path allow_fixed d" by blast
        then have "best_of ?base es d" unfolding best_of_def by auto
        note d = this d
        with best_of_unique [OF best d(1)] sn show ?l by (auto simp: short_name_def)
      qed
      with \<open>se_stat E path = Some s\<close> True Some show ?thesis
        by (auto simp: rufux_check_target_def writable_disk_def Let_def split: option.splits)
    qed (use True \<open>se_stat E path = Some s\<close> in \<open>simp add: rufux_check_target_def\<close>)
  qed (use Some in \<open>auto simp: rufux_check_target_def\<close>)
qed (simp add: rufux_check_target_def)

section \<open>The list and the check agree\<close>

text \<open>A drive's name as the kernel gives it: short, without a slash or a NUL.\<close>

definition drive_name :: "bytes \<Rightarrow> bool" where
  "drive_name e \<longleftrightarrow> short_name e \<and> 47 \<notin> set e"

lemma list_entry_Some:
  "list_entry E fixed e = Some d \<Longrightarrow>
    \<not> dot_name e \<and> (\<exists>l. read_first_line E (sys_path e ''/removable'') 128 = Some l \<and> (flag_set l \<or> fixed) \<and>
      d = describe E e (flag_set l)) \<and> dv_size d \<noteq> 0"
  by (auto simp: list_entry_def Let_def split: if_splits option.splits)

lemma list_loop_entries:
  "d \<in> set (list_loop E fixed n es out) \<Longrightarrow> d \<in> set out \<or> (\<exists>e\<in>set es. list_entry E fixed e = Some d)"
  by (induction es arbitrary: out) (auto split: if_splits option.splits, fastforce+)

lemma fgets_first:
  assumes "1 < cap" "s \<noteq> []"
  obtains l ls where "fgets_all cap s = l # ls" "l \<noteq> []" "hd l = hd s"
proof -
  obtain c s' where "s = c # s'" using assms by (cases s) auto
  moreover define k where "k = cap - 2"
  ultimately have "s = c # s'" "cap = Suc (Suc k)" using assms by auto
  define piece where "piece = take (cap - 1) (if length (takeWhile (\<lambda>c. c \<noteq> 10) s) < length s
    then takeWhile (\<lambda>c. c \<noteq> 10) s @ [10] else takeWhile (\<lambda>c. c \<noteq> 10) s)"
  have "fgets_all cap s = piece # fgets_all cap (drop (length piece) s)"
    unfolding piece_def using assms by (subst fgets_all.simps) (simp add: Let_def)
  moreover have "piece \<noteq> []" "hd piece = hd s" by (simp_all add: piece_def \<open>s = c # s'\<close> \<open>cap = Suc (Suc k)\<close>)
  ultimately show ?thesis by (rule that)
qed

lemma first_line_flag:
  assumes "1 < cap"
  shows "map_option flag_set (read_first_line E p cap) =
    (case se_file E p of None \<Rightarrow> None | Some s \<Rightarrow> if s = [] then None else Some (hd s = 49))"
proof (cases "se_file E p")
  case (Some s)
  show ?thesis
  proof (cases "s = []")
    case False
    obtain l ls where l: "fgets_all cap s = l # ls" "l \<noteq> []" "hd l = hd s" using fgets_first [OF assms False] .
    then obtain t where "l = hd s # t" by (cases l) auto
    with l(1) Some False show ?thesis by (auto simp: read_first_line_def flag_set_def)
  qed (simp add: Some read_first_line_def fgets_all.simps)
qed (simp add: read_first_line_def)

lemma after_last_dev: "47 \<notin> set e \<Longrightarrow> after_last 47 (ascii ''/dev/'' @ e) = e"
proof -
  assume "47 \<notin> set e"
  then have "takeWhile (\<lambda>x. x \<noteq> 47) (rev e @ rev (ascii ''/dev/'')) = rev e"
    by (subst takeWhile_append2) (auto simp: ascii_def)
  then show ?thesis by (simp add: after_last_def)
qed

text \<open>
  The list and the target check agree. For a drive the list shows, whose node is a
  block device, the check accepts the node under the same setting for fixed disks, unless the list says
  that the drive is mounted - and then it refuses it for that reason.
\<close>

theorem list_check_agree:
  assumes es: "se_block E = Some es" "\<forall>e\<in>set es. drive_name e"
    and d: "rufux_list_devices E n fixed = Some ds" "d \<in> set ds"
    and st: "se_stat E (dv_devnode d) = Some s" "st_kind s = BLK"
  shows "rufux_check_target E (dv_devnode d) fixed allow_file =
    (if dv_mounted d then Some (MountedDisk (dv_sysname d)) else None)"
proof -
  from d es(1) obtain e where e: "e \<in> set es" "list_entry E fixed e = Some d"
    using list_loop_entries by (fastforce simp: rufux_list_devices_def)
  from list_entry_Some [OF e(2)] obtain l where l: "\<not> dot_name e" "read_first_line E (sys_path e ''/removable'') 128 = Some l"
    "flag_set l \<or> fixed" "d = describe E e (flag_set l)" "dv_size d \<noteq> 0" by blast
  have dn: "drive_name e" using es(2) e(1) by blast
  have nm: "clip 64 e = e" "clip 128 (ascii ''/dev/'' @ e) = ascii ''/dev/'' @ e"
    using dn by (auto simp: drive_name_def short_name_def clip_def ascii_def)
  have node: "dv_devnode d = ascii ''/dev/'' @ e" "dv_sysname d = e" using l(4) nm by (auto simp: describe_def)
  have base: "after_last 47 (dv_devnode d) = e" unfolding node(1) by (rule after_last_dev) (use dn in \<open>simp add: drive_name_def\<close>)
  have self: "is_disk e e" using l(1) by (simp add: is_disk_def starts_def)
  have "best_of e es e"
    using e(1) self by (auto simp: best_of_def is_disk_def starts_def) (metis length_take min.cobounded1 min.commute)
  then have disk: "disk_of e es = e"
    using disk_of_best [of es e] es(2) by (auto simp: drive_name_def intro: best_of_unique)
  have flag: "\<exists>l'. read_first_line E (sys_path e ''/removable'') 64 = Some l' \<and> flag_set l' = flag_set l"
  proof -
    have "map_option flag_set (read_first_line E (sys_path e ''/removable'') 64) = Some (flag_set l)"
      using first_line_flag [of 64] first_line_flag [of 128 E "sys_path e ''/removable''"] l(2) by simp
    then show ?thesis by blast
  qed
  have "e \<noteq> []" using dn by (simp add: drive_name_def short_name_def)
  with st es(1) base disk flag l(3,5) show ?thesis
    by (auto simp: rufux_check_target_def Let_def node l(4) describe_def nm)
qed

section \<open>The list as JSON\<close>

text \<open>The value the printed text stands for.\<close>

definition device_mj :: "device \<Rightarrow> mj" where
  "device_mj d = MJ_OBJ
     [(ascii ''node'', MJ_STR (dv_devnode d)), (ascii ''sys'', MJ_STR (dv_sysname d)),
      (ascii ''size_bytes'', MJ_NUM (dec (unat (dv_size d)))), (ascii ''removable'', MJ_BOOL (dv_removable d)),
      (ascii ''usb'', MJ_BOOL (dv_usb d)), (ascii ''mounted'', MJ_BOOL (dv_mounted d)),
      (ascii ''transport'', MJ_STR (dv_transport d)), (ascii ''vendor'', MJ_STR (dv_vendor d)),
      (ascii ''model'', MJ_STR (dv_model d)), (ascii ''serial'', MJ_STR (dv_serial d))]"

definition clean :: "bytes \<Rightarrow> bool" where
  "clean s \<longleftrightarrow> (\<forall>c\<in>set s. 32 \<le> c)"

definition plain :: "bytes \<Rightarrow> bool" where
  "plain s \<longleftrightarrow> clean s \<and> 34 \<notin> set s \<and> 92 \<notin> set s"

lemma clean_no_nul: "clean s \<Longrightarrow> 0 \<notin> set s"
  by (auto simp: clean_def)

lemma print_escaped: "clean s \<Longrightarrow> print_str s = quoted (json_escape s)"
  by (induction s) (auto simp: print_str_def quoted_def json_escape_def print_char_def clean_def not_less [symmetric])

lemma json_escape_plain: "plain s \<Longrightarrow> json_escape s = s"
  by (induction s) (auto simp: json_escape_def plain_def clean_def)

lemma plain_clean: "plain s \<Longrightarrow> clean s"
  by (simp add: plain_def)

lemma plain_keys:
  "plain (ascii ''node'')" "plain (ascii ''sys'')" "plain (ascii ''size_bytes'')" "plain (ascii ''removable'')"
  "plain (ascii ''usb'')" "plain (ascii ''mounted'')" "plain (ascii ''transport'')" "plain (ascii ''vendor'')"
  "plain (ascii ''model'')" "plain (ascii ''serial'')"
  by (simp_all add: plain_def clean_def ascii_def)

definition printable_device :: "device \<Rightarrow> bool" where
  "printable_device d \<longleftrightarrow> plain (dv_devnode d) \<and> plain (dv_sysname d) \<and> plain (dv_transport d) \<and>
     clean (dv_vendor d) \<and> clean (dv_model d) \<and> clean (dv_serial d)"

lemma device_json_print: "printable_device d \<Longrightarrow> device_json d = print_mj (device_mj d)"
  by (simp add: device_json_def device_mj_def member_def printable_device_def print_escaped plain_clean json_escape_plain plain_keys
      json_bool_def)

lemma is_dig_dec: "list_all is_dig (dec n)"
proof -
  have "is_dig (of_nat (48 + m))" if "m < 10" for m
  proof -
    have "unat (of_nat (48 + m) :: byte) = 48 + m" using that by (simp add: unat_of_nat_small del: of_nat_add)
    with that show ?thesis by (simp add: is_dig_def word_le_nat_alt del: of_nat_add)
  qed
  then show ?thesis using dec_digits [of n] by (auto simp: list_all_iff simp del: of_nat_add)
qed

lemma json_number_dec: "json_number (dec n)"
  unfolding json_number_def
  by (rule exI [of _ "[]"], rule exI [of _ "dec n"], rule exI [of _ "[]"], rule exI [of _ "[]"]) (simp add: dec_not_empty is_dig_dec)

lemma wf_device_mj: "printable_device d \<Longrightarrow> wf_mj (device_mj d)"
  using plain_keys by (simp add: device_mj_def printable_device_def json_number_dec plain_def clean_no_nul)

lemma height_device_mj: "height (device_mj d) = 2"
  by (simp add: device_mj_def)

text \<open>An object is read back whatever follows it.\<close>

lemma read_device:
  assumes "printable_device d"
  shows "parse_value (Suc (Suc n)) (device_json d @ rest) = Inr (device_mj d, rest)"
proof -
  define kvs where "kvs = (case device_mj d of MJ_OBJ kvs \<Rightarrow> kvs)"
  have d: "device_mj d = MJ_OBJ kvs" by (simp add: kvs_def device_mj_def)
  have "reads (parse_value (Suc n)) (snd kv) \<and> wf_mj (snd kv) \<and> (if True then 0 \<notin> set (fst kv) else fst kv = [])"
    if "kv \<in> set kvs" for kv
  proof -
    have "wf_mj (snd kv)" "0 \<notin> set (fst kv)" using wf_device_mj [OF assms] that by (auto simp: d)
    moreover have "height (snd kv) \<le> Suc n" using that by (auto simp: kvs_def device_mj_def)
    ultimately show ?thesis using reads_print by simp
  qed
  then have "parse_value (Suc (Suc n)) ((if True then 123 else 91) # joined (map (print_member True) kvs) @ (if True then 125 else 93) # rest) =
      Inr (mk_container True kvs, rest)" by (rule parse_container_print)
  moreover have "map (print_member True) kvs = map (\<lambda>kv. print_str (fst kv) @ 58 # print_mj (snd kv)) kvs" by (simp add: print_member_def)
  ultimately show ?thesis
    using device_json_print [OF assms] by (simp add: d mk_container_def del: parse_value.simps)
qed

lemma skip_ws_idem: "skip_ws (skip_ws s) = skip_ws s"
  by (simp add: skip_ws_def dropWhile_idem)

lemma device_json_head: "skip_ws (device_json d @ rest) = device_json d @ rest"
  by (simp add: device_json_def skip_ws_def)

lemma skip_ws_line: "skip_ws (32 # s) = skip_ws s" "skip_ws (10 # s) = skip_ws s"
  by (simp_all add: skip_ws_def)

lemma read_device_lines:
  assumes "ds \<noteq> []" "length ds \<le> fuel" "\<forall>d\<in>set ds. printable_device d"
  shows "parse_members (parse_value (Suc (Suc n))) False fuel (skip_ws (device_lines ds @ 93 # rest)) = Inr (map (\<lambda>d. ([], device_mj d)) ds, rest)"
  using assms
proof (induction ds arbitrary: fuel)
  case (Cons d ds)
  then obtain k where k: "fuel = Suc k" by (cases fuel) auto
  have p: "printable_device d" using Cons.prems by simp
  show ?case
  proof (cases "ds = []")
    case True
    then show ?thesis
      by (simp add: k skip_ws_line device_json_head member_name_def read_device [OF p] Let_def skip_ws_cons del: parse_value.simps)
  next
    case False
    have "parse_members (parse_value (Suc (Suc n))) False k (skip_ws (device_lines ds @ 93 # rest)) = Inr (map (\<lambda>d. ([], device_mj d)) ds, rest)"
      by (rule Cons.IH) (use False Cons.prems k in auto)
    moreover have "parse_members sub False k (10 # s) = parse_members sub False k (skip_ws s)" for sub s
      by (cases k) (simp_all add: skip_ws_line skip_ws_idem)
    ultimately show ?thesis
      using False
      by (simp add: k skip_ws_line device_json_head member_name_def read_device [OF p] Let_def skip_ws_cons del: parse_value.simps parse_members.simps(2))
         (simp add: skip_ws_line device_json_head member_name_def read_device [OF p] Let_def skip_ws_cons del: parse_value.simps)
  qed
qed simp

lemma detect_transport_plain: "plain (clip 32 (detect_transport E s b))"
  by (auto simp: detect_transport_def Let_def clip_def plain_def clean_def ascii_def split: option.split)

lemma clean_takeWhile: "clean s \<Longrightarrow> clean (takeWhile P s)"
  by (auto simp: clean_def dest: set_takeWhileD)

lemma plain_clip: "plain s \<Longrightarrow> plain (clip n s)"
  by (auto simp: plain_def clean_def clip_def dest: in_set_takeD)

lemma listed_printable:
  assumes "list_entry E fixed e = Some d" "plain e" "clean (dv_serial d)"
  shows "printable_device d"
proof -
  from list_entry_Some [OF assms(1)] obtain b where d: "d = describe E e b" by blast
  have "plain (ascii ''/dev/'' @ e)" using assms(2) by (auto simp: plain_def clean_def ascii_def)
  then show ?thesis
    using assms(2,3) by (auto simp: d describe_def printable_device_def plain_clip detect_transport_plain clean_def blank_unprintable_def isprint_def)
qed

text \<open>
  C23: the JSON form of the device list is JSON, and the program's own reader gets
  every field back: for drives named as the kernel names them and serial numbers without control
  characters, whatever vendor and model strings the drives report.
\<close>

theorem device_json_roundtrip:
  assumes "se_block E = Some es" "\<forall>e\<in>set es. plain e"
    and ds: "rufux_list_devices E n fixed = Some ds" "\<forall>d\<in>set ds. clean (dv_serial d)"
    and len: "length (rufux_print_devices_json ds) \<le> MJ_MAX_TEXT"
  shows "mj_parse (Some (rufux_print_devices_json ds)) = Inr (MJ_ARR (map device_mj ds))"
proof -
  have p: "\<forall>d\<in>set ds. printable_device d"
  proof
    fix d assume d: "d \<in> set ds"
    with ds(1) assms(1) obtain e where "e \<in> set es" "list_entry E fixed e = Some d"
      using list_loop_entries by (fastforce simp: rufux_list_devices_def)
    with assms(2) ds(2) d show "printable_device d" using listed_printable by blast
  qed
  obtain n where n: "MJ_MAX_DEPTH = Suc (Suc n)" by (rule that [of 62]) (simp add: MJ_MAX_DEPTH_def)
  have v: "parse_value (MJ_MAX_DEPTH + 1) (rufux_print_devices_json ds) = Inr (MJ_ARR (map device_mj ds), [10])"
  proof (cases "ds = []")
    case True
    then show ?thesis by (simp add: rufux_print_devices_json_def skip_ws_line skip_ws_cons mk_container_def Let_def)
  next
    case False
    have t: "skip_ws (tl (rufux_print_devices_json ds)) = skip_ws (device_lines ds @ 93 # [10])"
      by (simp add: rufux_print_devices_json_def skip_ws_line)
    have hd: "skip_ws (device_lines ds @ 93 # [10]) \<noteq> [] \<and> hd (skip_ws (device_lines ds @ 93 # [10])) = 123"
      using False by (cases ds) (simp_all add: skip_ws_line device_json_head, simp_all add: device_json_def)
    have l: "length ds \<le> length (device_lines ds)" by (induction ds) auto
    have m: "parse_members (parse_value MJ_MAX_DEPTH) False (length (rufux_print_devices_json ds)) (skip_ws (device_lines ds @ 93 # [10])) =
        Inr (map (\<lambda>d. ([], device_mj d)) ds, [10])"
      unfolding n by (rule read_device_lines) (use False l p in \<open>auto simp: rufux_print_devices_json_def\<close>)
    have s: "skip_ws (rufux_print_devices_json ds) = rufux_print_devices_json ds" "hd (rufux_print_devices_json ds) = 91"
        "rufux_print_devices_json ds \<noteq> []"
      by (simp_all add: rufux_print_devices_json_def skip_ws_def)
    show ?thesis
      using hd by (simp add: s t m Let_def mk_container_def comp_def)
  qed
  have "\<not> starts [0xEF, 0xBB, 0xBF] (rufux_print_devices_json ds)" by (simp add: starts_def rufux_print_devices_json_def)
  with v len show ?thesis by (simp add: mj_parse_def Let_def skip_ws_def del: parse_value.simps)
qed

section \<open>A machine\<close>

text \<open>A USB stick \<open>sda\<close> and a system disk \<open>sdb\<close>.\<close>

definition demo_env :: sys_env where
  "demo_env = \<lparr>
     se_stat = (\<lambda>p. if p = ascii ''/dev/sda'' \<or> p = ascii ''/dev/sdb'' then Some \<lparr>st_kind = BLK, st_id = (0, 1), st_size = 0\<rparr> else None),
     se_block = Some [ascii ''sda'', ascii ''sdb'', ascii ''loop0''],
     se_file = (\<lambda>p. if p = ascii ''/sys/block/sda/removable'' then Some [49, 10]
                     else if p = ascii ''/sys/block/sdb/removable'' then Some [48, 10]
                     else if p = ascii ''/sys/block/sda/device/model'' then Some [65, 9, 34, 10]
                     else if p = ascii ''/proc/mounts'' then Some (ascii ''/dev/sdb1 / ext4'' @ [10])
                     else None),
     se_link = (\<lambda>p. None), se_blksize = (\<lambda>p. Some 1024)\<rparr>"

definition demo_device :: device where
  "demo_device = \<lparr>dv_sysname = ascii ''sda'', dv_devnode = ascii ''/dev/sda'', dv_vendor = [], dv_model = [65, 32, 34], dv_serial = [],
     dv_transport = ascii ''usb'', dv_size = 1024, dv_removable = True, dv_usb = False, dv_mounted = False\<rparr>"

lemma demo_list: "rufux_list_devices demo_env 8 False = Some [demo_device]"
  by (simp add: rufux_list_devices_def demo_env_def demo_device_def list_entry_def describe_def read_first_line_def fgets_all.simps sys_path_def clip_def
      virtual_name_def dot_name_def starts_def ascii_def flag_set_def line_or_empty_def blank_unprintable_def isprint_def detect_transport_def
      device_link_def dev_is_mounted_def dev_size_bytes_def cstr_def Let_def)

lemma demo_names: "\<forall>e\<in>set [ascii ''sda'', ascii ''sdb'', ascii ''loop0'']. drive_name e \<and> plain e"
  by (simp add: drive_name_def short_name_def plain_def clean_def ascii_def)

theorem check_target_exact_witness: "rufux_check_target demo_env (ascii ''/dev/sdb'') True False \<noteq> None"
proof
  assume "rufux_check_target demo_env (ascii ''/dev/sdb'') True False = None"
  moreover have n: "\<And>es. se_block demo_env = Some es \<Longrightarrow> \<forall>e\<in>set es. short_name e"
    using demo_names by (auto simp: demo_env_def drive_name_def)
  ultimately obtain d where d: "d \<in> {ascii ''sda'', ascii ''sdb'', ascii ''loop0''}" "is_disk (after_last 47 (ascii ''/dev/sdb'')) d"
      "writable_disk demo_env (ascii ''/dev/sdb'') True d"
    using check_target_exact [of demo_env "ascii ''/dev/sdb''" True False] by (auto simp: demo_env_def)
  have "after_last 47 (ascii ''/dev/sdb'') = ascii ''sdb''" by (simp add: after_last_def ascii_def)
  with d(1,2) have "d = ascii ''sdb''" by (auto simp: is_disk_def starts_def ascii_def)
  moreover have "dev_is_mounted demo_env (ascii ''sdb'')"
    by (simp add: dev_is_mounted_def demo_env_def fgets_all.simps starts_def clip_def cstr_def ascii_def Let_def)
  ultimately show False using d(3) by (simp add: writable_disk_def)
qed

theorem device_json_roundtrip_witness:
  "mj_parse (Some (rufux_print_devices_json [demo_device])) = Inr (MJ_ARR [device_mj demo_device])"
proof -
  have "mj_parse (Some (rufux_print_devices_json [demo_device])) = Inr (MJ_ARR (map device_mj [demo_device]))"
  proof (rule device_json_roundtrip)
    show "se_block demo_env = Some [ascii ''sda'', ascii ''sdb'', ascii ''loop0'']" by (simp add: demo_env_def)
    show "\<forall>e\<in>set [ascii ''sda'', ascii ''sdb'', ascii ''loop0'']. plain e" using demo_names by blast
    show "rufux_list_devices demo_env 8 False = Some [demo_device]" by (rule demo_list)
    show "\<forall>d\<in>set [demo_device]. clean (dv_serial d)" by (simp add: demo_device_def clean_def)
    show "length (rufux_print_devices_json [demo_device]) \<le> MJ_MAX_TEXT"
      by (simp add: rufux_print_devices_json_def device_json_def demo_device_def member_def quoted_def json_escape_def json_bool_def
          dec.simps MJ_MAX_TEXT_def ascii_def)
  qed
  then show ?thesis by simp
qed

end
