(* ===== verification/LinuxIo.thy ===== *)
theory LinuxIo
  imports CLib MacIo
begin

text \<open>
  Input and output of the Linux port. An open target is the device record of \<open>MacIo\<close>, whose schedule
  says which of the next calls are interrupted, cut short or fail; the file position is an argument.
  A source opened with \<open>fopen\<close> is a stream: the bytes still to come, whether the medium is unreadable
  after them, and the error indicator.
\<close>

section \<open>Streams\<close>

record stream =
  fr_rest :: bytes
  fr_bad :: bool
  fr_err :: bool

definition fopen_rb :: "bytes \<Rightarrow> bool \<Rightarrow> stream" where
  "fopen_rb bs bad = \<lparr>fr_rest = bs, fr_bad = bad, fr_err = False\<rparr>"

definition fread :: "nat \<Rightarrow> stream \<Rightarrow> bytes \<times> stream" where
  "fread n f =
     (take n (fr_rest f),
      f\<lparr>fr_rest := drop n (fr_rest f), fr_err := fr_err f \<or> (fr_bad f \<and> length (fr_rest f) < n)\<rparr>)"

definition CHUNK :: nat where "CHUNK = 2 ^ 20"

text \<open>The bytes read, the stream, and what is left of the budget.\<close>

definition read_capped :: "stream \<Rightarrow> nat \<Rightarrow> bytes \<times> stream \<times> nat" where
  "read_capped f remaining =
     (let want = (if remaining < CHUNK then remaining else CHUNK)
      in if want = 0 then ([], f, remaining)
         else let (bs, f) = fread want f in (bs, f, remaining - length bs))"

section \<open>Descriptors\<close>

lemma sys_pwrite_zero: "sys_pwrite bs off d = (Inr 0, d') \<Longrightarrow> bs \<noteq> [] \<Longrightarrow> length (d_sched d') < length (d_sched d)"
  by (cases "d_sched d")
    (auto simp: sys_pwrite_def sched_next_def Let_def split: if_splits sum.splits io_ev.splits)

text \<open>
  The inner loop of the writer: \<open>write\<close> until the chunk is out; a return value of 0 is tried again. The
  result is the error that stopped it, if any, with the position where it happened.
\<close>

function write_chunk :: "bytes \<Rightarrow> nat \<Rightarrow> dev \<Rightarrow> (nat \<times> errno) option \<times> dev" where
  "write_chunk bs pos d =
     (if bs = [] then (None, d)
      else case sys_pwrite bs (int pos) d of
        (Inl e, d') \<Rightarrow> if e = EINTR then write_chunk bs pos d' else (Some (pos, e), d')
      | (Inr w, d') \<Rightarrow> write_chunk (drop w bs) (pos + w) d')"
  by pat_completeness auto

termination
proof (relation "measure (\<lambda>(bs, pos, d). length bs + length (d_sched d))", goal_cases)
  case (2 bs pos d r d' e)
  then show ?case using sys_pwrite_EINTR [of bs "int pos" d d'] by simp
next
  case (3 bs pos d r d' w)
  then show ?case
    using sys_pwrite_progress [of bs "int pos" d w d'] sys_pwrite_zero [of bs "int pos" d d'] by (cases "w = 0") auto
qed simp

declare write_chunk.simps [simp del]

text \<open>\<open>rufux_read_full\<close>: up to \<open>n\<close> bytes, fewer only at the end of the file.\<close>

function read_full :: "nat \<Rightarrow> nat \<Rightarrow> bytes \<Rightarrow> dev \<Rightarrow> (errno + bytes) \<times> dev" where
  "read_full n pos got d =
     (if n \<le> length got then (Inr got, d)
      else case sys_pread (n - length got) (int (pos + length got)) d of
        (Inl e, d') \<Rightarrow> if e = EINTR then read_full n pos got d' else (Inl e, d')
      | (Inr r, d') \<Rightarrow> if r = [] then (Inr got, d') else read_full n pos (got @ r) d')"
  by pat_completeness auto

termination
proof (relation "measure (\<lambda>(n, pos, got, d). (n - length got) + length (d_sched d))", goal_cases)
  case (2 n pos got d r d' e)
  then show ?case using sys_pread_EINTR [of "n - length got" "int (pos + length got)" d d'] by simp
next
  case (3 n pos got d r d' w)
  then show ?case
    using sys_pread_progress [of "n - length got" "int (pos + length got)" d w d'] by (cases w) auto
qed simp

declare read_full.simps [simp del]

section \<open>Lemmas\<close>

lemma read_capped_simp:
  "read_capped f remaining =
     (take (min remaining CHUNK) (fr_rest f),
      (if remaining = 0 then f else snd (fread (min remaining CHUNK) f)),
      remaining - length (take (min remaining CHUNK) (fr_rest f)))"
  by (auto simp: read_capped_def fread_def Let_def CHUNK_def)

lemma sys_pwrite_at:
  assumes "sys_pwrite bs (int pos) d = (Inr w, d')" "pos \<le> length (d_img d)"
  shows "w \<le> length bs \<and> d_img d' = bput pos (take w bs) (d_img d) \<and> d_grows d' = d_grows d"
  using assms sched_next_le [of "length bs" d]
  by (auto simp: sys_pwrite_def Let_def img_write_inside split: if_splits sum.splits)

lemma sys_pwrite_fits:
  assumes "sys_pwrite bs (int pos) d = (Inr w, d')" "pos \<le> length (d_img d)"
  shows "pos + w \<le> length (d_img d') \<and> length (d_img d) \<le> length (d_img d') \<and>
    (\<not> d_grows d \<longrightarrow> length (d_img d') = length (d_img d))"
proof -
  have "\<not> d_grows d \<Longrightarrow> pos + w \<le> length (d_img d)"
    using assms by (auto simp: sys_pwrite_def Let_def split: if_splits sum.splits)
  with sys_pwrite_at [OF assms] assms(2) show ?thesis by (auto simp: bput_def)
qed

lemma bput_append: "pos \<le> length xs \<Longrightarrow> bput (pos + length bs) cs (bput pos bs xs) = bput pos (bs @ cs) xs"
  by (simp add: bput_def min_def ac_simps)

lemma length_bput_ge: "pos \<le> length xs \<Longrightarrow> pos + length bs \<le> length (bput pos bs xs) \<and> length xs \<le> length (bput pos bs xs)"
  by (auto simp: bput_def)

text \<open>A chunk that went out is at its place, whatever interruptions and short writes there were.\<close>

lemma write_chunk_ok:
  "write_chunk bs pos d = (None, d') \<Longrightarrow> pos \<le> length (d_img d) \<Longrightarrow>
   d_img d' = bput pos bs (d_img d) \<and> d_grows d' = d_grows d"
proof (induction bs pos d rule: write_chunk.induct)
  case (1 bs pos d)
  show ?case
  proof (cases "bs = []")
    case True
    with "1.prems" show ?thesis by (simp add: write_chunk.simps)
  next
    case False
    obtain r d1 where s: "sys_pwrite bs (int pos) d = (r, d1)" by fastforce
    show ?thesis
    proof (cases r)
      case (Inl e)
      with s False "1.prems" have e: "e = EINTR" "write_chunk bs pos d1 = (None, d')"
        by (auto simp: write_chunk.simps [of bs pos d] split: if_splits)
      with "1.IH"(1) [OF False s [symmetric] Inl e(1)] "1.prems"(2) sys_pwrite_Inl [of bs "int pos" d e d1] s Inl
      show ?thesis by simp
    next
      case (Inr w)
      with s False "1.prems" have rest: "write_chunk (drop w bs) (pos + w) d1 = (None, d')"
        by (simp add: write_chunk.simps [of bs pos d])
      note at = sys_pwrite_at [OF s [unfolded Inr] "1.prems"(2)] and fit = sys_pwrite_fits [OF s [unfolded Inr] "1.prems"(2)]
      from "1.IH"(2) [OF False s [symmetric] Inr rest] fit
      have IH: "d_img d' = bput (pos + w) (drop w bs) (d_img d1)" "d_grows d' = d_grows d1"
        by auto
      have w: "length (take w bs) = w" using at by simp
      from bput_append [OF "1.prems"(2), of "take w bs" "drop w bs"]
      have "bput (pos + w) (drop w bs) (bput pos (take w bs) (d_img d)) = bput pos bs (d_img d)" unfolding w by simp
      with IH at show ?thesis by simp
    qed
  qed
qed

text \<open>Room for the bytes: the file can grow or the device is large enough.\<close>

definition room :: "nat \<Rightarrow> dev \<Rightarrow> bool" where
  "room n d \<longleftrightarrow> d_grows d \<or> n \<le> length (d_img d)"

definition tame :: "dev \<Rightarrow> bool" where
  "tame d \<longleftrightarrow> (\<forall>e\<in>set (d_sched d). e = Fails EINTR \<or> (\<exists>k. e = AtMost k))"

lemma tame_step:
  assumes "tame d" "bs \<noteq> []" "room (pos + length bs) d"
  shows "(\<exists>d'. sys_pwrite bs (int pos) d = (Inl EINTR, d') \<and> tame d') \<or> (\<exists>w d'. sys_pwrite bs (int pos) d = (Inr w, d') \<and> tame d')"
proof -
  obtain b bs' where bs: "bs = b # bs'" using assms(2) by (cases bs) auto
  show ?thesis
  proof (cases "d_sched d")
    case Nil
    with bs assms show ?thesis by (auto simp: sys_pwrite_def sched_next_def Let_def tame_def room_def)
  next
    case (Cons e es)
    with assms(1) consider "e = Fails EINTR" | k where "e = AtMost k" by (auto simp: tame_def)
    then show ?thesis
      using assms Cons bs by cases (auto simp: sys_pwrite_def sched_next_def Let_def tame_def room_def)
  qed
qed

lemma write_chunk_tame:
  "tame d \<Longrightarrow> pos \<le> length (d_img d) \<Longrightarrow> room (pos + length bs) d \<Longrightarrow> \<exists>d'. write_chunk bs pos d = (None, d') \<and> tame d'"
proof (induction bs pos d rule: write_chunk.induct)
  case (1 bs pos d)
  show ?case
  proof (cases "bs = []")
    case True
    with "1.prems" show ?thesis by (simp add: write_chunk.simps)
  next
    case False
    from tame_step [OF "1.prems"(1) False "1.prems"(3)] show ?thesis
    proof (elim disjE exE conjE)
      fix d1 assume s: "sys_pwrite bs (int pos) d = (Inl EINTR, d1)" "tame d1"
      have "\<exists>d'. write_chunk bs pos d1 = (None, d') \<and> tame d'"
        by (rule "1.IH"(1) [OF False s(1) [symmetric] refl refl s(2)])
          (use sys_pwrite_Inl [OF s(1)] "1.prems" in \<open>auto simp: room_def\<close>)
      with s False show ?thesis by (simp add: write_chunk.simps [of bs pos d])
    next
      fix w d1 assume s: "sys_pwrite bs (int pos) d = (Inr w, d1)" "tame d1"
      note at = sys_pwrite_at [OF s(1) "1.prems"(2)] and fit = sys_pwrite_fits [OF s(1) "1.prems"(2)]
      have "\<exists>d'. write_chunk (drop w bs) (pos + w) d1 = (None, d') \<and> tame d'"
        by (rule "1.IH"(2) [OF False s(1) [symmetric] refl s(2)]) (use at fit "1.prems" in \<open>auto simp: room_def\<close>)
      with s False show ?thesis by (simp add: write_chunk.simps [of bs pos d])
    qed
  qed
qed

section \<open>Writing until an error\<close>

text \<open>
  The loop that gives up when a call returns 0. \<open>retry\<close> says whether an interrupted call is repeated: the programs'
  own loops do so, \<open>fwrite\<close> does not. Whatever happens, a beginning of the bytes is at its place and nothing else changed.
\<close>

function write_at :: "bool \<Rightarrow> bytes \<Rightarrow> nat \<Rightarrow> dev \<Rightarrow> bool \<times> dev" where
  "write_at retry bs pos d =
     (if bs = [] then (True, d)
      else case sys_pwrite bs (int pos) d of
        (Inl e, d') \<Rightarrow> if retry \<and> e = EINTR then write_at retry bs pos d' else (False, d')
      | (Inr w, d') \<Rightarrow> if w = 0 then (False, d') else write_at retry (drop w bs) (pos + w) d')"
  by pat_completeness auto

termination
proof (relation "measure (\<lambda>(retry, bs, pos, d). length bs + length (d_sched d))", goal_cases)
  case (2 retry bs pos d r d' e)
  then show ?case using sys_pwrite_EINTR [of bs "int pos" d d'] by simp
next
  case (3 retry bs pos d r d' w)
  then show ?case using sys_pwrite_progress [of bs "int pos" d w d'] by auto
qed simp

declare write_at.simps [simp del]

lemma write_at_prefix:
  "write_at retry bs pos d = (ok, d') \<Longrightarrow> pos \<le> length (d_img d) \<Longrightarrow>
   \<exists>k\<le>length bs. d_img d' = bput pos (take k bs) (d_img d) \<and> d_grows d' = d_grows d \<and> (ok \<longrightarrow> k = length bs)"
proof (induction retry bs pos d rule: write_at.induct)
  case (1 retry bs pos d)
  show ?case
  proof (cases "bs = []")
    case True
    with "1.prems" show ?thesis by (intro exI [of _ 0]) (simp add: write_at.simps)
  next
    case False
    obtain r d1 where s: "sys_pwrite bs (int pos) d = (r, d1)" by fastforce
    show ?thesis
    proof (cases r)
      case (Inl e)
      note same = sys_pwrite_Inl [OF s [unfolded Inl]]
      show ?thesis
      proof (cases "retry \<and> e = EINTR")
        case True
        with s False "1.prems" Inl have "write_at retry bs pos d1 = (ok, d')"
          by (simp add: write_at.simps [of _ bs pos d])
        with "1.IH"(1) [OF False s [symmetric] Inl True] "1.prems"(2) same show ?thesis by simp
      next
        case no: False
        with s False "1.prems" Inl have "d' = d1" "\<not> ok" by (auto simp: write_at.simps [of _ bs pos d])
        with same show ?thesis by (intro exI [of _ 0]) simp
      qed
    next
      case (Inr w)
      note at = sys_pwrite_at [OF s [unfolded Inr] "1.prems"(2)] and fit = sys_pwrite_fits [OF s [unfolded Inr] "1.prems"(2)]
      show ?thesis
      proof (cases "w = 0")
        case True
        with s False "1.prems" Inr have "d' = d1" "\<not> ok" by (auto simp: write_at.simps [of _ bs pos d])
        with at True show ?thesis by (intro exI [of _ 0]) simp
      next
        case no: False
        with s False "1.prems" Inr have "write_at retry (drop w bs) (pos + w) d1 = (ok, d')"
          by (simp add: write_at.simps [of _ bs pos d])
        from "1.IH"(2) [OF False s [symmetric] Inr no this] fit obtain k where k: "k \<le> length (drop w bs)"
          "d_img d' = bput (pos + w) (take k (drop w bs)) (d_img d1)" "d_grows d' = d_grows d1"
          "ok \<longrightarrow> k = length (drop w bs)" by auto
        have w: "length (take w bs) = w" using at by simp
        from bput_append [OF "1.prems"(2), of "take w bs" "take k (drop w bs)"]
        have "d_img d' = bput pos (take (w + k) bs) (d_img d)" using k(2) at unfolding w by (simp add: take_add)
        with k at show ?thesis by (intro exI [of _ "w + k"]) auto
      qed
    qed
  qed
qed

text \<open>With the retry it is the loop of \<open>rufux_pwrite_all\<close>.\<close>

lemma write_at_all: "write_at True bs pos d = pwrite_all bs (int pos) d"
proof (induction True bs pos d rule: write_at.induct)
  case (1 bs pos d)
  show ?case
    by (subst write_at.simps, subst pwrite_all.simps)
      (auto simp: 1 split: prod.splits sum.splits)
qed

end
