(* ===== verification/Writer.thy ===== *)
theory Writer
  imports Device LinuxIo
begin

text \<open>
  The image writer of \<open>src/linux/writer.c\<close>. The environment says what the system calls will find: the
  machine of \<open>Device\<close>, the bytes the source gives each time it is opened, whether the target can be
  opened, locked and flushed, its capacity, what is on it, and what the next writes and reads do.
  A drive may return other bytes than were written: \<open>we_readback\<close> says what a later read sees.
  \<open>unsigned long long\<close> sizes are natural numbers: file sizes are below \<open>2 ^ 63\<close>. Memory allocation succeeds.
\<close>

section \<open>Options, environment, errors\<close>

record write_opts =
  wo_dry_run :: bool
  wo_verify :: bool
  wo_allow_fixed :: bool
  wo_allow_file :: bool
  wo_yes :: bool
  wo_src_len :: nat

record wr_env =
  we_sys :: sys_env
  we_source :: "(bytes \<times> bool) option"
  we_source2 :: "(bytes \<times> bool) option"
  we_opens :: bool
  we_lock :: bool
  we_cap :: "nat option"
  we_fsync :: bool
  we_dst :: dev
  we_reopens :: bool
  we_readback :: "bytes \<Rightarrow> bytes"
  we_vsched :: "io_ev list"

datatype wr_error =
  SrcNotFile | PayloadTooBig | SrcEmpty | BadTarget target_error | SameFile | SrcOpen | SrcRead | NeedYes
| TargetBusy | DstOpen | ImageTooLarge | WriteFailed nat errno | FsyncFailed | VerifyReopen | VerifyRead nat errno
| VerifyMismatch nat

text \<open>The calls of the progress callback: done and total.\<close>

type_synonym progress = "(nat \<times> nat) list"

record wr_result =
  wr_err :: "wr_error option"
  wr_dst :: dev
  wr_progress :: progress

section \<open>The loops\<close>

lemma read_capped_less: "read_capped f remaining = (bs, f', remaining') \<Longrightarrow> bs \<noteq> [] \<Longrightarrow> remaining' < remaining"
  by (auto simp: read_capped_simp)

text \<open>Dry run: read everything, report, write nothing.\<close>

function dry_loop :: "stream \<Rightarrow> nat \<Rightarrow> nat \<Rightarrow> nat \<Rightarrow> progress \<Rightarrow> stream \<times> progress" where
  "dry_loop f remaining done tot pr =
     (case read_capped f remaining of (bs, f', remaining') \<Rightarrow>
       if bs = [] then (f', pr)
       else dry_loop f' remaining' (done + length bs) tot (pr @ [(done + length bs, tot)]))"
  by pat_completeness auto

termination
  by (relation "measure (\<lambda>(f, remaining, done, tot, pr). remaining)") (auto dest: read_capped_less [OF sym])

declare dry_loop.simps [simp del]

text \<open>The copy: the error that stopped it, the stream, how much is done, the target.\<close>

function copy_loop :: "stream \<Rightarrow> nat \<Rightarrow> nat \<Rightarrow> nat \<Rightarrow> dev \<Rightarrow> progress \<Rightarrow> wr_error option \<times> stream \<times> nat \<times> dev \<times> progress" where
  "copy_loop f remaining done tot d pr =
     (case read_capped f remaining of (bs, f', remaining') \<Rightarrow>
       if bs = [] then (None, f', done, d, pr)
       else case write_chunk bs done d of
         (Some (pos, e), d') \<Rightarrow> (Some (WriteFailed pos e), f', done, d', pr)
       | (None, d') \<Rightarrow> copy_loop f' remaining' (done + length bs) tot d' (pr @ [(done + length bs, tot)]))"
  by pat_completeness auto

termination
  by (relation "measure (\<lambda>(f, remaining, done, tot, d, pr). remaining)") (auto dest: read_capped_less [OF sym])

declare copy_loop.simps [simp del]

text \<open>The comparison of the source with what is read back.\<close>

function verify_loop :: "stream \<Rightarrow> nat \<Rightarrow> nat \<Rightarrow> nat \<Rightarrow> dev \<Rightarrow> progress \<Rightarrow> wr_error option \<times> progress" where
  "verify_loop f remaining vdone tot d pr =
     (case read_capped f remaining of (bs, f', remaining') \<Rightarrow>
       if bs = [] then (None, pr)
       else case read_full (length bs) vdone [] d of
         (Inl e, d') \<Rightarrow> (Some (VerifyRead vdone e), pr)
       | (Inr got, d') \<Rightarrow>
           if got \<noteq> bs then (Some (VerifyMismatch vdone), pr)
           else verify_loop f' remaining' (vdone + length bs) tot d' (pr @ [(vdone + length bs, tot)]))"
  by pat_completeness auto

termination
  by (relation "measure (\<lambda>(f, remaining, vdone, tot, d, pr). remaining)") (auto dest: read_capped_less [OF sym])

declare verify_loop.simps [simp del]

section \<open>The writer\<close>

definition refuse :: "wr_env \<Rightarrow> wr_error \<Rightarrow> wr_result" where
  "refuse E e = \<lparr>wr_err = Some e, wr_dst = we_dst E, wr_progress = []\<rparr>"

definition dry_run :: "wr_env \<Rightarrow> nat \<Rightarrow> bytes \<times> bool \<Rightarrow> wr_result" where
  "dry_run E tot src =
     (case dry_loop (fopen_rb (fst src) (snd src)) tot 0 tot [] of (f, pr) \<Rightarrow>
       if fr_err f then \<lparr>wr_err = Some SrcRead, wr_dst = we_dst E, wr_progress = pr\<rparr>
       else \<lparr>wr_err = None, wr_dst = we_dst E, wr_progress = pr @ [(tot, tot)]\<rparr>)"

text \<open>From the verification on.\<close>

definition verify_phase :: "wr_env \<Rightarrow> nat \<Rightarrow> dev \<Rightarrow> progress \<Rightarrow> wr_result" where
  "verify_phase E tot d pr =
     (case we_source2 E of
        None \<Rightarrow> \<lparr>wr_err = Some VerifyReopen, wr_dst = d, wr_progress = pr\<rparr>
      | Some src \<Rightarrow>
          if \<not> we_reopens E then \<lparr>wr_err = Some VerifyReopen, wr_dst = d, wr_progress = pr\<rparr>
          else case verify_loop (fopen_rb (fst src) (snd src)) tot 0 tot
                 (d\<lparr>d_img := we_readback E (d_img d), d_sched := we_vsched E\<rparr>) pr of
            (e, pr) \<Rightarrow> \<lparr>wr_err = e, wr_dst = d, wr_progress = pr\<rparr>)"

text \<open>From the copy on, with the target open.\<close>

definition copy_phase :: "wr_env \<Rightarrow> write_opts \<Rightarrow> nat \<Rightarrow> bytes \<times> bool \<Rightarrow> dev \<Rightarrow> wr_result" where
  "copy_phase E opts tot src d =
     (case copy_loop (fopen_rb (fst src) (snd src)) tot 0 tot d [] of (e, f, done, d, pr) \<Rightarrow>
       let e = (if e = None \<and> fr_err f then Some SrcRead else e);
           e = (if \<not> we_fsync E then Some FsyncFailed else e);
           pr = pr @ [(done, tot)]
       in if e = None \<and> wo_verify opts then verify_phase E tot d pr
          else \<lparr>wr_err = e, wr_dst = d, wr_progress = pr\<rparr>)"

text \<open>Opening the target: a regular file is truncated, a device is locked and measured.\<close>

definition open_phase :: "wr_env \<Rightarrow> write_opts \<Rightarrow> bool \<Rightarrow> nat \<Rightarrow> bytes \<times> bool \<Rightarrow> wr_result" where
  "open_phase E opts dst_is_reg tot src =
     (if \<not> we_opens E then refuse E DstOpen
      else if \<not> dst_is_reg \<and> \<not> we_lock E then refuse E TargetBusy
      else if dst_is_reg then copy_phase E opts tot src ((we_dst E)\<lparr>d_img := [], d_grows := True\<rparr>)
      else if (case we_cap E of Some c \<Rightarrow> c < tot | None \<Rightarrow> False) then refuse E ImageTooLarge
      else copy_phase E opts tot src ((we_dst E)\<lparr>d_grows := False\<rparr>))"

definition is_reg :: "sys_env \<Rightarrow> bytes \<Rightarrow> bool" where
  "is_reg S p \<longleftrightarrow> (case se_stat S p of Some s \<Rightarrow> st_kind s = REG | None \<Rightarrow> False)"

definition same_file :: "sys_env \<Rightarrow> bytes \<Rightarrow> bytes \<Rightarrow> bool" where
  "same_file S p q \<longleftrightarrow> (case (se_stat S p, se_stat S q) of (Some a, Some b) \<Rightarrow> st_id a = st_id b | _ \<Rightarrow> False)"

definition rufux_write_image :: "wr_env \<Rightarrow> bytes \<Rightarrow> bytes \<Rightarrow> write_opts \<Rightarrow> wr_result" where
  "rufux_write_image E src dst opts =
     (case se_stat (we_sys E) src of
        None \<Rightarrow> refuse E SrcNotFile
      | Some sst \<Rightarrow>
          if st_kind sst \<noteq> REG then refuse E SrcNotFile
          else if wo_src_len opts > 0 \<and> wo_src_len opts > st_size sst then refuse E PayloadTooBig
          else
            let tot = (if wo_src_len opts > 0 then wo_src_len opts else st_size sst) in
            if tot = 0 then refuse E SrcEmpty
            else case rufux_check_target (we_sys E) dst (wo_allow_fixed opts) (wo_allow_file opts) of
              Some e \<Rightarrow> refuse E (BadTarget e)
            | None \<Rightarrow>
                if same_file (we_sys E) src dst then refuse E SameFile
                else case we_source E of
                  None \<Rightarrow> refuse E SrcOpen
                | Some data \<Rightarrow>
                    if wo_dry_run opts then dry_run E tot data
                    else if \<not> wo_yes opts then refuse E NeedYes
                    else open_phase E opts (is_reg (we_sys E) dst) tot data)"

end
