(* ===== verification/WriterProps.thy ===== *)
theory WriterProps
  imports Writer
begin

text \<open>
  The properties of the image writer: refusals leave the target alone, a successful write is exact, and the
  writer succeeds while the kernel only interrupts and shortens calls.
\<close>

section \<open>The copy\<close>

lemma take_chunk:
  "take n xs @ take (m - length (take n xs)) (drop n xs) = take m xs" if "n \<le> m"
  using that take_add [of n "m - n" xs] by (cases "n \<le> length xs") (auto simp: min_def)

lemma copy_loop_ok:
  "copy_loop f remaining done tot d pr = (None, f', done', d', pr') \<Longrightarrow> done \<le> length (d_img d) \<Longrightarrow>
   d_img d' = bput done (take remaining (fr_rest f)) (d_img d) \<and> done' = done + length (take remaining (fr_rest f)) \<and>
   (fr_err f' \<longleftrightarrow> fr_err f \<or> fr_bad f \<and> length (fr_rest f) < remaining)"
proof (induction f remaining "done" tot d pr rule: copy_loop.induct)
  case (1 f remaining "done" tot d pr)
  define n where "n = min remaining CHUNK"
  define bs where "bs = take n (fr_rest f)"
  define f1 where "f1 = (if remaining = 0 then f else snd (fread n f))"
  have rc: "read_capped f remaining = (bs, f1, remaining - length bs)"
    by (simp add: read_capped_simp bs_def f1_def n_def)
  have f1: "fr_rest f1 = drop n (fr_rest f)" "fr_bad f1 = fr_bad f"
      "fr_err f1 \<longleftrightarrow> fr_err f \<or> fr_bad f \<and> length (fr_rest f) < n"
    by (auto simp: f1_def fread_def n_def)
  show ?case
  proof (cases "bs = []")
    case True
    then have "n = 0 \<or> fr_rest f = []" by (simp add: bs_def)
    moreover have "n = 0 \<longleftrightarrow> remaining = 0" by (auto simp: n_def CHUNK_def)
    ultimately show ?thesis
      using "1.prems" rc True f1 by (auto simp: copy_loop.simps [of f])
  next
    case False
    obtain d1 where w: "write_chunk bs done d = (None, d1)"
      and rest: "copy_loop f1 (remaining - length bs) (done + length bs) tot d1 (pr @ [(done + length bs, tot)]) = (None, f', done', d', pr')"
      using "1.prems"(1) rc False by (auto simp: copy_loop.simps [of f] split: prod.splits option.splits)
    note ok = write_chunk_ok [OF w "1.prems"(2)]
    have le: "done + length bs \<le> length (d_img d1)" using ok length_bput_ge [OF "1.prems"(2)] by auto
    note IH = "1.IH" [OF rc [symmetric] refl False w [symmetric] refl rest le]
    have nb: "length bs = min n (length (fr_rest f))" by (simp add: bs_def)
    have d: "d_img d' = bput done (bs @ take (remaining - length bs) (fr_rest f1)) (d_img d)"
      using IH ok bput_append [OF "1.prems"(2)] by auto
    moreover have t: "bs @ take (remaining - length bs) (fr_rest f1) = take remaining (fr_rest f)"
      unfolding bs_def f1 by (rule take_chunk) (simp add: n_def)
    moreover have "length bs + length (take (remaining - length bs) (fr_rest f1)) = length (take remaining (fr_rest f))"
      using arg_cong [OF t, of length] by simp
    moreover have "fr_err f' \<longleftrightarrow> fr_err f \<or> fr_bad f \<and> length (fr_rest f) < remaining"
      using IH f1 nb by (auto simp: n_def)
    ultimately show ?thesis using IH by auto
  qed
qed

lemma copy_loop_tame:
  "tame d \<Longrightarrow> done \<le> length (d_img d) \<Longrightarrow> room (done + length (take remaining (fr_rest f))) d \<Longrightarrow>
   \<exists>f' done' d' pr'. copy_loop f remaining done tot d pr = (None, f', done', d', pr')"
proof (induction f remaining "done" tot d pr rule: copy_loop.induct)
  case (1 f remaining "done" tot d pr)
  define n where "n = min remaining CHUNK"
  define bs where "bs = take n (fr_rest f)"
  define f1 where "f1 = (if remaining = 0 then f else snd (fread n f))"
  have rc: "read_capped f remaining = (bs, f1, remaining - length bs)"
    by (simp add: read_capped_simp bs_def f1_def n_def)
  have f1: "fr_rest f1 = drop n (fr_rest f)" by (auto simp: f1_def fread_def n_def)
  have "bs @ take (remaining - length bs) (fr_rest f1) = take remaining (fr_rest f)"
    unfolding bs_def f1 by (rule take_chunk) (simp add: n_def)
  from arg_cong [OF this, of length]
  have len: "length (take remaining (fr_rest f)) = length bs + length (take (remaining - length bs) (fr_rest f1))" by simp
  show ?case
  proof (cases "bs = []")
    case True
    then show ?thesis using rc by (simp add: copy_loop.simps [of f])
  next
    case False
    have "room (done + length bs) d" using "1.prems"(3) len by (auto simp: room_def)
    with write_chunk_tame [OF "1.prems"(1,2)] obtain d1 where w: "write_chunk bs done d = (None, d1)" "tame d1" by blast
    note ok = write_chunk_ok [OF w(1) "1.prems"(2)]
    have "\<exists>f' done' d' pr'. copy_loop f1 (remaining - length bs) (done + length bs) tot d1 (pr @ [(done + length bs, tot)]) = (None, f', done', d', pr')"
    proof (rule "1.IH" [OF rc [symmetric] refl False w(1) [symmetric] refl w(2)])
      show "done + length bs \<le> length (d_img d1)" using ok length_bput_ge [OF "1.prems"(2)] by auto
      have "length (d_img d) \<le> length (d_img d1)" using ok length_bput_ge [OF "1.prems"(2)] by auto
      then show "room (done + length bs + length (take (remaining - length bs) (fr_rest f1))) d1"
        using ok len "1.prems"(3) by (auto simp: room_def)
    qed
    with rc False w(1) show ?thesis by (simp add: copy_loop.simps [of f])
  qed
qed

section \<open>The comparison\<close>

lemma sys_pread_at:
  "sys_pread n (int pos) d = (Inr r, d') \<Longrightarrow> d_img d' = d_img d \<and> r = bslice pos (length r) (d_img d) \<and> length r \<le> n"
  using sched_next_le [of n d] by (auto simp: sys_pread_def bslice_def min_def split: if_splits sum.splits)

lemma read_full_sound:
  "read_full n pos got d = (Inr r, d') \<Longrightarrow> got = bslice pos (length got) (d_img d) \<Longrightarrow> length got \<le> n \<Longrightarrow>
   r = bslice pos (length r) (d_img d) \<and> length r \<le> n \<and> d_img d' = d_img d"
proof (induction n pos got d rule: read_full.induct)
  case (1 n pos got d)
  show ?case
  proof (cases "n \<le> length got")
    case True
    with "1.prems" show ?thesis by (simp add: read_full.simps)
  next
    case False
    obtain r1 d1 where s: "sys_pread (n - length got) (int (pos + length got)) d = (r1, d1)" by fastforce
    show ?thesis
    proof (cases r1)
      case (Inl e)
      with s False "1.prems"(1) have e: "e = EINTR" "read_full n pos got d1 = (Inr r, d')"
        by (auto simp: read_full.simps [of n pos got d] split: if_splits)
      have "d_img d1 = d_img d" using s Inl by (auto simp: sys_pread_def split: if_splits sum.splits)
      with "1.IH"(1) [OF False s [symmetric] Inl e] "1.prems"(2,3) show ?thesis by simp
    next
      case (Inr x)
      note at = sys_pread_at [OF s [unfolded Inr]]
      show ?thesis
      proof (cases "x = []")
        case True
        with s False "1.prems" at Inr show ?thesis by (auto simp: read_full.simps [of n pos got d])
      next
        case f: False
        with s False "1.prems"(1) Inr have rest: "read_full n pos (got @ x) d1 = (Inr r, d')"
          by (simp add: read_full.simps [of n pos got d])
        have g: "got @ x = bslice pos (length (got @ x)) (d_img d1)"
          using at "1.prems"(2) bslice_add [of pos "length got" "length x" "d_img d"] by simp
        have "length x \<le> n - length got" using at by blast
        with False have "length (got @ x) \<le> n" by simp
        from "1.IH"(2) [OF False s [symmetric] Inr f rest g this] at show ?thesis by simp
      qed
    qed
  qed
qed

lemma read_full_calm:
  "calm d \<Longrightarrow> pos + n \<le> length (d_img d) \<Longrightarrow> got = bslice pos (length got) (d_img d) \<Longrightarrow> length got \<le> n \<Longrightarrow>
   \<exists>d'. read_full n pos got d = (Inr (bslice pos n (d_img d)), d') \<and> calm d' \<and> d_img d' = d_img d"
proof (induction n pos got d rule: read_full.induct)
  case (1 n pos got d)
  show ?case
  proof (cases "n \<le> length got")
    case True
    with "1.prems" have "length got = n" by simp
    with "1.prems" True show ?thesis by (simp add: read_full.simps)
  next
    case False
    from calm_pread [of d "n - length got" "int (pos + length got)"] False "1.prems"(1,2)
    have "(\<exists>d'. sys_pread (n - length got) (int (pos + length got)) d = (Inl EINTR, d') \<and> calm d' \<and> d_img d' = d_img d) \<or>
      (\<exists>k d'. sys_pread (n - length got) (int (pos + length got)) d = (Inr (bslice (pos + length got) k (d_img d)), d') \<and>
        0 < k \<and> k \<le> n - length got \<and> calm d' \<and> d_img d' = d_img d)"
      by (simp only: nat_int)
    then show ?thesis
    proof (elim disjE exE conjE)
      fix d1 assume s: "sys_pread (n - length got) (int (pos + length got)) d = (Inl EINTR, d1)" "calm d1" "d_img d1 = d_img d"
      with "1.IH"(1) [OF False s(1) [symmetric] refl refl s(2)] "1.prems" False show ?thesis
        by (simp add: read_full.simps [of n pos got d])
    next
      fix k d1 assume s: "sys_pread (n - length got) (int (pos + length got)) d = (Inr (bslice (pos + length got) k (d_img d)), d1)"
        and k: "0 < k" "k \<le> n - length got" and d1: "calm d1" "d_img d1 = d_img d"
      have l: "length (bslice (pos + length got) k (d_img d)) = k" using k "1.prems"(2) False by (intro length_bslice_in) simp
      then have ne: "bslice (pos + length got) k (d_img d) \<noteq> []" using k(1) by auto
      have g: "got @ bslice (pos + length got) k (d_img d) = bslice pos (length (got @ bslice (pos + length got) k (d_img d))) (d_img d1)"
        using "1.prems"(3) bslice_add [of pos "length got" k "d_img d"] l d1 by simp
      have "\<exists>d'. read_full n pos (got @ bslice (pos + length got) k (d_img d)) d1 = (Inr (bslice pos n (d_img d1)), d') \<and> calm d' \<and> d_img d' = d_img d1"
        by (rule "1.IH"(2) [OF False s [symmetric] refl ne d1(1) _ g]) (use d1 l k "1.prems"(2) False in auto)
      with s ne False d1 show ?thesis by (simp add: read_full.simps [of n pos got d])
    qed
  qed
qed

text \<open>A comparison that ends well has seen the same bytes.\<close>

lemma verify_loop_sound:
  "verify_loop f remaining vdone tot d pr = (None, pr') \<Longrightarrow>
   take remaining (fr_rest f) = bslice vdone (length (take remaining (fr_rest f))) (d_img d)"
proof (induction f remaining vdone tot d pr rule: verify_loop.induct)
  case (1 f remaining vdone tot d pr)
  define n where "n = min remaining CHUNK"
  define bs where "bs = take n (fr_rest f)"
  define f1 where "f1 = (if remaining = 0 then f else snd (fread n f))"
  have rc: "read_capped f remaining = (bs, f1, remaining - length bs)"
    by (simp add: read_capped_simp bs_def f1_def n_def)
  have f1: "fr_rest f1 = drop n (fr_rest f)" by (auto simp: f1_def fread_def n_def)
  have t: "bs @ take (remaining - length bs) (fr_rest f1) = take remaining (fr_rest f)"
    unfolding bs_def f1 by (rule take_chunk) (simp add: n_def)
  show ?case
  proof (cases "bs = []")
    case True
    then have "n = 0 \<or> fr_rest f = []" by (simp add: bs_def)
    moreover have "n = 0 \<longleftrightarrow> remaining = 0" by (auto simp: n_def CHUNK_def)
    ultimately show ?thesis by auto
  next
    case False
    obtain d1 where r: "read_full (length bs) vdone [] d = (Inr bs, d1)"
      and rest: "verify_loop f1 (remaining - length bs) (vdone + length bs) tot d1 (pr @ [(vdone + length bs, tot)]) = (None, pr')"
      using "1.prems" rc False by (auto simp: verify_loop.simps [of f] split: prod.splits sum.splits if_splits)
    have s: "bs = bslice vdone (length bs) (d_img d)" "d_img d1 = d_img d"
      using read_full_sound [OF r] by auto
    define ts where "ts = take (remaining - length bs) (fr_rest f1)"
    have "ts = bslice (vdone + length bs) (length ts) (d_img d)"
      using "1.IH" [OF rc [symmetric] refl False r [symmetric] refl _ rest, unfolded s(2)] unfolding ts_def by blast
    with s(1) have "bs @ ts = bslice vdone (length (bs @ ts)) (d_img d)"
      using bslice_add [of vdone "length bs" "length ts" "d_img d"] by simp
    then show ?thesis unfolding ts_def t .
  qed
qed

lemma verify_loop_calm:
  "calm d \<Longrightarrow> vdone + length (take remaining (fr_rest f)) \<le> length (d_img d) \<Longrightarrow>
   take remaining (fr_rest f) = bslice vdone (length (take remaining (fr_rest f))) (d_img d) \<Longrightarrow>
   \<exists>pr'. verify_loop f remaining vdone tot d pr = (None, pr')"
proof (induction f remaining vdone tot d pr rule: verify_loop.induct)
  case (1 f remaining vdone tot d pr)
  define n where "n = min remaining CHUNK"
  define bs where "bs = take n (fr_rest f)"
  define f1 where "f1 = (if remaining = 0 then f else snd (fread n f))"
  define ts where "ts = take (remaining - length bs) (fr_rest f1)"
  have rc: "read_capped f remaining = (bs, f1, remaining - length bs)"
    by (simp add: read_capped_simp bs_def f1_def n_def)
  have f1: "fr_rest f1 = drop n (fr_rest f)" by (auto simp: f1_def fread_def n_def)
  have t: "take remaining (fr_rest f) = bs @ ts"
    unfolding bs_def f1 ts_def by (rule take_chunk [symmetric]) (simp add: n_def)
  show ?case
  proof (cases "bs = []")
    case True
    then show ?thesis using rc by (simp add: verify_loop.simps [of f])
  next
    case False
    have p: "vdone + length bs + length ts \<le> length (d_img d)" "bs @ ts = bslice vdone (length bs + length ts) (d_img d)"
      using "1.prems"(2,3) unfolding t by simp_all
    have "bs = take (length bs) (bs @ ts)" by simp
    also have "\<dots> = bslice vdone (length bs) (d_img d)" unfolding p(2) by (simp add: bslice_def min_def)
    finally have b: "bs = bslice vdone (length bs) (d_img d)" .
    have "ts = drop (length bs) (bs @ ts)" by simp
    also have "\<dots> = bslice (vdone + length bs) (length ts) (d_img d)"
      unfolding p(2) by (simp add: bslice_def drop_take add.commute)
    finally have ts: "ts = bslice (vdone + length bs) (length ts) (d_img d)" .
    obtain d1 where r: "read_full (length bs) vdone [] d = (Inr bs, d1)" "calm d1" "d_img d1 = d_img d"
      using read_full_calm [OF "1.prems"(1), of vdone "length bs" "[]"] p(1) b by auto
    have "\<exists>pr'. verify_loop f1 (remaining - length bs) (vdone + length bs) tot d1 (pr @ [(vdone + length bs, tot)]) = (None, pr')"
      by (rule "1.IH" [OF rc [symmetric] refl False r(1) [symmetric] refl _ r(2)])
        (unfold ts_def [symmetric] r(3), simp, rule p(1), rule ts)
    with rc False r(1) show ?thesis by (simp add: verify_loop.simps [of f])
  qed
qed

section \<open>The writer\<close>

text \<open>The number of bytes to write, and what the opened target holds before the first one.\<close>

definition payload :: "wr_env \<Rightarrow> bytes \<Rightarrow> write_opts \<Rightarrow> nat" where
  "payload E src opts =
     (if wo_src_len opts > 0 then wo_src_len opts else case se_stat (we_sys E) src of Some s \<Rightarrow> st_size s | None \<Rightarrow> 0)"

definition old_tail :: "wr_env \<Rightarrow> bytes \<Rightarrow> bytes" where
  "old_tail E dst = (if is_reg (we_sys E) dst then [] else d_img (we_dst E))"

text \<open>All the checks that come before the target is touched.\<close>

definition may_write :: "wr_env \<Rightarrow> bytes \<Rightarrow> bytes \<Rightarrow> write_opts \<Rightarrow> bool" where
  "may_write E src dst opts \<longleftrightarrow>
     is_reg (we_sys E) src \<and> 0 < payload E src opts \<and>
     (\<forall>s. se_stat (we_sys E) src = Some s \<longrightarrow> wo_src_len opts \<le> st_size s) \<and>
     rufux_check_target (we_sys E) dst (wo_allow_fixed opts) (wo_allow_file opts) = None \<and>
     \<not> same_file (we_sys E) src dst \<and> we_source E \<noteq> None \<and> \<not> wo_dry_run opts \<and> wo_yes opts \<and> we_opens E \<and>
     (is_reg (we_sys E) dst \<or> we_lock E \<and> (\<forall>c. we_cap E = Some c \<longrightarrow> payload E src opts \<le> c))"

definition opened :: "wr_env \<Rightarrow> bytes \<Rightarrow> dev" where
  "opened E dst = (if is_reg (we_sys E) dst then (we_dst E)\<lparr>d_img := [], d_grows := True\<rparr> else (we_dst E)\<lparr>d_grows := False\<rparr>)"

lemma write_image_flat:
  "rufux_write_image E src dst opts =
     (if \<not> is_reg (we_sys E) src then refuse E SrcNotFile
      else if \<not> (\<forall>s. se_stat (we_sys E) src = Some s \<longrightarrow> wo_src_len opts \<le> st_size s) then refuse E PayloadTooBig
      else if payload E src opts = 0 then refuse E SrcEmpty
      else case rufux_check_target (we_sys E) dst (wo_allow_fixed opts) (wo_allow_file opts) of
        Some e \<Rightarrow> refuse E (BadTarget e)
      | None \<Rightarrow>
          if same_file (we_sys E) src dst then refuse E SameFile
          else case we_source E of
            None \<Rightarrow> refuse E SrcOpen
          | Some data \<Rightarrow>
              if wo_dry_run opts then dry_run E (payload E src opts) data
              else if \<not> wo_yes opts then refuse E NeedYes
              else open_phase E opts (is_reg (we_sys E) dst) (payload E src opts) data)"
proof (cases "se_stat (we_sys E) src")
  case (Some s)
  then have p: "payload E src opts = (if wo_src_len opts > 0 then wo_src_len opts else st_size s)"
      "is_reg (we_sys E) src \<longleftrightarrow> st_kind s = REG" by (simp_all add: payload_def is_reg_def)
  show ?thesis
    unfolding rufux_write_image_def p Some Let_def by (cases "wo_src_len opts > 0") (simp_all add: not_le)
qed (simp add: rufux_write_image_def is_reg_def)

lemma dry_run_dst: "wr_dst (dry_run E n data) = we_dst E"
  by (simp add: dry_run_def split: prod.splits)

lemma write_image_may:
  "may_write E src dst opts \<Longrightarrow>
    rufux_write_image E src dst opts = copy_phase E opts (payload E src opts) (the (we_source E)) (opened E dst)"
  unfolding write_image_flat may_write_def
  by (auto simp: open_phase_def opened_def split: option.splits)

lemma write_image_refused:
  assumes "\<not> may_write E src dst opts"
  shows "wr_dst (rufux_write_image E src dst opts) = we_dst E \<and> (wr_err (rufux_write_image E src dst opts) = None \<longrightarrow> wo_dry_run opts)"
proof -
  define A where "A \<longleftrightarrow> we_opens E \<and> (is_reg (we_sys E) dst \<or> we_lock E \<and> (\<forall>c. we_cap E = Some c \<longrightarrow> payload E src opts \<le> c))"
  have A: "\<not> A \<Longrightarrow> wr_dst (open_phase E opts (is_reg (we_sys E) dst) (payload E src opts) data) = we_dst E \<and>
      wr_err (open_phase E opts (is_reg (we_sys E) dst) (payload E src opts) data) \<noteq> None" for data
    by (auto simp: A_def open_phase_def refuse_def split: option.splits)
  have m: "may_write E src dst opts \<longleftrightarrow>
     is_reg (we_sys E) src \<and> 0 < payload E src opts \<and>
     (\<forall>s. se_stat (we_sys E) src = Some s \<longrightarrow> wo_src_len opts \<le> st_size s) \<and>
     rufux_check_target (we_sys E) dst (wo_allow_fixed opts) (wo_allow_file opts) = None \<and>
     \<not> same_file (we_sys E) src dst \<and> we_source E \<noteq> None \<and> \<not> wo_dry_run opts \<and> wo_yes opts \<and> A"
    by (simp add: may_write_def A_def)
  show ?thesis
    using assms A unfolding write_image_flat m by (auto simp: refuse_def dry_run_dst split: option.split)
qed

lemma write_image_cases:
  "if may_write E src dst opts
   then rufux_write_image E src dst opts = copy_phase E opts (payload E src opts) (the (we_source E)) (opened E dst)
   else wr_dst (rufux_write_image E src dst opts) = we_dst E \<and>
     (wr_err (rufux_write_image E src dst opts) = None \<longrightarrow> wo_dry_run opts)"
  using write_image_may write_image_refused by simp

text \<open>
  A refused or simulated write leaves the target alone. Unless every check passed -
  an existing source, a payload that is not empty and not larger than it, a target the target check
  accepts, two different files, the confirmation, no dry run, a target that can be opened and locked and
  is large enough - not a byte of the target changes, and apart from a dry run the call fails.
\<close>

theorem write_image_guards:
  assumes "\<not> may_write E src dst opts"
  shows "wr_dst (rufux_write_image E src dst opts) = we_dst E \<and>
    (wr_err (rufux_write_image E src dst opts) = None \<longrightarrow> wo_dry_run opts)"
  using write_image_cases [of E src dst opts] assms by simp

lemma verify_phase_dst: "wr_dst (verify_phase E n d pr) = d"
  by (auto simp: verify_phase_def split: option.splits prod.splits)

lemma write_image_done:
  assumes "wr_err (rufux_write_image E src dst opts) = None" "\<not> wo_dry_run opts" "we_source E = Some (data, bad)"
  defines "bs \<equiv> take (payload E src opts) data" and "img \<equiv> d_img (wr_dst (rufux_write_image E src dst opts))"
  shows "may_write E src dst opts \<and> img = bs @ drop (length bs) (old_tail E dst) \<and>
    (wo_verify opts \<longrightarrow> (\<exists>data2 bad2. we_source2 E = Some (data2, bad2) \<and>
      take (length (take (payload E src opts) data2)) (we_readback E img) = take (payload E src opts) data2))"
proof -
  define n where "n = payload E src opts"
  have may: "may_write E src dst opts" and r: "rufux_write_image E src dst opts = copy_phase E opts n (data, bad) (opened E dst)"
    using write_image_cases [of E src dst opts] assms(1,2,3) by (auto simp: n_def split: if_splits)
  obtain f' "done" d' pr' where c: "copy_loop (fopen_rb data bad) n 0 n (opened E dst) [] = (None, f', done, d', pr')"
    and e: "\<not> fr_err f'" "we_fsync E"
    and v: "wo_verify opts \<Longrightarrow> wr_err (verify_phase E n d' (pr' @ [(done, n)])) = None"
    and w: "d_img (wr_dst (rufux_write_image E src dst opts)) = d_img d'"
    using assms(1) unfolding r copy_phase_def
    by (auto simp: Let_def verify_phase_dst split: prod.splits if_splits)
  from copy_loop_ok [OF c] have "img = bput 0 (take n data) (d_img (opened E dst))" by (simp add: img_def w fopen_rb_def)
  moreover have "d_img (opened E dst) = old_tail E dst" by (simp add: opened_def old_tail_def)
  ultimately have img: "img = bs @ drop (length bs) (old_tail E dst)" by (simp add: bput_def bs_def n_def)
  have "\<exists>data2 bad2. we_source2 E = Some (data2, bad2) \<and> take (length (take n data2)) (we_readback E img) = take n data2" if "wo_verify opts"
  proof -
    from v [OF that] obtain data2 bad2 pr2 where s2: "we_source2 E = Some (data2, bad2)"
      and vl: "verify_loop (fopen_rb data2 bad2) n 0 n (d'\<lparr>d_img := we_readback E (d_img d'), d_sched := we_vsched E\<rparr>) (pr' @ [(done, n)]) = (None, pr2)"
      by (auto simp: verify_phase_def split: option.splits if_splits prod.splits)
    from verify_loop_sound [OF vl] s2 show ?thesis
      by (auto simp: fopen_rb_def bslice_def img_def w)
  qed
  with may img show ?thesis by (simp add: n_def)
qed

text \<open>
  C3: what a successful write leaves behind. The target holds the payload - the first
  bytes of the source, as many as asked for - followed by what a device held there before, or by nothing
  for a file, whatever interruptions and short writes there were. With \<open>verify\<close>, what is read back from
  the target begins with the payload as the source then gives it, whatever the drive does.
\<close>

theorem write_image_exact:
  assumes "wr_err (rufux_write_image E src dst opts) = None" "\<not> wo_dry_run opts" "we_source E = Some (data, bad)"
  defines "bs \<equiv> take (payload E src opts) data" and "img \<equiv> d_img (wr_dst (rufux_write_image E src dst opts))"
  shows "may_write E src dst opts \<and> img = bs @ drop (length bs) (old_tail E dst) \<and>
    (wo_verify opts \<longrightarrow> (\<exists>data2 bad2. we_source2 E = Some (data2, bad2) \<and>
      take (length (take (payload E src opts) data2)) (we_readback E img) = take (payload E src opts) data2))"
  using write_image_done [OF assms(1-3)] unfolding bs_def img_def by blast

text \<open>
  C24: the writer does its job. When every check passes, the source can be read, the
  target takes the payload, and the kernel interrupts and shortens calls at will but reports no error, the
  write succeeds - with the verification too, on a drive that gives back what was written.
\<close>

theorem write_image_succeeds:
  assumes may: "may_write E src dst opts" and src: "we_source E = Some (data, False)"
    and dst: "tame (we_dst E)" "is_reg (we_sys E) dst \<or> payload E src opts \<le> length (d_img (we_dst E))" and fs: "we_fsync E"
    and v: "wo_verify opts \<Longrightarrow> we_source2 E = Some (data, False) \<and> we_reopens E \<and> (\<forall>x. we_readback E x = x) \<and> list_all benign (we_vsched E)"
  shows "wr_err (rufux_write_image E src dst opts) = None"
proof -
  define n where "n = payload E src opts"
  define d where "d = opened E dst"
  have r: "rufux_write_image E src dst opts = copy_phase E opts n (data, False) d"
    using write_image_cases [of E src dst opts] may src by (simp add: n_def d_def)
  have "tame d" "room (0 + length (take n data)) d" using dst by (auto simp: d_def opened_def tame_def room_def n_def)
  with copy_loop_tame [of d 0 n "fopen_rb data False" n "[]"]
  obtain f' "done" d' pr' where c: "copy_loop (fopen_rb data False) n 0 n d [] = (None, f', done, d', pr')"
    by (auto simp: fopen_rb_def)
  note ok = copy_loop_ok [OF c]
  then have f: "\<not> fr_err f'" and img: "d_img d' = bput 0 (take n data) (d_img d)" by (auto simp: fopen_rb_def)
  have "wr_err (verify_phase E n d' (pr' @ [(done, n)])) = None" if "wo_verify opts"
  proof -
    note v' = v [OF that]
    have "\<exists>pr2. verify_loop (fopen_rb data False) n 0 n (d'\<lparr>d_img := d_img d', d_sched := we_vsched E\<rparr>) (pr' @ [(done, n)]) = (None, pr2)"
      by (rule verify_loop_calm) (use v' img in \<open>auto simp: calm_def fopen_rb_def bput_def bslice_def min_def\<close>)
    with v' show ?thesis by (auto simp: verify_phase_def)
  qed
  with c f fs show ?thesis unfolding r copy_phase_def by (simp add: Let_def)
qed

section \<open>An example\<close>

text \<open>A file of five bytes written to a device of eight, with a signal and short transfers.\<close>

definition copy_env :: wr_env where
  "copy_env = \<lparr>
     we_sys = \<lparr>
       se_stat = (\<lambda>p. if p = ascii ''/img'' then Some \<lparr>st_kind = REG, st_id = (0, 7), st_size = 5\<rparr>
                      else Some \<lparr>st_kind = BLK, st_id = (0, 1), st_size = 0\<rparr>),
       se_block = Some [ascii ''sda''],
       se_file = (\<lambda>p. if p = ascii ''/sys/block/sda/removable'' then Some [49, 10] else None),
       se_link = (\<lambda>p. None), se_blksize = (\<lambda>p. Some 8)\<rparr>,
     we_source = Some ([1, 2, 3, 4, 5], False), we_source2 = Some ([1, 2, 3, 4, 5], False),
     we_opens = True, we_lock = True, we_cap = Some 8, we_fsync = True,
     we_dst = \<lparr>d_img = [9, 9, 9, 9, 9, 9, 9, 9], d_grows = False, d_sched = [Fails EINTR, AtMost 2, AtMost 0]\<rparr>,
     we_reopens = True, we_readback = (\<lambda>x. x), we_vsched = [Fails EINTR, AtMost 3]\<rparr>"

definition copy_opts :: write_opts where
  "copy_opts = \<lparr>wo_dry_run = False, wo_verify = True, wo_allow_fixed = False, wo_allow_file = False, wo_yes = True, wo_src_len = 0\<rparr>"

lemma copy_check: "rufux_check_target (we_sys copy_env) (ascii ''/dev/sda'') False False = None"
  by (simp add: rufux_check_target_def copy_env_def ascii_def after_last_def disk_of_def disk_step_def dot_name_def strncmp_eq_def cstr_def
      clip_def read_first_line_def fgets_all.simps sys_path_def flag_set_def dev_is_mounted_def dev_size_bytes_def Let_def)

lemma copy_may: "may_write copy_env (ascii ''/img'') (ascii ''/dev/sda'') copy_opts"
  using copy_check by (simp add: may_write_def is_reg_def payload_def same_file_def copy_opts_def)
     (auto simp: copy_env_def ascii_def)

theorem write_image_succeeds_witness: "wr_err (rufux_write_image copy_env (ascii ''/img'') (ascii ''/dev/sda'') copy_opts) = None"
  by (rule write_image_succeeds [OF copy_may, of "[1, 2, 3, 4, 5]"])
     (simp_all add: copy_env_def copy_opts_def tame_def payload_def benign_def ascii_def)

lemma copy_runs:
  "rufux_write_image copy_env (ascii ''/img'') (ascii ''/dev/sda'') copy_opts =
     copy_phase copy_env copy_opts 5 ([1, 2, 3, 4, 5], False) (opened copy_env (ascii ''/dev/sda''))"
  using write_image_cases [of copy_env "ascii ''/img''" "ascii ''/dev/sda''" copy_opts] copy_may
  by (simp add: payload_def copy_opts_def) (simp add: copy_env_def ascii_def)

lemma copy_evals: "wr_err (copy_phase copy_env copy_opts 5 ([1, 2, 3, 4, 5], False) (opened copy_env (ascii ''/dev/sda''))) = None"
  by (simp add: copy_phase_def opened_def is_reg_def copy_env_def copy_opts_def ascii_def copy_loop.simps read_capped_def fread_def fopen_rb_def
      CHUNK_def Let_def write_chunk.simps sys_pwrite_def sched_next_def sched_pop_def img_write_def bput_def verify_phase_def verify_loop.simps
      read_full.simps sys_pread_def bslice_def)

theorem write_image_exact_witness:
  "d_img (wr_dst (rufux_write_image copy_env (ascii ''/img'') (ascii ''/dev/sda'') copy_opts)) = [1, 2, 3, 4, 5, 9, 9, 9]"
proof -
  have "d_img (wr_dst (rufux_write_image copy_env (ascii ''/img'') (ascii ''/dev/sda'') copy_opts)) =
      take (payload copy_env (ascii ''/img'') copy_opts) [1, 2, 3, 4, 5] @
      drop (length (take (payload copy_env (ascii ''/img'') copy_opts) [1, 2, 3, 4, 5 :: byte])) (old_tail copy_env (ascii ''/dev/sda''))"
    using write_image_exact [of copy_env "ascii ''/img''" "ascii ''/dev/sda''" copy_opts "[1, 2, 3, 4, 5]" False] copy_evals
    by (simp add: copy_runs) (simp add: copy_env_def copy_opts_def)
  then show ?thesis by (simp add: payload_def copy_opts_def old_tail_def is_reg_def) (simp add: copy_env_def ascii_def)
qed

end
