(* ===== verification/Badblocks.thy ===== *)
theory Badblocks
  imports Device LinuxIo
begin

text \<open>
  The surface scans of \<open>src/linux/badblocks.c\<close>. The drive is a parameter: what it holds after bytes were
  written at a position, which may differ from what was written when it is faulty. The target is opened without
  \<open>O_DIRECT\<close> and nothing drops its cached pages, so a read gives what was written last where the page is still in the
  page cache and what the drive holds where it is not; which pages are cached is a parameter too. A write or read
  call takes its result from a schedule as in \<open>MacIo\<close>; the descriptor's position is an argument.
\<close>

definition patterns :: "byte list" where
  "patterns = [0xAA, 0x55, 0xFF, 0x00]"

definition BUF :: nat where "BUF = 2 ^ 20"

text \<open>What the drive stores for bytes written at a position.\<close>

type_synonym medium = "nat \<Rightarrow> bytes \<Rightarrow> bytes"

section \<open>The read scan\<close>

lemma sys_pread_room: "sys_pread n (int pos) d = (Inr r, d') \<Longrightarrow> r \<noteq> [] \<Longrightarrow> d_img d' = d_img d \<and> pos + length r \<le> length (d_img d)"
  by (auto simp: sys_pread_def bslice_def split: if_splits sum.splits)

text \<open>The loop over \<open>read\<close>: the bytes read, the error that ended it, the device.\<close>

function scan_loop :: "nat \<Rightarrow> dev \<Rightarrow> nat \<times> errno option \<times> dev" where
  "scan_loop done d =
     (case sys_pread BUF (int done) d of
        (Inl e, d') \<Rightarrow> (done, Some e, d')
      | (Inr r, d') \<Rightarrow> if r = [] then (done, None, d') else scan_loop (done + length r) d')"
  by pat_completeness auto

termination
proof (relation "measure (\<lambda>(pos, d). length (d_img d) - pos)", goal_cases)
  case (2 pos d r d' bs)
  then have "sys_pread BUF (int pos) d = (Inr bs, d')" "bs \<noteq> []" by simp_all
  from sys_pread_room [OF this] \<open>bs \<noteq> []\<close> show ?case by (cases bs) auto
qed simp

declare scan_loop.simps [simp del]

section \<open>The write test\<close>

text \<open>
  The environment: the machine, what opening the target gives, and its results. \<open>bb_cached E p i\<close>: when pass \<open>p\<close> reads
  back, the page of byte \<open>i\<close> is in the page cache.
\<close>

record bb_env =
  bb_sys :: sys_env
  bb_open :: "dev option"
  bb_cap :: "nat option"
  bb_medium :: medium
  bb_fsync :: "nat \<Rightarrow> bool"
  bb_cached :: "nat \<Rightarrow> nat \<Rightarrow> bool"

datatype bb_error =
  BbTarget target_error | BbOpen | BbSize | BbEmpty | BbWrite nat | BbFsync

text \<open>\<open>write\<close> on a drive that stores what \<open>M\<close> says.\<close>

definition medium_write :: "medium \<Rightarrow> bytes \<Rightarrow> nat \<Rightarrow> dev \<Rightarrow> (errno + nat) \<times> dev" where
  "medium_write M bs pos d =
     (case sys_pwrite bs (int pos) d of
        (Inl e, d') \<Rightarrow> (Inl e, d')
      | (Inr w, d') \<Rightarrow> (Inr w, d'\<lparr>d_img := img_write pos (M pos (take w bs)) (d_img d)\<rparr>))"

lemma medium_write_sched:
  "medium_write M bs pos d = (Inl EINTR, d') \<Longrightarrow> length (d_sched d') < length (d_sched d)"
  "medium_write M bs pos d = (Inr w, d') \<Longrightarrow> length (d_sched d') \<le> length (d_sched d)"
  using sys_pwrite_EINTR [of bs "int pos" d] sys_pwrite_progress [of bs "int pos" d]
  by (auto simp: medium_write_def split: prod.splits sum.splits)

text \<open>The write phase of a pass: the rest, the bytes done, the device; \<open>False\<close> is a failed write.\<close>

function fill_loop :: "medium \<Rightarrow> byte \<Rightarrow> nat \<Rightarrow> nat \<Rightarrow> nat \<Rightarrow> dev \<Rightarrow> bool \<times> nat \<times> dev" where
  "fill_loop M pat pos left done d =
     (if left = 0 then (True, done, d)
      else case medium_write M (replicate (min BUF left) pat) pos d of
        (Inl e, d') \<Rightarrow> if e = EINTR then fill_loop M pat pos left done d' else (False, done, d')
      | (Inr w, d') \<Rightarrow>
          if w = 0 then (False, done, d') else fill_loop M pat (pos + w) (left - w) (done + w) d')"
  by pat_completeness auto

termination
proof (relation "measure (\<lambda>(M, pat, pos, left, done, d). left + length (d_sched d))", goal_cases)
  case (2 M pat pos left "done" d r d' e)
  then show ?case using medium_write_sched(1) [of M _ pos d d'] by simp
next
  case (3 M pat pos left "done" d r d' w)
  then show ?case using medium_write_sched(2) [of M _ pos d w d'] by force
qed simp

declare fill_loop.simps [simp del]

text \<open>The read phase: the count of bad regions, the bytes done, the device.\<close>

function check_loop :: "byte \<Rightarrow> nat \<Rightarrow> nat \<Rightarrow> nat \<Rightarrow> nat \<Rightarrow> dev \<Rightarrow> nat \<times> nat \<times> dev" where
  "check_loop pat pos left done bad d =
     (if left = 0 then (bad, done, d)
      else case sys_pread (min BUF left) (int pos) d of
        (Inl e, d') \<Rightarrow> if e = EINTR then check_loop pat pos left done bad d' else (bad + 1, done, d')
      | (Inr r, d') \<Rightarrow>
          if r = [] then (bad + 1, done, d')
          else check_loop pat (pos + length r) (left - length r) (done + length r)
                 (if list_ex (\<lambda>b. b \<noteq> pat) r then bad + 1 else bad) d')"
  by pat_completeness auto

termination
proof (relation "measure (\<lambda>(pat, pos, left, done, bad, d). left + length (d_sched d))", goal_cases)
  case (2 pat pos left "done" bad d r d' e)
  then show ?case using sys_pread_EINTR [of "min BUF left" "int pos" d d'] by simp
next
  case (3 pat pos left "done" bad d r d' bs)
  then show ?case using sys_pread_progress [of "min BUF left" "int pos" d bs d'] by (cases bs) auto
qed simp

declare check_loop.simps [simp del]

text \<open>What reads see after \<open>tot\<close> bytes \<open>pat\<close> were written to a drive that now holds \<open>img\<close>.\<close>

definition page_view :: "(nat \<Rightarrow> bool) \<Rightarrow> byte \<Rightarrow> nat \<Rightarrow> bytes \<Rightarrow> bytes" where
  "page_view cached pat tot img = map (\<lambda>i. if i < tot \<and> cached i then pat else img ! i) [0..<length img]"

text \<open>The passes \<open>p, p + 1, ..\<close>; \<open>n\<close> are still to come.\<close>

fun passes_loop :: "bb_env \<Rightarrow> nat \<Rightarrow> nat \<Rightarrow> nat \<Rightarrow> nat \<Rightarrow> nat \<Rightarrow> nat \<Rightarrow> dev \<Rightarrow> bb_error option \<times> nat \<times> dev" where
  "passes_loop E first tot p 0 done bad d = (None, bad, d)"
| "passes_loop E first tot p (Suc n) done bad d =
     (let pat = patterns ! ((first + p) mod 4) in
      case fill_loop (bb_medium E) pat 0 tot done d of
        (False, _, d) \<Rightarrow> (Some (BbWrite (p + 1)), bad, d)
      | (True, done, d) \<Rightarrow>
          if \<not> bb_fsync E p then (Some BbFsync, bad, d)
          else case check_loop pat 0 tot done bad (d\<lparr>d_img := page_view (bb_cached E p) pat tot (d_img d)\<rparr>) of
            (bad, done, d') \<Rightarrow> passes_loop E first tot (p + 1) n done bad (d'\<lparr>d_img := d_img d\<rparr>))"

text \<open>The number of bytes of the opened target.\<close>

definition bb_total :: "bb_env \<Rightarrow> bytes \<Rightarrow> nat" where
  "bb_total E path =
     (case se_stat (bb_sys E) path of
        Some s \<Rightarrow> if st_kind s = REG then st_size s else (case bb_cap E of Some b \<Rightarrow> b | None \<Rightarrow> 0)
      | None \<Rightarrow> (case bb_cap E of Some b \<Rightarrow> b | None \<Rightarrow> 0))"

definition bb_is_reg :: "bb_env \<Rightarrow> bytes \<Rightarrow> bool" where
  "bb_is_reg E path \<longleftrightarrow> (case se_stat (bb_sys E) path of Some s \<Rightarrow> st_kind s = REG | None \<Rightarrow> False)"

text \<open>The read scan: the error or the number of bad regions.\<close>

definition rufux_badblocks :: "bb_env \<Rightarrow> bytes \<Rightarrow> bool \<Rightarrow> bb_error + nat" where
  "rufux_badblocks E path allow_file =
     (case rufux_check_target (bb_sys E) path True allow_file of
        Some e \<Rightarrow> Inl (BbTarget e)
      | None \<Rightarrow>
          (case bb_open E of
             None \<Rightarrow> Inl BbOpen
           | Some d \<Rightarrow> (case scan_loop 0 d of (_, e, _) \<Rightarrow> Inr (if e \<noteq> None then 1 else 0))))"

text \<open>
  The error, \<open>*bad_out\<close> when it is set, and the device afterwards. Both callers pass a number that is not
  negative as \<open>first\<close>. \<open>lseek\<close> to the start of a file or block device succeeds.
\<close>

definition rufux_badblocks_write :: "bb_env \<Rightarrow> bytes \<Rightarrow> bool \<Rightarrow> int \<Rightarrow> nat \<Rightarrow> bb_error option \<times> nat option \<times> dev option" where
  "rufux_badblocks_write E path allow_file passes first =
     (let n = (if passes < 1 then 1 else if passes > 4 then 4 else nat passes) in
      case rufux_check_target (bb_sys E) path True allow_file of
        Some e \<Rightarrow> (Some (BbTarget e), None, bb_open E)
      | None \<Rightarrow>
          (case bb_open E of
             None \<Rightarrow> (Some BbOpen, None, None)
           | Some d \<Rightarrow>
               if \<not> bb_is_reg E path \<and> (bb_cap E = None \<or> bb_cap E = Some 0) then (Some BbSize, None, Some d)
               else if bb_total E path = 0 then (Some BbEmpty, None, Some d)
               else case passes_loop E first (bb_total E path) 0 n 0 0 d of
                 (e, bad, d) \<Rightarrow> (e, Some bad, Some d)))"

end
