(* ===== verification/LinuxPart.thy ===== *)
theory LinuxPart
  imports Device LinuxIo
begin

text \<open>
  The partitioner of \<open>src/linux/partition.c\<close>: the script for \<open>sfdisk\<close>, the run and what follows it, and the
  MBR boot code. \<open>sfdisk\<close> and \<open>partprobe\<close> are not part of the program: \<open>lp_sfdisk\<close> says what running
  \<open>sfdisk\<close> with a script does to the target and whether it succeeds, \<open>lp_listing\<close> what \<open>sfdisk -l\<close> prints.
\<close>

section \<open>Options and environment\<close>

record lpart_opts =
  lo_scheme :: bytes
  lo_layout :: bytes
  lo_fs_main :: "bytes option"
  lo_bios_boot :: bool
  lo_dry_run :: bool
  lo_allow_fixed :: bool
  lo_allow_file :: bool
  lo_yes :: bool

record lp_env =
  lp_sys :: sys_env
  lp_have :: "bytes \<Rightarrow> bool"
  lp_exe_dir :: bytes
  lp_tmp :: bool
  lp_sfdisk :: "bytes \<Rightarrow> dev \<Rightarrow> bool \<times> dev"
  lp_listing :: "dev \<Rightarrow> bytes option"
  lp_opens :: bool
  lp_fsync :: bool

datatype lp_error =
  BadScheme | BadLayout | NoConfirmation | LpTarget target_error | NoSfdisk | TooSmall nat | NoTempFile | SfdiskFailed | BootCodeFailed | UnknownType

section \<open>The size of the target\<close>

definition target_bytes :: "sys_env \<Rightarrow> bytes \<Rightarrow> u64" where
  "target_bytes S path =
     (case se_stat S path of
        None \<Rightarrow> 0
      | Some s \<Rightarrow>
          if st_kind s = REG then of_nat (st_size s)
          else
            let b = (case se_blksize S path of Some b \<Rightarrow> b | None \<Rightarrow> 0)
            in if b \<noteq> 0 then b
               else case se_file S (clip 256 (ascii ''/sys/class/block/'' @ after_last 47 path @ ascii ''/size'')) of
                 None \<Rightarrow> 0
               | Some t \<Rightarrow> (case fgets_all 64 t of [] \<Rightarrow> 0 | l # _ \<Rightarrow> strtoul 10 (cstr l) * 512))"

section \<open>The script\<close>

definition BIOS_BOOT_GUID :: string where
  "BIOS_BOOT_GUID = ''21686148-6449-6E6F-744E-656564454649''"

definition mbr_type :: "bytes option \<Rightarrow> string" where
  "mbr_type fs =
     (case fs of
        None \<Rightarrow> ''0c''
      | Some f \<Rightarrow>
          if f = ascii ''fat16'' then ''0e''
          else if f = ascii ''ntfs'' \<or> f = ascii ''exfat'' \<or> f = ascii ''udf'' then ''07''
          else if f = ascii ''ext4'' \<or> f = ascii ''ext2'' \<or> f = ascii ''ext3'' then ''83''
          else ''0c'')"

definition dos_scheme :: "bytes \<Rightarrow> bytes" where
  "dos_scheme s = (if s = ascii ''mbr'' then ascii ''dos'' else s)"

definition nl :: bytes where "nl = [10]"

definition quote :: "string \<Rightarrow> bytes" where
  "quote s = [34] @ ascii s @ [34]"

text \<open>The data partition first, the UEFI:NTFS partition after it, on GPT perhaps a BIOS boot partition.\<close>

definition script_uefintfs :: "bool \<Rightarrow> bool \<Rightarrow> string \<Rightarrow> u64 \<Rightarrow> bytes" where
  "script_uefintfs gpt bios_part mbr main_mib =
     (if gpt then
        ascii ''label: gpt'' @ nl
        @ ascii ''start=1MiB, size='' @ dec (unat main_mib) @ ascii ''MiB, type=EBD0A0A2-B9E5-4433-87C0-68B6B72699C7, name='' @ quote ''Windows'' @ nl
        @ ascii ''size=1MiB, type=EBD0A0A2-B9E5-4433-87C0-68B6B72699C7, name='' @ quote ''UEFI:NTFS'' @ ascii '', attrs='' @ quote ''GUID:63'' @ nl
        @ (if bios_part then ascii ''size=1MiB, type='' @ ascii BIOS_BOOT_GUID @ ascii '', name='' @ quote ''BIOS boot'' @ nl else [])
      else
        ascii ''label: dos'' @ nl @ ascii ''start=1MiB, size='' @ dec (unat main_mib) @ ascii ''MiB, type='' @ ascii mbr @ ascii '', bootable'' @ nl
        @ ascii ''size=1MiB, type=ef'' @ nl)"

definition script_single :: "bool \<Rightarrow> bool \<Rightarrow> string \<Rightarrow> u64 \<Rightarrow> bytes" where
  "script_single gpt bios_part mbr mib =
     (if gpt then
        let gtype = (if mbr = ''83'' then ''0FC63DAF-8483-4772-8E79-3D69D8477DE4'' else ''EBD0A0A2-B9E5-4433-87C0-68B6B72699C7'')
        in if \<not> bios_part then ascii ''label: gpt'' @ nl @ ascii ''start=1MiB, type='' @ ascii gtype @ nl
           else ascii ''label: gpt'' @ nl @ ascii ''start=1MiB, size='' @ dec (unat (mib - 3)) @ ascii ''MiB, type='' @ ascii gtype @ nl
                @ ascii ''size=1MiB, type='' @ ascii BIOS_BOOT_GUID @ ascii '', name='' @ quote ''BIOS boot'' @ nl
      else ascii ''label: dos'' @ nl @ ascii ''start=1MiB, type='' @ ascii mbr @ ascii '', bootable'' @ nl)"

definition script_esp_main :: "bool \<Rightarrow> string \<Rightarrow> bytes" where
  "script_esp_main gpt mbr =
     (if gpt then
        ascii ''label: gpt'' @ nl @ ascii ''size=512MiB, type=C12A7328-F81F-11D2-BA4B-00A0C93EC93B'' @ nl
        @ ascii ''type=EBD0A0A2-B9E5-4433-87C0-68B6B72699C7'' @ nl
      else ascii ''label: dos'' @ nl @ ascii ''size=512MiB, type=ef'' @ nl @ ascii ''type='' @ ascii mbr @ ascii '', bootable'' @ nl)"

text \<open>The script in the buffer of 1024 bytes, or the refusal of a disk that is too small.\<close>

definition sfdisk_script :: "lpart_opts \<Rightarrow> u64 \<Rightarrow> lp_error + bytes" where
  "sfdisk_script po bytes =
     (let gpt = (dos_scheme (lo_scheme po) = ascii ''gpt'');
          bios_part = (lo_bios_boot po \<and> gpt);
          mbr = mbr_type (lo_fs_main po);
          mib = drop_bit 20 bytes
      in if lo_layout po = ascii ''main+uefintfs'' then
           (if mib < 64 then Inl (TooSmall (unat mib))
            else Inr (clip 1024 (script_uefintfs gpt bios_part mbr (mib - 3 - (if bios_part then 1 else 0)))))
         else if lo_layout po = ascii ''single'' then
           (if bios_part \<and> mib < 64 then Inl (TooSmall (unat mib)) else Inr (clip 1024 (script_single gpt bios_part mbr mib)))
         else Inr (clip 1024 (script_esp_main gpt mbr)))"

section \<open>The MBR boot code\<close>

definition bootcode_candidates :: "lp_env \<Rightarrow> bytes list" where
  "bootcode_candidates E =
     (if lp_exe_dir E \<noteq> [] then [clip 1152 (lp_exe_dir E @ ascii ''/../share/syslinux/mbr.bin'')] else []) @
     [ascii ''/usr/lib/syslinux/mbr/mbr.bin'', ascii ''/usr/lib/syslinux/bios/mbr.bin'',
      ascii ''/usr/share/syslinux/mbr.bin'', ascii ''/usr/lib/SYSLINUX/mbr.bin'']"

text \<open>The first candidate with a byte in it, padded with zeros to 440 bytes.\<close>

fun find_bootcode :: "lp_env \<Rightarrow> bytes list \<Rightarrow> bytes option" where
  "find_bootcode E [] = None"
| "find_bootcode E (c # cs) =
     (case se_file (lp_sys E) c of
        None \<Rightarrow> find_bootcode E cs
      | Some t \<Rightarrow> if t = [] then find_bootcode E cs else Some (take 440 (t @ replicate 440 0)))"

definition write_mbr_bootcode :: "lp_env \<Rightarrow> dev \<Rightarrow> bool \<times> dev" where
  "write_mbr_bootcode E d =
     (case find_bootcode E (bootcode_candidates E) of
        None \<Rightarrow> (True, d)
      | Some code \<Rightarrow>
          if \<not> lp_opens E then (False, d)
          else case pwrite_all code 0 d of (ok, d') \<Rightarrow> (ok \<and> lp_fsync E, d'))"

section \<open>The partitioner\<close>

text \<open>The checks that come before anything runs.\<close>

definition lpart_checks :: "lp_env \<Rightarrow> bytes \<Rightarrow> lpart_opts \<Rightarrow> lp_error option" where
  "lpart_checks E dst po =
     (if lo_scheme po \<notin> {ascii ''gpt'', ascii ''dos'', ascii ''mbr''} then Some BadScheme
      else if lo_layout po \<notin> {ascii ''single'', ascii ''esp+main'', ascii ''main+uefintfs''} then Some BadLayout
      else if \<not> lo_dry_run po \<and> \<not> lo_yes po then Some NoConfirmation
      else case rufux_check_target (lp_sys E) dst (lo_allow_fixed po) (lo_allow_file po) of
        Some e \<Rightarrow> Some (LpTarget e)
      | None \<Rightarrow> if \<not> lp_have E (ascii ''sfdisk'') then Some NoSfdisk else None)"

text \<open>The run of \<open>sfdisk\<close> and the steps after it.\<close>

definition lpart_run :: "lp_env \<Rightarrow> lpart_opts \<Rightarrow> bytes \<Rightarrow> dev \<Rightarrow> lp_error option \<times> dev" where
  "lpart_run E po script d =
     (case lp_sfdisk E script d of
        (False, d) \<Rightarrow> (Some SfdiskFailed, d)
      | (True, d) \<Rightarrow>
          if dos_scheme (lo_scheme po) = ascii ''dos'' then
            (case write_mbr_bootcode E d of (ok, d) \<Rightarrow> (if ok then None else Some BootCodeFailed, d))
          else case lp_listing E d of
            None \<Rightarrow> (None, d)
          | Some out \<Rightarrow> (if has_sub '' unknown'' (cstr (clip 8192 out)) then Some UnknownType else None, d))"

definition linux_partition :: "lp_env \<Rightarrow> bytes \<Rightarrow> lpart_opts \<Rightarrow> dev \<Rightarrow> lp_error option \<times> dev" where
  "linux_partition E dst po d =
     (case lpart_checks E dst po of
        Some e \<Rightarrow> (Some e, d)
      | None \<Rightarrow>
          (case sfdisk_script po (target_bytes (lp_sys E) dst) of
             Inl e \<Rightarrow> (Some e, d)
           | Inr script \<Rightarrow>
               if lo_dry_run po then (None, d)
               else if \<not> lp_tmp E then (Some NoTempFile, d)
               else lpart_run E po script d))"

end
