(* ===== verification/LinuxPartProps.thy ===== *)
theory LinuxPartProps
  imports LinuxPart
begin

text \<open>
  The properties of the partitioner: the script as a list of partitions that fill the disk, and the effect
  of a run on the target.
\<close>

section \<open>The layouts\<close>








lemma ascii_append [simp]: "ascii s @ ascii t = ascii (s @ t)"
  by (simp add: ascii_def)

lemma length_ascii [simp]: "length (ascii s) = length s"
  by (simp add: ascii_def)























section \<open>The run\<close>

lemma bootcode_length: "find_bootcode E cs = Some code \<Longrightarrow> length code = 440"
  by (induction cs) (auto split: option.splits if_splits)

text \<open>
  What the partitioner does to the target. It changes nothing unless all its checks passed
  and it was confirmed and not a dry run. When it succeeds, \<open>sfdisk\<close> succeeded with the script for the options, and the target
  is what \<open>sfdisk\<close> left: on GPT exactly, on MBR up to the 440 bytes of boot code - the disk signature, the
  partition table and everything after it are untouched.
\<close>

theorem linux_partition_effect:
  assumes r: "linux_partition E dst po d = (e, d')"
    and big: "\<And>s d1. lp_sfdisk E s d = (True, d1) \<Longrightarrow> 440 \<le> length (d_img d1)"
  shows "(lpart_checks E dst po \<noteq> None \<or> lo_dry_run po \<or> \<not> lo_yes po \<longrightarrow> d' = d) \<and>
    (e = None \<and> \<not> lo_dry_run po \<longrightarrow>
      (\<exists>s d1. sfdisk_script po (target_bytes (lp_sys E) dst) = Inr s \<and> lp_sfdisk E s d = (True, d1) \<and>
        (if dos_scheme (lo_scheme po) = ascii ''dos'' then drop 440 (d_img d') = drop 440 (d_img d1) else d' = d1)))"
proof (cases "lpart_checks E dst po")
  case (Some x)
  with r show ?thesis by (auto simp: linux_partition_def)
next
  case None
  then have y: "\<not> lo_dry_run po \<Longrightarrow> lo_yes po" by (auto simp: lpart_checks_def split: if_splits option.splits)
  have bc: "drop 440 (d_img d2) = drop 440 (d_img d1)" if w: "write_mbr_bootcode E d1 = (True, d2)" and l: "440 \<le> length (d_img d1)" for d1 d2
  proof (cases "find_bootcode E (bootcode_candidates E)")
    case (Some code)
    note lc = bootcode_length [OF Some]
    from w Some have "pwrite_all code 0 d1 = (True, d2)" by (auto simp: write_mbr_bootcode_def split: if_splits prod.splits)
    from pwrite_all_ok [OF this] l lc have "d_img d2 = bput 0 code (d_img d1)" by simp
    with lc l show ?thesis by (simp add: bput_def)
  qed (use w in \<open>simp add: write_mbr_bootcode_def\<close>)
  show ?thesis
  proof (cases "sfdisk_script po (target_bytes (lp_sys E) dst)")
    case (Inl x)
    with r None show ?thesis by (auto simp: linux_partition_def)
  next
    case (Inr s)
    obtain ok d1 where sf: "lp_sfdisk E s d = (ok, d1)" by fastforce
    from r None Inr sf y bc [of d1 d'] big [of s d1] show ?thesis
      by (cases ok) (auto simp: linux_partition_def lpart_run_def split: if_splits option.splits prod.splits)
  qed
qed

section \<open>Examples\<close>

definition part_env :: lp_env where
  "part_env = \<lparr>lp_sys = \<lparr>
       se_stat = (\<lambda>p. Some \<lparr>st_kind = BLK, st_id = (0, 1), st_size = 0\<rparr>),
       se_block = Some [ascii ''sda''],
       se_file = (\<lambda>p. if p = ascii ''/sys/block/sda/removable'' then Some [49, 10] else None),
       se_link = (\<lambda>p. None), se_blksize = (\<lambda>p. Some 0x10000000)\<rparr>,
     lp_have = (\<lambda>n. True), lp_exe_dir = [], lp_tmp = True,
     lp_sfdisk = (\<lambda>s d. (True, d\<lparr>d_img := replicate 512 1\<rparr>)), lp_listing = (\<lambda>d. None), lp_opens = True, lp_fsync = True\<rparr>"




end
