(* ===== verification/Vdisk.thy ===== *)
theory Vdisk
  imports Mjson LinuxIo Device
begin

text \<open>
  Virtual disk images: \<open>src/linux/vhd.c\<close> and \<open>src/linux/vdisk.c\<close>. The source is the byte list of the file;
  \<open>qemu-img\<close> is not part of the program, its answers are parameters.
\<close>

section \<open>Fixed VHD images\<close>

datatype vhd_kind = Vk_unknown | Vk_vhdx | Vk_corrupt | Vk_fixed | Vk_dynamic | Vk_differencing

record vhd_info =
  vi_is_vhd :: bool
  vi_is_fixed :: bool
  vi_payload :: nat
  vi_kind :: vhd_kind

definition no_vhd :: "vhd_kind \<Rightarrow> vhd_info" where
  "no_vhd k = \<lparr>vi_is_vhd = False, vi_is_fixed = False, vi_payload = 0, vi_kind = k\<rparr>"

definition be32 :: "bytes \<Rightarrow> nat \<Rightarrow> u32" where
  "be32 b i = push_bit 24 (ucast (b ! i)) OR push_bit 16 (ucast (b ! (i + 1))) OR push_bit 8 (ucast (b ! (i + 2))) OR ucast (b ! (i + 3))"

text \<open>The sum of the footer's bytes without the checksum field, in 32 bits.\<close>

definition footer_sum :: "bytes \<Rightarrow> u32" where
  "footer_sum foot = fold (\<lambda>i s. s + (if 64 \<le> i \<and> i < 68 then 0 else ucast (foot ! i))) [0..<512] 0"

text \<open>\<open>None\<close> is the return value -1: there is no readable regular file.\<close>

definition vhd_probe :: "bytes option \<Rightarrow> vhd_info option" where
  "vhd_probe src =
     (case src of
        None \<Rightarrow> None
      | Some b \<Rightarrow>
          if length b < 512 + 512 then Some (no_vhd Vk_unknown)
          else let foot = drop (length b - 512) b in
            if take 8 foot = ascii ''vhdxfile'' then Some (no_vhd Vk_vhdx)
            else if take 8 foot \<noteq> ascii ''conectix'' then Some (no_vhd Vk_unknown)
            else if NOT (footer_sum foot) \<noteq> be32 foot 64 then Some ((no_vhd Vk_corrupt)\<lparr>vi_is_vhd := True\<rparr>)
            else let t = be32 foot 60 in
              if t = 2 then Some \<lparr>vi_is_vhd = True, vi_is_fixed = True, vi_payload = length b - 512, vi_kind = Vk_fixed\<rparr>
              else Some ((no_vhd (if t = 3 then Vk_dynamic else if t = 4 then Vk_differencing else Vk_unknown))\<lparr>vi_is_vhd := True\<rparr>))"

datatype vhd_error = VhdxNotWritable | BadFooter | NotFixed vhd_kind

text \<open>The payload cap to set, if any.\<close>

definition vhd_adjust :: "bytes option \<Rightarrow> vhd_error + nat option" where
  "vhd_adjust src =
     (case vhd_probe src of
        None \<Rightarrow> Inr None
      | Some i \<Rightarrow>
          if \<not> vi_is_vhd i \<and> vi_kind i \<noteq> Vk_vhdx \<and> vi_kind i \<noteq> Vk_corrupt then Inr None
          else if vi_kind i = Vk_vhdx then Inl VhdxNotWritable
          else if vi_kind i = Vk_corrupt then Inl BadFooter
          else if \<not> vi_is_fixed i then Inl (NotFixed (vi_kind i))
          else Inr (Some (vi_payload i)))"

section \<open>Recognising an image\<close>

datatype vfmt = Qcow2 | Vmdk | Vhdx | Vdi | VpcDynamic | VpcDifferencing | VpcUnknown

definition fmt_name :: "vfmt \<Rightarrow> bytes" where
  "fmt_name f = (case f of Qcow2 \<Rightarrow> ascii ''qcow2'' | Vmdk \<Rightarrow> ascii ''vmdk'' | Vhdx \<Rightarrow> ascii ''vhdx'' | Vdi \<Rightarrow> ascii ''vdi'' | _ \<Rightarrow> ascii ''vpc'')"

text \<open>The buffer of 512 bytes is zero after the bytes read.\<close>

definition sniff :: "bytes option \<Rightarrow> vfmt option" where
  "sniff src =
     (case src of
        None \<Rightarrow> None
      | Some b \<Rightarrow>
          let n = min 512 (length b); h = take 512 b @ replicate (512 - n) 0 in
          if n < 8 then None
          else if take 4 h = [0x51, 0x46, 0x49, 0xfb] then Some Qcow2
          else if take 4 h = ascii ''KDMV'' then Some Vmdk
          else if take 21 h = ascii ''# Disk DescriptorFile'' then Some Vmdk
          else if take 8 h = ascii ''vhdxfile'' then Some Vhdx
          else if n \<ge> 0x44 \<and> bslice 0x40 4 h = [0x7f, 0x10, 0xda, 0xbe] then Some Vdi
          else None)"

section \<open>The files an image refers to\<close>

text \<open>The key names another file the image depends on.\<close>

definition backing_key :: "bytes \<Rightarrow> bool" where
  "backing_key k \<longleftrightarrow> k = ascii ''backing-filename'' \<or> k = ascii ''full-backing-filename'' \<or> k = ascii ''data-file'' \<or> k = ascii ''parent-filename''"

text \<open>The part before the last slash; \<open>None\<close> when there is none.\<close>

definition dir_part :: "bytes \<Rightarrow> bytes option" where
  "dir_part s = (if 47 \<in> set s then Some (take (length s - length (after_last 47 s) - 1) s) else None)"

text \<open>The check of one member: the name it must be refused for. \<open>is_regular\<close> is \<open>lstat\<close> and \<open>S_ISREG\<close>.\<close>

definition ref_bad :: "(bytes \<Rightarrow> bool) \<Rightarrow> bytes \<Rightarrow> bytes \<Rightarrow> bytes \<Rightarrow> mj \<Rightarrow> bytes option" where
  "ref_bad is_regular self dir k v =
     (if backing_key k then
        (case mj_str (Some v) of Some s \<Rightarrow> if s \<noteq> [] then Some s else None | None \<Rightarrow> None)
      else if k = ascii ''filename'' then
        (case mj_str (Some v) of
           None \<Rightarrow> None
         | Some s \<Rightarrow> if s \<noteq> self \<and> \<not> (dir_part s = Some dir \<and> is_regular s) then Some s else None)
      else None)"

text \<open>\<open>refs_ok\<close>: the first bad reference found, \<open>None\<close> when all are fine.\<close>

fun refs_bad :: "(bytes \<Rightarrow> bool) \<Rightarrow> bytes \<Rightarrow> bytes \<Rightarrow> mj \<Rightarrow> bytes option"
and members_bad :: "(bytes \<Rightarrow> bool) \<Rightarrow> bytes \<Rightarrow> bytes \<Rightarrow> (bytes \<times> mj) list \<Rightarrow> bytes option"
and items_bad :: "(bytes \<Rightarrow> bool) \<Rightarrow> bytes \<Rightarrow> bytes \<Rightarrow> mj list \<Rightarrow> bytes option" where
  "refs_bad R self dir (MJ_OBJ kvs) = members_bad R self dir kvs"
| "refs_bad R self dir (MJ_ARR vs) = items_bad R self dir vs"
| "refs_bad R self dir v = None"
| "members_bad R self dir [] = None"
| "members_bad R self dir ((k, v) # kvs) =
     (case ref_bad R self dir k v of
        Some s \<Rightarrow> Some s
      | None \<Rightarrow> (case refs_bad R self dir v of Some s \<Rightarrow> Some s | None \<Rightarrow> members_bad R self dir kvs))"
| "items_bad R self dir [] = None"
| "items_bad R self dir (v # vs) = (case refs_bad R self dir v of Some s \<Rightarrow> Some s | None \<Rightarrow> items_bad R self dir vs)"

section \<open>Detection\<close>

text \<open>
  What the program asks: whether the path is a regular file, its bytes, \<open>qemu-img\<close> in the path, the resolved
  path, the output of \<open>qemu-img info\<close> and \<open>qemu-img check\<close> with whether they succeeded, and what
  \<open>strtod\<close> makes of a number: whether it is positive, and its conversion to \<open>unsigned long long\<close>.
\<close>

record vd_env =
  ve_regular :: "bytes \<Rightarrow> bool"
  ve_bytes :: "bytes option"
  ve_have_qemu :: bool
  ve_real :: "bytes option"
  ve_info :: "vfmt \<Rightarrow> bool \<times> bytes"
  ve_check :: "vfmt \<Rightarrow> bool \<times> bytes"
  ve_strtod :: "bytes \<Rightarrow> bool \<times> nat"
  ve_lstat_reg :: "bytes \<Rightarrow> bool"

datatype vd_error =
  Truncated | Differencing | NoQemu | NoRealPath | InfoFailed | RefersTo bytes | NotValid | CheckFailed

record vdisk =
  vd_format :: vfmt
  vd_virtual_size :: nat

text \<open>
  \<open>atol\<close> after the colon of the first occurrence of the key; -1 when there is none. The result is only
  compared with 0, so it does not matter how \<open>atol\<close> treats numbers out of range.
\<close>

definition check_count :: "string \<Rightarrow> bytes \<Rightarrow> int" where
  "check_count key out =
     (case strstr ([34] @ ascii key @ [34]) out of
        None \<Rightarrow> - 1
      | Some r \<Rightarrow> (case split_at 58 r of None \<Rightarrow> - 1 | Some (_, v) \<Rightarrow> sint (strtoul 10 v)))"

definition check_failed :: "bool \<times> bytes \<Rightarrow> bool" where
  "check_failed r \<longleftrightarrow>
     (case r of (ok, out) \<Rightarrow>
       let out = cstr (clip 8192 out) in
       \<not> ok \<and> \<not> has_sub ''does not support checks'' out \<and>
       (check_count ''corruptions'' out \<noteq> 0 \<or> check_count ''check-errors'' out \<noteq> 0))"

text \<open>The format, when the image is one that needs conversion.\<close>

definition vd_format_of :: "bytes option \<Rightarrow> vfmt option" where
  "vd_format_of src =
     (case sniff src of
        Some f \<Rightarrow> Some f
      | None \<Rightarrow>
          (case vhd_probe src of
             None \<Rightarrow> None
           | Some i \<Rightarrow>
               if vi_is_vhd i \<and> \<not> vi_is_fixed i \<and> vi_kind i \<noteq> Vk_corrupt
               then Some (case vi_kind i of Vk_dynamic \<Rightarrow> VpcDynamic | Vk_differencing \<Rightarrow> VpcDifferencing | _ \<Rightarrow> VpcUnknown)
               else None))"

text \<open>The cookie of a dynamic VHD up front, without a footer at the end.\<close>

definition cut_short :: "bytes option \<Rightarrow> bool" where
  "cut_short src \<longleftrightarrow>
     (case src of
        None \<Rightarrow> False
      | Some b \<Rightarrow> take 8 b = ascii ''conectix'' \<and> (case vhd_probe src of Some i \<Rightarrow> \<not> vi_is_vhd i | None \<Rightarrow> False))"

text \<open>The size of the buffer for the answer of \<open>qemu-img info\<close>.\<close>

definition OUT_CAP :: nat where "OUT_CAP = 2 ^ 20"

text \<open>From the answer of \<open>qemu-img info\<close> on.\<close>

definition vd_accept :: "vd_env \<Rightarrow> bytes \<Rightarrow> vfmt \<Rightarrow> mj \<Rightarrow> vd_error + vdisk option" where
  "vd_accept E real fmt j =
     (let dir = (case dir_part real of Some p \<Rightarrow> p | None \<Rightarrow> real) in
      case refs_bad (ve_lstat_reg E) real dir j of
        Some s \<Rightarrow> Inl (RefersTo s)
      | None \<Rightarrow>
          let (pos, vs) = (case mj_get_num (Some j) (ascii ''virtual-size'') of Some t \<Rightarrow> ve_strtod E t | None \<Rightarrow> (False, 0)) in
          if \<not> pos \<or> mj_get_str (Some j) (ascii ''format'') [] \<noteq> fmt_name fmt then Inl NotValid
          else if check_failed (ve_check E fmt) then Inl CheckFailed
          else Inr (Some \<lparr>vd_format = fmt, vd_virtual_size = vs\<rparr>))"

text \<open>\<open>Inr None\<close> is 0 (not a virtual disk), \<open>Inr (Some _)\<close> is 1, \<open>Inl\<close> is -1.\<close>

definition vdisk_detect :: "vd_env \<Rightarrow> bytes \<Rightarrow> vd_error + vdisk option" where
  "vdisk_detect E src =
     (if \<not> ve_regular E src then Inr None
      else if cut_short (ve_bytes E) then Inl Truncated
      else case vd_format_of (ve_bytes E) of
        None \<Rightarrow> Inr None
      | Some fmt \<Rightarrow>
          if fmt = VpcDifferencing then Inl Differencing
          else if \<not> ve_have_qemu E then Inl NoQemu
          else case ve_real E of
            None \<Rightarrow> Inl NoRealPath
          | Some real \<Rightarrow>
              (case ve_info E fmt of (ok, out) \<Rightarrow>
                 case (if ok then mj_parse (Some (cstr (clip OUT_CAP out))) else Inl NoInput) of
                   Inl _ \<Rightarrow> Inl InfoFailed
                 | Inr j \<Rightarrow> vd_accept E real fmt j))"


section \<open>Writing\<close>

text \<open>
  The environment of the conversion: the resolved source, what \<open>qemu-img convert\<close> does to the target and
  whether it succeeds, what \<open>qemu-img compare\<close> says of the target under a description of it.
\<close>

record vw_env =
  vw_sys :: sys_env
  vw_real :: "bytes option"
  vw_trunc :: bool
  vw_convert :: "vfmt \<Rightarrow> bytes \<Rightarrow> dev \<Rightarrow> bool \<times> dev"
  vw_compare :: "vfmt \<Rightarrow> bytes \<Rightarrow> bytes \<Rightarrow> dev \<Rightarrow> bool"

record vw_opts =
  vo_dry_run :: bool
  vo_verify :: bool
  vo_allow_fixed :: bool
  vo_allow_file :: bool
  vo_yes :: bool

datatype vw_error =
  VwTarget target_error | VwTooLarge | VwNoRealPath | VwSameFile | VwNoConfirmation | VwCannotSize | VwConvert | VwVerify

definition target_size :: "sys_env \<Rightarrow> bytes \<Rightarrow> nat" where
  "target_size S dst =
     (case se_stat S dst of
        None \<Rightarrow> 0
      | Some s \<Rightarrow> if st_kind s = REG then st_size s else (case se_blksize S dst of Some b \<Rightarrow> unat b | None \<Rightarrow> 0))"

text \<open>The copy of a path into JSON; it stops when fewer than four bytes of the buffer are left.\<close>

fun vd_json_escape :: "nat \<Rightarrow> bytes \<Rightarrow> bytes" where
  "vd_json_escape left [] = []"
| "vd_json_escape left (c # s) =
     (if left \<le> 3 then []
      else if c = 34 \<or> c = 92 then 92 # c # vd_json_escape (left - 2) s
      else c # vd_json_escape (left - 1) s)"

definition PATH_MAX :: nat where "PATH_MAX = 4096"

text \<open>The first \<open>vd_virtual_size\<close> bytes of the target, for \<open>qemu-img compare\<close>.\<close>

definition compare_spec :: "nat \<Rightarrow> bool \<Rightarrow> bytes \<Rightarrow> bytes" where
  "compare_spec size_n is_blk dst =
     (let q = (\<lambda>s. [34] @ s @ [34]) in
      clip (PATH_MAX * 2 + 160)
        (ascii ''json:{'' @ q (ascii ''driver'') @ [58] @ q (ascii ''raw'') @ [44] @ q (ascii ''offset'') @ ascii '':0,''
         @ q (ascii ''size'') @ [58] @ dec size_n @ [44] @ q (ascii ''file'') @ ascii '':{'' @ q (ascii ''driver'') @ [58]
         @ q (if is_blk then ascii ''host_device'' else ascii ''file'') @ [44] @ q (ascii ''filename'') @ [58]
         @ q (vd_json_escape (PATH_MAX * 2) dst) @ ascii ''}}''))"

definition kind_is :: "sys_env \<Rightarrow> bytes \<Rightarrow> fkind \<Rightarrow> bool" where
  "kind_is S p k \<longleftrightarrow> (case se_stat S p of Some s \<Rightarrow> st_kind s = k | None \<Rightarrow> False)"

text \<open>\<open>truncate\<close> of a regular file: cut off or extended with zeros.\<close>

definition resized :: "nat \<Rightarrow> dev \<Rightarrow> dev" where
  "resized n d = d\<lparr>d_img := take n (d_img d @ replicate (n - length (d_img d)) 0)\<rparr>"

text \<open>From the conversion on.\<close>

definition vdisk_convert :: "vw_env \<Rightarrow> vdisk \<Rightarrow> bytes \<Rightarrow> bytes \<Rightarrow> vw_opts \<Rightarrow> dev \<Rightarrow> vw_error option \<times> dev" where
  "vdisk_convert E vd real dst opts d =
     (case vw_convert E (vd_format vd) real d of
        (False, d) \<Rightarrow> (Some VwConvert, d)
      | (True, d) \<Rightarrow>
          if vo_verify opts \<and>
             \<not> vw_compare E (vd_format vd) real (compare_spec (vd_virtual_size vd) (kind_is (vw_sys E) dst BLK) dst) d
          then (Some VwVerify, d) else (None, d))"

definition rufux_vdisk_write :: "vw_env \<Rightarrow> bytes \<Rightarrow> vdisk \<Rightarrow> bytes \<Rightarrow> vw_opts \<Rightarrow> dev \<Rightarrow> vw_error option \<times> dev" where
  "rufux_vdisk_write E src vd dst opts d =
     (case rufux_check_target (vw_sys E) dst (vo_allow_fixed opts) (vo_allow_file opts) of
        Some e \<Rightarrow> (Some (VwTarget e), d)
      | None \<Rightarrow>
          if target_size (vw_sys E) dst \<noteq> 0 \<and> vd_virtual_size vd > target_size (vw_sys E) dst then (Some VwTooLarge, d)
          else case vw_real E of
            None \<Rightarrow> (Some VwNoRealPath, d)
          | Some real \<Rightarrow>
              if (case (se_stat (vw_sys E) real, se_stat (vw_sys E) dst) of (Some a, Some b) \<Rightarrow> st_id a = st_id b | _ \<Rightarrow> False)
              then (Some VwSameFile, d)
              else if vo_dry_run opts then (None, d)
              else if \<not> vo_yes opts then (Some VwNoConfirmation, d)
              else if kind_is (vw_sys E) dst REG then
                (if \<not> vw_trunc E then (Some VwCannotSize, d)
                 else vdisk_convert E vd real dst opts (resized (vd_virtual_size vd) d))
              else vdisk_convert E vd real dst opts d)"

end
