(* ===== verification/VdiskProps.thy ===== *)
theory VdiskProps
  imports Vdisk WriterProps MjsonProps
begin

text \<open>
  The properties of virtual disk images: an accepted image stands alone, a fixed VHD is written as the disk it
  holds.
\<close>

section \<open>The references of an image\<close>

text \<open>All the members of all objects inside a value, at any depth, in the order of the text.\<close>

fun members_of :: "mj \<Rightarrow> (bytes \<times> mj) list"
and members_of_kvs :: "(bytes \<times> mj) list \<Rightarrow> (bytes \<times> mj) list"
and members_of_vs :: "mj list \<Rightarrow> (bytes \<times> mj) list" where
  "members_of (MJ_OBJ kvs) = members_of_kvs kvs"
| "members_of (MJ_ARR vs) = members_of_vs vs"
| "members_of v = []"
| "members_of_kvs [] = []"
| "members_of_kvs ((k, v) # kvs) = (k, v) # members_of v @ members_of_kvs kvs"
| "members_of_vs [] = []"
| "members_of_vs (v # vs) = members_of v @ members_of_vs vs"

fun first_bad :: "((bytes \<times> mj) \<Rightarrow> bytes option) \<Rightarrow> (bytes \<times> mj) list \<Rightarrow> bytes option" where
  "first_bad f [] = None"
| "first_bad f (x # xs) = (case f x of Some s \<Rightarrow> Some s | None \<Rightarrow> first_bad f xs)"

lemma first_bad_append: "first_bad f (xs @ ys) = (case first_bad f xs of Some s \<Rightarrow> Some s | None \<Rightarrow> first_bad f ys)"
  by (induction xs) (auto split: option.split)

lemma first_bad_None: "first_bad f xs = None \<longleftrightarrow> (\<forall>x\<in>set xs. f x = None)"
  by (induction xs) (auto split: option.split)

lemma refs_bad_members:
  "refs_bad R self dir j = first_bad (\<lambda>(k, v). ref_bad R self dir k v) (members_of j)"
  "members_bad R self dir kvs = first_bad (\<lambda>(k, v). ref_bad R self dir k v) (members_of_kvs kvs)"
  "items_bad R self dir vs = first_bad (\<lambda>(k, v). ref_bad R self dir k v) (members_of_vs vs)"
  by (induction j and kvs and vs rule: members_of_members_of_kvs_members_of_vs.induct)
    (auto simp: first_bad_append split: option.split)

text \<open>Every file an image names is the image itself or an ordinary file beside it.\<close>

definition self_contained :: "(bytes \<Rightarrow> bool) \<Rightarrow> bytes \<Rightarrow> bytes \<Rightarrow> mj \<Rightarrow> bool" where
  "self_contained R self dir j \<longleftrightarrow>
     (\<forall>k v s. (k, v) \<in> set (members_of j) \<and> v = MJ_STR s \<longrightarrow>
        (backing_key k \<longrightarrow> s = []) \<and>
        (k = ascii ''filename'' \<longrightarrow> s = self \<or> dir_part s = Some dir \<and> R s))"

lemma filename_no_backing: "\<not> backing_key (ascii ''filename'')"
  by (simp add: backing_key_def ascii_def)

lemma ref_bad_None:
  "ref_bad R self dir k v = None \<longleftrightarrow>
    (\<forall>s. v = MJ_STR s \<longrightarrow> (backing_key k \<longrightarrow> s = []) \<and> (k = ascii ''filename'' \<longrightarrow> s = self \<or> dir_part s = Some dir \<and> R s))"
  using filename_no_backing by (cases v) (auto simp: ref_bad_def mj_str_def)

lemma refs_bad_self_contained: "refs_bad R self dir j = None \<longleftrightarrow> self_contained R self dir j"
  unfolding refs_bad_members(1) first_bad_None self_contained_def split_paired_Ball_Sigma Ball_def split_paired_All prod.case ref_bad_None
  by blast

text \<open>
  C27: an image is only accepted when it stands alone. If the detection accepts a file as a virtual disk,
  then \<open>qemu-img\<close> described it in JSON, in that description - at whatever depth - no backing file, data file or
  parent is named and every \<open>filename\<close> is the image itself or an ordinary file in the same directory, the
  size is positive, the reported format is the one the file's first bytes say, and the consistency check did not
  find it damaged. In particular a differencing VHD is never accepted.
\<close>

theorem vdisk_self_contained:
  assumes "vdisk_detect E src = Inr (Some vd)"
  shows "\<exists>real out j. ve_real E = Some real \<and> ve_info E (vd_format vd) = (True, out) \<and>
    mj_parse (Some (cstr (clip OUT_CAP out))) = Inr j \<and>
    self_contained (ve_lstat_reg E) real (case dir_part real of Some p \<Rightarrow> p | None \<Rightarrow> real) j \<and>
    (\<exists>t. mj_get_num (Some j) (ascii ''virtual-size'') = Some t \<and> ve_strtod E t = (True, vd_virtual_size vd)) \<and>
    mj_get_str (Some j) (ascii ''format'') [] = fmt_name (vd_format vd) \<and> vd_format_of (ve_bytes E) = Some (vd_format vd) \<and>
    vd_format vd \<noteq> VpcDifferencing \<and> \<not> check_failed (ve_check E (vd_format vd))"
proof -
  from assms obtain fmt real out j where f: "vd_format_of (ve_bytes E) = Some fmt" "fmt \<noteq> VpcDifferencing"
    "ve_real E = Some real" "ve_info E fmt = (True, out)" "mj_parse (Some (cstr (clip OUT_CAP out))) = Inr j"
    and a: "vd_accept E real fmt j = Inr (Some vd)"
    by (auto simp: vdisk_detect_def split: if_splits option.splits prod.splits sum.splits)
  from a have "refs_bad (ve_lstat_reg E) real (case dir_part real of Some p \<Rightarrow> p | None \<Rightarrow> real) j = None"
    "mj_get_str (Some j) (ascii ''format'') [] = fmt_name fmt" "\<not> check_failed (ve_check E fmt)"
    "\<exists>t. mj_get_num (Some j) (ascii ''virtual-size'') = Some t \<and> ve_strtod E t = (True, vd_virtual_size vd)" "vd_format vd = fmt"
    by (auto simp: vd_accept_def Let_def split: option.splits if_splits prod.splits)
  with f show ?thesis unfolding refs_bad_self_contained by blast
qed

section \<open>Fixed VHD\<close>

lemma fold_sum: "fold (\<lambda>i s. s + (f i :: u32)) is s = s + sum_list (map f is)"
  by (induction "is" arbitrary: s) (auto simp: ac_simps)

definition footer_byte :: "bytes \<Rightarrow> nat \<Rightarrow> u32" where
  "footer_byte foot i = (if 64 \<le> i \<and> i < 68 then 0 else ucast (foot ! i))"

lemma footer_sum_list: "footer_sum foot = sum_list (map (footer_byte foot) [0..<512])"
  by (simp add: footer_sum_def fold_sum footer_byte_def [abs_def])

lemma footer_sum_update:
  assumes "i < 512" "i < length foot" "\<not> (64 \<le> i \<and> i < 68)"
  shows "footer_sum (foot[i := c]) = footer_sum foot - ucast (foot ! i) + ucast c"
proof -
  have s: "[0..<512] = [0..<i] @ i # [Suc i..<512]"
    using assms(1) by (metis append_Cons append_Nil upt_add_eq_append upt_conv_Cons le_add_diff_inverse less_imp_le zero_le)
  have e: "map (footer_byte (foot[i := c])) [0..<i] = map (footer_byte foot) [0..<i]"
    "map (footer_byte (foot[i := c])) [Suc i..<512] = map (footer_byte foot) [Suc i..<512]"
    by (auto simp: footer_byte_def)
  show ?thesis
    unfolding footer_sum_list s map_append list.map sum_list_append sum_list.Cons e
    using assms(2,3) by (auto simp: footer_byte_def)
qed

lemma ucast_byte_inj: "(ucast (x :: byte) :: u32) = ucast y \<Longrightarrow> x = y"
proof -
  have "ucast (ucast z :: u32) = z" for z :: byte by (rule bit_word_eqI) (auto simp: bit_ucast_iff)
  then show "ucast x = (ucast y :: u32) \<Longrightarrow> x = y" by metis
qed

lemma be32_byte:
  "ucast (drop_bit 24 (be32 b i)) = b ! i" "ucast (drop_bit 16 (be32 b i)) = b ! (i + 1)"
  "ucast (drop_bit 8 (be32 b i)) = b ! (i + 2)" "ucast (be32 b i) = b ! (i + 3)"
  by (rule bit_word_eqI; auto simp: be32_def bit_ucast_iff bit_drop_bit_eq bit_or_iff bit_push_bit_iff dest: bit_imp_le_length)+

lemma be32_update:
  assumes "j < 4" "i + j < length b" "c \<noteq> b ! (i + j)"
  shows "be32 (b[i + j := c]) i \<noteq> be32 b i"
proof
  assume e: "be32 (b[i + j := c]) i = be32 b i"
  have "j \<in> {0, 1, 2, 3}" using assms(1) by auto
  then have "b[i + j := c] ! (i + j) = b ! (i + j)"
    using be32_byte [of "b[i + j := c]" i, unfolded e] be32_byte [of b i] by (elim insertE) simp_all
  with assms(2,3) show False by simp
qed

lemma be32_other: "j < i \<or> i + 4 \<le> j \<Longrightarrow> be32 (b[j := c]) i = be32 b i"
  by (auto simp: be32_def)

text \<open>The footer of a fixed disk.\<close>

definition fixed_footer :: "bytes \<Rightarrow> bool" where
  "fixed_footer f \<longleftrightarrow> length f = 512 \<and> take 8 f = ascii ''conectix'' \<and> be32 f 60 = 2 \<and> be32 f 64 = NOT (footer_sum f)"

lemma cookie_no_vhdx: "ascii ''conectix'' \<noteq> ascii ''vhdxfile''"
  by (simp add: ascii_def)

lemma footer_drop: "length f = 512 \<Longrightarrow> drop (length (bs @ f) - 512) (bs @ f) = f"
  by simp

lemma vhd_adjust_fixed:
  assumes "fixed_footer f" "512 \<le> length bs"
  shows "vhd_adjust (Some (bs @ f)) = Inr (Some (length bs))"
  using assms cookie_no_vhdx by (simp add: vhd_adjust_def vhd_probe_def fixed_footer_def footer_drop Let_def)

lemma footer_damage:
  assumes "fixed_footer f" "i < 512" "c \<noteq> f ! i"
  shows "NOT (footer_sum (f[i := c])) \<noteq> be32 (f[i := c]) 64"
proof (cases "64 \<le> i \<and> i < 68")
  case True
  have len: "length f = 512" using assms(1) by (simp add: fixed_footer_def)
  have "footer_byte (f[i := c]) k = footer_byte f k" for k using True by (auto simp: footer_byte_def)
  then have "footer_byte (f[i := c]) = footer_byte f" by blast
  then have "footer_sum (f[i := c]) = footer_sum f" by (simp add: footer_sum_list)
  moreover have "be32 (f[i := c]) 64 \<noteq> be32 f 64"
  proof -
    from True have "i - 64 < 4" by arith
    with be32_update [of "i - 64" 64 f c] True assms len show ?thesis by simp
  qed
  ultimately show ?thesis using assms(1) by (simp add: fixed_footer_def)
next
  case False
  have len: "length f = 512" using assms(1) by (simp add: fixed_footer_def)
  have "be32 (f[i := c]) 64 = be32 f 64" by (rule be32_other) (use False in auto)
  moreover have "footer_sum (f[i := c]) \<noteq> footer_sum f"
    using footer_sum_update [of i f c] assms(2,3) False len ucast_byte_inj by fastforce
  ultimately show ?thesis using assms(1) by (simp add: fixed_footer_def)
qed

lemma vhd_adjust_damaged:
  assumes "fixed_footer f" "512 \<le> length bs" "8 \<le> i" "i < 512" "c \<noteq> f ! i"
  shows "vhd_adjust (Some (bs @ f[i := c])) = Inl BadFooter"
  using assms footer_damage [OF assms(1,4,5)] cookie_no_vhdx
  by (simp add: vhd_adjust_def vhd_probe_def fixed_footer_def footer_drop no_vhd_def Let_def)

text \<open>
  A fixed VHD is written as the disk it holds. For an image made of the disk's bytes and a footer, the
  length handed to the writer is that of the disk, and a successful write leaves exactly the disk's bytes on the target,
  without the footer. If any byte of the footer behind its cookie is damaged, the image is refused.
\<close>

theorem vhd_payload_written:
  assumes f: "fixed_footer f" "512 \<le> length bs"
  shows "(\<exists>n. vhd_adjust (Some (bs @ f)) = Inr (Some n) \<and>
      (\<forall>E src dst opts bad. we_source E = Some (bs @ f, bad) \<and> wo_src_len opts = n \<and> \<not> wo_dry_run opts \<and>
         wr_err (rufux_write_image E src dst opts) = None \<longrightarrow>
         d_img (wr_dst (rufux_write_image E src dst opts)) = bs @ drop (length bs) (old_tail E dst))) \<and>
    (\<forall>i c. 8 \<le> i \<and> i < 512 \<and> c \<noteq> f ! i \<longrightarrow> vhd_adjust (Some (bs @ f[i := c])) = Inl BadFooter)"
proof (intro conjI exI [of _ "length bs"] allI impI)
  show "vhd_adjust (Some (bs @ f)) = Inr (Some (length bs))" by (rule vhd_adjust_fixed [OF f])
  fix E src dst opts bad
  assume w: "we_source E = Some (bs @ f, bad) \<and> wo_src_len opts = length bs \<and> \<not> wo_dry_run opts \<and> wr_err (rufux_write_image E src dst opts) = None"
  then have "payload E src opts = length bs" using f(2) by (cases bs) (auto simp: payload_def)
  with write_image_done [of E src dst opts "bs @ f" bad] w
  show "d_img (wr_dst (rufux_write_image E src dst opts)) = bs @ drop (length bs) (old_tail E dst)" by simp
next
  fix i c
  assume "8 \<le> i \<and> i < 512 \<and> c \<noteq> f ! i"
  with vhd_adjust_damaged [OF f] show "vhd_adjust (Some (bs @ f[i := c])) = Inl BadFooter" by blast
qed

section \<open>Examples\<close>

text \<open>A footer: the cookie, the type 2, the checksum.\<close>

definition demo_footer :: bytes where
  "demo_footer = ascii ''conectix'' @ replicate 52 0 @ [0, 0, 0, 2] @ [0xFF, 0xFF, 0xFC, 0xA0] @ replicate 444 0"

lemma demo_fixed: "fixed_footer demo_footer"
proof -
  have "NOT (footer_sum demo_footer) = be32 demo_footer 64" "be32 demo_footer 60 = 2" by code_simp+
  then show ?thesis by (simp add: fixed_footer_def) (simp add: demo_footer_def ascii_def)
qed

text \<open>What \<open>qemu-img\<close> says of a sound QCOW2 image, and of one with a backing file.\<close>

definition info_json :: "bytes \<Rightarrow> mj" where
  "info_json backing = MJ_OBJ
     [(ascii ''virtual-size'', MJ_NUM (ascii ''512'')), (ascii ''filename'', MJ_STR (ascii ''/d/i.q'')),
      (ascii ''format'', MJ_STR (ascii ''qcow2'')), (ascii ''backing-filename'', MJ_STR backing)]"

definition qcow_env :: "bytes \<Rightarrow> vd_env" where
  "qcow_env backing = \<lparr>ve_regular = (\<lambda>p. True), ve_bytes = Some ([0x51, 0x46, 0x49, 0xfb] @ replicate 508 0), ve_have_qemu = True,
     ve_real = Some (ascii ''/d/i.q''), ve_info = (\<lambda>f. (True, print_mj (info_json backing))), ve_check = (\<lambda>f. (True, [])),
     ve_strtod = (\<lambda>t. (True, 512)), ve_lstat_reg = (\<lambda>p. True)\<rparr>"

lemma json_number_512: "json_number (ascii ''512'')"
  unfolding json_number_def
  by (rule exI [of _ "[]"], rule exI [of _ "[53, 49, 50]"], rule exI [of _ "[]"], rule exI [of _ "[]"]) (simp add: ascii_def is_dig_def)

lemma info_parse: "mj_parse (Some (cstr (clip OUT_CAP (print_mj (info_json []))))) = Inr (info_json [])"
proof -
  have w: "wf_mj (info_json [])" using json_number_512 by (simp add: info_json_def) (simp add: ascii_def)
  have p: "print_mj (info_json []) = cstr (clip OUT_CAP (print_mj (info_json [])))"
    by (simp add: info_json_def print_str_def print_char_def ascii_def clip_def cstr_def OUT_CAP_def)
  have "length ([] @ print_mj (info_json [])) \<le> MJ_MAX_TEXT"
    by (simp add: info_json_def print_str_def print_char_def ascii_def MJ_MAX_TEXT_def)
  moreover have "height (info_json []) \<le> MJ_MAX_DEPTH + 1" by (simp add: info_json_def MJ_MAX_DEPTH_def)
  ultimately have "mj_parse (Some ([] @ print_mj (info_json []))) = Inr (info_json [])" by (intro mj_parse_print w) auto
  then show ?thesis unfolding p [symmetric] by simp
qed

lemma qcow_detect: "vdisk_detect (qcow_env []) (ascii ''/i'') = Inr (Some \<lparr>vd_format = Qcow2, vd_virtual_size = 512\<rparr>)"
proof -
  have s: "sniff (ve_bytes (qcow_env [])) = Some Qcow2" by (simp add: qcow_env_def sniff_def Let_def)
  have c: "\<not> cut_short (ve_bytes (qcow_env []))" by (simp add: qcow_env_def cut_short_def ascii_def)
  have a: "vd_accept (qcow_env []) (ascii ''/d/i.q'') Qcow2 (info_json []) = Inr (Some \<lparr>vd_format = Qcow2, vd_virtual_size = 512\<rparr>)"
    by (simp add: vd_accept_def info_json_def ref_bad_def backing_key_def mj_str_def mj_get_num_def mj_get_str_def mj_get_def fmt_name_def
        check_failed_def qcow_env_def ascii_def Let_def)
  have e: "ve_regular (qcow_env []) p" "ve_have_qemu (qcow_env [])" "ve_real (qcow_env []) = Some (ascii ''/d/i.q'')"
    "ve_info (qcow_env []) f = (True, print_mj (info_json []))" for p f by (simp_all add: qcow_env_def)
  show ?thesis
    unfolding vdisk_detect_def using c s by (simp add: vd_format_of_def e info_parse a)
qed

theorem vdisk_self_contained_witness:
  "self_contained (\<lambda>p. True) (ascii ''/d/i.q'') (ascii ''/d'') (info_json [])"
proof -
  have d: "dir_part (ascii ''/d/i.q'') = Some (ascii ''/d'')" by (simp add: dir_part_def after_last_def ascii_def)
  from vdisk_self_contained [OF qcow_detect] info_parse d show ?thesis by (auto simp: qcow_env_def)
qed

end
