(* ===== verification/Exec.thy ===== *)
theory Exec
  imports CLib
begin

text \<open>
  Finding and running programs: \<open>rufux_have\<close>, \<open>rufux_execvp\<close>, \<open>rufux_exe_dir\<close>, \<open>rufux_run\<close> and
  \<open>rufux_capture\<close> of \<open>src/linux/exec.c\<close>. The process's surroundings are a record: the environment, the
  answer of \<open>access (p, X_OK)\<close>, what \<open>execv\<close> does, the link \<open>/proc/self/exe\<close>. The programs that are
  run are not part of the repository: a table \<open>tools\<close> maps an argument vector and a state of the outside
  world to what the parent sees of the child (its status, the results of reading the pipe) and the new state;
  \<open>None\<close> is a \<open>pipe\<close> or \<open>fork\<close> that fails.
\<close>

section \<open>The surroundings\<close>

record host =
  h_getenv :: "bytes \<Rightarrow> bytes option"
  h_x_ok :: "bytes \<Rightarrow> bool"
  h_execv :: "bytes \<Rightarrow> int option"
  h_exe_link :: "bytes option"

definition ENOENT :: int where "ENOENT = 2"

definition EEXIST :: int where "EEXIST = 17"

text \<open>The directories of \<open>PATH\<close>, with the fallback for an unset or empty variable.\<close>

definition search_dirs :: "'z host_scheme \<Rightarrow> bytes list" where
  "search_dirs h =
     (let path = (case h_getenv h (ascii ''PATH'') of None \<Rightarrow> [] | Some p \<Rightarrow> p);
          path = (if path = [] then ascii ''/usr/local/bin:/usr/bin:/bin:/usr/local/sbin:/usr/sbin:/sbin'' else path)
      in strtok 58 path)"

section \<open>Searching\<close>

definition candidate :: "bytes \<Rightarrow> bytes \<Rightarrow> bytes" where
  "candidate name dir = clip 1024 (dir @ 47 # name)"

definition have_tool :: "'z host_scheme \<Rightarrow> bytes \<Rightarrow> bool" where
  "have_tool h name =
     (if name = [] then False
      else if 47 \<in> set name then h_x_ok h name
      else list_ex (\<lambda>dir. h_x_ok h (candidate name dir)) (search_dirs h))"

text \<open>
  The loop of \<open>rufux_execvp\<close>. \<open>Inr\<close> is the program that replaces the process; \<open>h_execv\<close> is \<open>None\<close>
  where \<open>execv\<close> does not return and the error number where it does.
\<close>

fun exec_search :: "'z host_scheme \<Rightarrow> bytes \<Rightarrow> bytes list \<Rightarrow> int \<Rightarrow> int + bytes" where
  "exec_search h name [] err = Inl err"
| "exec_search h name (dir # dirs) err =
     (let full = candidate name (if dir = [] then ascii ''.'' else dir)
      in if \<not> h_x_ok h full then exec_search h name dirs err
         else case h_execv h full of None \<Rightarrow> Inr full | Some e \<Rightarrow> exec_search h name dirs e)"

definition rufux_execvp :: "'z host_scheme \<Rightarrow> bytes \<Rightarrow> bytes list \<Rightarrow> int + (bytes \<times> bytes list)" where
  "rufux_execvp h name argv =
     (if name = [] then Inl ENOENT
      else if 47 \<in> set name then (case h_execv h name of None \<Rightarrow> Inr (name, argv) | Some e \<Rightarrow> Inl e)
      else case exec_search h name (search_dirs h) ENOENT of
        Inl e \<Rightarrow> Inl e
      | Inr full \<Rightarrow> Inr (full, argv[0 := full]))"

text \<open>The directory of the running program; empty when it is not known.\<close>

definition exe_dir :: "'z host_scheme \<Rightarrow> bytes" where
  "exe_dir h =
     (case h_exe_link h of
        None \<Rightarrow> []
      | Some l \<Rightarrow>
          (let l = take 1023 l in if 47 \<in> set l then rev (tl (dropWhile (\<lambda>c. c \<noteq> 47) (rev l))) else []))"

section \<open>Running\<close>

datatype status = Exited nat | Signalled nat

record proc =
  pr_status :: status
  pr_reads :: "bytes list"

type_synonym 'w tools = "bytes list \<Rightarrow> 'w \<Rightarrow> proc option \<times> 'w"

definition rufux_run :: "'w tools \<Rightarrow> bytes list \<Rightarrow> bool \<Rightarrow> 'w \<Rightarrow> bool \<times> 'w" where
  "rufux_run tools argv dry w =
     (if dry then (True, w)
      else case tools argv w of
        (None, w') \<Rightarrow> (False, w')
      | (Some p, w') \<Rightarrow> (pr_status p = Exited 0, w'))"

text \<open>
  Draining the pipe: what \<open>out\<close> holds after the reads, each of at most 512 bytes; an empty read is the
  end of the file (or an error, which ends the loop as well).
\<close>

fun drain :: "nat \<Rightarrow> bytes \<Rightarrow> bytes list \<Rightarrow> bytes" where
  "drain cap out [] = out"
| "drain cap out (buf # reads) =
     (if buf = [] then out
      else if length out < cap - 1
      then drain cap (out @ take (if cap \<le> length out + length buf then cap - 1 - length out else length buf) buf) reads
      else drain cap out reads)"

definition rufux_capture :: "'w tools \<Rightarrow> bytes list \<Rightarrow> nat \<Rightarrow> 'w \<Rightarrow> (bool \<times> bytes) \<times> 'w" where
  "rufux_capture tools argv cap w =
     (if cap = 0 then ((False, []), w)
      else case tools argv w of
        (None, w') \<Rightarrow> ((False, []), w')
      | (Some p, w') \<Rightarrow> ((pr_status p = Exited 0, cstr (drain cap [] (pr_reads p))), w'))"

section \<open>Lemmas\<close>

lemma exec_search_none:
  "\<forall>dir\<in>set dirs. dir \<noteq> [] \<and> \<not> h_x_ok h (candidate name dir) \<Longrightarrow> exec_search h name dirs err = Inl err"
  by (induction dirs arbitrary: err) (auto simp: Let_def)

lemma exec_search_some:
  assumes "\<forall>dir\<in>set dirs. dir \<noteq> []" "\<exists>dir\<in>set dirs. h_x_ok h (candidate name dir)"
    "\<And>p. h_x_ok h p \<Longrightarrow> h_execv h p = None"
  shows "\<exists>pre dir post. dirs = pre @ dir # post \<and> (\<forall>d\<in>set pre. \<not> h_x_ok h (candidate name d)) \<and>
    h_x_ok h (candidate name dir) \<and> exec_search h name dirs err = Inr (candidate name dir)"
  using assms(1,2)
proof (induction dirs arbitrary: err)
  case (Cons dir dirs)
  show ?case
  proof (cases "h_x_ok h (candidate name dir)")
    case True
    with Cons.prems assms(3) show ?thesis by (intro exI [of _ "[]"] exI [of _ dir] exI [of _ dirs]) (simp add: Let_def)
  next
    case False
    with Cons.prems Cons.IH [of err] obtain pre dir' post where
      "dirs = pre @ dir' # post" "\<forall>d\<in>set pre. \<not> h_x_ok h (candidate name d)"
      "h_x_ok h (candidate name dir')" "exec_search h name dirs err = Inr (candidate name dir')" by auto
    with False Cons.prems show ?thesis
      by (intro exI [of _ "dir # pre"] exI [of _ dir'] exI [of _ post]) (simp add: Let_def)
  qed
qed simp

lemma strtok_not_empty: "t \<in> set (strtok d s) \<Longrightarrow> t \<noteq> []"
  by (simp add: strtok_def)

text \<open>The buffer ends up with as much of the output as it holds, however the reads were cut.\<close>

lemma drain_take:
  "length out \<le> cap - 1 \<Longrightarrow> drain cap out reads = take (cap - 1) (out @ concat (takeWhile (\<lambda>r. r \<noteq> []) reads))"
proof (induction reads arbitrary: out)
  case (Cons r reads)
  show ?case
  proof (cases "length out < cap - 1 \<and> r \<noteq> []")
    case True
    then show ?thesis using Cons.IH [of "out @ take (cap - 1 - length out) r"] Cons.IH [of "out @ r"]
      by (cases "cap \<le> length out + length r") (auto simp: not_le)
  next
    case False
    then show ?thesis using Cons by auto
  qed
qed simp

lemma rufux_capture_world: "0 < cap \<Longrightarrow> snd (rufux_capture tools argv cap w) = snd (tools argv w)"
  by (simp add: rufux_capture_def split: prod.splits option.splits)

text \<open>
  The check for a tool and the call of it agree. A bare name that the check does not
  find cannot be run: the search ends with \<open>ENOENT\<close> and nothing is executed. One that it finds is run,
  from the first directory of \<open>PATH\<close> that has it, with its full path as the first argument and the other
  arguments as they were (provided an executable file can be executed).
\<close>

theorem have_execvp_agree:
  assumes "name \<noteq> []" "47 \<notin> set name"
  shows "(\<not> have_tool h name \<longrightarrow> rufux_execvp h name (name # args) = Inl ENOENT) \<and>
    (have_tool h name \<and> (\<forall>p. h_x_ok h p \<longrightarrow> h_execv h p = None) \<longrightarrow>
      (\<exists>pre dir post. search_dirs h = pre @ dir # post \<and> (\<forall>d\<in>set pre. \<not> h_x_ok h (candidate name d)) \<and>
         h_x_ok h (candidate name dir) \<and>
         rufux_execvp h name (name # args) = Inr (candidate name dir, candidate name dir # args)))"
proof (intro conjI impI)
  have ne: "\<forall>dir\<in>set (search_dirs h). dir \<noteq> []"
    by (auto simp: search_dirs_def Let_def dest: strtok_not_empty)
  show "rufux_execvp h name (name # args) = Inl ENOENT" if "\<not> have_tool h name"
    using that assms ne by (simp add: rufux_execvp_def have_tool_def list_ex_iff exec_search_none)
  assume a: "have_tool h name \<and> (\<forall>p. h_x_ok h p \<longrightarrow> h_execv h p = None)"
  then have "\<exists>dir\<in>set (search_dirs h). h_x_ok h (candidate name dir)"
    using assms by (simp add: have_tool_def list_ex_iff)
  from exec_search_some [OF ne this, of ENOENT] a
  show "\<exists>pre dir post. search_dirs h = pre @ dir # post \<and> (\<forall>d\<in>set pre. \<not> h_x_ok h (candidate name d)) \<and>
    h_x_ok h (candidate name dir) \<and>
    rufux_execvp h name (name # args) = Inr (candidate name dir, candidate name dir # args)"
    using assms by (fastforce simp: rufux_execvp_def)
qed

definition demo_host :: host where
  "demo_host = \<lparr>h_getenv = (\<lambda>v. if v = ascii ''PATH'' then Some (ascii ''/a:/b'') else None),
     h_x_ok = (\<lambda>p. p = ascii ''/b/cp''), h_execv = (\<lambda>p. None), h_exe_link = None\<rparr>"


end
