(* ===== verification/BiosBoot.thy ===== *)
theory BiosBoot
  imports Exec LinuxIo
begin

text \<open>
  Legacy BIOS boot code for Windows drives: \<open>src/linux/biosboot.c\<close>. The world the installer works in is a
  record: the files by path (the latest first), the directories, the disk, the log. The GRUB tools are the
  parameter \<open>tools\<close> of \<open>Exec\<close>; they may do anything to that world. What the system answers to
  \<open>mkdir\<close>, \<open>open\<close> for writing and reading is part of the host record. An \<open>open\<close> of the disk that fails
  and a \<open>pread\<close> that fails give the same \<open>-1\<close>, so one element of the disk's schedule stands for both.
\<close>

record bworld =
  bw_files :: "(bytes \<times> bytes) list"
  bw_dirs :: "bytes list"
  bw_disk :: dev
  bw_log :: "string list"

text \<open>
  \<open>bh_mkdir\<close>: the error of \<open>mkdir\<close> at a path where nothing is. \<open>bh_room\<close>: how many bytes a file opened for
  writing takes (\<open>None\<close>: it cannot be opened). \<open>bh_readable\<close>: how much of a file can be read.
\<close>

record bios_host = host +
  bh_mkdir :: "bytes \<Rightarrow> int option"
  bh_room :: "bytes \<Rightarrow> nat option"
  bh_readable :: "bytes \<Rightarrow> nat option"

datatype bios_err =
    NoModules
  | NoMkimage
  | NoSetup
  | NoTable
  | NoGptHeader
  | MalformedGpt
  | NoBiosBoot
  | CannotCreate int
  | CannotWrite
  | MkimageFailed bytes
  | PartTooSmall u64 u64 u32
  | GapTooSmall u32 u32
  | SetupFailed bytes
  | TableChanged
  | GptChanged

section \<open>Files\<close>

definition file_get :: "bworld \<Rightarrow> bytes \<Rightarrow> bytes option" where
  "file_get w p = map_of (bw_files w) p"

definition file_put :: "bytes \<Rightarrow> bytes \<Rightarrow> bworld \<Rightarrow> bworld" where
  "file_put p b w = w\<lparr>bw_files := (p, b) # filter (\<lambda>(q, _). q \<noteq> p) (bw_files w)\<rparr>"

definition is_file :: "bworld \<Rightarrow> bytes \<Rightarrow> bool" where
  "is_file w p \<longleftrightarrow> file_get w p \<noteq> None"

definition write_file :: "'z bios_host_scheme \<Rightarrow> bytes \<Rightarrow> bytes \<Rightarrow> bworld \<Rightarrow> bool \<times> bworld" where
  "write_file h path data w =
     (case bh_room h path of
        None \<Rightarrow> (False, w)
      | Some n \<Rightarrow> (length data \<le> n, file_put path (take n data) w))"

text \<open>A read error of the source ends the loop like its end.\<close>

definition copy_file :: "'z bios_host_scheme \<Rightarrow> bytes \<Rightarrow> bytes \<Rightarrow> bworld \<Rightarrow> bool \<times> bworld" where
  "copy_file h src dst w =
     (case (file_get w src, bh_readable h src) of
        (Some b, Some k) \<Rightarrow>
          (case bh_room h dst of
             None \<Rightarrow> (False, w)
           | Some n \<Rightarrow> (length (take k b) \<le> n, file_put dst (take n (take k b)) w))
      | _ \<Rightarrow> (False, w))"

definition do_mkdir :: "'z bios_host_scheme \<Rightarrow> bytes \<Rightarrow> bworld \<Rightarrow> int option \<times> bworld" where
  "do_mkdir h p w =
     (if p \<in> set (bw_dirs w) \<or> is_file w p then (Some EEXIST, w)
      else case bh_mkdir h p of Some e \<Rightarrow> (Some e, w) | None \<Rightarrow> (None, w\<lparr>bw_dirs := p # bw_dirs w\<rparr>))"

text \<open>The name under which a path stands in a directory.\<close>

definition name_in :: "bytes \<Rightarrow> bytes \<Rightarrow> bytes option" where
  "name_in dir p =
     (let n = drop (length dir + 1) p
      in if starts (dir @ [47]) p \<and> n \<noteq> [] \<and> 47 \<notin> set n then Some n else None)"

definition flat_names :: "bytes \<Rightarrow> bworld \<Rightarrow> bytes list" where
  "flat_names dir w = List.map_filter (name_in dir) (map fst (bw_files w))"

definition rmtree_flat :: "bytes \<Rightarrow> bworld \<Rightarrow> bworld" where
  "rmtree_flat dir w =
     (let gone = (if dir \<in> set (bw_dirs w) then map (\<lambda>n. take 3000 dir @ 47 # take 255 n) (flat_names dir w) else []);
          w = w\<lparr>bw_files := filter (\<lambda>(p, _). p \<notin> set gone) (bw_files w)\<rparr>;
          empty = (flat_names dir w = [] \<and> \<not> list_ex (\<lambda>d. name_in dir d \<noteq> None) (bw_dirs w))
      in if empty then w\<lparr>bw_dirs := filter (\<lambda>d. d \<noteq> dir) (bw_dirs w)\<rparr> else w)"

section \<open>Finding GRUB\<close>

record grub =
  g_moddir :: bytes
  g_mkimage :: bytes
  g_setup :: bytes

definition find_exe :: "'z host_scheme \<Rightarrow> bytes list \<Rightarrow> bytes list \<Rightarrow> bytes option" where
  "find_exe h names dirs =
     List.find (\<lambda>_. True) (concat (map (\<lambda>n.
       (if have_tool h n then [n] else []) @
       filter (h_x_ok h) (map (\<lambda>d. take 2000 d @ 47 # take 2000 n) dirs)) names))"

definition module_dirs :: "'z host_scheme \<Rightarrow> bytes list" where
  "module_dirs h =
     (case h_getenv h (ascii ''RUFUX_GRUB_DIR'') of
        Some (c # env) \<Rightarrow> [take 4000 (c # env)]
      | _ \<Rightarrow> (if exe_dir h \<noteq> [] then [take 3900 (exe_dir h) @ ascii ''/../lib/grub/i386-pc''] else []) @
             [ascii ''/usr/lib/grub/i386-pc'', ascii ''/usr/lib/grub2/i386-pc'', ascii ''/usr/share/grub/i386-pc''])"

definition locate :: "'z host_scheme \<Rightarrow> bworld \<Rightarrow> bios_err + grub" where
  "locate h w =
     (case List.find (\<lambda>c. is_file w (take 4000 c @ ascii ''/boot.img'') \<and> is_file w (take 4000 c @ ascii ''/kernel.img''))
         (module_dirs h) of
        None \<Rightarrow> Inl NoModules
      | Some moddir \<Rightarrow>
          (if moddir = [] then Inl NoModules
           else let dirs = [take 4000 moddir, take 3900 moddir @ ascii ''/../../../bin'',
                            take 3900 moddir @ ascii ''/../../../sbin'', ascii ''/usr/sbin'', ascii ''/usr/bin'']
                in case find_exe h [ascii ''grub-mkimage'', ascii ''grub2-mkimage''] dirs of
                     None \<Rightarrow> Inl NoMkimage
                   | Some mk \<Rightarrow>
                       (case find_exe h [ascii ''grub-bios-setup'', ascii ''grub2-bios-setup''] dirs of
                          None \<Rightarrow> Inl NoSetup
                        | Some st \<Rightarrow> Inr \<lparr>g_moddir = moddir, g_mkimage = mk, g_setup = st\<rparr>)))"

definition rufux_bios_available :: "'z host_scheme \<Rightarrow> bworld \<Rightarrow> bool" where
  "rufux_bios_available h w = (case locate h w of Inl _ \<Rightarrow> False | Inr _ \<Rightarrow> True)"

section \<open>The partition tables\<close>

definition entry_lba :: "bytes \<Rightarrow> nat \<Rightarrow> u32" where
  "entry_lba mbr i = get_le32 mbr (446 + i * 16 + 8)"

definition entry_sz :: "bytes \<Rightarrow> nat \<Rightarrow> u32" where
  "entry_sz mbr i = get_le32 mbr (446 + i * 16 + 12)"

definition entry_used :: "bytes \<Rightarrow> nat \<Rightarrow> bool" where
  "entry_used mbr i \<longleftrightarrow> mbr ! (446 + i * 16 + 4) \<noteq> 0 \<and> entry_sz mbr i \<noteq> 0"

definition first_part_lba :: "bytes \<Rightarrow> u32" where
  "first_part_lba mbr =
     foldl (\<lambda>best i. if entry_used mbr i \<and> (best = 0 \<or> entry_lba mbr i < best) then entry_lba mbr i else best)
       0 [0..<4]"

text \<open>One \<open>pread\<close> that has to bring everything.\<close>

definition read_at :: "nat \<Rightarrow> int \<Rightarrow> dev \<Rightarrow> bytes option \<times> dev" where
  "read_at n off d =
     (case sys_pread n off d of
        (Inl e, d') \<Rightarrow> (None, d')
      | (Inr bs, d') \<Rightarrow> (if length bs = n then Some bs else None, d'))"

definition read_mbr :: "dev \<Rightarrow> bytes option \<times> dev" where
  "read_mbr d = read_at 512 0 d"

definition is_gpt :: "bytes \<Rightarrow> bool" where
  "is_gpt mbr \<longleftrightarrow> mbr ! (446 + 4) = 0xEE"

definition bios_guid :: bytes where
  "bios_guid = [0x48, 0x61, 0x68, 0x21, 0x49, 0x64, 0x6f, 0x6e, 0x74, 0x4e, 0x65, 0x65, 0x64, 0x45, 0x46, 0x49]"

definition TABLE_CAP :: nat where "TABLE_CAP = 2 ^ 20"

text \<open>The loop over the entries from \<open>i\<close> on: first LBA and number of sectors of the first match.\<close>

fun find_bios_boot :: "bytes \<Rightarrow> nat \<Rightarrow> nat list \<Rightarrow> (u64 \<times> u64) option" where
  "find_bios_boot ents esz [] = None"
| "find_bios_boot ents esz (i # is) =
     (if bslice (i * esz) 16 ents = bios_guid
      then Some (get_le64 ents (i * esz + 32), get_le64 ents (i * esz + 40) - get_le64 ents (i * esz + 32) + 1)
      else find_bios_boot ents esz is)"

text \<open>
  \<open>gpt_bios_boot\<close>: \<open>Inr\<close> is the non-zero first LBA and the number of sectors. The offset \<open>(off_t) ent * 512\<close>
  is taken in 64 bits, two's complement.
\<close>

definition gpt_bios_boot :: "dev \<Rightarrow> (bios_err + (u64 \<times> u64)) \<times> dev" where
  "gpt_bios_boot d =
     (case read_at 512 512 d of
        (None, d) \<Rightarrow> (Inl NoGptHeader, d)
      | (Some hdr, d) \<Rightarrow>
          if take 8 hdr \<noteq> ascii ''EFI PART'' then (Inl NoGptHeader, d)
          else let ent = get_le64 hdr 72; num = get_le32 hdr 80; esz = get_le32 hdr 84
               in if ent < 2 \<or> num = 0 \<or> esz < 128 \<or> 4096 < esz then (Inl MalformedGpt, d)
                  else let tot = min TABLE_CAP (unat num * unat esz)
                       in case read_at tot (sint (ent * 512)) d of
                            (None, d) \<Rightarrow> (Inl NoBiosBoot, d)
                          | (Some ents, d) \<Rightarrow>
                              (case find_bios_boot ents (unat esz) [0..<tot div unat esz] of
                                 None \<Rightarrow> (Inl NoBiosBoot, d)
                               | Some (first, sectors) \<Rightarrow>
                                   (if first = 0 then (Inl NoBiosBoot, d) else (Inr (first, sectors), d))))"

section \<open>The installation\<close>

definition early_cfg :: bytes where
  "early_cfg =
     ascii ''search --file --no-floppy --set=root /bootmgr'' @ [10] @ ascii ''ntldr /bootmgr'' @ [10] @
     ascii ''boot'' @ [10] @ ascii ''search --file --no-floppy --set=root /BOOTMGR'' @ [10] @
     ascii ''ntldr /BOOTMGR'' @ [10] @ ascii ''boot'' @ [10] @
     ascii ''echo \"Rufux: bootmgr was not found on this drive.\"'' @ [10] @ ascii ''sleep 30'' @ [10]"

definition grub_modules :: "bytes list" where
  "grub_modules = map ascii [''biosdisk'', ''part_msdos'', ''part_gpt'', ''fat'', ''ntfs'', ''exfat'', ''ntldr'',
     ''search'', ''search_fs_file'', ''echo'', ''sleep'', ''boot'']"

definition first_line :: "bytes \<Rightarrow> bytes" where
  "first_line out = (let l = takeWhile (\<lambda>c. c \<noteq> 10) out in take 300 (if l = [] then ascii ''unknown error'' else l))"

definition work_dir :: "bytes \<Rightarrow> bytes" where
  "work_dir mnt = take 4000 mnt @ ascii ''/.rufux-grub''"

definition in_work :: "bytes \<Rightarrow> string \<Rightarrow> bytes" where
  "in_work work name = take 4000 work @ ascii name"

definition mkimage_argv :: "grub \<Rightarrow> bytes \<Rightarrow> bytes list" where
  "mkimage_argv g work =
     [g_mkimage g, ascii ''-O'', ascii ''i386-pc'', ascii ''-d'', g_moddir g, ascii ''-o'', in_work work ''/core.img'',
      ascii ''-c'', in_work work ''/early.cfg'', ascii ''-p'', ascii ''/.rufux-grub''] @ grub_modules"

definition setup_argv :: "grub \<Rightarrow> bytes \<Rightarrow> bytes \<Rightarrow> bytes list" where
  "setup_argv g disk work =
     [g_setup g, ascii ''-d'', work, ascii ''-b'', ascii ''boot.img'', ascii ''-c'', ascii ''core.img'', ascii ''-m'',
      in_work work ''/device.map'', ascii ''--skip-fs-probe'', ascii ''--force'', disk]"

text \<open>Sectors for the boot code: \<open>core.img\<close> rounded up, and two more.\<close>

definition need_sectors :: "nat \<Rightarrow> u32" where
  "need_sectors n = of_nat ((n + 511) div 512) + 2"

text \<open>Files for the tools: the configuration, the device map, \<open>boot.img\<close>, in this order, up to the first failure.\<close>

definition write_inputs :: "'z bios_host_scheme \<Rightarrow> grub \<Rightarrow> bytes \<Rightarrow> bytes \<Rightarrow> bworld \<Rightarrow> bool \<times> bworld" where
  "write_inputs h g disk work w =
     (case write_file h (in_work work ''/early.cfg'') early_cfg w of
        (False, w) \<Rightarrow> (False, w)
      | (True, w) \<Rightarrow>
          (case write_file h (in_work work ''/device.map'') (ascii ''(hd0) '' @ take 4000 disk @ [10]) w of
             (False, w) \<Rightarrow> (False, w)
           | (True, w) \<Rightarrow> copy_file h (take 4000 (g_moddir g) @ ascii ''/boot.img'') (in_work work ''/boot.img'') w))"

definition room_check :: "(u64 \<times> u64) option \<Rightarrow> bytes \<Rightarrow> u32 \<Rightarrow> bios_err option" where
  "room_check part before need =
     (case part of
        Some (lba, sectors) \<Rightarrow> (if sectors < ucast need then Some (PartTooSmall lba sectors need) else None)
      | None \<Rightarrow>
          (let first = first_part_lba before
           in if first \<noteq> 0 \<and> first < need then Some (GapTooSmall (first - 1) (need - 1)) else None))"

text \<open>The checks after the boot code went on: the partition table, and the GPT on a GPT disk.\<close>

definition table_kept :: "bytes \<Rightarrow> bytes \<Rightarrow> bool" where
  "table_kept before after \<longleftrightarrow>
     after ! 510 = 0x55 \<and> after ! 511 = 0xAA \<and> bslice 446 66 after = bslice 446 66 before \<and> after ! 0 \<noteq> 0"

definition check_after :: "bool \<Rightarrow> bytes \<Rightarrow> bworld \<Rightarrow> bios_err option \<times> bworld" where
  "check_after gpt before w =
     (case read_mbr (bw_disk w) of
        (None, d) \<Rightarrow> (Some TableChanged, w\<lparr>bw_disk := d\<rparr>)
      | (Some after, d) \<Rightarrow>
          if \<not> table_kept before after then (Some TableChanged, w\<lparr>bw_disk := d\<rparr>)
          else if \<not> gpt then (None, w\<lparr>bw_disk := d\<rparr>)
          else case read_at 512 512 d of
              (None, d) \<Rightarrow> (Some GptChanged, w\<lparr>bw_disk := d\<rparr>)
            | (Some hdr, d) \<Rightarrow>
                if take 8 hdr \<noteq> ascii ''EFI PART'' then (Some GptChanged, w\<lparr>bw_disk := d\<rparr>)
                else case gpt_bios_boot d of
                    (Inl _, d) \<Rightarrow> (Some GptChanged, w\<lparr>bw_disk := d\<rparr>)
                  | (Inr _, d) \<Rightarrow> (None, w\<lparr>bw_disk := d\<rparr>))"

text \<open>The body between the creation of the work directory and its removal.\<close>

definition install_body ::
    "bworld tools \<Rightarrow> 'z bios_host_scheme \<Rightarrow> grub \<Rightarrow> bytes \<Rightarrow> bytes \<Rightarrow> bytes \<Rightarrow> (u64 \<times> u64) option \<Rightarrow> bworld
      \<Rightarrow> bios_err option \<times> bworld" where
  "install_body tools h g disk work before part w =
     (case write_inputs h g disk work w of
        (False, w) \<Rightarrow> (Some CannotWrite, w)
      | (True, w) \<Rightarrow>
          (case rufux_capture tools (mkimage_argv g work) 1024 w of
             ((ok, out), w) \<Rightarrow>
               (case (ok, file_get w (in_work work ''/core.img'')) of
                  (True, Some core) \<Rightarrow>
                    (case room_check part before (need_sectors (length core)) of
                       Some e \<Rightarrow> (Some e, w)
                     | None \<Rightarrow>
                         (case rufux_capture tools (setup_argv g disk work) 1024 w of
                            ((False, out), w) \<Rightarrow> (Some (SetupFailed (first_line out)), w)
                          | ((True, out), w) \<Rightarrow> check_after (part \<noteq> None) before w))
                | _ \<Rightarrow> (Some (MkimageFailed (first_line out)), w))))"

definition done_message :: "bool \<Rightarrow> string" where
  "done_message gpt =
     (if gpt then ''Legacy BIOS boot code installed (GRUB 2 in the BIOS boot partition; it starts bootmgr).''
      else ''Legacy BIOS boot code installed (GRUB 2 in the MBR gap; it starts bootmgr).'')"

definition find_part :: "bytes \<Rightarrow> dev \<Rightarrow> (bios_err + (u64 \<times> u64) option) \<times> dev" where
  "find_part before d =
     (if is_gpt before
      then case gpt_bios_boot d of (Inl e, d) \<Rightarrow> (Inl e, d) | (Inr p, d) \<Rightarrow> (Inr (Some p), d)
      else (Inr None, d))"

definition in_workdir ::
    "bworld tools \<Rightarrow> 'z bios_host_scheme \<Rightarrow> grub \<Rightarrow> bytes \<Rightarrow> bytes \<Rightarrow> bytes \<Rightarrow> (u64 \<times> u64) option \<Rightarrow> bworld
      \<Rightarrow> bios_err option \<times> bworld" where
  "in_workdir tools h g disk mnt before part w =
     (let work = work_dir mnt
      in case do_mkdir h work w of (r, w) \<Rightarrow>
           if r \<noteq> None \<and> r \<noteq> Some EEXIST then (Some (CannotCreate (the r)), w)
           else case install_body tools h g disk work before part w of (r, w) \<Rightarrow>
             let w = (if r = None then w\<lparr>bw_log := bw_log w @ [done_message (part \<noteq> None)]\<rparr> else w)
             in (r, rmtree_flat work w))"

definition rufux_windows_bios_install ::
    "bworld tools \<Rightarrow> 'z bios_host_scheme \<Rightarrow> bytes \<Rightarrow> bytes \<Rightarrow> bworld \<Rightarrow> bios_err option \<times> bworld" where
  "rufux_windows_bios_install tools h disk mnt w =
     (case locate h w of
        Inl e \<Rightarrow> (Some e, w)
      | Inr g \<Rightarrow>
          (case read_mbr (bw_disk w) of
             (None, d) \<Rightarrow> (Some NoTable, w\<lparr>bw_disk := d\<rparr>)
           | (Some before, d) \<Rightarrow>
               if before ! 510 \<noteq> 0x55 \<or> before ! 511 \<noteq> 0xAA then (Some NoTable, w\<lparr>bw_disk := d\<rparr>)
               else case find_part before d of
                   (Inl e, d) \<Rightarrow> (Some e, w\<lparr>bw_disk := d\<rparr>)
                 | (Inr part, d) \<Rightarrow> in_workdir tools h g disk mnt before part (w\<lparr>bw_disk := d\<rparr>)))"

end
