(* ===== verification/BiosBootProps.thy ===== *)
theory BiosBootProps
  imports BiosBoot
begin

text \<open>
  The BIOS boot partition the installer finds is the one the GPT holds, and an installation that reports
  success left the partition table as it was and had room for the boot code; one that fails before the
  setup tool runs has not touched the disk.
\<close>

section \<open>Reads\<close>

lemma read_at_Some:
  "read_at n off d = (Some bs, d') \<Longrightarrow>
   0 \<le> off \<and> bs = bslice (nat off) n (d_img d) \<and> length bs = n \<and> (0 < n \<longrightarrow> nat off + n \<le> length (d_img d))"
  by (auto simp: read_at_def sys_pread_def sched_next_def bslice_def min_def split: if_splits sum.splits list.splits io_ev.splits)

lemma read_at_img: "d_img (snd (read_at n off d)) = d_img d"
  by (auto simp: read_at_def sys_pread_def split: sum.splits)

lemma read_at_keeps: "read_at n off d = (r, d') \<Longrightarrow> d_img d' = d_img d"
  using read_at_img [of n off d] by simp

lemma read_at_quiet:
  "d_sched d = [] \<Longrightarrow> 0 \<le> off \<Longrightarrow> nat off + n \<le> length (d_img d) \<Longrightarrow>
   read_at n off d = (Some (bslice (nat off) n (d_img d)), d)"
  by (cases d) (simp add: read_at_def sys_pread_def sched_next_def sched_pop_def length_bslice_in)

lemma gpt_bios_boot_keeps: "gpt_bios_boot d = (r, d') \<Longrightarrow> d_img d' = d_img d"
  by (auto simp: gpt_bios_boot_def Let_def split: prod.splits option.splits if_splits dest!: read_at_keeps)

lemma find_part_keeps: "find_part b d = (r, d') \<Longrightarrow> d_img d' = d_img d"
  by (auto simp: find_part_def split: prod.splits sum.splits if_splits dest!: gpt_bios_boot_keeps)

section \<open>The BIOS boot partition\<close>

text \<open>What the GPT of a disk image says: the header's fields, the entries in their order, the first that matches.\<close>

definition gpt_hdr :: "bytes \<Rightarrow> bytes" where
  "gpt_hdr img = bslice 512 512 img"

definition gpt_esz :: "bytes \<Rightarrow> nat" where
  "gpt_esz img = unat (get_le32 (gpt_hdr img) 84)"

definition gpt_table_len :: "bytes \<Rightarrow> nat" where
  "gpt_table_len img = min TABLE_CAP (unat (get_le32 (gpt_hdr img) 80) * gpt_esz img)"

definition gpt_table_off :: "bytes \<Rightarrow> int" where
  "gpt_table_off img = sint (get_le64 (gpt_hdr img) 72 * 512)"

definition gpt_sane :: "bytes \<Rightarrow> bool" where
  "gpt_sane img \<longleftrightarrow>
     1024 \<le> length img \<and> take 8 (gpt_hdr img) = ascii ''EFI PART'' \<and> 2 \<le> get_le64 (gpt_hdr img) 72 \<and>
     get_le32 (gpt_hdr img) 80 \<noteq> 0 \<and> 128 \<le> gpt_esz img \<and> gpt_esz img \<le> 4096 \<and>
     0 \<le> gpt_table_off img \<and> nat (gpt_table_off img) + gpt_table_len img \<le> length img"

definition gpt_entry_list :: "bytes \<Rightarrow> bytes list" where
  "gpt_entry_list img =
     map (\<lambda>i. bslice (nat (gpt_table_off img) + i * gpt_esz img) (gpt_esz img) img)
       [0..<min (unat (get_le32 (gpt_hdr img) 80)) (TABLE_CAP div gpt_esz img)]"

definition bios_boot_of :: "bytes \<Rightarrow> (u64 \<times> u64) option" where
  "bios_boot_of img =
     map_option (\<lambda>e. (get_le64 e 32, get_le64 e 40 - get_le64 e 32 + 1))
       (List.find (\<lambda>e. take 16 e = bios_guid) (gpt_entry_list img))"

lemma find_bios_boot_find:
  assumes "128 \<le> esz" "\<forall>i\<in>set is. (i + 1) * esz \<le> n" "n \<le> length xs"
  shows "find_bios_boot (take n xs) esz is =
    map_option (\<lambda>e. (get_le64 e 32, get_le64 e 40 - get_le64 e 32 + 1))
      (List.find (\<lambda>e. take 16 e = bios_guid) (map (\<lambda>i. bslice (i * esz) esz xs) is))"
  using assms(2)
proof (induction "is")
  case (Cons i "is")
  then have i: "i * esz + esz \<le> n" by (simp add: algebra_simps)
  with assms have "bslice (i * esz) 16 (take n xs) = take 16 (bslice (i * esz) esz xs)"
    by (simp add: bslice_def min_def take_drop)
  moreover have "get_le64 (take n xs) (i * esz + k) = get_le64 (bslice (i * esz) esz xs) k" if "k \<le> 40" for k
    using assms i that by (simp add: get_le64_def bslice_def upt_8 add.assoc)
  ultimately show ?case using Cons by simp
qed simp

lemma min_div: "0 < e \<Longrightarrow> min c (n * e) div e = min n (c div (e :: nat))"
proof (cases "c \<le> n * e")
  case True
  assume "0 < e"
  with div_le_mono [OF True, of e] have "c div e \<le> n" by simp
  with True show ?thesis by simp
next
  case False
  assume "0 < e"
  with False show ?thesis by (simp add: less_eq_div_iff_mult_less_eq)
qed

lemma find_in_table:
  assumes "gpt_sane img"
  shows "find_bios_boot (bslice (nat (gpt_table_off img)) (gpt_table_len img) img) (gpt_esz img)
    [0..<gpt_table_len img div gpt_esz img] = bios_boot_of img"
proof -
  let ?esz = "gpt_esz img" and ?n = "gpt_table_len img" and ?xs = "drop (nat (gpt_table_off img)) img"
  let ?num = "unat (get_le32 (gpt_hdr img) 80)"
  have e: "128 \<le> ?esz" using assms by (simp add: gpt_sane_def)
  have "(i + 1) * ?esz \<le> ?n" if "i \<in> set [0..<?n div ?esz]" for i
  proof -
    have "i + 1 \<le> ?n div ?esz" using that by simp
    then have "(i + 1) * ?esz \<le> ?n div ?esz * ?esz" by (rule mult_le_mono1)
    then show ?thesis using div_times_less_eq_dividend [of ?n ?esz] by linarith
  qed
  then have f: "find_bios_boot (take ?n ?xs) ?esz [0..<?n div ?esz] =
    map_option (\<lambda>e. (get_le64 e 32, get_le64 e 40 - get_le64 e 32 + 1))
      (List.find (\<lambda>e. take 16 e = bios_guid) (map (\<lambda>i. bslice (i * ?esz) ?esz ?xs) [0..<?n div ?esz]))"
    using assms by (intro find_bios_boot_find [OF e]) (auto simp: gpt_sane_def)
  have "?n div ?esz = min ?num (TABLE_CAP div ?esz)"
    using e min_div [of ?esz TABLE_CAP ?num] by (simp add: gpt_table_len_def)
  then show ?thesis
    using f by (simp add: bios_boot_of_def gpt_entry_list_def bslice_def add.commute)
qed

text \<open>The search returns what the reference reading of the image gives, and only from a sane GPT.\<close>

lemma word_le_unat: "n < 2 ^ 32 \<Longrightarrow> (x < of_nat n) = (unat (x :: u32) < n)" "n < 2 ^ 32 \<Longrightarrow> (of_nat n < x) = (n < unat (x :: u32))"
  by (simp_all add: word_less_nat_alt unat_of_nat_small)

lemma esz_bounds:
  "(x :: u32) < 128 \<longleftrightarrow> unat x < 128" "(4096 :: u32) < x \<longleftrightarrow> 4096 < unat x"
  using word_le_unat(1) [of 128 x] word_le_unat(2) [of 4096 x] by simp_all

lemma gpt_bios_boot_sound:
  assumes "gpt_bios_boot d = (Inr (first, sectors), d')"
  shows "gpt_sane (d_img d) \<and> bios_boot_of (d_img d) = Some (first, sectors) \<and> first \<noteq> 0"
proof -
  obtain hdr d1 where h: "read_at 512 512 d = (Some hdr, d1)"
    using assms by (auto simp: gpt_bios_boot_def split: prod.splits option.splits)
  let ?img = "d_img d"
  let ?ent = "get_le64 hdr 72" and ?num = "get_le32 hdr 80" and ?esz = "get_le32 hdr 84"
  have hdr: "hdr = gpt_hdr ?img" "1024 \<le> length ?img" "d_img d1 = ?img"
    using read_at_Some [OF h] read_at_keeps [OF h] by (simp_all add: gpt_hdr_def)
  have ok: "take 8 hdr = ascii ''EFI PART''" "\<not> (?ent < 2 \<or> ?num = 0 \<or> ?esz < 128 \<or> 4096 < ?esz)"
    using assms h by (auto simp: gpt_bios_boot_def Let_def split: if_splits)
  let ?n = "min TABLE_CAP (unat ?num * unat ?esz)"
  obtain ents d2 where t: "read_at ?n (sint (?ent * 512)) d1 = (Some ents, d2)"
    using assms h ok by (auto simp: gpt_bios_boot_def Let_def split: prod.splits option.splits)
  have found: "find_bios_boot ents (unat ?esz) [0..<?n div unat ?esz] = Some (first, sectors)" "first \<noteq> 0"
    using assms h ok t by (auto simp: gpt_bios_boot_def Let_def split: option.splits if_splits)
  have "0 < ?n" using ok by (auto simp: TABLE_CAP_def esz_bounds unat_gt_0)
  with read_at_Some [OF t, unfolded hdr(3)] have
    "ents = bslice (nat (sint (?ent * 512))) ?n ?img" "0 \<le> sint (?ent * 512)" "nat (sint (?ent * 512)) + ?n \<le> length ?img"
    by blast+
  then have e:
    "ents = bslice (nat (gpt_table_off ?img)) (gpt_table_len ?img) ?img" "0 \<le> gpt_table_off ?img"
    "nat (gpt_table_off ?img) + gpt_table_len ?img \<le> length ?img"
    using hdr(1) by (simp_all add: gpt_table_off_def gpt_table_len_def gpt_esz_def)
  with ok hdr have s: "gpt_sane ?img"
    by (simp add: gpt_sane_def gpt_esz_def esz_bounds not_less)
  from find_in_table [OF s] found e(1) hdr s show ?thesis
    by (simp add: gpt_esz_def gpt_table_len_def)
qed

lemma gpt_bios_boot_complete:
  assumes "gpt_sane (d_img d)" "bios_boot_of (d_img d) = Some (first, sectors)" "first \<noteq> 0" "d_sched d = []"
  shows "gpt_bios_boot d = (Inr (first, sectors), d)"
proof -
  let ?img = "d_img d"
  have h: "read_at 512 512 d = (Some (gpt_hdr ?img), d)"
    using read_at_quiet [of d 512 512] assms by (simp add: gpt_sane_def gpt_hdr_def)
  have t: "read_at (gpt_table_len ?img) (gpt_table_off ?img) d =
      (Some (bslice (nat (gpt_table_off ?img)) (gpt_table_len ?img) ?img), d)"
    using read_at_quiet [of d "gpt_table_off ?img" "gpt_table_len ?img"] assms by (simp add: gpt_sane_def)
  have ok: "\<not> (get_le64 (gpt_hdr ?img) 72 < 2 \<or> get_le32 (gpt_hdr ?img) 80 = 0 \<or> get_le32 (gpt_hdr ?img) 84 < 128 \<or>
      4096 < get_le32 (gpt_hdr ?img) 84)" "take 8 (gpt_hdr ?img) = ascii ''EFI PART''"
    using assms(1) by (simp_all add: gpt_sane_def gpt_esz_def esz_bounds not_less)
  from t have t': "read_at (min TABLE_CAP (unat (get_le32 (gpt_hdr ?img) 80) * unat (get_le32 (gpt_hdr ?img) 84)))
      (sint (get_le64 (gpt_hdr ?img) 72 * 512)) d =
      (Some (bslice (nat (gpt_table_off ?img)) (gpt_table_len ?img) ?img), d)"
    by (simp add: gpt_table_len_def gpt_table_off_def gpt_esz_def)
  from find_in_table [OF assms(1)] assms(2) have f:
    "find_bios_boot (bslice (nat (gpt_table_off ?img)) (gpt_table_len ?img) ?img) (unat (get_le32 (gpt_hdr ?img) 84))
      [0..<min TABLE_CAP (unat (get_le32 (gpt_hdr ?img) 80) * unat (get_le32 (gpt_hdr ?img) 84)) div
        unat (get_le32 (gpt_hdr ?img) 84)] = Some (first, sectors)"
    by (simp add: gpt_table_len_def gpt_esz_def)
  show ?thesis
    unfolding gpt_bios_boot_def Let_def h using ok t' f assms(3) by simp
qed

text \<open>
  The search for the BIOS boot partition. Whatever interruptions and short reads
  there are, a partition the search reports is the one the image holds: the header carries the signature and
  sane fields, the entry array lies inside the disk, the entry is the first one with the BIOS boot type GUID,
  and the two numbers are its first LBA and its length. On a disk that answers every read the search reports
  it whenever it is there, and reading never changes the disk.
\<close>

theorem gpt_bios_boot_exact:
  "(\<forall>first sectors d'. gpt_bios_boot d = (Inr (first, sectors), d') \<longrightarrow>
      gpt_sane (d_img d) \<and> bios_boot_of (d_img d) = Some (first, sectors) \<and> first \<noteq> 0) \<and>
   (\<forall>first sectors. d_sched d = [] \<and> gpt_sane (d_img d) \<and> bios_boot_of (d_img d) = Some (first, sectors) \<and> first \<noteq> 0 \<longrightarrow>
      gpt_bios_boot d = (Inr (first, sectors), d)) \<and>
   d_img (snd (gpt_bios_boot d)) = d_img d"
  using gpt_bios_boot_sound [of d] gpt_bios_boot_complete [of d] gpt_bios_boot_keeps [OF surjective_pairing, of d]
  by blast

section \<open>The installation\<close>







lemma rmtree_disk [simp]: "bw_disk (rmtree_flat dir w) = bw_disk w"
  by (simp add: rmtree_flat_def Let_def)

lemma write_file_disk: "write_file h p b w = (r, w') \<Longrightarrow> bw_disk w' = bw_disk w"
  by (auto simp: write_file_def file_put_def split: option.splits)

lemma copy_file_disk: "copy_file h p q w = (r, w') \<Longrightarrow> bw_disk w' = bw_disk w"
  by (auto simp: copy_file_def file_put_def split: option.splits)

lemma write_inputs_disk: "write_inputs h g disk work w = (r, w') \<Longrightarrow> bw_disk w' = bw_disk w"
  by (auto simp: write_inputs_def split: prod.splits bool.splits dest!: write_file_disk copy_file_disk)

lemma do_mkdir_disk: "do_mkdir h p w = (r, w') \<Longrightarrow> bw_disk w' = bw_disk w"
  by (auto simp: do_mkdir_def split: option.splits if_splits)


lemma capture_world: "rufux_capture tools argv 1024 w = (r, w') \<Longrightarrow> w' = snd (tools argv w)"
  using rufux_capture_world [of 1024 tools argv w] by simp














section \<open>Failures\<close>

text \<open>The errors that come after the setup tool has run.\<close>

fun late_error :: "bios_err \<Rightarrow> bool" where
  "late_error (SetupFailed out) = True"
| "late_error TableChanged = True"
| "late_error GptChanged = True"
| "late_error _ = False"

lemma install_body_early:
  assumes "install_body tools h g disk work before part w = (Some e, w')" "\<not> late_error e"
    "\<And>x. d_img (bw_disk (snd (tools (mkimage_argv g work) x))) = d_img (bw_disk x)"
  shows "d_img (bw_disk w') = d_img (bw_disk w)"
proof -
  have late: "late_error e" if "check_after b c x = (Some e, y)" for b c x y
    using that by (auto simp: check_after_def split: prod.splits option.splits if_splits sum.splits)
  obtain r w0 where i: "write_inputs h g disk work w = (r, w0)" by fastforce
  obtain ok out w1 where m: "rufux_capture tools (mkimage_argv g work) 1024 w0 = ((ok, out), w1)" by (metis prod.exhaust)
  have "d_img (bw_disk w1) = d_img (bw_disk w0)" using assms(3) [of w0] capture_world [OF m] by simp
  moreover have "w' = w0 \<or> w' = w1"
    using assms(1,2) i m late by (auto simp: install_body_def split: bool.splits prod.splits option.splits)
  ultimately show ?thesis using write_inputs_disk [OF i] by auto
qed

lemma in_workdir_early:
  assumes "in_workdir tools h g disk mnt before part w = (Some e, w')" "\<not> late_error e"
    "\<And>x. d_img (bw_disk (snd (tools (mkimage_argv g (work_dir mnt)) x))) = d_img (bw_disk x)"
  shows "d_img (bw_disk w') = d_img (bw_disk w)"
proof -
  obtain r w0 where m: "do_mkdir h (work_dir mnt) w = (r, w0)" by fastforce
  obtain r1 w1 where b: "install_body tools h g disk (work_dir mnt) before part w0 = (r1, w1)" by fastforce
  have "bw_disk w' = bw_disk w0 \<or> r1 = Some e \<and> bw_disk w' = bw_disk w1"
    using assms(1) m b by (auto simp: in_workdir_def Let_def split: if_splits)
  then have "d_img (bw_disk w') = d_img (bw_disk w0)"
    using install_body_early [of tools h g disk "work_dir mnt" before part w0 e w1] assms(2,3) b by auto
  with do_mkdir_disk [OF m] show ?thesis by simp
qed

text \<open>
  A failure before the setup tool leaves the disk alone. If the program that builds
  \<open>core.img\<close> does not write to the disk (it writes the file it is told to), an installation that ends with any
  error but a failed setup tool or a failed check afterwards has not changed one byte of the disk; so every
  missing tool, missing table, lack of a BIOS boot partition or lack of room is reported before the first
  write.
\<close>

theorem bios_install_early:
  assumes "rufux_windows_bios_install tools h disk mnt w = (Some e, w')" "\<not> late_error e"
    "\<And>g x. locate h w = Inr g \<Longrightarrow> d_img (bw_disk (snd (tools (mkimage_argv g (work_dir mnt)) x))) = d_img (bw_disk x)"
  shows "d_img (bw_disk w') = d_img (bw_disk w)"
proof (cases "locate h w")
  case (Inl e')
  with assms(1) show ?thesis by (simp add: rufux_windows_bios_install_def)
next
  case (Inr g)
  obtain r d where b: "read_mbr (bw_disk w) = (r, d)" by fastforce
  then have k: "d_img d = d_img (bw_disk w)" by (simp add: read_mbr_def read_at_keeps)
  obtain q d' where f: "find_part (the r) d = (q, d')" by fastforce
  have "bw_disk w' = d \<or> bw_disk w' = d' \<or>
      (\<exists>part. in_workdir tools h g disk mnt (the r) part (w\<lparr>bw_disk := d'\<rparr>) = (Some e, w'))"
    using assms(1) Inr b f by (auto simp: rufux_windows_bios_install_def split: option.splits if_splits sum.splits)
  then show ?thesis
    using in_workdir_early [of tools h g disk mnt "the r" _ "w\<lparr>bw_disk := d'\<rparr>" e w', OF _ assms(2) assms(3) [OF Inr]]
      k find_part_keeps [OF f] by fastforce
qed

section \<open>Examples\<close>
























text \<open>A GPT disk with one entry, the BIOS boot partition from LBA 34 to 2047.\<close>

definition demo_gpt :: dev where
  "demo_gpt =
     \<lparr>d_img = replicate 512 0 @ ascii ''EFI PART'' @ replicate 64 0 @ [2, 0, 0, 0, 0, 0, 0, 0, 1, 0, 0, 0, 128, 0, 0, 0] @
        replicate 424 0 @ bios_guid @ replicate 16 0 @ [34, 0, 0, 0, 0, 0, 0, 0, 255, 7, 0, 0, 0, 0, 0, 0] @ replicate 80 0,
      d_grows = False, d_sched = []\<rparr>"


end
