(* ===== verification/Create.thy ===== *)
theory Create
  imports LinuxPart Writer
begin

text \<open>
  The flows of \<open>src/linux/create.c\<close>: which operation is called when, with which arguments, and what happens
  when one of them fails. An operation of another part of the program (partitioning, formatting, mounting,
  extracting, writing boot code) is a value of \<open>cop\<close> with its arguments; what it does to the outside world and
  whether it succeeds is the environment record, so a theorem about a flow holds whatever the operations do.
  Operations that report progress carry the window of the bar they are given, its base and its width in per cent.
  The state records every call with its outcome, in order. The texts of the log callback and of the error
  messages are left out, but for one thing: where the code goes on after a failed operation and says so, the record
  has the event \<open>Warning\<close> with that operation.
\<close>

section \<open>Options, operations, state\<close>

record create_opts =
  co_mode :: bytes
  co_scheme :: bytes
  co_fs :: bytes
  co_label :: "bytes option"
  co_wue :: "bytes option"
  co_split_wim_mb :: nat
  co_locale :: "bytes option"
  co_keyboard :: "bytes option"
  co_timezone :: "bytes option"
  co_persist_mb :: nat
  co_cluster_sectors :: int
  co_quick_format :: bool
  co_extended_label :: bool
  co_uefi_validate :: bool
  co_badblock_passes :: nat
  co_verify :: bool
  co_ignore_smart :: bool
  co_dry_run :: bool
  co_allow_fixed :: bool
  co_allow_file :: bool
  co_yes :: bool

record mkfs_opts =
  mo_fs :: bytes
  mo_label :: "bytes option"
  mo_cluster_sectors :: int
  mo_dry_run :: bool
  mo_allow_fixed :: bool
  mo_allow_file :: bool
  mo_yes :: bool

record wue_args =
  wu_wue :: "bytes option"
  wu_locale :: "bytes option"
  wu_keyboard :: "bytes option"
  wu_timezone :: "bytes option"

datatype cop =
    NeedRoot bytes
  | Unmount bytes
  | SmartCheck bytes
  | BadblocksPass bytes bool nat nat nat
  | ZeroHead bytes nat nat
  | VdiskDetect bytes
  | VdiskWrite bytes bytes write_opts nat nat
  | VhdAdjust bytes
  | WriteImage bytes bytes write_opts nat nat
  | Partition bytes lpart_opts
  | Partprobe bytes
  | Settle
  | WaitNode bytes
  | Format bytes mkfs_opts
  | SyslinuxInstall bytes
  | Mount bytes
  | ExtractIso "bytes option" bytes bool nat nat
  | ExtractSplit bytes bytes nat bool nat nat
  | WriteAutorun bytes "bytes option" bool
  | CreatePersist bytes nat
  | BootcheckTree bytes
  | ValidateEfi bytes
  | InstallMbr bytes bool bool
  | DosCopyFiles bytes bytes
  | DosPbr bytes bytes
  | DosMbr bytes
  | WueCheck wue_args
  | WriteUefiNtfs bytes
  | WipeEdges bytes
  | Customize bytes wue_args
  | VerifyTree bytes
  | BiosInstall bytes bytes
  | SyncAll
  | Ntfsfix bytes
  | Warning cop

datatype create_error =
    Refused
  | Failed cop
  | SmartFailing
  | BadRegions nat
  | TooLargeForFat u64
  | NotBlock
  | NoFreedos
  | WindowsFs
  | NoSecondPartition
  | NoImage
  | UnknownMode

datatype smart_state = SmartNA | SmartPassed | SmartWarn | SmartFailed

text \<open>
  What the system answers (queries do not change the world) and what the operations do. \<open>ce_vdisk\<close>: \<open>None\<close> is
  a refusal, otherwise whether the file is a virtual disk. \<open>ce_vhd\<close>: \<open>None\<close> is a refusal, otherwise the new
  length limit, if it is a fixed VHD. \<open>ce_log\<close>: whether the caller passed a log callback; two flows only plan
  instead of acting in a dry run when it did.
\<close>

record 'w create_env =
  ce_log :: bool
  ce_is_block :: "'w \<Rightarrow> bytes \<Rightarrow> bool"
  ce_is_dir :: "'w \<Rightarrow> bytes \<Rightarrow> bool"
  ce_file_size :: "'w \<Rightarrow> bytes \<Rightarrow> u64"
  ce_readable :: "'w \<Rightarrow> bytes \<Rightarrow> bool"
  ce_mounts :: "'w \<Rightarrow> bytes option"
  ce_freedos :: "'w \<Rightarrow> bytes option"
  ce_have :: "'w \<Rightarrow> bytes \<Rightarrow> bool"
  ce_do :: "cop \<Rightarrow> 'w \<Rightarrow> bool \<times> 'w"
  ce_mount :: "bytes \<Rightarrow> 'w \<Rightarrow> bytes option \<times> 'w"
  ce_smart :: "bytes \<Rightarrow> 'w \<Rightarrow> smart_state \<times> 'w"
  ce_badblocks :: "cop \<Rightarrow> 'w \<Rightarrow> nat option \<times> 'w"
  ce_vdisk :: "bytes \<Rightarrow> 'w \<Rightarrow> bool option \<times> 'w"
  ce_vhd :: "bytes \<Rightarrow> 'w \<Rightarrow> nat option option \<times> 'w"

record 'w create_state =
  cs_world :: 'w
  cs_trace :: "(cop \<times> bool) list"
  cs_progress :: "nat list"

type_synonym 'w flow = "'w create_state \<Rightarrow> create_error option \<times> 'w create_state"

section \<open>Putting steps together\<close>

definition skip :: "'w flow" where
  "skip s = (None, s)"

definition fails :: "create_error \<Rightarrow> 'w flow" where
  "fails e s = (Some e, s)"

text \<open>\<open>if (f () != 0) return -1; g ();\<close>\<close>

definition andthen :: "'w flow \<Rightarrow> 'w flow \<Rightarrow> 'w flow" where
  "andthen f g s = (case f s of (Some e, s) \<Rightarrow> (Some e, s) | (None, s) \<Rightarrow> g s)"

fun steps :: "'w flow list \<Rightarrow> 'w flow" where
  "steps [] = skip"
| "steps (f # fs) = andthen f (steps fs)"

text \<open>\<open>g\<close> runs whatever came of \<open>f\<close>; its own result does not count.\<close>

definition also_do :: "'w flow \<Rightarrow> 'w flow \<Rightarrow> 'w flow" where
  "also_do f g s = (case f s of (r, s) \<Rightarrow> (r, snd (g s)))"

text \<open>\<open>g\<close> runs whatever came of \<open>f\<close>; the first error counts.\<close>

definition finally_do :: "'w flow \<Rightarrow> 'w flow \<Rightarrow> 'w flow" where
  "finally_do f g s = (case f s of (r, s) \<Rightarrow> (case g s of (r', s) \<Rightarrow> (if r = None then r' else r, s)))"

definition advisory :: "'w flow \<Rightarrow> 'w flow" where
  "advisory f s = (None, snd (f s))"

definition only :: "bool \<Rightarrow> 'w flow \<Rightarrow> 'w flow" where
  "only b f = (if b then f else skip)"

definition asking :: "('w \<Rightarrow> 'b) \<Rightarrow> ('b \<Rightarrow> 'w flow) \<Rightarrow> 'w flow" where
  "asking q k s = k (q (cs_world s)) s"

definition record_call :: "cop \<Rightarrow> bool \<Rightarrow> 'w \<Rightarrow> 'w create_state \<Rightarrow> 'w create_state" where
  "record_call c ok w s = s\<lparr>cs_world := w, cs_trace := cs_trace s @ [(c, ok)]\<rparr>"

definition call :: "'w create_env \<Rightarrow> cop \<Rightarrow> 'w flow" where
  "call E c s = (case ce_do E c (cs_world s) of (ok, w) \<Rightarrow> (if ok then None else Some (Failed c), record_call c ok w s))"

text \<open>The failure of \<open>c\<close> does not end the flow; the log callback, when there is one, is told.\<close>

definition warned :: "'w create_env \<Rightarrow> cop \<Rightarrow> 'w flow" where
  "warned E c s =
     (case call E c s of (r, s) \<Rightarrow>
        (None, if r \<noteq> None \<and> ce_log E then record_call (Warning c) True (cs_world s) s else s))"

text \<open>A call with an answer: \<open>None\<close> is a failure.\<close>

definition calling :: "cop \<Rightarrow> ('w \<Rightarrow> 'b option \<times> 'w) \<Rightarrow> ('b \<Rightarrow> 'w flow) \<Rightarrow> 'w flow" where
  "calling c f k s =
     (case f (cs_world s) of
        (None, w) \<Rightarrow> (Some (Failed c), record_call c False w s)
      | (Some b, w) \<Rightarrow> k b (record_call c True w s))"

definition stage :: "nat \<Rightarrow> 'w flow" where
  "stage pct s = (None, if pct \<le> 100 then s\<lparr>cs_progress := cs_progress s @ [pct]\<rparr> else s)"

section \<open>Helpers\<close>

text \<open>The window of the progress bar: \<open>done\<close> of \<open>total\<close> in 64-bit arithmetic.\<close>

definition mapped :: "u64 \<Rightarrow> u64 \<Rightarrow> u64 \<Rightarrow> u64 \<Rightarrow> u64" where
  "mapped base width part tot =
     (let add = width * part div tot;
          add = (if width < add then width else add);
          v = (if tot \<noteq> 0 then base + add else base)
      in if 100 < v then 100 else v)"

definition part1 :: "bytes \<Rightarrow> bytes" where
  "part1 disk = disk @ (if disk \<noteq> [] \<and> 48 \<le> last disk \<and> last disk \<le> 57 then ascii ''p1'' else ascii ''1'')"

definition p2_of :: "bytes \<Rightarrow> bytes option" where
  "p2_of p1 = (if length p1 < 2 \<or> last p1 \<noteq> 49 then None else Some (butlast p1 @ [50]))"

definition fs_is_fat :: "bytes \<Rightarrow> bool" where
  "fs_is_fat fs \<longleftrightarrow> fs = ascii ''vfat'' \<or> fs = ascii ''fat32'' \<or> fs = ascii ''fat16''"

definition first_word :: "bytes \<Rightarrow> bytes" where
  "first_word line = take 511 (takeWhile (\<lambda>c. \<not> is_space c) (dropWhile is_space line))"

text \<open>Whether a device node is the disk \<open>base\<close> or one of its partitions, by its name.\<close>

definition node_of :: "bytes \<Rightarrow> bytes \<Rightarrow> bool" where
  "node_of base node \<longleftrightarrow>
     starts (ascii ''/dev/'') node \<and> starts base (drop 5 node) \<and>
     (let rest = drop (length base) (drop 5 node)
      in rest = [] \<or> hd rest = 112 \<or> 48 \<le> hd rest \<and> hd rest \<le> 57)"

fun collect_parts :: "bytes \<Rightarrow> bytes list \<Rightarrow> bytes list \<Rightarrow> bytes list" where
  "collect_parts base [] parts = parts"
| "collect_parts base (line # ls) parts =
     (if 32 \<le> length parts then parts
      else let node = first_word (cstr line)
           in if node = [] \<or> \<not> node_of base node \<or> node \<in> set parts then collect_parts base ls parts
              else collect_parts base ls (parts @ [clip 128 node]))"

definition mounted_parts :: "bytes \<Rightarrow> bytes option \<Rightarrow> bytes list" where
  "mounted_parts dst mounts =
     (case mounts of None \<Rightarrow> [] | Some t \<Rightarrow> collect_parts (after_last 47 dst) (fgets_all 1024 t) [])"

definition unmount_disk :: "'w create_env \<Rightarrow> bytes \<Rightarrow> 'w flow" where
  "unmount_disk E dst =
     asking (ce_mounts E) (\<lambda>mounts. steps (map (\<lambda>p. call E (Unmount p)) (mounted_parts dst mounts)))"

definition rescan_disk :: "'w create_env \<Rightarrow> bytes \<Rightarrow> 'w flow" where
  "rescan_disk E dst =
     steps [asking (\<lambda>w. ce_have E w (ascii ''partprobe'')) (\<lambda>b. only b (advisory (call E (Partprobe dst)))),
            asking (\<lambda>w. ce_have E w (ascii ''udevadm'')) (\<lambda>b. only b (advisory (call E Settle)))]"

definition syslinux_best_effort :: "'w create_env \<Rightarrow> bytes \<Rightarrow> 'w flow" where
  "syslinux_best_effort E part =
     asking (\<lambda>w. ce_have E w (ascii ''syslinux'')) (\<lambda>b. only b (call E (SyslinuxInstall part)))"

definition vfat_size_guard :: "'w create_env \<Rightarrow> bytes option \<Rightarrow> bytes \<Rightarrow> 'w flow" where
  "vfat_size_guard E src fs =
     only (fs_is_fat fs)
       (asking (\<lambda>w. case src of None \<Rightarrow> 0 | Some p \<Rightarrow> ce_file_size E w p)
          (\<lambda>sz. if 0xFFFFFFFF < sz then fails (TooLargeForFat sz) else skip))"

definition badblocks_pass :: "'w create_env \<Rightarrow> cop \<Rightarrow> 'w flow" where
  "badblocks_pass E c = calling c (ce_badblocks E c) (\<lambda>bad. if bad \<noteq> 0 then fails (BadRegions bad) else skip)"

definition run_badblocks :: "'w create_env \<Rightarrow> bytes \<Rightarrow> nat \<Rightarrow> bool \<Rightarrow> nat \<Rightarrow> nat \<Rightarrow> 'w flow" where
  "run_badblocks E dst passes allow_file base width =
     steps (map (\<lambda>i. badblocks_pass E
         (BadblocksPass dst allow_file (i - 1) (base + width * (i - 1) div passes) (width div passes)))
       [1..<passes + 1])"

text \<open>Clearing the boot area: sixteen chunks of 1 MiB from the start; and the edges of a partition.\<close>

fun zero_chunks :: "nat \<Rightarrow> nat \<Rightarrow> dev \<Rightarrow> bool \<times> dev" where
  "zero_chunks 0 pos d = (True, d)"
| "zero_chunks (Suc n) pos d =
     (case write_chunk (replicate CHUNK 0) pos d of
        (Some e, d) \<Rightarrow> (False, d)
      | (None, d) \<Rightarrow> zero_chunks n (pos + CHUNK) d)"

definition zero_head :: "bool \<Rightarrow> bool \<Rightarrow> dev \<Rightarrow> bool \<times> dev" where
  "zero_head opens fsync d =
     (if \<not> opens then (False, d) else case zero_chunks 16 0 d of (ok, d) \<Rightarrow> (ok \<and> fsync, d))"

text \<open>\<open>sz\<close>: the size \<open>BLKGETSIZE64\<close> reports, 0 when it fails.\<close>

definition wipe_part_edges :: "bool \<Rightarrow> nat \<Rightarrow> bool \<Rightarrow> dev \<Rightarrow> bool \<times> dev" where
  "wipe_part_edges opens sz fsync d =
     (if \<not> opens then (False, d)
      else case pwrite_all (replicate (if sz \<noteq> 0 \<and> sz < CHUNK then sz else CHUNK) 0) 0 d of
          (False, d) \<Rightarrow> (False, d)
        | (True, d) \<Rightarrow>
            if 2 * CHUNK < sz
            then case pwrite_all (replicate CHUNK 0) (int (sz - CHUNK)) d of (ok, d) \<Rightarrow> (ok \<and> fsync, d)
            else (fsync, d))"

section \<open>The flows\<close>

definition is_dos :: "bytes \<Rightarrow> bool" where "is_dos scheme \<longleftrightarrow> scheme = ascii ''dos''"

definition part_opts :: "bytes \<Rightarrow> bytes \<Rightarrow> bytes \<Rightarrow> bool \<Rightarrow> create_opts \<Rightarrow> lpart_opts" where
  "part_opts scheme layout fs bios co =
     \<lparr>lo_scheme = scheme, lo_layout = layout, lo_fs_main = Some fs, lo_bios_boot = bios, lo_dry_run = False,
      lo_allow_fixed = co_allow_fixed co, lo_allow_file = False, lo_yes = True\<rparr>"

definition format_opts :: "bytes \<Rightarrow> bool \<Rightarrow> create_opts \<Rightarrow> mkfs_opts" where
  "format_opts fs allow_file co =
     \<lparr>mo_fs = fs, mo_label = co_label co, mo_cluster_sectors = co_cluster_sectors co, mo_dry_run = False,
      mo_allow_fixed = co_allow_fixed co, mo_allow_file = allow_file, mo_yes = True\<rparr>"

text \<open>The raw write: a virtual disk is converted, a fixed VHD cut at its footer, anything else copied.\<close>

definition dd_opts :: "create_opts \<Rightarrow> write_opts" where
  "dd_opts co =
     \<lparr>wo_dry_run = co_dry_run co, wo_verify = co_verify co, wo_allow_fixed = co_allow_fixed co,
      wo_allow_file = co_allow_file co, wo_yes = co_yes co, wo_src_len = 0\<rparr>"

definition flow_dd :: "'w create_env \<Rightarrow> bytes \<Rightarrow> bytes \<Rightarrow> create_opts \<Rightarrow> 'w flow" where
  "flow_dd E src dst co =
     (let width = (if co_verify co then 70 else 85)
      in calling (VdiskDetect src) (ce_vdisk E src) (\<lambda>is_vdisk.
           if is_vdisk then steps [call E (VdiskWrite src dst (dd_opts co) 15 width), stage 100]
           else calling (VhdAdjust src) (ce_vhd E src) (\<lambda>len.
             steps [call E (WriteImage src dst ((dd_opts co)\<lparr>wo_src_len := (case len of None \<Rightarrow> 0 | Some n \<Rightarrow> n)\<rparr>) 15 width),
                    stage 100])))"

definition flow_extract_dir :: "'w create_env \<Rightarrow> bytes option \<Rightarrow> bytes \<Rightarrow> create_opts \<Rightarrow> 'w flow" where
  "flow_extract_dir E src dir co =
     steps
       [vfat_size_guard E src (co_fs co),
        call E (ExtractIso src dir (co_dry_run co) 0 90),
        only (co_extended_label co) (call E (WriteAutorun dir (co_label co) (co_dry_run co))),
        only (co_persist_mb co \<noteq> 0 \<and> \<not> co_dry_run co) (call E (CreatePersist dir (co_persist_mb co))),
        stage 100]"

definition boot_code_step :: "'w create_env \<Rightarrow> bytes \<Rightarrow> create_opts \<Rightarrow> 'w flow" where
  "boot_code_step E p1 co =
     only (is_dos (co_scheme co) \<and> (fs_is_fat (co_fs co) \<or> starts (ascii ''ext'') (co_fs co))) (syslinux_best_effort E p1)"

definition install_mbr_step :: "'w create_env \<Rightarrow> bytes \<Rightarrow> create_opts \<Rightarrow> 'w flow" where
  "install_mbr_step E dst co = call E (InstallMbr dst (co_scheme co = ascii ''gpt'') (co_allow_fixed co))"

definition validate_step :: "'w create_env \<Rightarrow> bytes \<Rightarrow> create_opts \<Rightarrow> 'w flow" where
  "validate_step E efi co =
     only (co_uefi_validate co)
       (asking (\<lambda>w. ce_readable E w efi) (\<lambda>b. only b (warned E (ValidateEfi efi))))"

text \<open>
  In the flows with a mounted partition everything between mount and unmount keeps the first error
  (\<open>rc\<close>), and the unmount comes in any case.
\<close>

definition flow_extract_disk :: "'w create_env \<Rightarrow> bytes option \<Rightarrow> bytes \<Rightarrow> create_opts \<Rightarrow> 'w flow" where
  "flow_extract_disk E src dst co =
     (let p1 = part1 dst
      in andthen (vfat_size_guard E src (co_fs co))
           (if co_dry_run co \<and> ce_log E then skip
            else steps
              [call E (Partition dst (part_opts (co_scheme co) (ascii ''single'') (co_fs co) False co)),
               stage 4,
               rescan_disk E dst,
               call E (WaitNode p1),
               only (\<not> co_quick_format co) (call E (ZeroHead p1 4 2)),
               call E (Format p1 (format_opts (co_fs co) False co)),
               stage 8,
               boot_code_step E p1 co,
               calling (Mount p1) (ce_mount E p1) (\<lambda>mnt.
                 andthen
                   (finally_do
                     (also_do
                       (andthen
                         (also_do
                           (steps
                             [call E (ExtractIso src mnt False 8 74),
                              only (co_extended_label co) (call E (WriteAutorun mnt (co_label co) False)),
                              only (co_persist_mb co \<noteq> 0) (call E (CreatePersist mnt (co_persist_mb co)))])
                           (stage 88))
                         (steps
                           [advisory (call E (BootcheckTree mnt)),
                            validate_step E (mnt @ ascii ''/EFI/BOOT/bootx64.efi'') co]))
                       (stage 90))
                     (call E (Unmount p1)))
                   (steps [install_mbr_step E dst co, stage 100]))]))"

definition flow_format :: "'w create_env \<Rightarrow> bytes \<Rightarrow> create_opts \<Rightarrow> 'w flow" where
  "flow_format E dst co =
     asking (\<lambda>w. ce_is_block E w dst) (\<lambda>block.
       if co_dry_run co then skip
       else if block then
         (let p1 = part1 dst
          in steps
            [call E (Partition dst (part_opts (co_scheme co) (ascii ''single'') (co_fs co) False co)),
             stage 30,
             rescan_disk E dst,
             call E (WaitNode p1),
             only (\<not> co_quick_format co) (call E (ZeroHead p1 30 10)),
             call E (Format p1 (format_opts (co_fs co) False co)),
             stage 85,
             boot_code_step E p1 co,
             install_mbr_step E dst co,
             stage 100])
       else steps [call E (Format dst (format_opts (co_fs co) True co)), stage 100])"

definition flow_dos :: "'w create_env \<Rightarrow> bytes \<Rightarrow> create_opts \<Rightarrow> 'w flow" where
  "flow_dos E dst co =
     (if co_dry_run co then skip
      else asking (\<lambda>w. ce_is_block E w dst) (\<lambda>block.
        if \<not> block then fails NotBlock
        else asking (ce_freedos E) (\<lambda>fd.
          case fd of
            None \<Rightarrow> fails NoFreedos
          | Some fd \<Rightarrow>
              (let p1 = part1 dst
               in steps
                 [call E (Partition dst (part_opts (ascii ''dos'') (ascii ''single'') (ascii ''vfat'') False co)),
                  stage 10,
                  rescan_disk E dst,
                  call E (WaitNode p1),
                  call E (Format p1 (format_opts (ascii ''vfat'') False co)),
                  stage 20,
                  calling (Mount p1) (ce_mount E p1) (\<lambda>mnt s.
                    case andthen
                        (finally_do (also_do (call E (DosCopyFiles fd mnt)) (stage 70)) (call E (Unmount p1)))
                        (steps
                          [call E (DosPbr p1 (clip 12 (case co_label co of None \<Rightarrow> ascii ''FREEDOS'' | Some l \<Rightarrow> l))),
                           call E (DosMbr dst)]) s of
                      (r, s) \<Rightarrow> (r, snd (stage (if r = None then 100 else 70) s)))]))))"

definition wue_of :: "create_opts \<Rightarrow> wue_args" where
  "wue_of co = \<lparr>wu_wue = co_wue co, wu_locale = co_locale co, wu_keyboard = co_keyboard co, wu_timezone = co_timezone co\<rparr>"

definition windows_fat :: "create_opts \<Rightarrow> bool" where
  "windows_fat co \<longleftrightarrow> co_fs co = ascii ''vfat'' \<or> co_fs co = ascii ''fat32''"

definition extract_windows :: "'w create_env \<Rightarrow> bytes \<Rightarrow> bytes \<Rightarrow> create_opts \<Rightarrow> 'w flow" where
  "extract_windows E src mnt co =
     (if windows_fat co \<or> co_split_wim_mb co \<noteq> 0
      then call E (ExtractSplit src mnt (if co_split_wim_mb co \<noteq> 0 then co_split_wim_mb co else 3800)
             (co_split_wim_mb co \<noteq> 0) 10 70)
      else call E (ExtractIso (Some src) mnt False 10 70))"

text \<open>The work on the mounted Windows partition, with the unmount at its end.\<close>

definition windows_mounted :: "'w create_env \<Rightarrow> bytes \<Rightarrow> bytes \<Rightarrow> bytes \<Rightarrow> bytes \<Rightarrow> create_opts \<Rightarrow> 'w flow" where
  "windows_mounted E src dst p1 mnt co =
     finally_do
       (also_do
         (andthen
           (also_do
             (andthen
               (also_do
                 (steps
                   [extract_windows E src mnt co,
                    only (co_wue co \<noteq> None \<and> co_wue co \<noteq> Some (ascii ''none'')) (call E (Customize mnt (wue_of co)))])
                 (stage 88))
               (steps
                 [call E (VerifyTree mnt),
                  advisory (call E (BootcheckTree mnt)),
                  validate_step E (mnt @ ascii ''/efi/boot/bootx64.efi'') co]))
             (stage 90))
           (warned E (BiosInstall dst mnt)))
         (advisory (call E SyncAll)))
       (call E (Unmount p1))"

definition flow_windows :: "'w create_env \<Rightarrow> bytes \<Rightarrow> bytes \<Rightarrow> create_opts \<Rightarrow> 'w flow" where
  "flow_windows E src dst co =
     (let gpt = (\<not> is_dos (co_scheme co)); fat = windows_fat co;
          fsname = (if fat then ascii ''vfat'' else ascii ''ntfs''); p1 = part1 dst
      in if \<not> fat \<and> co_fs co \<noteq> ascii ''ntfs'' then fails WindowsFs
         else if co_dry_run co \<and> ce_log E then skip
         else andthen (call E (WueCheck (wue_of co)))
           (if \<not> fat \<and> p2_of p1 = None then fails NoSecondPartition
            else let p2 = the (p2_of p1)
                 in steps
                   [call E (Partition dst (part_opts (if gpt then ascii ''gpt'' else ascii ''dos'')
                      (if fat then ascii ''single'' else ascii ''main+uefintfs'') fsname gpt co)),
                    stage 5,
                    rescan_disk E dst,
                    call E (WaitNode p1),
                    only (\<not> fat) (steps [call E (WaitNode p2), call E (WriteUefiNtfs p2)]),
                    only (\<not> co_quick_format co) (call E (ZeroHead p1 5 3)),
                    call E (WipeEdges p1),
                    call E (Format p1 (format_opts fsname False co)),
                    rescan_disk E dst,
                    stage 10,
                    (\<lambda>s. case calling (Mount p1) (ce_mount E p1) (\<lambda>mnt. windows_mounted E src dst p1 mnt co) s of
                       r \<Rightarrow> if fst (ce_mount E p1 (cs_world s)) \<noteq> None then r
                         else steps
                           [rescan_disk E dst,
                            calling (Mount p1) (ce_mount E p1) (\<lambda>mnt. windows_mounted E src dst p1 mnt co)] (snd r)),
                    only (\<not> fat)
                      (asking (\<lambda>w. ce_have E w (ascii ''ntfsfix'')) (\<lambda>b. only b (warned E (Ntfsfix p1)))),
                    stage 100]))"

section \<open>\<open>rufux_create\<close>\<close>

text \<open>\<open>mbr\<close> is another name of the scheme \<open>dos\<close>.\<close>

definition normalised :: "create_opts \<Rightarrow> create_opts" where
  "normalised co = (if co_scheme co = ascii ''mbr'' then co\<lparr>co_scheme := ascii ''dos''\<rparr> else co)"

definition unmount_target :: "'w create_env \<Rightarrow> bytes \<Rightarrow> create_opts \<Rightarrow> 'w flow" where
  "unmount_target E dst co =
     only (\<not> co_dry_run co)
       (asking (\<lambda>w. ce_is_block E w dst) (\<lambda>b. only b (steps [call E (NeedRoot dst), unmount_disk E dst])))"

definition health_check :: "'w create_env \<Rightarrow> bytes \<Rightarrow> create_opts \<Rightarrow> 'w flow" where
  "health_check E dst co =
     asking (\<lambda>w. ce_is_block E w dst) (\<lambda>b.
       only (b \<and> \<not> co_dry_run co)
         (calling (SmartCheck dst) (\<lambda>w. map_prod Some id (ce_smart E dst w)) (\<lambda>ss.
            if ss = SmartFailed \<and> \<not> co_ignore_smart co then fails SmartFailing else skip)))"

definition is_mode :: "string \<Rightarrow> create_opts \<Rightarrow> bool" where
  "is_mode m co \<longleftrightarrow> co_mode co = ascii m"

definition run_flow :: "'w create_env \<Rightarrow> bytes option \<Rightarrow> bytes \<Rightarrow> create_opts \<Rightarrow> 'w flow" where
  "run_flow E src dst co =
     (if is_mode ''dd'' co then flow_dd E (case src of None \<Rightarrow> [] | Some p \<Rightarrow> p) dst co
      else if is_mode ''extract'' co
      then asking (\<lambda>w. ce_is_dir E w dst) (\<lambda>d. if d then flow_extract_dir E src dst co else flow_extract_disk E src dst co)
      else if is_mode ''format'' co then flow_format E dst co
      else if is_mode ''dos'' co then flow_dos E dst co
      else if is_mode ''windows'' co
      then (case src of None \<Rightarrow> fails NoImage | Some p \<Rightarrow> flow_windows E p dst co)
      else fails UnknownMode)"

definition rufux_create :: "'w create_env \<Rightarrow> bytes option \<Rightarrow> bytes \<Rightarrow> create_opts \<Rightarrow> 'w flow" where
  "rufux_create E src dst opts =
     (let co = normalised opts
      in if \<not> co_dry_run co \<and> \<not> co_yes co then fails Refused
         else steps
           [unmount_target E dst co,
            health_check E dst co,
            only (0 < co_badblock_passes co \<and> \<not> co_dry_run co)
              (run_badblocks E dst (co_badblock_passes co) (co_allow_file co) 0 (if is_mode ''dd'' co then 10 else 8)),
            only (\<not> co_dry_run co \<and> \<not> co_quick_format co \<and> is_mode ''dd'' co)
              (asking (\<lambda>w. ce_is_block E w dst) (\<lambda>b. only b (call E (ZeroHead dst 10 5)))),
            run_flow E src dst co])"

end
