(* ===== verification/CreateProps.thy ===== *)
theory CreateProps
  imports Create
begin

text \<open>
  Properties of the flows that hold whatever the operations do: a dry run performs no operation that writes, a
  run that is refused has called nothing, a failing drive is left alone, no failed step is passed over, a
  partition that was mounted is unmounted, and a Windows drive is built in the one right order. Each is a law
  of the trace a flow leaves; the locale says when such a law holds for a composition.
\<close>

section \<open>Laws of traces\<close>

text \<open>The flow adds some events to the trace, and its result and these events satisfy \<open>R\<close>.\<close>

definition leaves :: "(create_error option \<Rightarrow> (cop \<times> bool) list \<Rightarrow> bool) \<Rightarrow> 'w flow \<Rightarrow> bool" where
  "leaves R f \<longleftrightarrow> (\<forall>s. \<exists>t. cs_trace (snd (f s)) = cs_trace s @ t \<and> R (fst (f s)) t)"

lemma leavesI: "(\<And>s. \<exists>t. cs_trace (snd (f s)) = cs_trace s @ t \<and> R (fst (f s)) t) \<Longrightarrow> leaves R f"
  by (simp add: leaves_def)

lemma leavesE:
  assumes "leaves R f" "f s = (r, s')"
  obtains t where "cs_trace s' = cs_trace s @ t" "R r t"
  using assms unfolding leaves_def by (metis fst_conv snd_conv)

lemma leaves_mono: "leaves R f \<Longrightarrow> (\<And>r t. R r t \<Longrightarrow> Q r t) \<Longrightarrow> leaves Q f"
  unfolding leaves_def by blast

lemma run_two:
  assumes "leaves P f" "leaves Q g"
  obtains r s1 t q s2 u where "f s = (r, s1)" "g s1 = (q, s2)" "cs_trace s1 = cs_trace s @ t" "P r t"
    "cs_trace s2 = cs_trace s1 @ u" "Q q u"
  by (metis assms leavesE surj_pair)

text \<open>Rules that hold for every law.\<close>

lemma leaves_asking: "(\<And>b. leaves R (k b)) \<Longrightarrow> leaves R (asking q k)"
  by (simp add: leaves_def asking_def)

lemma leaves_call: "R None [(c, True)] \<Longrightarrow> R (Some (Failed c)) [(c, False)] \<Longrightarrow> leaves R (call E c)"
  by (rule leavesI) (auto simp: call_def record_call_def split: prod.splits)

lemma leaves_advisory: "leaves (\<lambda>r t. R None t) f \<Longrightarrow> leaves R (advisory f)"
  by (simp add: leaves_def advisory_def)

lemma leaves_warned:
  assumes "R None [(c, True)]" "R None ((c, False) # (if ce_log E then [(Warning c, True)] else []))"
  shows "leaves R (warned E c)" "leaves (\<lambda>r t. R None t) (warned E c)"
proof -
  have "\<exists>t. cs_trace (snd (warned E c s)) = cs_trace s @ t \<and> R (fst (warned E c s)) t \<and> R None t" for s
    using assms by (cases "fst (ce_do E c (cs_world s))")
      (auto simp: warned_def call_def record_call_def case_prod_unfold split: if_splits)
  then show "leaves R (warned E c)" "leaves (\<lambda>r t. R None t) (warned E c)" unfolding leaves_def by blast+
qed

lemma leaves_calling:
  fixes f :: "'w \<Rightarrow> 'b option \<times> 'w"
  assumes "R (Some (Failed c)) [(c, False)]" "\<And>b. leaves (\<lambda>r t. R r ((c, True) # t)) (k b)"
  shows "leaves R (calling c f k)"
proof (rule leavesI)
  fix s :: "'w create_state"
  obtain a w where f: "f (cs_world s) = (a, w)" by fastforce
  show "\<exists>t. cs_trace (snd (calling c f k s)) = cs_trace s @ t \<and> R (fst (calling c f k s)) t"
  proof (cases a)
    case None
    with f assms(1) show ?thesis by (auto simp: calling_def record_call_def)
  next
    case (Some b)
    from assms(2) [of b] obtain t where
      "cs_trace (snd (k b (record_call c True w s))) = cs_trace (record_call c True w s) @ t"
      "R (fst (k b (record_call c True w s))) ((c, True) # t)" unfolding leaves_def by blast
    with f Some show ?thesis by (intro exI [of _ "(c, True) # t"]) (simp add: calling_def record_call_def)
  qed
qed

text \<open>A law that composes: it holds for the empty trace, and for a trace and what may come after it.\<close>

locale trace_law =
  fixes R :: "create_error option \<Rightarrow> (cop \<times> bool) list \<Rightarrow> bool"
  assumes law_empty: "R r []"
    and law_seq: "R None t \<Longrightarrow> R r u \<Longrightarrow> R r (t @ u)"
    and law_after: "R (Some e) t \<Longrightarrow> R r u \<Longrightarrow> R (Some e) (t @ u)"
begin

lemma leaves_skip: "leaves R skip"
  by (rule leavesI) (simp add: skip_def law_empty)

lemma leaves_fails: "leaves R (fails e)"
  by (rule leavesI) (simp add: fails_def law_empty)

lemma leaves_stage: "leaves R (stage n)"
  by (rule leavesI) (simp add: stage_def law_empty)

lemma leaves_andthen:
  assumes "leaves R f" "leaves R g"
  shows "leaves R (andthen f g)"
proof (rule leavesI)
  fix s
  obtain r s1 t q s2 u where f: "f s = (r, s1)" and g: "g s1 = (q, s2)" and t: "cs_trace s1 = cs_trace s @ t" "R r t"
    and u: "cs_trace s2 = cs_trace s1 @ u" "R q u" using assms by (rule run_two)
  show "\<exists>t. cs_trace (snd (andthen f g s)) = cs_trace s @ t \<and> R (fst (andthen f g s)) t"
    using t u f g law_seq [of t q u] by (cases r) (auto simp: andthen_def)
qed

lemma leaves_Nil: "leaves R (steps [])"
  by (simp add: leaves_skip)

lemma leaves_Cons: "leaves R f \<Longrightarrow> leaves R (steps fs) \<Longrightarrow> leaves R (steps (f # fs))"
  by (simp add: leaves_andthen)

lemma leaves_map: "(\<And>x. x \<in> set xs \<Longrightarrow> leaves R (f x)) \<Longrightarrow> leaves R (steps (map f xs))"
  by (induction xs) (auto intro: leaves_skip leaves_andthen)

lemma leaves_only: "(b \<Longrightarrow> leaves R f) \<Longrightarrow> leaves R (only b f)"
  by (simp add: only_def leaves_skip)

lemma leaves_finally:
  assumes "leaves R f" "leaves R g"
  shows "leaves R (finally_do f g)"
proof (rule leavesI)
  fix s
  obtain r s1 t q s2 u where f: "f s = (r, s1)" and g: "g s1 = (q, s2)" and t: "cs_trace s1 = cs_trace s @ t" "R r t"
    and u: "cs_trace s2 = cs_trace s1 @ u" "R q u" using assms by (rule run_two)
  show "\<exists>t. cs_trace (snd (finally_do f g s)) = cs_trace s @ t \<and> R (fst (finally_do f g s)) t"
    using t u f g law_seq [of t q u] law_after [of _ t q u] by (cases r) (auto simp: finally_do_def)
qed

text \<open>A step whose own result does not count has to obey the law as if it had succeeded.\<close>

lemma leaves_also:
  assumes "leaves R f" "leaves (\<lambda>r t. R None t) g"
  shows "leaves R (also_do f g)"
proof (rule leavesI)
  fix s
  obtain r s1 t q s2 u where f: "f s = (r, s1)" and g: "g s1 = (q, s2)" and t: "cs_trace s1 = cs_trace s @ t" "R r t"
    and u: "cs_trace s2 = cs_trace s1 @ u" "R None u" using assms by (rule run_two)
  show "\<exists>t. cs_trace (snd (also_do f g s)) = cs_trace s @ t \<and> R (fst (also_do f g s)) t"
    using t u f g law_seq [of t None u] law_after [of _ t None u] by (cases r) (auto simp: also_do_def)
qed

lemma leaves_stage_None: "leaves (\<lambda>r t. R None t) (stage n)"
  by (rule leavesI) (simp add: stage_def law_empty)

lemma leaves_advisory_None: "leaves (\<lambda>r t. R None t) f \<Longrightarrow> leaves (\<lambda>r t. R None t) (advisory f)"
  by (simp add: leaves_def advisory_def)

lemma leaves_rescan: "R None [(Partprobe dst, True)] \<Longrightarrow> R None [(Partprobe dst, False)] \<Longrightarrow>
    R None [(Settle, True)] \<Longrightarrow> R None [(Settle, False)] \<Longrightarrow> leaves R (rescan_disk E dst)"
  unfolding rescan_disk_def
  by (intro leaves_Cons leaves_Nil leaves_asking leaves_only leaves_advisory leaves_call)

lemmas leaves_rules = leaves_skip leaves_fails leaves_stage leaves_andthen leaves_Nil leaves_Cons leaves_map leaves_only leaves_finally
  leaves_also leaves_stage_None leaves_advisory_None leaves_asking leaves_advisory leaves_rescan

end

section \<open>The laws\<close>

text \<open>Operations that write to the target or to something on it. A dry-run flag makes three of them harmless.\<close>

fun writes :: "cop \<Rightarrow> bool" where
  "writes (BadblocksPass dst af i b n) = True"
| "writes (ZeroHead dst b n) = True"
| "writes (VdiskWrite src dst wo b n) = (\<not> wo_dry_run wo)"
| "writes (WriteImage src dst wo b n) = (\<not> wo_dry_run wo)"
| "writes (Partition dst po) = (\<not> lo_dry_run po)"
| "writes (Format dst mo) = (\<not> mo_dry_run mo)"
| "writes (SyslinuxInstall p) = True"
| "writes (ExtractIso src dir dry b n) = (\<not> dry)"
| "writes (ExtractSplit src dir mb force b n) = True"
| "writes (WriteAutorun dir label dry) = (\<not> dry)"
| "writes (CreatePersist dir mb) = True"
| "writes (InstallMbr dst gpt af) = True"
| "writes (DosCopyFiles fd mnt) = True"
| "writes (DosPbr p l) = True"
| "writes (DosMbr dst) = True"
| "writes (WriteUefiNtfs p) = True"
| "writes (WipeEdges p) = True"
| "writes (Customize mnt wa) = True"
| "writes (BiosInstall dst mnt) = True"
| "writes (Ntfsfix p) = True"
| "writes _ = False"

definition harmless :: "create_error option \<Rightarrow> (cop \<times> bool) list \<Rightarrow> bool" where
  "harmless r t \<longleftrightarrow> (\<forall>(c, ok)\<in>set t. \<not> writes c)"

interpretation harmless: trace_law harmless
  by unfold_locales (auto simp: harmless_def)

text \<open>Steps whose result nobody looks at: re-reading the partition table, the check of the boot loaders, \<open>sync\<close>.\<close>

fun silent :: "cop \<Rightarrow> bool" where
  "silent (Partprobe d) = True"
| "silent Settle = True"
| "silent (BootcheckTree m) = True"
| "silent SyncAll = True"
| "silent _ = False"

text \<open>Steps whose failure is told to the user but does not end the run.\<close>

fun told :: "cop \<Rightarrow> bool" where
  "told (ValidateEfi e) = True"
| "told (BiosInstall d m) = True"
| "told (Ntfsfix p) = True"
| "told _ = False"

text \<open>
  A success is one without a failed step, but for those whose result nobody looks at, those the user was told of (when
  there is somebody to tell, \<open>lg\<close>), and a mount that was tried again.
\<close>

definition excuse :: "bool \<Rightarrow> (cop \<times> bool) list \<Rightarrow> cop \<Rightarrow> bool" where
  "excuse lg t c \<longleftrightarrow> silent c \<or> (told c \<and> (lg \<longrightarrow> (Warning c, True) \<in> set t)) \<or> (\<exists>p. c = Mount p \<and> (Mount p, True) \<in> set t)"

definition no_failure :: "bool \<Rightarrow> create_error option \<Rightarrow> (cop \<times> bool) list \<Rightarrow> bool" where
  "no_failure lg r t \<longleftrightarrow> (r = None \<longrightarrow> (\<forall>(c, ok)\<in>set t. ok \<or> excuse lg t c))"

text \<open>Every mount that succeeded is followed by an unmount of the same partition.\<close>

fun unmounted :: "(cop \<times> bool) list \<Rightarrow> bool" where
  "unmounted [] = True"
| "unmounted ((c, ok) # t) \<longleftrightarrow> (\<forall>p. c = Mount p \<and> ok \<longrightarrow> Unmount p \<in> fst ` set t) \<and> unmounted t"

definition balanced :: "create_error option \<Rightarrow> (cop \<times> bool) list \<Rightarrow> bool" where
  "balanced r t \<longleftrightarrow> unmounted t"

lemma unmounted_append: "unmounted t \<Longrightarrow> unmounted u \<Longrightarrow> unmounted (t @ u)"
  by (induction t rule: unmounted.induct) auto

section \<open>A dry run writes nothing\<close>

lemma harmless_call: "\<not> writes c \<Longrightarrow> leaves harmless (call E c)"
  by (rule leaves_call) (simp_all add: harmless_def)

lemma harmless_calling:
  assumes "\<not> writes c" "\<And>b. leaves harmless (k b)"
  shows "leaves harmless (calling c f k)"
proof (rule leaves_calling)
  show "harmless (Some (Failed c)) [(c, False)]" using assms(1) by (simp add: harmless_def)
  show "leaves (\<lambda>r t. harmless r ((c, True) # t)) (k b)" for b
    by (rule leaves_mono [OF assms(2)]) (use assms(1) in \<open>simp add: harmless_def\<close>)
qed

lemma dry_flow:
  assumes "co_dry_run co" "ce_log E"
  shows "leaves harmless (run_flow E src dst co)"
proof -
  have w: "\<not> writes (VdiskWrite a b (dd_opts co) i j)" "\<not> writes (WriteImage a b ((dd_opts co)\<lparr>wo_src_len := n\<rparr>) i j)" for a b i j n
    using assms(1) by (simp_all add: dd_opts_def)
  have "leaves harmless (flow_dd E p dst co)" for p
    unfolding flow_dd_def Let_def using w
    by (intro harmless_calling) (auto intro!: harmless.leaves_Cons harmless.leaves_Nil harmless_calling harmless_call
        harmless.leaves_stage simp del: steps.simps)
  moreover have "leaves harmless (vfat_size_guard E src fs)" for fs
    unfolding vfat_size_guard_def by (auto intro!: harmless.leaves_rules)
  moreover from this have "leaves harmless (flow_extract_dir E src dst co)"
    unfolding flow_extract_dir_def
    using assms(1) by (intro harmless.leaves_Cons harmless.leaves_Nil harmless.leaves_only harmless_call harmless.leaves_stage) simp_all
  moreover from calculation(2) have "leaves harmless (flow_extract_disk E src dst co)"
    using assms by (simp add: flow_extract_disk_def Let_def harmless.leaves_andthen harmless.leaves_skip)
  moreover have "leaves harmless (flow_format E dst co)" "leaves harmless (flow_dos E dst co)"
    using assms(1) by (simp_all add: flow_format_def flow_dos_def harmless.leaves_skip leaves_asking)
  moreover have "leaves harmless (flow_windows E p dst co)" for p
    using assms by (simp add: flow_windows_def Let_def harmless.leaves_skip harmless.leaves_fails)
  ultimately show ?thesis
    unfolding run_flow_def
    by (auto intro!: leaves_asking harmless.leaves_fails split: option.splits)
qed

lemma dry_create:
  assumes "co_dry_run co" "ce_log E"
  shows "leaves harmless (rufux_create E src dst co)"
proof -
  have n: "co_dry_run (normalised co)" using assms by (simp add: normalised_def)
  have "leaves harmless (health_check E dst (normalised co))"
    using n by (auto simp: health_check_def only_def intro: leaves_asking harmless.leaves_skip)
  with n dry_flow [OF n assms(2)] show ?thesis
    by (simp add: rufux_create_def Let_def unmount_target_def only_def harmless.leaves_andthen harmless.leaves_skip)
qed

text \<open>
  C2: a dry run writes nothing. Whatever the mode, the options and the operations' answers, a run
  with the dry-run option, called with a log callback, performs no operation that writes to the drive or to a
  file system on it: none of the calls it adds to the trace is a writing one (the image writer, the virtual disk
  writer, the extraction and the autorun file are only called with their own dry-run flag).
\<close>

theorem create_dry_run:
  assumes "co_dry_run co" "ce_log E"
  shows "\<exists>t. cs_trace (snd (rufux_create E src dst co s)) = cs_trace s @ t \<and> (\<forall>(c, ok)\<in>set t. \<not> writes c)"
  using dry_create [OF assms, of src dst] by (auto simp: leaves_def harmless_def)

section \<open>Laws of whole runs\<close>

text \<open>
  A law that admits every call with its proper outcome: a failed call fails the flow unless its result is not looked at
  or a warning follows, a mounted partition is unmounted, a failed mount is tried again. \<open>lg\<close>: there is a log callback.
\<close>

locale flow_law = trace_law +
  fixes lg :: bool
  assumes call_ok: "(\<And>p. c \<noteq> Mount p) \<Longrightarrow> R None [(c, True)]"
    and call_bad: "R (Some e) [(c, False)]"
    and call_silent: "silent c \<Longrightarrow> R None [(c, False)]"
    and call_told: "told c \<Longrightarrow> R None ((c, False) # (if lg then [(Warning c, True)] else []))"
    and mounted: "R r t \<Longrightarrow> Unmount p \<in> fst ` set t \<Longrightarrow> R r ((Mount p, True) # t)"
    and retried: "R r t \<Longrightarrow> (r = None \<Longrightarrow> (Mount p, True) \<in> set t) \<Longrightarrow> R r ((Mount p, False) # t)"
begin

lemma flow_call: "(\<And>p. c \<noteq> Mount p) \<Longrightarrow> leaves R (call E c)"
  by (rule leaves_call) (auto intro: call_ok call_bad)

lemma flow_advisory:
  assumes "silent c"
  shows "leaves R (advisory (call E c))" "leaves (\<lambda>r t. R None t) (advisory (call E c))"
proof -
  have "leaves (\<lambda>r t. R None t) (call E c)"
    by (rule leaves_call) (use assms in \<open>auto intro: call_ok call_silent\<close>)
  then show "leaves R (advisory (call E c))" "leaves (\<lambda>r t. R None t) (advisory (call E c))"
    by (rule leaves_advisory, rule leaves_advisory_None)
qed

lemma flow_warned:
  assumes "told c" "ce_log E = lg"
  shows "leaves R (warned E c)" "leaves (\<lambda>r t. R None t) (warned E c)"
proof -
  have "R None ((c, False) # (if ce_log E then [(Warning c, True)] else []))" using call_told [OF assms(1)] assms(2) by simp
  moreover have "R None [(c, True)]" by (rule call_ok) (use assms(1) in auto)
  ultimately show "leaves R (warned E c)" "leaves (\<lambda>r t. R None t) (warned E c)" using leaves_warned by blast+
qed

lemma flow_calling:
  assumes "\<And>p. c \<noteq> Mount p" "\<And>b. leaves R (k b)"
  shows "leaves R (calling c f k)"
proof (rule leaves_calling)
  show "R (Some (Failed c)) [(c, False)]" by (rule call_bad)
  have "R r t \<Longrightarrow> R r ((c, True) # t)" for r t
    using law_seq [of "[(c, True)]" r t] call_ok assms(1) by simp
  then show "leaves (\<lambda>r t. R r ((c, True) # t)) (k b)" for b by (rule leaves_mono [OF assms(2)])
qed

lemma flow_rescan: "leaves R (rescan_disk E dst)"
  unfolding rescan_disk_def
  by (intro leaves_Cons leaves_Nil leaves_asking leaves_only flow_advisory) simp_all

text \<open>Flows that unmount \<open>p\<close> at some point.\<close>

definition unmounting :: "bytes \<Rightarrow> 'w flow \<Rightarrow> bool" where
  "unmounting p f \<longleftrightarrow> leaves (\<lambda>r t. R r t \<and> Unmount p \<in> fst ` set t) f"

lemma unmounting_finally:
  assumes "leaves R f"
  shows "unmounting p (finally_do f (call E (Unmount p)))"
  unfolding unmounting_def
proof (rule leavesI)
  fix s
  obtain r s1 where f: "f s = (r, s1)" by fastforce
  from assms f obtain t where t: "cs_trace s1 = cs_trace s @ t" "R r t" by (rule leavesE)
  obtain ok w where g: "ce_do E (Unmount p) (cs_world s1) = (ok, w)" by fastforce
  have u: "R (if ok then None else Some (Failed (Unmount p))) [(Unmount p, ok)]"
    using call_ok call_bad by simp
  show "\<exists>t. cs_trace (snd (finally_do f (call E (Unmount p)) s)) = cs_trace s @ t \<and>
      R (fst (finally_do f (call E (Unmount p)) s)) t \<and> Unmount p \<in> fst ` set t"
    using t u f g law_seq [OF _ u, of t] law_after [OF _ u, of _ t]
    by (intro exI [of _ "t @ [(Unmount p, ok)]"])
      (cases r, auto simp: finally_do_def call_def record_call_def)
qed

lemma unmounting_andthen:
  assumes "unmounting p f" "leaves R g"
  shows "unmounting p (andthen f g)"
  unfolding unmounting_def
proof (rule leavesI)
  fix s
  obtain r s1 where f: "f s = (r, s1)" by fastforce
  from assms(1) [unfolded unmounting_def] f obtain t where t: "cs_trace s1 = cs_trace s @ t" "R r t \<and> Unmount p \<in> fst ` set t"
    by (rule leavesE)
  obtain q s2 where g: "g s1 = (q, s2)" by fastforce
  from assms(2) g obtain u where u: "cs_trace s2 = cs_trace s1 @ u" "R q u" by (rule leavesE)
  show "\<exists>t. cs_trace (snd (andthen f g s)) = cs_trace s @ t \<and> R (fst (andthen f g s)) t \<and> Unmount p \<in> fst ` set t"
    using t u f g law_seq [of t q u] by (cases r) (auto simp: andthen_def)
qed

lemma unmounting_stage:
  assumes "unmounting p f"
  shows "unmounting p (\<lambda>s. case f s of (r, s) \<Rightarrow> (r, snd (stage (n r) s)))"
  using assms by (simp add: unmounting_def leaves_def stage_def case_prod_unfold)

lemma flow_mounting:
  assumes "\<And>mnt. unmounting p (k mnt)"
  shows "leaves R (calling (Mount p) f k)"
proof (rule leaves_calling)
  show "R (Some (Failed (Mount p))) [(Mount p, False)]" by (rule call_bad)
  show "leaves (\<lambda>r t. R r ((Mount p, True) # t)) (k mnt)" for mnt
    by (rule leaves_mono [OF assms [unfolded unmounting_def]]) (auto intro: mounted)
qed

lemma flow_retry:
  fixes E :: "'w create_env"
  assumes "\<And>mnt. unmounting p (k mnt)"
  shows "leaves R (\<lambda>s. case calling (Mount p) (ce_mount E p) k s of
    r \<Rightarrow> if fst (ce_mount E p (cs_world s)) \<noteq> None then r
         else steps [rescan_disk E dst, calling (Mount p) (ce_mount E p) k] (snd r))"
proof (rule leavesI)
  fix s :: "'w create_state"
  let ?two = "steps [rescan_disk E dst, calling (Mount p) (ce_mount E p) k]"
  let ?f = "\<lambda>s. case calling (Mount p) (ce_mount E p) k s of
    r \<Rightarrow> if fst (ce_mount E p (cs_world s)) \<noteq> None then r else ?two (snd r)"
  have again: "leaves (\<lambda>r t. R r t \<and> (r = None \<longrightarrow> (Mount p, True) \<in> set t)) (calling (Mount p) (ce_mount E p) k)"
  proof (rule leaves_calling)
    show "R (Some (Failed (Mount p))) [(Mount p, False)] \<and>
        (Some (Failed (Mount p)) = None \<longrightarrow> (Mount p, True) \<in> set [(Mount p, False)])" by (simp add: call_bad)
    show "leaves (\<lambda>r t. R r ((Mount p, True) # t) \<and> (r = None \<longrightarrow> (Mount p, True) \<in> set ((Mount p, True) # t))) (k mnt)" for mnt
      by (rule leaves_mono [OF assms [unfolded unmounting_def]]) (auto intro: mounted)
  qed
  have two: "leaves (\<lambda>r t. R r t \<and> (r = None \<longrightarrow> (Mount p, True) \<in> set t)) ?two"
  proof (rule leavesI)
    fix s :: "'w create_state"
    obtain r s1 where f: "rescan_disk E dst s = (r, s1)" by fastforce
    from flow_rescan f obtain t where t: "cs_trace s1 = cs_trace s @ t" "R r t" by (rule leavesE)
    obtain q s2 where g: "calling (Mount p) (ce_mount E p) k s1 = (q, s2)" by fastforce
    from again g obtain u where u: "cs_trace s2 = cs_trace s1 @ u" "R q u \<and> (q = None \<longrightarrow> (Mount p, True) \<in> set u)" by (rule leavesE)
    show "\<exists>t. cs_trace (snd (?two s)) = cs_trace s @ t \<and> R (fst (?two s)) t \<and> (fst (?two s) = None \<longrightarrow> (Mount p, True) \<in> set t)"
      using t u f g law_seq [of t q u] by (cases r; cases q) (auto simp: andthen_def skip_def)
  qed
  show "\<exists>t. cs_trace (snd (?f s)) = cs_trace s @ t \<and> R (fst (?f s)) t"
  proof (cases "fst (ce_mount E p (cs_world s)) = None")
    case True
    then obtain w where w: "ce_mount E p (cs_world s) = (None, w)" by (metis prod.collapse)
    let ?s = "record_call (Mount p) False w s"
    from two obtain t where "cs_trace (snd (?two ?s)) = cs_trace ?s @ t" "R (fst (?two ?s)) t"
      "fst (?two ?s) = None \<longrightarrow> (Mount p, True) \<in> set t" unfolding leaves_def by blast
    with retried [of "fst (?two ?s)" t p] w show ?thesis
      by (intro exI [of _ "(Mount p, False) # t"]) (simp add: calling_def record_call_def)
  next
    case False
    have "leaves R (calling (Mount p) (ce_mount E p) k)" by (rule leaves_mono [OF again]) blast
    with False show ?thesis by (simp add: leaves_def)
  qed
qed

text \<open>Every flow obeys the law.\<close>

lemmas flow_intros = leaves_Cons leaves_Nil leaves_only leaves_stage leaves_asking leaves_fails leaves_skip leaves_andthen
  leaves_also leaves_finally leaves_stage_None flow_advisory flow_rescan

lemma flow_guard: "leaves R (vfat_size_guard E src fs)"
  unfolding vfat_size_guard_def by (auto intro!: flow_intros)

lemma flow_boot_code: "leaves R (boot_code_step E p1 co)"
  unfolding boot_code_step_def syslinux_best_effort_def by (intro flow_intros flow_call) simp_all

lemma flow_validate: "ce_log E = lg \<Longrightarrow> leaves R (validate_step E efi co)"
  unfolding validate_step_def by (intro flow_intros flow_warned) simp_all

lemma flow_install_mbr: "leaves R (install_mbr_step E dst co)"
  unfolding install_mbr_step_def by (rule flow_call) simp

lemma dd_law: "leaves R (flow_dd E src dst co)"
  unfolding flow_dd_def Let_def
  by (rule flow_calling, simp, split if_split, intro conjI impI flow_calling flow_intros flow_call) simp_all

lemma dir_law: "leaves R (flow_extract_dir E src dst co)"
  unfolding flow_extract_dir_def by (intro flow_intros flow_guard flow_call) simp_all

lemma disk_law: "ce_log E = lg \<Longrightarrow> leaves R (flow_extract_disk E src dst co)"
  unfolding flow_extract_disk_def Let_def
  by (intro leaves_andthen flow_guard, split if_split,
      intro conjI impI flow_intros flow_call flow_boot_code flow_mounting unmounting_andthen unmounting_finally
        flow_validate flow_install_mbr) simp_all

lemma format_law: "leaves R (flow_format E dst co)"
  unfolding flow_format_def Let_def
  by (rule leaves_asking, split if_split, intro conjI impI leaves_skip, split if_split,
      intro conjI impI flow_intros flow_call flow_boot_code flow_install_mbr) simp_all

lemma dos_law: "leaves R (flow_dos E dst co)"
proof -
  have "leaves R (flow_dos E dst co)" if "\<not> co_dry_run co"
    using that unfolding flow_dos_def Let_def
    by (auto intro!: flow_intros flow_call flow_mounting unmounting_stage unmounting_andthen unmounting_finally
        split: option.splits simp del: steps.simps)
  then show ?thesis by (auto simp: flow_dos_def leaves_skip)
qed

lemma windows_law:
  assumes lg: "ce_log E = lg"
  shows "leaves R (flow_windows E src dst co)"
proof -
  have x: "leaves R (extract_windows E src mnt co)" for mnt
    unfolding extract_windows_def by (split if_split) (intro conjI impI flow_call; simp)
  have m: "unmounting p1 (windows_mounted E src dst p1 mnt co)" for p1 mnt
    unfolding windows_mounted_def
    by (intro unmounting_finally flow_intros flow_warned x flow_call flow_validate) (simp_all add: lg)
  show ?thesis
    unfolding flow_windows_def Let_def
    by (split if_split, intro conjI impI leaves_fails, split if_split, intro conjI impI leaves_skip leaves_andthen flow_call,
        simp, split if_split, intro conjI impI leaves_fails flow_intros flow_warned flow_call flow_retry m) (simp_all add: lg)
qed

lemma create_law:
  assumes lg: "ce_log E = lg"
  shows "leaves R (rufux_create E src dst opts)"
proof -
  have f: "leaves R (run_flow E src dst co)" for co
    unfolding run_flow_def
    by (auto intro!: leaves_asking leaves_fails dd_law dir_law disk_law format_law dos_law windows_law lg split: option.splits)
  have u: "leaves R (unmount_target E dst co)" for co
    unfolding unmount_target_def unmount_disk_def
    by (intro flow_intros flow_call leaves_map) simp_all
  have h: "leaves R (health_check E dst co)" for co
    unfolding health_check_def by (intro flow_intros flow_calling) (auto intro: leaves_fails leaves_skip)
  have b: "leaves R (run_badblocks E dst n af i j)" for n af i j
    unfolding run_badblocks_def badblocks_pass_def
    by (intro leaves_map flow_calling) (auto intro: leaves_fails leaves_skip)
  show ?thesis
    unfolding rufux_create_def Let_def
    by (split if_split, intro conjI impI leaves_fails flow_intros f u h b flow_call) simp_all
qed

end

interpretation no_failure: flow_law "no_failure lg" lg for lg
  by unfold_locales (fastforce simp: no_failure_def excuse_def)+

interpretation balanced: flow_law balanced lg for lg
  by unfold_locales (auto simp: balanced_def unmounted_append)


text \<open>
  C6: no partition stays mounted. Whatever the result, a mount that succeeded is followed in the
  trace by a call that unmounts the same partition; no error on the way skips it.
\<close>

theorem create_unmounts:
  "\<exists>t. cs_trace (snd (rufux_create E src dst co s)) = cs_trace s @ t \<and>
     (\<forall>pre post p. t = pre @ (Mount p, True) # post \<longrightarrow> Unmount p \<in> fst ` set post)"
proof -
  have later: "unmounted (pre @ (Mount p, True) # post) \<Longrightarrow> Unmount p \<in> fst ` set post" for pre post p
    by (induction pre) auto
  obtain t where "cs_trace (snd (rufux_create E src dst co s)) = cs_trace s @ t" "unmounted t"
    using balanced.create_law [OF refl, of E src dst co] by (auto simp: leaves_def balanced_def)
  with later show ?thesis by blast
qed

section \<open>Guards\<close>

lemma unmount_harmless: "leaves harmless (unmount_target E dst co)"
  unfolding unmount_target_def unmount_disk_def
  by (intro harmless.leaves_rules harmless_call) simp_all

text \<open>
  What is checked before anything is written. Without the confirmation a real run does nothing
  at all. On a block device whose SMART status says that it is failing a real run, unless it is told to ignore
  the status, fails without one writing operation: the target is unmounted, its health is read, and that is all.
\<close>

theorem create_guards:
  fixes E :: "'w create_env"
  shows "(\<not> co_dry_run co \<and> \<not> co_yes co \<longrightarrow> rufux_create E src dst co s = (Some Refused, s)) \<and>
   (\<not> co_dry_run co \<and> (\<forall>w. ce_is_block E w dst) \<and> (\<forall>w. fst (ce_smart E dst w) = SmartFailed) \<and> \<not> co_ignore_smart co \<longrightarrow>
      fst (rufux_create E src dst co s) \<noteq> None \<and>
      (\<exists>t. cs_trace (snd (rufux_create E src dst co s)) = cs_trace s @ t \<and> (\<forall>(c, ok)\<in>set t. \<not> writes c)))"
proof ((rule conjI; rule impI), goal_cases)
  case 1
  then show ?case by (simp add: rufux_create_def normalised_def fails_def Let_def)
next
  case 2
  let ?co = "normalised co"
  have n: "\<not> co_dry_run ?co" "\<not> co_ignore_smart ?co" using 2 by (simp_all add: normalised_def)
  have bad: "fst (andthen (health_check E dst ?co) g s) \<noteq> None" for g s
    using 2 n by (auto simp: andthen_def health_check_def asking_def only_def calling_def fails_def record_call_def
        map_prod_def split: prod.splits) (metis fst_conv)+
  have stops: "leaves harmless (andthen (health_check E dst ?co) g)" for g
  proof (rule leavesI)
    fix s :: "'w create_state"
    obtain ss w where w: "ce_smart E dst (cs_world s) = (ss, w)" by fastforce
    with 2 have "ss = SmartFailed" by (metis fst_conv)
    with w n 2 show "\<exists>t. cs_trace (snd (andthen (health_check E dst ?co) g s)) = cs_trace s @ t \<and>
        harmless (fst (andthen (health_check E dst ?co) g s)) t"
      by (simp add: andthen_def health_check_def asking_def only_def calling_def fails_def record_call_def harmless_def)
  qed
  have h: "leaves harmless (rufux_create E src dst co)"
    unfolding rufux_create_def Let_def steps.simps
    by (split if_split, intro conjI impI harmless.leaves_fails harmless.leaves_andthen [OF unmount_harmless] stops)
  have "fst (andthen u (andthen (health_check E dst ?co) g) s) \<noteq> None" for u g
    using bad by (auto simp: andthen_def [of u] split: prod.splits option.splits)
  then have "fst (rufux_create E src dst co s) \<noteq> None"
    by (simp add: rufux_create_def Let_def fails_def)
  with h show ?case by (auto simp: leaves_def harmless_def)
qed

section \<open>The order of a Windows installation\<close>

text \<open>
  The operations whose order matters: those that write (but for the last repair), the two checks, and the mounts that
  succeeded.
\<close>

definition key :: "cop \<Rightarrow> bool" where
  "key c \<longleftrightarrow> writes c \<and> (\<forall>p. c \<noteq> Ntfsfix p) \<or> (\<exists>a. c = WueCheck a) \<or> (\<exists>m. c = VerifyTree m)"

definition is_key :: "cop \<times> bool \<Rightarrow> bool" where
  "is_key x \<longleftrightarrow> key (fst x) \<or> (\<exists>p. x = (Mount p, True))"

definition keys :: "(cop \<times> bool) list \<Rightarrow> cop list" where
  "keys t = map fst (filter is_key t)"

lemma keys_append [simp]: "keys (t @ u) = keys t @ keys u"
  by (simp add: keys_def)

text \<open>\<open>does L f\<close>: when the flow succeeds, its key operations are exactly \<open>L\<close>; \<open>always L f\<close>: in any case.\<close>

definition does :: "cop list \<Rightarrow> 'w flow \<Rightarrow> bool" where
  "does L f \<longleftrightarrow> leaves (\<lambda>r t. r = None \<longrightarrow> keys t = L) f"

definition always :: "cop list \<Rightarrow> 'w flow \<Rightarrow> bool" where
  "always L f \<longleftrightarrow> leaves (\<lambda>r t. keys t = L) f"

lemma doesE:
  assumes "does L f" "f s = (None, s')"
  obtains t where "cs_trace s' = cs_trace s @ t" "keys t = L"
proof -
  from assms(1) [unfolded does_def] assms(2) obtain t where "cs_trace s' = cs_trace s @ t" "None = (None :: create_error option) \<longrightarrow> keys t = L"
    by (rule leavesE)
  then show thesis using that by simp
qed

lemma always_does: "always L f \<Longrightarrow> does L f"
  by (auto simp: always_def does_def elim: leaves_mono)

lemma always_call: "(\<And>p. c \<noteq> Mount p) \<Longrightarrow> always (filter key [c]) (call E c)"
  unfolding always_def by (rule leaves_call) (simp_all add: keys_def is_key_def)

lemma always_warned: "(\<And>p. c \<noteq> Mount p) \<Longrightarrow> always (filter key [c]) (warned E c)"
  unfolding always_def by (rule leaves_warned) (simp_all add: keys_def is_key_def key_def)

lemma always_advisory: "always L f \<Longrightarrow> always L (advisory f)"
  by (simp add: always_def leaves_def advisory_def)

lemma always_skip: "always [] skip"
  by (simp add: always_def leaves_def skip_def keys_def)

lemma always_stage: "always [] (stage n)"
  by (simp add: always_def leaves_def stage_def keys_def)

lemma always_asking: "(\<And>b. always L (k b)) \<Longrightarrow> always L (asking q k)"
  by (simp add: always_def leaves_asking)

lemma always_only: "(b \<Longrightarrow> always [] f) \<Longrightarrow> always [] (only b f)"
  by (simp add: only_def always_skip)

lemma does_only: "does L f \<Longrightarrow> does (if b then L else []) (only b f)"
  by (simp add: only_def always_does [OF always_skip])

lemma does_asking: "(\<And>b. does L (k b)) \<Longrightarrow> does L (asking q k)"
  by (simp add: does_def leaves_asking)

lemma leaves_two:
  assumes "leaves P f" "leaves Q g" "\<And>t u q. P None t \<Longrightarrow> Q q u \<Longrightarrow> R q (t @ u)" "\<And>e t. P (Some e) t \<Longrightarrow> R (Some e) t"
  shows "leaves R (andthen f g)"
proof (rule leavesI)
  fix s
  obtain r s1 t q s2 u where f: "f s = (r, s1)" and g: "g s1 = (q, s2)" and t: "cs_trace s1 = cs_trace s @ t" "P r t"
    and u: "cs_trace s2 = cs_trace s1 @ u" "Q q u" using assms(1,2) by (rule run_two)
  show "\<exists>t. cs_trace (snd (andthen f g s)) = cs_trace s @ t \<and> R (fst (andthen f g s)) t"
    using t u f g assms(3,4) by (cases r) (auto simp: andthen_def)
qed

lemma does_andthen: "does L f \<Longrightarrow> does M g \<Longrightarrow> does (L @ M) (andthen f g)"
  unfolding does_def by (erule leaves_two, assumption) auto

lemma does_Nil: "does [] (steps [])"
  by (simp add: always_does [OF always_skip])

lemma does_Cons: "does L f \<Longrightarrow> does M (steps fs) \<Longrightarrow> does (L @ M) (steps (f # fs))"
  by (simp add: does_andthen)

lemma does_also:
  assumes "does L f" "always M g"
  shows "does (L @ M) (also_do f g)"
  unfolding does_def
proof (rule leavesI)
  fix s
  obtain r s1 t q s2 u where "f s = (r, s1)" "g s1 = (q, s2)" "cs_trace s1 = cs_trace s @ t" "r = None \<longrightarrow> keys t = L"
    "cs_trace s2 = cs_trace s1 @ u" "keys u = M" using assms [unfolded does_def always_def] by (rule run_two)
  then show "\<exists>t. cs_trace (snd (also_do f g s)) = cs_trace s @ t \<and> (fst (also_do f g s) = None \<longrightarrow> keys t = L @ M)"
    by (intro exI [of _ "t @ u"]) (simp add: also_do_def)
qed

lemma does_finally:
  assumes "does L f" "does M g"
  shows "does (L @ M) (finally_do f g)"
  unfolding does_def
proof (rule leavesI)
  fix s
  obtain r s1 t q s2 u where "f s = (r, s1)" "g s1 = (q, s2)" "cs_trace s1 = cs_trace s @ t" "r = None \<longrightarrow> keys t = L"
    "cs_trace s2 = cs_trace s1 @ u" "q = None \<longrightarrow> keys u = M" using assms [unfolded does_def] by (rule run_two)
  then show "\<exists>t. cs_trace (snd (finally_do f g s)) = cs_trace s @ t \<and> (fst (finally_do f g s) = None \<longrightarrow> keys t = L @ M)"
    by (intro exI [of _ "t @ u"]) (cases r; simp add: finally_do_def)
qed

lemma steps_append: "steps (fs @ gs) = andthen (steps fs) (steps gs)"
proof (induction fs)
  case Nil
  show ?case by (rule ext) (simp add: andthen_def skip_def)
next
  case (Cons f fs)
  then show ?case by (intro ext) (simp add: andthen_def split: prod.splits option.splits)
qed

lemma andthen_assoc: "andthen (andthen f g) h = andthen f (andthen g h)"
  by (rule ext) (simp add: andthen_def split: prod.splits option.splits)

lemma andthen_skip [simp]: "andthen skip f = f" "andthen f skip = f"
  by (rule ext; simp add: andthen_def skip_def split: prod.splits option.splits)+

lemma fails_None [simp]: "fails e s \<noteq> (None, s')"
  by (simp add: fails_def)

lemma andthen_None:
  assumes "andthen f g s = (None, s')"
  obtains s1 where "f s = (None, s1)" "g s1 = (None, s')"
  using assms by (auto simp: andthen_def split: prod.splits option.splits)

lemmas does_intros = does_Cons does_Nil does_only does_asking does_also does_finally does_andthen always_does
lemmas always_intros = always_call always_advisory always_skip always_stage always_asking always_only

lemma does_rescan: "does [] (rescan_disk E dst)"
proof -
  have "filter key [Partprobe dst] = []" "filter key [Settle] = []" by (simp_all add: key_def)
  then have "does [] (asking q (\<lambda>b. only b (advisory (call E (Partprobe dst)))))"
    "does [] (asking q (\<lambda>b. only b (advisory (call E Settle))))" for q
    using always_call [of "Partprobe dst" E] always_call [of Settle E] by (auto intro!: always_does always_intros)
  then show ?thesis
    unfolding rescan_disk_def using does_Cons [OF _ does_Cons [OF _ does_Nil]] by fastforce
qed

text \<open>The list of the key operations of a Windows installation, up to the mount and from there.\<close>

definition windows_prepare :: "bytes \<Rightarrow> create_opts \<Rightarrow> cop list" where
  "windows_prepare dst co =
     (let gpt = (\<not> is_dos (co_scheme co)); fat = windows_fat co; p1 = part1 dst;
          fsname = (if fat then ascii ''vfat'' else ascii ''ntfs'')
      in [WueCheck (wue_of co),
          Partition dst (part_opts (if gpt then ascii ''gpt'' else ascii ''dos'')
            (if fat then ascii ''single'' else ascii ''main+uefintfs'') fsname gpt co)] @
         (if fat then [] else [WriteUefiNtfs (the (p2_of p1))]) @
         (if co_quick_format co then [] else [ZeroHead p1 5 3]) @
         [WipeEdges p1, Format p1 (format_opts fsname False co)])"

definition windows_fill :: "bytes \<Rightarrow> bytes \<Rightarrow> bytes \<Rightarrow> create_opts \<Rightarrow> cop list" where
  "windows_fill src dst mnt co =
     [if windows_fat co \<or> co_split_wim_mb co \<noteq> 0
      then ExtractSplit src mnt (if co_split_wim_mb co \<noteq> 0 then co_split_wim_mb co else 3800) (co_split_wim_mb co \<noteq> 0) 10 70
      else ExtractIso (Some src) mnt False 10 70] @
     (if co_wue co \<noteq> None \<and> co_wue co \<noteq> Some (ascii ''none'') then [Customize mnt (wue_of co)] else []) @
     [VerifyTree mnt, BiosInstall dst mnt]"

lemma does_call_key: "key c \<Longrightarrow> does [c] (call E c)" "\<not> key c \<Longrightarrow> (\<And>p. c \<noteq> Mount p) \<Longrightarrow> does [] (call E c)"
proof -
  have "c \<noteq> Mount p" if "key c" for p using that by (auto simp: key_def)
  then show "key c \<Longrightarrow> does [c] (call E c)" using always_call [of c E] by (auto intro: always_does)
  show "\<not> key c \<Longrightarrow> (\<And>p. c \<noteq> Mount p) \<Longrightarrow> does [] (call E c)" using always_call [of c E] by (auto intro: always_does)
qed

lemma does_stage: "does [] (stage n)"
  by (rule always_does) (rule always_stage)

section \<open>Replaying a record\<close>

text \<open>What an operation makes of the world, and the world after a list of them.\<close>

fun effect :: "'w create_env \<Rightarrow> cop \<Rightarrow> 'w \<Rightarrow> 'w" where
  "effect E (Mount p) w = snd (ce_mount E p w)"
| "effect E (SmartCheck d) w = snd (ce_smart E d w)"
| "effect E (BadblocksPass d f i b n) w = snd (ce_badblocks E (BadblocksPass d f i b n) w)"
| "effect E (VdiskDetect p) w = snd (ce_vdisk E p w)"
| "effect E (VhdAdjust p) w = snd (ce_vhd E p w)"
| "effect E (Warning c) w = w"
| "effect E c w = snd (ce_do E c w)"

primrec replay :: "'w create_env \<Rightarrow> (cop \<times> bool) list \<Rightarrow> 'w \<Rightarrow> 'w" where
  "replay E [] w = w"
| "replay E (x # t) w = replay E t (effect E (fst x) w)"

lemma replay_append [simp]: "replay E (t @ u) w = replay E u (replay E t w)"
  by (induction t arbitrary: w) simp_all

definition tracked :: "'w create_env \<Rightarrow> 'w flow \<Rightarrow> bool" where
  "tracked E f \<longleftrightarrow> (\<forall>s. \<exists>t. cs_trace (snd (f s)) = cs_trace s @ t \<and> cs_world (snd (f s)) = replay E t (cs_world s))"

lemma trackedI: "(\<And>s. \<exists>t. cs_trace (snd (f s)) = cs_trace s @ t \<and> cs_world (snd (f s)) = replay E t (cs_world s)) \<Longrightarrow> tracked E f"
  by (simp add: tracked_def)

lemma tracked_basic: "tracked E skip" "tracked E (fails e)" "tracked E (stage n)"
  by (simp_all add: tracked_def skip_def fails_def stage_def)

lemma tracked_call: "(\<And>w. effect E c w = snd (ce_do E c w)) \<Longrightarrow> tracked E (call E c)"
  by (rule trackedI) (auto simp: call_def record_call_def split: prod.splits)

lemma tracked_asking: "(\<And>b. tracked E (k b)) \<Longrightarrow> tracked E (asking q k)"
  by (simp add: tracked_def asking_def)

lemma tracked_only: "tracked E f \<Longrightarrow> tracked E (only b f)"
  by (simp add: only_def tracked_basic)

lemma tracked_advisory: "tracked E f \<Longrightarrow> tracked E (advisory f)"
  by (simp add: tracked_def advisory_def)

lemma tracked_andthen:
  assumes "tracked E f" "tracked E g"
  shows "tracked E (andthen f g)"
proof (rule trackedI)
  fix s
  obtain r s1 where f: "f s = (r, s1)" by fastforce
  obtain t where t: "cs_trace s1 = cs_trace s @ t" "cs_world s1 = replay E t (cs_world s)"
    using assms(1) f unfolding tracked_def by (metis snd_conv)
  obtain u where u: "cs_trace (snd (g s1)) = cs_trace s1 @ u" "cs_world (snd (g s1)) = replay E u (cs_world s1)"
    using assms(2) unfolding tracked_def by blast
  show "\<exists>t. cs_trace (snd (andthen f g s)) = cs_trace s @ t \<and> cs_world (snd (andthen f g s)) = replay E t (cs_world s)"
    using t u f by (cases r) (auto simp: andthen_def intro: exI [of _ "t @ u"])
qed

lemma tracked_steps: "tracked E (steps [])" "tracked E f \<Longrightarrow> tracked E (steps fs) \<Longrightarrow> tracked E (steps (f # fs))"
  by (simp_all add: tracked_basic tracked_andthen)

lemma tracked_map: "(\<And>x. tracked E (f x)) \<Longrightarrow> tracked E (steps (map f xs))"
  by (induction xs) (simp_all add: tracked_basic tracked_andthen)

lemma tracked_calling:
  fixes f :: "'w \<Rightarrow> 'b option \<times> 'w"
  assumes "\<And>w. effect E c w = snd (f w)" "\<And>b. tracked E (k b)"
  shows "tracked E (calling c f k)"
proof (rule trackedI)
  fix s :: "'w create_state"
  obtain a w where f: "f (cs_world s) = (a, w)" by fastforce
  then have e: "effect E c (cs_world s) = w" by (simp add: assms(1))
  show "\<exists>t. cs_trace (snd (calling c f k s)) = cs_trace s @ t \<and> cs_world (snd (calling c f k s)) = replay E t (cs_world s)"
  proof (cases a)
    case None
    with f e show ?thesis by (intro exI [of _ "[(c, False)]"]) (simp add: calling_def record_call_def)
  next
    case (Some b)
    from assms(2) [of b] obtain t where "cs_trace (snd (k b (record_call c True w s))) = cs_trace (record_call c True w s) @ t"
      "cs_world (snd (k b (record_call c True w s))) = replay E t (cs_world (record_call c True w s))"
      unfolding tracked_def by blast
    with f e Some show ?thesis by (intro exI [of _ "(c, True) # t"]) (simp add: calling_def record_call_def)
  qed
qed

lemmas tracked_intros = tracked_basic tracked_asking tracked_only tracked_advisory tracked_steps tracked_andthen

lemma tracked_rescan: "tracked E (rescan_disk E dst)"
  unfolding rescan_disk_def by (intro tracked_intros tracked_call) simp_all

text \<open>A successful run whose key operations are known, replayed.\<close>

lemma doesE2:
  assumes "does L f" "tracked E f" "f s = (None, s')"
  obtains t where "cs_trace s' = cs_trace s @ t" "keys t = L" "cs_world s' = replay E t (cs_world s)"
proof -
  obtain t where t: "cs_trace s' = cs_trace s @ t" "keys t = L" using assms(1,3) by (rule doesE)
  from assms(2,3) obtain u where "cs_trace s' = cs_trace s @ u" "cs_world s' = replay E u (cs_world s)"
    unfolding tracked_def by (metis snd_conv)
  with t that show thesis by simp
qed

section \<open>The Windows flow\<close>

lemma does_mounted:
  assumes "windows_mounted E src dst p1 mnt co s = (None, s')"
  shows "\<exists>fill. cs_trace s' = cs_trace s @ fill @ [(Unmount p1, True)] \<and> keys fill = windows_fill src dst mnt co"
proof -
  have a: "always (if key c then [c] else []) (advisory (call E c))" if "\<And>p. c \<noteq> Mount p" for c
    using always_advisory [OF always_call [of c E, OF that]] by (cases "key c") simp_all
  have aw: "always (if key c then [c] else []) (warned E c)" if "\<And>p. c \<noteq> Mount p" for c
    using always_warned [of c E, OF that] by (cases "key c") simp_all
  have x: "does [if windows_fat co \<or> co_split_wim_mb co \<noteq> 0
      then ExtractSplit src mnt (if co_split_wim_mb co \<noteq> 0 then co_split_wim_mb co else 3800) (co_split_wim_mb co \<noteq> 0) 10 70
      else ExtractIso (Some src) mnt False 10 70] (extract_windows E src mnt co)"
    unfolding extract_windows_def by (split if_split) (auto intro!: does_call_key simp: key_def)
  have c: "does [Customize mnt (wue_of co)] (call E (Customize mnt (wue_of co)))" by (rule does_call_key) (simp add: key_def)
  have v: "does [VerifyTree mnt] (call E (VerifyTree mnt))" by (rule does_call_key) (simp add: key_def)
  have b: "does [] (advisory (call E (BootcheckTree mnt)))" using always_does [OF a [of "BootcheckTree mnt"]] by (simp add: key_def)
  have d: "does [] (validate_step E efi co)" for efi
  proof -
    have "always [] (warned E (ValidateEfi efi))" using aw [of "ValidateEfi efi"] by (simp add: key_def)
    then have "always [] (validate_step E efi co)"
      unfolding validate_step_def by (intro always_only always_asking)
    then show ?thesis by (rule always_does)
  qed
  have i: "does [BiosInstall dst mnt] (warned E (BiosInstall dst mnt))"
    using always_does [OF aw [of "BiosInstall dst mnt"]] by (simp add: key_def)
  have y: "always [] (advisory (call E SyncAll))" using a [of SyncAll] by (simp add: key_def)
  note fill = does_also [OF does_Cons [OF x does_Cons [OF does_only [OF c] does_Nil]] always_stage]
  note check = does_Cons [OF v does_Cons [OF b does_Cons [OF d does_Nil]]]
  note all = does_also [OF does_andthen [OF does_also [OF does_andthen [OF fill check] always_stage] i] y]
  let ?work = "also_do (andthen (also_do (andthen (also_do (steps [extract_windows E src mnt co,
      only (co_wue co \<noteq> None \<and> co_wue co \<noteq> Some (ascii ''none'')) (call E (Customize mnt (wue_of co)))]) (stage 88))
      (steps [call E (VerifyTree mnt), advisory (call E (BootcheckTree mnt)),
        validate_step E (mnt @ ascii ''/efi/boot/bootx64.efi'') co])) (stage 90)) (warned E (BiosInstall dst mnt))) (advisory (call E SyncAll))"
  obtain s1 where s1: "?work s = (None, s1)" "call E (Unmount p1) s1 = (None, s')"
    using assms unfolding windows_mounted_def finally_do_def by (auto split: prod.splits if_splits)
  have w: "does (windows_fill src dst mnt co) ?work"
    using all unfolding windows_fill_def by (simp only: append_Nil append_Nil2 append.assoc append_Cons)
  then obtain fill where "cs_trace s1 = cs_trace s @ fill" "keys fill = windows_fill src dst mnt co" using s1(1) by (rule doesE)
  moreover have "cs_trace s' = cs_trace s1 @ [(Unmount p1, True)]"
    using s1(2) by (auto simp: call_def record_call_def split: prod.splits if_splits)
  ultimately show ?thesis by simp
qed

lemma mount_once:
  assumes "calling (Mount p) (ce_mount E p) (\<lambda>mnt. windows_mounted E src dst p mnt co) s = (None, s')"
  shows "\<exists>fill mnt w. cs_trace s' = cs_trace s @ (Mount p, True) # fill @ [(Unmount p, True)] \<and>
    ce_mount E p (cs_world s) = (Some mnt, w) \<and> keys fill = windows_fill src dst mnt co"
proof -
  obtain mnt w where w: "ce_mount E p (cs_world s) = (Some mnt, w)"
    using assms by (auto simp: calling_def split: prod.splits option.splits)
  with assms have "windows_mounted E src dst p mnt co (record_call (Mount p) True w s) = (None, s')" by (simp add: calling_def)
  from does_mounted [OF this] w show ?thesis by (auto simp: record_call_def)
qed

text \<open>The mount with its second attempt.\<close>

lemma windows_mount_once:
  fixes E :: "'w create_env"
  assumes "(case calling (Mount p) (ce_mount E p) (\<lambda>mnt. windows_mounted E src dst p mnt co) s of
    r \<Rightarrow> if fst (ce_mount E p (cs_world s)) \<noteq> None then r
      else steps [rescan_disk E dst, calling (Mount p) (ce_mount E p) (\<lambda>mnt. windows_mounted E src dst p mnt co)] (snd r)) = (None, s')"
  shows "\<exists>u fill mnt w. cs_trace s' = cs_trace s @ u @ (Mount p, True) # fill @ [(Unmount p, True)] \<and> keys u = [] \<and>
    ce_mount E p (replay E u (cs_world s)) = (Some mnt, w) \<and> keys fill = windows_fill src dst mnt co"
proof (cases "fst (ce_mount E p (cs_world s)) = None")
  case False
  with assms have "calling (Mount p) (ce_mount E p) (\<lambda>mnt. windows_mounted E src dst p mnt co) s = (None, s')" by simp
  from mount_once [OF this] show ?thesis by (metis append_Nil keys_def filter.simps(1) list.map(1) replay.simps(1))
next
  case True
  then obtain w where w: "ce_mount E p (cs_world s) = (None, w)" by (metis prod.collapse)
  let ?s = "record_call (Mount p) False w s"
  from assms w have "andthen (rescan_disk E dst) (calling (Mount p) (ce_mount E p) (\<lambda>mnt. windows_mounted E src dst p mnt co)) ?s = (None, s')"
    by (simp add: calling_def)
  then obtain s4 where s4: "rescan_disk E dst ?s = (None, s4)"
    "calling (Mount p) (ce_mount E p) (\<lambda>mnt. windows_mounted E src dst p mnt co) s4 = (None, s')" by (rule andthen_None)
  obtain u where u: "cs_trace s4 = cs_trace ?s @ u" "keys u = []" "cs_world s4 = replay E u (cs_world ?s)"
    using does_rescan tracked_rescan s4(1) by (rule doesE2)
  have "\<not> key (Mount p)" by (simp add: key_def)
  then have k: "keys ((Mount p, False) # u) = []" using u(2) by (simp add: keys_def is_key_def)
  have r: "replay E ((Mount p, False) # u) (cs_world s) = cs_world s4" using u(3) w by (simp add: record_call_def)
  obtain fill mnt w' where f: "cs_trace s' = cs_trace s4 @ (Mount p, True) # fill @ [(Unmount p, True)]"
    "ce_mount E p (cs_world s4) = (Some mnt, w')" "keys fill = windows_fill src dst mnt co" using mount_once [OF s4(2)] by blast
  have "cs_trace s' = cs_trace s @ ((Mount p, False) # u) @ (Mount p, True) # fill @ [(Unmount p, True)]"
    using f(1) u(1) by (simp add: record_call_def)
  with k r f(2,3) show ?thesis by metis
qed

lemma does_prepare:
  fixes E :: "'w create_env"
  assumes "flow_windows E src dst co s = (None, s')" "\<not> co_dry_run co"
  shows "\<exists>pre fill rest mnt w. cs_trace s' = cs_trace s @ pre @ (Mount (part1 dst), True) # fill @ (Unmount (part1 dst), True) # rest \<and>
    keys pre = windows_prepare dst co \<and> ce_mount E (part1 dst) (replay E pre (cs_world s)) = (Some mnt, w) \<and>
    keys fill = windows_fill src dst mnt co \<and> keys rest = []"
proof -
  let ?gpt = "\<not> is_dos (co_scheme co)" and ?fat = "windows_fat co" and ?p1 = "part1 dst"
  let ?fsname = "if ?fat then ascii ''vfat'' else ascii ''ntfs''"
  let ?po = "part_opts (if ?gpt then ascii ''gpt'' else ascii ''dos'') (if ?fat then ascii ''single'' else ascii ''main+uefintfs'') ?fsname ?gpt co"
  let ?p2 = "the (p2_of ?p1)"
  let ?pre = "[call E (Partition dst ?po), stage 5, rescan_disk E dst, call E (WaitNode ?p1),
    only (\<not> ?fat) (steps [call E (WaitNode ?p2), call E (WriteUefiNtfs ?p2)]),
    only (\<not> co_quick_format co) (call E (ZeroHead ?p1 5 3)), call E (WipeEdges ?p1),
    call E (Format ?p1 (format_opts ?fsname False co)), rescan_disk E dst, stage 10] :: 'w flow list"
  let ?k = "\<lambda>mnt. windows_mounted E src dst ?p1 mnt co"
  let ?m = "\<lambda>s. case calling (Mount ?p1) (ce_mount E ?p1) ?k s of
    r \<Rightarrow> if fst (ce_mount E ?p1 (cs_world s)) \<noteq> None then r
      else steps [rescan_disk E dst, calling (Mount ?p1) (ce_mount E ?p1) ?k] (snd r)"
  let ?post = "[only (\<not> ?fat) (asking (\<lambda>w. ce_have E w (ascii ''ntfsfix'')) (\<lambda>b. only b (warned E (Ntfsfix ?p1)))), stage 100]"
  have key_simps: "key (Partition dst ?po)" "\<not> key (WaitNode p)" "key (WriteUefiNtfs p)" "key (ZeroHead p i j)" "key (WipeEdges p)"
    "key (Format p (format_opts f False co))" "key (WueCheck a)" "\<not> key (Ntfsfix p)" for p i j f a
    by (simp_all add: key_def part_opts_def format_opts_def)
  have tr: "tracked E (steps ?pre)" by (intro tracked_intros tracked_rescan tracked_call) simp_all
  have pre: "does ([Partition dst ?po] @ [] @ [] @ [] @ (if \<not> ?fat then [] @ [WriteUefiNtfs ?p2] @ [] else []) @
      (if \<not> co_quick_format co then [ZeroHead ?p1 5 3] else []) @ [WipeEdges ?p1] @
      [Format ?p1 (format_opts ?fsname False co)] @ [] @ [] @ []) (steps ?pre)"
    by (intro does_Cons does_Nil does_only does_stage does_rescan does_call_key key_simps cop.distinct)
  have "always [] (warned E (Ntfsfix ?p1))"
    using always_warned [of "Ntfsfix ?p1" E] key_simps(8) by simp
  then have "always [] (only (\<not> ?fat) (asking (\<lambda>w. ce_have E w (ascii ''ntfsfix'')) (\<lambda>b. only b (warned E (Ntfsfix ?p1)))))"
    by (intro always_only always_asking)
  from does_Cons [OF always_does [OF this] does_Cons [OF does_stage does_Nil]] have post: "does [] (steps ?post)"
    by (simp only: append_Nil)
  have fs: "\<not> (\<not> ?fat \<and> co_fs co \<noteq> ascii ''ntfs'')"
    using assms(1) by (rule contrapos_pn) (simp add: flow_windows_def Let_def)
  have p2: "\<not> (\<not> ?fat \<and> p2_of ?p1 = None)"
  proof
    assume "\<not> ?fat \<and> p2_of ?p1 = None"
    with fs assms(2) have "flow_windows E src dst co = andthen (call E (WueCheck (wue_of co))) (fails NoSecondPartition)"
      by (simp add: flow_windows_def Let_def)
    with assms(1) have "andthen (call E (WueCheck (wue_of co))) (fails NoSecondPartition) s = (None, s')" by simp
    then show False by (rule andthen_None) simp
  qed
  have "flow_windows E src dst co = andthen (call E (WueCheck (wue_of co))) (steps (?pre @ ?m # ?post))"
    unfolding flow_windows_def Let_def if_not_P [OF fs] if_not_P [OF p2] using assms(2) by (simp only: append.simps simp_thms if_False)
  moreover have "steps (?pre @ ?m # ?post) = andthen (steps ?pre) (andthen ?m (steps ?post))"
    by (simp only: steps_append steps.simps(2) [of ?m])
  ultimately have run: "andthen (call E (WueCheck (wue_of co))) (andthen (steps ?pre) (andthen ?m (steps ?post))) s = (None, s')"
    using assms(1) by simp
  obtain s1 where "call E (WueCheck (wue_of co)) s = (None, s1)" "andthen (steps ?pre) (andthen ?m (steps ?post)) s1 = (None, s')"
    using run by (rule andthen_None)
  moreover from this(2) obtain s2 where "steps ?pre s1 = (None, s2)" "andthen ?m (steps ?post) s2 = (None, s')" by (rule andthen_None)
  moreover from this(2) obtain s3 where m: "?m s2 = (None, s3)" "steps ?post s3 = (None, s')" by (rule andthen_None)
  moreover obtain t1 where t1: "cs_trace s1 = cs_trace s @ t1" "keys t1 = [WueCheck (wue_of co)]" "cs_world s1 = replay E t1 (cs_world s)"
    using does_call_key(1) [OF key_simps(7)] tracked_call calculation(1) by (rule doesE2) simp_all
  moreover obtain t2 where t2: "cs_trace s2 = cs_trace s1 @ t2" "keys t2 = [Partition dst ?po] @ [] @ [] @ [] @ (if \<not> ?fat then [] @ [WriteUefiNtfs ?p2] @ [] else []) @
      (if \<not> co_quick_format co then [ZeroHead ?p1 5 3] else []) @ [WipeEdges ?p1] @
      [Format ?p1 (format_opts ?fsname False co)] @ [] @ [] @ []" "cs_world s2 = replay E t2 (cs_world s1)"
    using pre tr calculation(3) by (rule doesE2)
  moreover obtain t4 where t4: "cs_trace s' = cs_trace s3 @ t4" "keys t4 = []" using post m(2) by (rule doesE)
  moreover obtain u fill mnt w where "cs_trace s3 = cs_trace s2 @ u @ (Mount ?p1, True) # fill @ [(Unmount ?p1, True)]" "keys u = []"
    "ce_mount E ?p1 (replay E u (cs_world s2)) = (Some mnt, w)" "keys fill = windows_fill src dst mnt co"
    using windows_mount_once m(1) by blast
  ultimately show ?thesis
    by (intro exI [of _ "t1 @ t2 @ u"] exI [of _ fill] exI [of _ t4] exI [of _ mnt] exI [of _ w]) (simp add: windows_prepare_def Let_def)
qed

definition bad_passes :: "bytes \<Rightarrow> nat \<Rightarrow> bool \<Rightarrow> nat \<Rightarrow> nat \<Rightarrow> cop list" where
  "bad_passes dst passes af base width =
     map (\<lambda>i. BadblocksPass dst af (i - 1) (base + width * (i - 1) div passes) (width div passes)) [1..<passes + 1]"

lemma does_badblocks: "does (bad_passes dst n af i j) (run_badblocks E dst n af i j)"
proof -
  have one: "does [BadblocksPass dst af a b c] (badblocks_pass E (BadblocksPass dst af a b c))" for a b c
    unfolding badblocks_pass_def does_def
    by (rule leaves_calling) (auto simp: leaves_def keys_def is_key_def key_def fails_def skip_def)
  have "does (map g xs) (steps (map (\<lambda>x. badblocks_pass E (g x)) xs))"
    if g: "\<forall>x. \<exists>a b c. g x = BadblocksPass dst af a b c" for g :: "nat \<Rightarrow> cop" and xs
  proof (induction xs)
    case Nil
    show ?case by (simp add: always_does [OF always_skip])
  next
    case (Cons x xs)
    obtain a b c where "g x = BadblocksPass dst af a b c" using g by blast
    with one [of a b c] have "does [g x] (badblocks_pass E (g x))" by simp
    from does_andthen [OF this Cons.IH] show ?case by simp
  qed
  then show ?thesis unfolding run_badblocks_def bad_passes_def by simp
qed

lemma tracked_badblocks: "tracked E (run_badblocks E dst n af i j)"
  unfolding run_badblocks_def badblocks_pass_def
  by (intro tracked_map tracked_calling) (auto intro: tracked_basic)

text \<open>What comes before the flow of the mode: nothing of it writes but the bad-block passes.\<close>

lemma does_unmount: "does [] (unmount_target E dst co)"
proof -
  have c: "does [] (call E (Unmount p))" "does [] (call E (NeedRoot dst))" for p
    by (rule does_call_key(2); simp add: key_def)+
  have "does [] (steps (map (\<lambda>p. call E (Unmount p)) ps))" for ps
  proof (induction ps)
    case (Cons p ps)
    from does_andthen [OF c(1) Cons.IH] show ?case by simp
  qed (simp add: always_does [OF always_skip])
  then have "does [] (unmount_disk E dst)" unfolding unmount_disk_def by (intro does_asking)
  from does_Cons [OF c(2) does_Cons [OF this does_Nil]]
  have "does [] (steps [call E (NeedRoot dst), unmount_disk E dst])" by (simp only: append_Nil)
  then have "does [] (asking q (\<lambda>b. only b (steps [call E (NeedRoot dst), unmount_disk E dst])))" for q
    by (intro does_asking) (auto simp: only_def simp del: steps.simps intro: always_does always_skip)
  then show ?thesis unfolding unmount_target_def using does_only [of "[]"] by (metis (full_types))
qed

lemma does_health: "does [] (health_check E dst co)"
  unfolding health_check_def
proof (rule does_asking)
  have "does [] (calling (SmartCheck dst) f (\<lambda>ss. if ss = SmartFailed \<and> \<not> co_ignore_smart co then fails SmartFailing else skip))" for f
    unfolding does_def by (rule leaves_calling) (auto simp: leaves_def keys_def is_key_def key_def fails_def skip_def)
  from does_only [OF this] show "does [] (only (b \<and> \<not> co_dry_run co) (calling (SmartCheck dst) (\<lambda>w. map_prod Some id (ce_smart E dst w))
      (\<lambda>ss. if ss = SmartFailed \<and> \<not> co_ignore_smart co then fails SmartFailing else skip)))" for b
    by (simp only: if_cancel)
qed

lemma tracked_before: "tracked E (unmount_target E dst co)" "tracked E (health_check E dst co)"
  unfolding unmount_target_def unmount_disk_def health_check_def
  by (intro tracked_intros tracked_map tracked_call tracked_calling; auto intro: tracked_basic)+

lemma bios_keys:
  "BiosInstall d m \<notin> set (bad_passes dst n af i j)" "BiosInstall d m \<notin> set (windows_prepare dst co)"
  "BiosInstall d m \<in> set (windows_fill src dst mnt co) \<Longrightarrow> d = dst"
  by (auto simp: bad_passes_def) (simp_all add: windows_prepare_def windows_fill_def Let_def split: if_splits)

lemma create_windows:
  assumes "rufux_create E (Some src) dst co s = (None, s')" "is_mode ''windows'' co" "\<not> co_dry_run co"
  obtains s1 t where "flow_windows E src dst (normalised co) s1 = (None, s')" "cs_trace s1 = cs_trace s @ t"
    "cs_world s1 = replay E t (cs_world s)"
    "keys t = (if 0 < co_badblock_passes co then bad_passes dst (co_badblock_passes co) (co_allow_file co) 0 8 else [])"
proof -
  let ?co = "normalised co"
  have n: "\<not> co_dry_run ?co" "co_mode ?co = ascii ''windows''" "co_badblock_passes ?co = co_badblock_passes co"
    "co_allow_file ?co = co_allow_file co"
    using assms(2,3) by (simp_all add: normalised_def is_mode_def)
  have ne: "ascii ''windows'' \<noteq> ascii ''dd''" "ascii ''windows'' \<noteq> ascii ''extract''" "ascii ''windows'' \<noteq> ascii ''format''"
    "ascii ''windows'' \<noteq> ascii ''dos''" by code_simp+
  then have m: "\<not> is_mode ''dd'' ?co" "run_flow E (Some src) dst ?co = flow_windows E src dst ?co"
    using n(2) by (simp_all add: is_mode_def run_flow_def)
  let ?pre = "[unmount_target E dst ?co, health_check E dst ?co,
    only (0 < co_badblock_passes co) (run_badblocks E dst (co_badblock_passes co) (co_allow_file co) 0 8)]"
  note pre = does_Cons [OF does_unmount does_Cons [OF does_health does_Cons [OF does_only [OF does_badblocks] does_Nil]]]
  have tr: "tracked E (steps ?pre)" by (intro tracked_steps tracked_only tracked_before tracked_badblocks)
  have y: "co_yes ?co" using assms(1) n(1) by (auto simp: rufux_create_def Let_def split: if_splits)
  have "rufux_create E (Some src) dst co = andthen (steps ?pre) (flow_windows E src dst ?co)"
    using y n m by (simp add: rufux_create_def Let_def only_def andthen_assoc)
  with assms(1) have "andthen (steps ?pre) (flow_windows E src dst ?co) s = (None, s')" by simp
  then obtain s1 where s1: "steps ?pre s = (None, s1)" "flow_windows E src dst ?co s1 = (None, s')" by (rule andthen_None)
  obtain t where "cs_trace s1 = cs_trace s @ t"
    "keys t = [] @ [] @ (if 0 < co_badblock_passes co then bad_passes dst (co_badblock_passes co) (co_allow_file co) 0 8 else []) @ []"
    "cs_world s1 = replay E t (cs_world s)" using pre tr s1(1) by (rule doesE2)
  with s1(2) that show thesis by simp
qed

text \<open>
  C1: a Windows installation is done in the one right order, on the right partition, with the right arguments.
  When a real run in Windows mode reports success, its record is: some calls, then the one mount that succeeded, of the
  first partition of the target; then calls; then the successful unmount of that partition; then calls. The key
  operations up to the mount are exactly, in this order: the bad-block passes that were asked for; the check of the
  customisation options; the partitioning (for NTFS with the UEFI:NTFS partition, on GPT with a BIOS boot partition);
  for NTFS the UEFI:NTFS image; without quick format the clearing of the boot area; the clearing of the edges of the
  partition; its formatting. Those between mount and unmount are exactly: the extraction (split for FAT or when asked);
  the customisation when there is one; the verification of the Windows tree; the legacy boot code - each on the mount
  point \<open>mnt\<close> that this mount returned, in the world the calls before it had made. After the unmount nothing is written
  but the clearing of the dirty flag. Every key operation except the legacy boot code succeeded. (Key operations are
  all that write, the two checks, and successful mounts.)
\<close>

theorem windows_order:
  assumes "rufux_create E (Some src) dst co s = (None, s')" "is_mode ''windows'' co" "\<not> co_dry_run co"
  shows "\<exists>pre fill rest mnt w.
    cs_trace s' = cs_trace s @ pre @ (Mount (part1 dst), True) # fill @ (Unmount (part1 dst), True) # rest \<and>
    keys pre = (if 0 < co_badblock_passes co then bad_passes dst (co_badblock_passes co) (co_allow_file co) 0 8 else []) @
      windows_prepare dst (normalised co) \<and>
    ce_mount E (part1 dst) (replay E pre (cs_world s)) = (Some mnt, w) \<and>
    keys fill = windows_fill src dst mnt (normalised co) \<and>
    keys rest = [] \<and>
    (\<forall>(c, ok)\<in>set pre \<union> set fill. key c \<and> (\<forall>m. c \<noteq> BiosInstall dst m) \<longrightarrow> ok)"
proof -
  obtain s1 t where s1: "flow_windows E src dst (normalised co) s1 = (None, s')" "cs_trace s1 = cs_trace s @ t"
    "cs_world s1 = replay E t (cs_world s)"
    "keys t = (if 0 < co_badblock_passes co then bad_passes dst (co_badblock_passes co) (co_allow_file co) 0 8 else [])"
    using assms by (rule create_windows)
  have "\<not> co_dry_run (normalised co)" using assms(3) by (simp add: normalised_def)
  from does_prepare [OF s1(1) this] obtain pre fill rest mnt w where
    r: "cs_trace s' = cs_trace s1 @ pre @ (Mount (part1 dst), True) # fill @ (Unmount (part1 dst), True) # rest"
    "keys pre = windows_prepare dst (normalised co)" "ce_mount E (part1 dst) (replay E pre (cs_world s1)) = (Some mnt, w)"
    "keys fill = windows_fill src dst mnt (normalised co)" "keys rest = []" by blast
  obtain u where u: "cs_trace s' = cs_trace s @ u" "no_failure (ce_log E) None u"
    using no_failure.create_law [OF refl] assms(1) by (rule leavesE)
  have sub: "u = (t @ pre) @ (Mount (part1 dst), True) # fill @ (Unmount (part1 dst), True) # rest" using r(1) s1(2) u(1) by simp
  have ok: "ok" if "(c, ok) \<in> set (t @ pre) \<union> set fill" "key c" "\<forall>m. c \<noteq> BiosInstall dst m" for c ok
  proof (rule ccontr)
    assume "\<not> ok"
    moreover have "(c, ok) \<in> set u" using that(1) sub by auto
    ultimately have "excuse (ce_log E) u c" using u(2) by (auto simp: no_failure_def)
    with that(2) obtain d m where b: "c = BiosInstall d m" by (cases c) (auto simp: excuse_def key_def)
    have kept: "(c, ok) \<in> set xs \<Longrightarrow> c \<in> set (keys xs)" for xs
    proof -
      assume "(c, ok) \<in> set xs"
      then have "(c, ok) \<in> set (filter is_key xs)" using that(2) by (simp add: is_key_def)
      then show "c \<in> set (keys xs)" unfolding keys_def by (metis fst_conv image_eqI image_set)
    qed
    from kept [of t] kept [of pre] kept [of fill] that(1) b have "BiosInstall d m \<in> set (keys t) \<or> BiosInstall d m \<in> set (keys pre) \<or> BiosInstall d m \<in> set (keys fill)" by auto
    with s1(4) r(2,4) have "d = dst" using bios_keys by (metis empty_iff empty_set)
    with b that(3) show False by blast
  qed
  have "cs_trace s' = cs_trace s @ (t @ pre) @ (Mount (part1 dst), True) # fill @ (Unmount (part1 dst), True) # rest"
    using r(1) s1(2) by simp
  moreover have "keys (t @ pre) = (if 0 < co_badblock_passes co then bad_passes dst (co_badblock_passes co) (co_allow_file co) 0 8 else []) @
      windows_prepare dst (normalised co)" using s1(4) r(2) by simp
  moreover have "ce_mount E (part1 dst) (replay E (t @ pre) (cs_world s)) = (Some mnt, w)" using r(3) s1(3) by simp
  moreover have "\<forall>(c, ok)\<in>set (t @ pre) \<union> set fill. key c \<and> (\<forall>m. c \<noteq> BiosInstall dst m) \<longrightarrow> ok" using ok by blast
  ultimately show ?thesis using r(4,5) by blast
qed

section \<open>The boot area\<close>

lemma zero_chunks_ok:
  "zero_chunks n pos d = (True, d') \<Longrightarrow> pos \<le> length (d_img d) \<Longrightarrow>
   d_img d' = bput pos (replicate (n * CHUNK) 0) (d_img d)"
proof (induction n arbitrary: pos d)
  case 0
  then show ?case by simp
next
  case (Suc n)
  obtain d1 where w: "write_chunk (replicate CHUNK 0) pos d = (None, d1)" "zero_chunks n (pos + CHUNK) d1 = (True, d')"
    using Suc.prems(1) by (auto split: prod.splits option.splits)
  from write_chunk_ok [OF w(1) Suc.prems(2)] have d1: "d_img d1 = bput pos (replicate CHUNK 0) (d_img d)" by simp
  have "pos + CHUNK \<le> length (d_img d1)"
    using length_bput_ge [OF Suc.prems(2), of "replicate CHUNK 0"] d1 by simp
  from Suc.IH [OF w(2) this] d1 bput_append [OF Suc.prems(2), of "replicate CHUNK 0" "replicate (n * CHUNK) 0"]
  show ?case by (simp add: replicate_add)
qed

text \<open>
  The two routines that clear old structures write zeros exactly where they should. When
  clearing the boot area succeeds, the first 16 MiB of the target are zero and the rest is as it was; when
  clearing the edges of a partition of at least 1 MiB succeeds, its first MiB is zero, and its last MiB too when
  the partition is larger than 2 MiB, and everything between is as it was, whatever interruptions and short
  writes there were.
\<close>

theorem boot_area_cleared:
  "(\<forall>d'. zero_head opens fsync d = (True, d') \<longrightarrow> d_img d' = replicate (16 * CHUNK) 0 @ drop (16 * CHUNK) (d_img d)) \<and>
   (\<forall>d'. length (d_img d) = sz \<and> \<not> d_grows d \<and> CHUNK \<le> sz \<and> wipe_part_edges opens sz fsync d = (True, d') \<longrightarrow>
      d_img d' = replicate CHUNK 0 @
        (if 2 * CHUNK < sz then bslice CHUNK (sz - 2 * CHUNK) (d_img d) @ replicate CHUNK 0 else drop CHUNK (d_img d)))"
proof (intro conjI allI impI)
  fix d' assume "zero_head opens fsync d = (True, d')"
  then have "zero_chunks 16 0 d = (True, d')" by (auto simp: zero_head_def split: if_splits prod.splits)
  from zero_chunks_ok [OF this] show "d_img d' = replicate (16 * CHUNK) 0 @ drop (16 * CHUNK) (d_img d)"
    by (simp add: bput_def)
next
  fix d' assume a: "length (d_img d) = sz \<and> \<not> d_grows d \<and> CHUNK \<le> sz \<and> wipe_part_edges opens sz fsync d = (True, d')"
  have z: "(if sz \<noteq> 0 \<and> sz < CHUNK then sz else CHUNK) = CHUNK" using a by simp
  obtain ok d1 where p: "pwrite_all (replicate CHUNK 0) 0 d = (ok, d1)" by fastforce
  with a z have "ok" by (auto simp: wipe_part_edges_def split: if_splits bool.splits)
  with p pwrite_all_ok [of "replicate CHUNK 0" 0 d d1] a
  have d1: "d_img d1 = bput 0 (replicate CHUNK 0) (d_img d)" "d_grows d1 = d_grows d" by simp_all
  have b1: "d_img d1 = replicate CHUNK 0 @ drop CHUNK (d_img d)" using d1 by (simp add: bput_def)
  show "d_img d' = replicate CHUNK 0 @
        (if 2 * CHUNK < sz then bslice CHUNK (sz - 2 * CHUNK) (d_img d) @ replicate CHUNK 0 else drop CHUNK (d_img d))"
  proof (cases "2 * CHUNK < sz")
    case False
    with a z p \<open>ok\<close> b1 show ?thesis by (auto simp: wipe_part_edges_def split: if_splits)
  next
    case True
    obtain ok2 d2 where q: "pwrite_all (replicate CHUNK 0) (int (sz - CHUNK)) d1 = (ok2, d2)" by fastforce
    with a z p \<open>ok\<close> True have r: "ok2" "d' = d2" by (auto simp: wipe_part_edges_def split: if_splits)
    have l: "length (d_img d1) = sz" using b1 a by simp
    have at: "sz - CHUNK + length (replicate CHUNK (0 :: byte)) \<le> length (d_img d1)" using l a by simp
    have "d_img d2 = bput (sz - CHUNK) (replicate CHUNK 0) (d_img d1)"
      using pwrite_all_ok [of "replicate CHUNK 0" "int (sz - CHUNK)" d1 d2] at r(1) q by (metis nat_int of_nat_0_le_iff)
    with r have "d_img d' = bput (sz - CHUNK) (replicate CHUNK 0) (d_img d1)" by simp
    also have "\<dots> = take (sz - CHUNK) (d_img d1) @ replicate CHUNK 0" using l a True by (simp add: bput_def)
    also have "take (sz - CHUNK) (d_img d1) = replicate CHUNK 0 @ bslice CHUNK (sz - 2 * CHUNK) (d_img d)"
      using b1 True by (simp add: bslice_def mult_2)
    finally show ?thesis using True by simp
  qed
qed

section \<open>The progress window\<close>

text \<open>
  An operation's progress stays inside its window of the bar. As long as the product with the
  width does not exceed 64 bits (widths are at most 90 per cent, so up to 2^57 bytes), the percentage shown is
  at least the base of the window and at most its end, never goes back when more is done, and reaches the end
  when everything is.
\<close>

theorem mapped_window:
  assumes "unat base + unat width \<le> 100" "unat width * unat part2 < 2 ^ 64" "part \<le> part2"
  shows "base \<le> mapped base width part tot \<and> mapped base width part tot \<le> base + width \<and>
    mapped base width part tot \<le> mapped base width part2 tot \<and> (tot \<noteq> 0 \<and> tot = part2 \<longrightarrow> mapped base width part2 tot = base + width)"
proof -
  have le: "unat part \<le> unat part2" using assms(3) by (simp add: word_le_nat_alt)
  have val: "unat (mapped base width p tot) = unat base + (if tot \<noteq> 0 then min (unat width) (unat width * unat p div unat tot) else 0)"
    if p: "unat width * unat p < 2 ^ 64" for p
  proof -
    have m: "unat (width * p div tot) = unat width * unat p div unat tot"
      using p by (simp add: unat_div_distrib unat_word_ariths)
    let ?add = "if width < width * p div tot then width else width * p div tot"
    have add: "unat ?add = min (unat width) (unat width * unat p div unat tot)"
      using m by (auto simp: word_less_nat_alt min_def)
    then have s: "unat (base + ?add) = unat base + unat ?add"
      using assms(1) by (subst unat_add_lem [THEN iffD1]) (auto simp: min_def)
    have h: "\<not> 100 < (if tot \<noteq> 0 then base + ?add else base)"
      using s add assms(1) by (auto simp: word_less_nat_alt min_def)
    then show ?thesis
      using s add by (simp add: mapped_def Let_def)
  qed
  have small: "unat width * unat part < 2 ^ 64"
    using mult_le_mono2 [OF le, of "unat width"] assms(2) by linarith
  have b: "unat (base + width) = unat base + unat width"
    using assms(1) by (subst unat_add_lem [THEN iffD1]) simp_all
  have mono: "unat width * unat part div unat tot \<le> unat width * unat part2 div unat tot"
    using le by (intro div_le_mono mult_le_mono2)
  note v1 = val [OF small] and v2 = val [OF assms(2)]
  have "base \<le> mapped base width part tot" "mapped base width part tot \<le> base + width"
    unfolding word_le_nat_alt v1 b by simp_all
  moreover have "mapped base width part tot \<le> mapped base width part2 tot"
    unfolding word_le_nat_alt v1 v2 using mono by (auto simp: min_def)
  moreover have "mapped base width part2 tot = base + width" if "tot \<noteq> 0" "tot = part2"
  proof -
    have "unat tot \<noteq> 0" using that(1) by (simp add: unat_eq_zero)
    then show ?thesis unfolding word_unat_eq_iff v2 b using that by simp
  qed
  ultimately show ?thesis by blast
qed

section \<open>When nothing fails\<close>

definition succeeds :: "'w flow \<Rightarrow> bool" where
  "succeeds f \<longleftrightarrow> (\<forall>s. fst (f s) = None)"

lemma succeeds_basic: "succeeds skip" "succeeds (stage n)" "succeeds (advisory f)"
  by (simp_all add: succeeds_def skip_def stage_def advisory_def)

lemma succeeds_warned: "succeeds (warned E c)"
  by (simp add: succeeds_def warned_def case_prod_unfold)

lemma succeeds_andthen: "succeeds f \<Longrightarrow> succeeds g \<Longrightarrow> succeeds (andthen f g)"
  unfolding succeeds_def andthen_def by (auto split: prod.splits option.splits) (metis fst_conv option.distinct(1))+

lemma succeeds_steps: "succeeds (steps [])" "succeeds f \<Longrightarrow> succeeds (steps fs) \<Longrightarrow> succeeds (steps (f # fs))"
  by (simp_all add: succeeds_basic succeeds_andthen)

lemma succeeds_map: "(\<And>x. succeeds (f x)) \<Longrightarrow> succeeds (steps (map f xs))"
  by (induction xs) (simp_all add: succeeds_basic succeeds_andthen)

lemma succeeds_also: "succeeds f \<Longrightarrow> succeeds (also_do f g)"
  by (simp add: succeeds_def also_do_def case_prod_unfold)

lemma succeeds_finally: "succeeds f \<Longrightarrow> succeeds g \<Longrightarrow> succeeds (finally_do f g)"
  by (simp add: succeeds_def finally_do_def case_prod_unfold)

lemma succeeds_only: "(b \<Longrightarrow> succeeds f) \<Longrightarrow> succeeds (only b f)"
  by (simp add: only_def succeeds_basic)

lemma succeeds_asking: "(\<And>b. succeeds (k b)) \<Longrightarrow> succeeds (asking q k)"
  by (simp add: succeeds_def asking_def)

lemma succeeds_answer: "(\<And>w. succeeds (k (q w))) \<Longrightarrow> succeeds (asking q k)"
  by (simp add: succeeds_def asking_def)

lemma succeeds_calling: "(\<And>w. fst (f w) \<noteq> None) \<Longrightarrow> (\<And>w b. fst (f w) = Some b \<Longrightarrow> succeeds (k b)) \<Longrightarrow> succeeds (calling c f k)"
  unfolding succeeds_def calling_def by (auto split: prod.splits option.splits) (metis fst_conv option.distinct(1))+

lemmas succeeds_rules = succeeds_warned succeeds_basic succeeds_andthen succeeds_steps succeeds_map succeeds_also succeeds_finally
  succeeds_only succeeds_asking

text \<open>Every operation works, and the answers are good ones.\<close>

definition all_well :: "'w create_env \<Rightarrow> create_opts \<Rightarrow> bytes option \<Rightarrow> bytes \<Rightarrow> bool" where
  "all_well E co src dst \<longleftrightarrow>
     (\<forall>c w. fst (ce_do E c w)) \<and> (\<forall>p w. fst (ce_mount E p w) \<noteq> None) \<and>
     (\<forall>p w. fst (ce_smart E p w) \<noteq> SmartFailed) \<and> (\<forall>c w. fst (ce_badblocks E c w) = Some 0) \<and>
     (\<forall>p w. fst (ce_vdisk E p w) \<noteq> None) \<and> (\<forall>p w. fst (ce_vhd E p w) \<noteq> None) \<and>
     (\<forall>w p. ce_file_size E w p \<le> 0xFFFFFFFF) \<and> (\<forall>w. ce_is_block E w dst) \<and> (\<forall>w. ce_freedos E w \<noteq> None) \<and>
     dst \<noteq> [] \<and> src \<noteq> None \<and> (co_yes co \<or> co_dry_run co)"

lemma p2_of_part1: "dst \<noteq> [] \<Longrightarrow> p2_of (part1 dst) \<noteq> None"
proof -
  have "ascii ''p1'' = [112, 49]" "ascii ''1'' = [49]" by code_simp+
  then show "dst \<noteq> [] \<Longrightarrow> p2_of (part1 dst) \<noteq> None" by (cases dst) (auto simp: part1_def p2_of_def)
qed

lemma create_good:
  assumes "all_well E co src dst"
    "is_mode ''dd'' co \<or> is_mode ''extract'' co \<or> is_mode ''format'' co \<or> is_mode ''dos'' co \<or>
     is_mode ''windows'' co \<and> (windows_fat co \<or> co_fs co = ascii ''ntfs'')"
  shows "fst (rufux_create E src dst co s) = None"
proof -
  note a = assms(1) [unfolded all_well_def]
  define c where "c = normalised co"
  have call: "succeeds (call E x)" for x using a by (simp add: succeeds_def call_def case_prod_unfold)
  have mount: "succeeds (calling (Mount p) (ce_mount E p) k)" if "\<And>m. succeeds (k m)" for p k
    by (rule succeeds_calling) (use a that in auto)
  have guard: "succeeds (vfat_size_guard E q f)" for q f
    unfolding vfat_size_guard_def using a
    by (intro succeeds_only) (auto simp: succeeds_def asking_def not_less skip_def fails_def split: option.splits dest: leD)
  have rescan: "succeeds (rescan_disk E dst)" unfolding rescan_disk_def by (intro succeeds_rules)
  have val: "succeeds (validate_step E e c)" for e unfolding validate_step_def by (intro succeeds_rules)
  have bc: "succeeds (boot_code_step E p c)" "succeeds (install_mbr_step E dst c)" for p
    unfolding boot_code_step_def syslinux_best_effort_def install_mbr_step_def by (intro succeeds_rules call)+
  have dd: "succeeds (flow_dd E p dst c)" for p
    unfolding flow_dd_def Let_def
    by (intro succeeds_calling, use a in simp, split if_split, intro conjI impI succeeds_calling succeeds_rules call)
      (use a in simp_all)
  have dir: "succeeds (flow_extract_dir E src dst c)"
    unfolding flow_extract_dir_def by (intro succeeds_rules guard call)
  have disk: "succeeds (flow_extract_disk E src dst c)"
    unfolding flow_extract_disk_def Let_def
    by (intro succeeds_andthen guard, split if_split, intro conjI impI succeeds_rules call rescan bc mount val)
  have format: "succeeds (flow_format E dst c)"
    unfolding flow_format_def Let_def
    by (rule succeeds_asking, split if_split, intro conjI impI succeeds_rules, split if_split,
        intro conjI impI succeeds_rules call rescan bc)
  have dos: "succeeds (flow_dos E dst c)"
  proof -
    let ?k = "\<lambda>fd mnt. andthen (finally_do (also_do (call E (DosCopyFiles fd mnt)) (stage 70)) (call E (Unmount (part1 dst))))
       (steps [call E (DosPbr (part1 dst) (clip 12 (case co_label c of None \<Rightarrow> ascii ''FREEDOS'' | Some l \<Rightarrow> l))), call E (DosMbr dst)])"
    have "succeeds (?k fd mnt)" for fd mnt by (intro succeeds_rules call)
    then have "succeeds (\<lambda>s. case ?k fd mnt s of (r, s) \<Rightarrow> (r, snd (stage (if r = None then 100 else 70) s)))" for fd mnt
      by (simp add: succeeds_def case_prod_unfold)
    then have m: "succeeds (steps
        [call E (Partition dst (part_opts (ascii ''dos'') (ascii ''single'') (ascii ''vfat'') False c)), stage 10,
         rescan_disk E dst, call E (WaitNode (part1 dst)), call E (Format (part1 dst) (format_opts (ascii ''vfat'') False c)), stage 20,
         calling (Mount (part1 dst)) (ce_mount E (part1 dst)) (\<lambda>mnt s. case ?k fd mnt s of
            (r, s) \<Rightarrow> (r, snd (stage (if r = None then 100 else 70) s)))])" for fd
      by (intro succeeds_rules call rescan mount)
    have fd: "ce_freedos E w = Some (the (ce_freedos E w))" "\<not> \<not> ce_is_block E w dst" for w using a by simp_all
    show ?thesis
      unfolding flow_dos_def Let_def
      by (split if_split, intro conjI impI succeeds_basic succeeds_answer, subst if_not_P [OF fd(2)], rule succeeds_answer,
          subst fd(1), simp only: option.case, rule m)
  qed
  have win: "succeeds (flow_windows E p dst c)" if "windows_fat co \<or> co_fs co = ascii ''ntfs''" for p
  proof -
    have f: "\<not> (\<not> windows_fat c \<and> co_fs c \<noteq> ascii ''ntfs'')" using that by (auto simp: c_def normalised_def windows_fat_def)
    have p2: "\<not> (\<not> windows_fat c \<and> p2_of (part1 dst) = None)" using p2_of_part1 a by blast
    have x: "succeeds (extract_windows E p mnt c)" for mnt unfolding extract_windows_def by (auto intro: call)
    have m: "succeeds (windows_mounted E p dst q mnt c)" for q mnt
      unfolding windows_mounted_def by (intro succeeds_rules x call val)
    have "succeeds (\<lambda>s. case calling (Mount q) (ce_mount E q) (\<lambda>mnt. windows_mounted E p dst q mnt c) s of
        r \<Rightarrow> if fst (ce_mount E q (cs_world s)) \<noteq> None then r else Q s (snd r))" for q Q
      using mount [of "\<lambda>mnt. windows_mounted E p dst q mnt c" q, OF m] a by (simp add: succeeds_def)
    then show ?thesis
      unfolding flow_windows_def Let_def if_not_P [OF f] if_not_P [OF p2]
      by (split if_split, intro conjI impI succeeds_rules call rescan)
  qed
  have mm: "is_mode m c = is_mode m co" for m by (simp add: is_mode_def c_def normalised_def)
  have ext: "succeeds (asking (\<lambda>w. ce_is_dir E w dst) (\<lambda>d. if d then flow_extract_dir E src dst c else flow_extract_disk E src dst c))"
    by (rule succeeds_asking) (use dir disk in simp)
  obtain p where p: "src = Some p" using a by blast
  have flow: "succeeds (run_flow E src dst c)"
    unfolding run_flow_def mm using assms(2) dd ext format dos win p
    by (cases "is_mode ''dd'' co"; cases "is_mode ''extract'' co"; cases "is_mode ''format'' co"; cases "is_mode ''dos'' co") simp_all
  have u: "succeeds (unmount_target E dst c)" unfolding unmount_target_def unmount_disk_def by (intro succeeds_rules call)
  have h: "succeeds (health_check E dst c)"
    unfolding health_check_def by (intro succeeds_rules succeeds_calling) (use a in \<open>auto simp: succeeds_basic\<close>)
  have b: "succeeds (run_badblocks E dst n f i j)" for n f i j
    unfolding run_badblocks_def badblocks_pass_def by (intro succeeds_map succeeds_calling) (use a in \<open>auto simp: succeeds_basic\<close>)
  have y: "\<not> (\<not> co_dry_run c \<and> \<not> co_yes c)" using a by (auto simp: c_def normalised_def)
  have "succeeds (rufux_create E src dst co)"
    unfolding rufux_create_def Let_def c_def [symmetric] if_not_P [OF y] by (intro succeeds_rules u h b call flow)
  then show ?thesis by (simp add: succeeds_def)
qed

text \<open>
  C28: a run succeeds when nothing goes wrong. If every operation the flows call works, the drive
  is a block device in good health, no image is too large for FAT, and the mode is one of the five (the Windows
  mode with a file system it knows), the run reports success; so none of the guards refuses a good drive, and
  the theorems about successful runs are about something.
\<close>

theorem create_succeeds:
  assumes "all_well E co src dst"
    "is_mode ''dd'' co \<or> is_mode ''extract'' co \<or> is_mode ''format'' co \<or> is_mode ''dos'' co \<or>
     is_mode ''windows'' co \<and> (windows_fat co \<or> co_fs co = ascii ''ntfs'')"
  shows "fst (rufux_create E src dst co s) = None"
  using assms by (rule create_good)

section \<open>Examples\<close>

text \<open>Operations that all succeed, on a block device; the run of the Windows flow and of a dry run.\<close>

definition demo_good :: "unit create_env" where
  "demo_good = \<lparr>ce_log = True, ce_is_block = (\<lambda>w p. True), ce_is_dir = (\<lambda>w p. False), ce_file_size = (\<lambda>w p. 0),
     ce_readable = (\<lambda>w p. True), ce_mounts = (\<lambda>w. None), ce_freedos = (\<lambda>w. Some [47]), ce_have = (\<lambda>w p. True),
     ce_do = (\<lambda>c w. (True, ())), ce_mount = (\<lambda>p w. (Some [47, 109], ())), ce_smart = (\<lambda>p w. (SmartPassed, ())),
     ce_badblocks = (\<lambda>c w. (Some 0, ())), ce_vdisk = (\<lambda>p w. (Some False, ())), ce_vhd = (\<lambda>p w. (Some None, ()))\<rparr>"

definition demo_opts :: "string \<Rightarrow> bool \<Rightarrow> create_opts" where
  "demo_opts mode dry = \<lparr>co_mode = ascii mode, co_scheme = ascii ''gpt'', co_fs = ascii ''ntfs'', co_label = None, co_wue = None,
     co_split_wim_mb = 0, co_locale = None, co_keyboard = None, co_timezone = None, co_persist_mb = 0, co_cluster_sectors = 0,
     co_quick_format = True, co_extended_label = True, co_uefi_validate = True, co_badblock_passes = 0, co_verify = True,
     co_ignore_smart = False, co_dry_run = dry, co_allow_fixed = False, co_allow_file = False, co_yes = True\<rparr>"

definition demo_start :: "unit create_state" where
  "demo_start = \<lparr>cs_world = (), cs_trace = [], cs_progress = []\<rparr>"

definition demo_run :: "string \<Rightarrow> bool \<Rightarrow> create_error option \<times> unit create_state" where
  "demo_run mode dry = rufux_create demo_good (Some (ascii ''/i'')) (ascii ''/dev/sda'') (demo_opts mode dry) demo_start"

lemma demo_well: "all_well demo_good (demo_opts mode False) (Some (ascii ''/i'')) (ascii ''/dev/sda'')"
  by (simp add: all_well_def demo_good_def demo_opts_def) code_simp

lemma demo_modes: "is_mode ''windows'' (demo_opts ''windows'' False)" "co_fs (demo_opts m d) = ascii ''ntfs''"
  by (simp_all add: is_mode_def demo_opts_def)

theorem create_succeeds_witness: "fst (rufux_create demo_good (Some (ascii ''/i'')) (ascii ''/dev/sda'') (demo_opts ''format'' False) demo_start) = None"
  by (rule create_succeeds [OF demo_well]) (simp add: is_mode_def demo_opts_def)

lemma demo_windows: "fst (demo_run ''windows'' False) = None"
  unfolding demo_run_def by (rule create_good [OF demo_well]) (simp add: demo_modes)

theorem create_dry_run_witness:
  "\<exists>t. cs_trace (snd (demo_run ''dd'' True)) = [] @ t \<and> (\<forall>(c, ok)\<in>set t. \<not> writes c)"
proof -
  have "co_dry_run (demo_opts ''dd'' True)" "ce_log demo_good" by (simp_all add: demo_opts_def demo_good_def)
  from create_dry_run [OF this, of "Some (ascii ''/i'')" "ascii ''/dev/sda''" demo_start] show ?thesis
    by (simp add: demo_run_def demo_start_def)
qed







theorem windows_order_witness:
  "\<exists>pre fill rest.
     cs_trace (snd (demo_run ''windows'' False)) =
       pre @ (Mount (ascii ''/dev/sda1''), True) # fill @ (Unmount (ascii ''/dev/sda1''), True) # rest \<and>
     keys pre = windows_prepare (ascii ''/dev/sda'') (demo_opts ''windows'' False) \<and>
     keys fill = windows_fill (ascii ''/i'') (ascii ''/dev/sda'') [47, 109] (demo_opts ''windows'' False) \<and> keys rest = []"
proof -
  have r: "demo_run ''windows'' False = (None, snd (demo_run ''windows'' False))" using demo_windows by (metis prod.collapse)
  have m: "is_mode ''windows'' (demo_opts ''windows'' False)" "\<not> co_dry_run (demo_opts ''windows'' False)"
    by (simp_all add: is_mode_def demo_opts_def)
  have n: "normalised (demo_opts ''windows'' False) = demo_opts ''windows'' False" "co_badblock_passes (demo_opts ''windows'' False) = 0"
    "part1 (ascii ''/dev/sda'') = ascii ''/dev/sda1''" by code_simp (simp add: demo_opts_def, code_simp)
  have d: "ce_mount demo_good p w = (Some [47, 109], ())" for p w by (simp add: demo_good_def)
  show ?thesis
    using windows_order [OF r [unfolded demo_run_def] m, unfolded n d] by (fastforce simp: demo_start_def demo_run_def)
qed

theorem create_unmounts_witness:
  "\<exists>t. cs_trace (snd (demo_run ''windows'' False)) = [] @ t \<and>
     (\<forall>pre post p. t = pre @ (Mount p, True) # post \<longrightarrow> Unmount p \<in> fst ` set post)"
  using create_unmounts [of demo_good "Some (ascii ''/i'')" "ascii ''/dev/sda''" "demo_opts ''windows'' False" demo_start]
  by (simp add: demo_run_def demo_start_def)

text \<open>
  The log callback matters: without one, a dry run of the extract mode goes on to partition the drive for real.
\<close>

lemma dry_run_without_log:
  "map fst (cs_trace (snd (rufux_create (demo_good\<lparr>ce_log := False, ce_do := \<lambda>c w. (False, ())\<rparr>) (Some (ascii ''/i''))
     (ascii ''/dev/sda'') (demo_opts ''extract'' True) demo_start))) =
   [Partition (ascii ''/dev/sda'') (part_opts (ascii ''gpt'') (ascii ''single'') (ascii ''ntfs'') False (demo_opts ''extract'' True))]"
  by code_simp

end
