(* ===== verification/Wue.thy ===== *)
theory Wue
  imports BiosBoot Create
begin

text \<open>
  The Windows User Experience options of \<open>src/linux/wininstall.c\<close>: reading the option list
  (\<open>wue_parse\<close>), the regional names (\<open>lang_tag\<close>, \<open>klid_for\<close>, \<open>tz_lookup\<close>, \<open>locale_fill\<close>), the commands of
  the first logon and the answer file (\<open>write_xml\<close>). The answer file is a tree, printed with two blanks of
  indentation for each level, which is how every line of the C function is laid out.
\<close>

section \<open>Options\<close>

record wue =
  w_bypass :: bool
  w_nro :: bool
  w_privacy :: bool
  w_bitlocker :: bool
  w_locale :: bool
  w_qol :: bool
  w_user :: bytes
  w_lang :: bytes
  w_kbd :: bytes
  w_tz :: bytes

definition no_wue :: wue where
  "no_wue = \<lparr>w_bypass = False, w_nro = False, w_privacy = False, w_bitlocker = False, w_locale = False,
     w_qol = False, w_user = [], w_lang = [], w_kbd = [], w_tz = []\<rparr>"

datatype wue_error = BadAccount bytes | UnknownItem bytes | NoOption

definition bad_names :: "bytes list" where
  "bad_names = map ascii [''administrator'', ''guest'', ''defaultaccount'', ''wdagutilityaccount'', ''system'',
     ''network'', ''local service'', ''network service'', ''krbtgt'', ''root'']"

text \<open>The characters that are replaced: a quotation mark, a slash, a backslash and those of the literal.\<close>

definition rejected_chars :: bytes where
  "rejected_chars = [34, 47, 92] @ ascii ''[]:;|=,+*?<>@&''"

definition account_char :: "byte \<Rightarrow> byte" where
  "account_char c = (if c \<in> set rejected_chars \<or> c < 32 then 95 else c)"

definition account_name :: "bytes \<Rightarrow> bytes" where
  "account_name s = map account_char (clip 64 s)"

definition reserved :: "bytes \<Rightarrow> bool" where
  "reserved u \<longleftrightarrow> list_ex (strcasecmp_eq u) bad_names"

definition wue_item :: "bytes \<Rightarrow> wue \<Rightarrow> wue_error + wue" where
  "wue_item tok0 w =
     (let tok = dropWhile (\<lambda>c. c = 32) tok0;
          is = (\<lambda>s. strcasecmp_eq tok (ascii s))
      in if strcasecmp_eq (take 5 tok) (ascii ''user='') then
           let u = account_name (drop 5 tok)
           in if reserved u then Inl (BadAccount u) else Inr (w\<lparr>w_user := u\<rparr>)
         else if is ''bypass'' then Inr (w\<lparr>w_bypass := True\<rparr>)
         else if is ''nro'' then Inr (w\<lparr>w_nro := True\<rparr>)
         else if is ''privacy'' then Inr (w\<lparr>w_privacy := True\<rparr>)
         else if is ''bitlocker'' then Inr (w\<lparr>w_bitlocker := True\<rparr>)
         else if is ''locale'' then Inr (w\<lparr>w_locale := True\<rparr>)
         else if is ''qol'' then Inr (w\<lparr>w_qol := True\<rparr>)
         else if is ''all'' then
           Inr (w\<lparr>w_bypass := True, w_nro := True, w_privacy := True, w_bitlocker := True, w_qol := True\<rparr>)
         else Inl (UnknownItem tok))"

fun wue_items :: "bytes list \<Rightarrow> wue \<Rightarrow> wue_error + wue" where
  "wue_items [] w = Inr w"
| "wue_items (tok # toks) w = (case wue_item tok w of Inl e \<Rightarrow> Inl e | Inr w \<Rightarrow> wue_items toks w)"

definition names_nothing :: "wue \<Rightarrow> bool" where
  "names_nothing w \<longleftrightarrow> \<not> w_bypass w \<and> \<not> w_nro w \<and> \<not> w_privacy w \<and> \<not> w_bitlocker w \<and> \<not> w_locale w \<and>
     \<not> w_qol w \<and> w_user w = []"

text \<open>\<open>Inr None\<close> is the return value 1: the list is "none".\<close>

definition wue_parse :: "bytes option \<Rightarrow> wue_error + wue option" where
  "wue_parse spec =
     (case spec of
        None \<Rightarrow> Inr (Some (no_wue\<lparr>w_bypass := True\<rparr>))
      | Some s \<Rightarrow>
          if s = ascii ''none'' then Inr None
          else if s = [] then Inr (Some (no_wue\<lparr>w_bypass := True\<rparr>))
          else case wue_items (strtok 44 (clip 512 s)) no_wue of
            Inl e \<Rightarrow> Inl e
          | Inr w \<Rightarrow> if names_nothing w then Inl NoOption else Inr (Some w))"

section \<open>Regional names\<close>

definition tz_map :: "(bytes \<times> bytes) list" where
  "tz_map = map (\<lambda>(i, w). (ascii i, ascii w))
     [(''UTC'', ''UTC''), (''Etc/UTC'', ''UTC''), (''Africa/Cairo'', ''Egypt Standard Time''),
      (''Africa/Johannesburg'', ''South Africa Standard Time''), (''Africa/Lagos'', ''W. Central Africa Standard Time''),
      (''Africa/Nairobi'', ''E. Africa Standard Time''), (''Africa/Casablanca'', ''Morocco Standard Time''),
      (''Africa/Algiers'', ''W. Central Africa Standard Time''), (''Africa/Tunis'', ''W. Central Africa Standard Time''),
      (''Europe/London'', ''GMT Standard Time''), (''Europe/Dublin'', ''GMT Standard Time''),
      (''Europe/Lisbon'', ''GMT Standard Time''), (''Europe/Paris'', ''Romance Standard Time''),
      (''Europe/Madrid'', ''Romance Standard Time''), (''Europe/Brussels'', ''Romance Standard Time''),
      (''Europe/Berlin'', ''W. Europe Standard Time''), (''Europe/Amsterdam'', ''W. Europe Standard Time''),
      (''Europe/Rome'', ''W. Europe Standard Time''), (''Europe/Vienna'', ''W. Europe Standard Time''),
      (''Europe/Zurich'', ''W. Europe Standard Time''), (''Europe/Stockholm'', ''W. Europe Standard Time''),
      (''Europe/Oslo'', ''W. Europe Standard Time''), (''Europe/Warsaw'', ''Central European Standard Time''),
      (''Europe/Prague'', ''Central Europe Standard Time''), (''Europe/Budapest'', ''Central Europe Standard Time''),
      (''Europe/Athens'', ''GTB Standard Time''), (''Europe/Bucharest'', ''GTB Standard Time''),
      (''Europe/Helsinki'', ''FLE Standard Time''), (''Europe/Kiev'', ''FLE Standard Time''),
      (''Europe/Kyiv'', ''FLE Standard Time''), (''Europe/Istanbul'', ''Turkey Standard Time''),
      (''Europe/Moscow'', ''Russian Standard Time''), (''Asia/Riyadh'', ''Arab Standard Time''),
      (''Asia/Dubai'', ''Arabian Standard Time''), (''Asia/Baghdad'', ''Arabic Standard Time''),
      (''Asia/Jerusalem'', ''Israel Standard Time''), (''Asia/Tehran'', ''Iran Standard Time''),
      (''Asia/Kolkata'', ''India Standard Time''), (''Asia/Karachi'', ''Pakistan Standard Time''),
      (''Asia/Dhaka'', ''Bangladesh Standard Time''), (''Asia/Bangkok'', ''SE Asia Standard Time''),
      (''Asia/Shanghai'', ''China Standard Time''), (''Asia/Hong_Kong'', ''China Standard Time''),
      (''Asia/Singapore'', ''Singapore Standard Time''), (''Asia/Tokyo'', ''Tokyo Standard Time''),
      (''Asia/Seoul'', ''Korea Standard Time''), (''Australia/Sydney'', ''AUS Eastern Standard Time''),
      (''Pacific/Auckland'', ''New Zealand Standard Time''), (''America/New_York'', ''Eastern Standard Time''),
      (''America/Toronto'', ''Eastern Standard Time''), (''America/Chicago'', ''Central Standard Time''),
      (''America/Denver'', ''Mountain Standard Time''), (''America/Los_Angeles'', ''Pacific Standard Time''),
      (''America/Sao_Paulo'', ''E. South America Standard Time''),
      (''America/Argentina/Buenos_Aires'', ''Argentina Standard Time''),
      (''America/Mexico_City'', ''Central Standard Time (Mexico)'')]"

definition kbd_map :: "(bytes \<times> bytes) list" where
  "kbd_map = map (\<lambda>(t, k). (ascii t, ascii k))
     [(''en-US'', ''0409:00000409''), (''en-GB'', ''0809:00000809''), (''en'', ''0409:00000409''),
      (''ar'', ''0401:00000401''), (''fr-CA'', ''0c0c:00001009''), (''fr'', ''040c:0000040c''),
      (''de'', ''0407:00000407''), (''es-MX'', ''080a:0000080a''), (''es'', ''0c0a:0000040a''),
      (''it'', ''0410:00000410''), (''pt-BR'', ''0416:00000416''), (''pt'', ''0816:00000816''),
      (''ru'', ''0419:00000419''), (''tr'', ''041f:0000041f''), (''nl'', ''0413:00020409''),
      (''pl'', ''0415:00000415''), (''sv'', ''041d:0000041d''), (''da'', ''0406:00000406''),
      (''nb'', ''0414:00000414''), (''fi'', ''040b:0000040b''), (''cs'', ''0405:00000405''),
      (''el'', ''0408:00000408''), (''he'', ''040d:0000040d''), (''ja'', ''0411:00000411''),
      (''ko'', ''0412:00000412''), (''zh-CN'', ''0804:00000804''), (''zh'', ''0404:00000404''),
      (''hi'', ''0439:00010439''), (''fa'', ''0429:00000429''), (''uk'', ''0422:00020422'')]"

definition lang_tag :: "bytes option \<Rightarrow> bytes" where
  "lang_tag inp =
     (let s = (case inp of None \<Rightarrow> ascii ''en-US''
               | Some s \<Rightarrow> if s \<noteq> [] \<and> s \<noteq> ascii ''C'' \<and> s \<noteq> ascii ''POSIX'' then s else ascii ''en-US'')
      in map (\<lambda>c. if c = 95 then 45 else c) (takeWhile (\<lambda>c. c \<noteq> 46 \<and> c \<noteq> 64) (clip 32 s)))"

definition klid_of :: "bytes \<Rightarrow> bytes option" where
  "klid_of tag = map_option snd (List.find (\<lambda>(t, k). strcasecmp_eq t tag) kbd_map)"

definition klid_for :: "bytes \<Rightarrow> bytes" where
  "klid_for tag =
     (case klid_of tag of
        Some k \<Rightarrow> k
      | None \<Rightarrow>
          (case klid_of (takeWhile (\<lambda>c. c \<noteq> 45) (clip 8 tag)) of Some k \<Rightarrow> k | None \<Rightarrow> ascii ''0409:00000409''))"

definition tz_lookup :: "bytes \<Rightarrow> bytes" where
  "tz_lookup zone =
     (if zone = [] then []
      else if strstr (ascii ''Standard Time'') zone \<noteq> None \<or> zone = ascii ''UTC'' then clip 64 zone
      else case map_of tz_map zone of Some w \<Rightarrow> clip 64 w | None \<Rightarrow> [])"

text \<open>\<open>/etc/localtime\<close> is a link; \<open>l\<close> holds its first 255 bytes.\<close>

definition local_zone :: "bytes option \<Rightarrow> bytes" where
  "local_zone link =
     (case link of
        None \<Rightarrow> []
      | Some l \<Rightarrow> (case strstr (ascii ''zoneinfo/'') (take 255 l) of None \<Rightarrow> [] | Some z \<Rightarrow> clip 128 (drop 9 z)))"

definition given :: "bytes option \<Rightarrow> bool" where
  "given s \<longleftrightarrow> s \<noteq> None \<and> s \<noteq> Some []"

definition locale_fill :: "'z host_scheme \<Rightarrow> bytes option \<Rightarrow> bytes option \<Rightarrow> bytes option \<Rightarrow> bytes option \<Rightarrow> wue \<Rightarrow> wue" where
  "locale_fill h link lang kbd tz w =
     (let env = (case h_getenv h (ascii ''LC_ALL'') of Some v \<Rightarrow> Some v | None \<Rightarrow> h_getenv h (ascii ''LANG''));
          l = lang_tag (if given lang then lang else env);
          k = clip 32 (if given kbd then the kbd else klid_for l);
          zone = (if given tz then clip 128 (the tz) else local_zone link)
      in w\<lparr>w_lang := l, w_kbd := k, w_tz := tz_lookup zone\<rparr>)"

section \<open>The commands of the first logon\<close>

definition quoted :: "bytes \<Rightarrow> bytes" where
  "quoted s = [34] @ s @ [34]"

text \<open>A registry path, with a slash for each backslash.\<close>

definition winpath :: "string \<Rightarrow> bytes" where
  "winpath s = map (\<lambda>c. if c = 47 then 92 else c) (ascii s)"

definition reg_add :: "bytes \<Rightarrow> string \<Rightarrow> string \<Rightarrow> bytes" where
  "reg_add key val d = ascii ''reg add '' @ key @ ascii '' /v '' @ ascii val @ ascii '' /t REG_DWORD /d '' @ ascii d @ ascii '' /f''"

definition qol_commands :: "bytes list" where
  "qol_commands =
     map (\<lambda>(key, val, d). reg_add (quoted (winpath key)) val d)
       [(''HKLM/System/CurrentControlSet/Control/Session Manager/Power'', ''HiberbootEnabled'', ''0''),
        (''HKCU/Software/Microsoft/Windows/CurrentVersion/Explorer/Advanced'', ''ShowCopilotButton'', ''0''),
        (''HKLM/Software/Policies/Microsoft/Windows/WindowsCopilot'', ''TurnOffWindowsCopilot'', ''1''),
        (''HKCU/Software/Microsoft/Windows/CurrentVersion/Search'', ''SearchboxTaskbarMode'', ''1''),
        (''HKLM/Software/Policies/Microsoft/Windows/CloudContent'', ''DisableWindowsConsumerFeatures'', ''1''),
        (''HKCU/Software/Microsoft/Windows/CurrentVersion/ContentDeliveryManager'', ''SystemPaneSuggestionsEnabled'', ''0''),
        (''HKCU/SOFTWARE/Microsoft/Windows/CurrentVersion/Search'', ''BingSearchEnabled'', ''0''),
        (''HKLM/Software/Policies/Microsoft/Windows/Device Metadata'', ''PreventDeviceMetadataFromNetwork'', ''1''),
        (''HKLM/Software/Policies/Microsoft/Dsh'', ''AllowNewsAndInterests'', ''0''),
        (''HKLM/Software/Policies/Microsoft/Windows/Windows Feeds'', ''EnableFeeds'', ''0''),
        (''HKLM/Software/Microsoft/Windows/CurrentVersion/Communications'', ''ConfigureChatAutoInstall'', ''0''),
        (''HKLM/Software/Policies/Microsoft/Windows/CloudContent'', ''DisableCloudOptimizedContent'', ''1''),
        (''HKLM/Software/Policies/Microsoft/Edge'', ''HideFirstRunExperience'', ''1''),
        (''HKCU/Software/Microsoft/Windows/CurrentVersion/Explorer/Advanced'', ''Start_Layout'', ''1'')] @
     [ascii ''reg add '' @ quoted (winpath ''HKCU/Software/Classes/CLSID/{86ca1aa0-34aa-4e8b-a509-50c905bae2a2}/InprocServer32'')
        @ ascii '' /ve /t REG_SZ /d '' @ quoted [] @ ascii '' /f'']"

text \<open>\<open>cmds\<close> has 32 slots and \<open>cmdbuf\<close> 512 bytes.\<close>

definition first_logon :: "wue \<Rightarrow> bytes list" where
  "first_logon w =
     (let out = (if w_user w \<noteq> [] then
                   [clip 512 (ascii ''net user '' @ quoted (w_user w) @ ascii '' /logonpasswordchg:yes''),
                    ascii ''net accounts /maxpwage:unlimited'']
                 else [])
      in if w_qol w then out @ take (32 - length out) qol_commands else out)"

section \<open>The answer file\<close>

text \<open>
  \<open>Leaf\<close>: an element with only text, on one line; the text is the bytes as printed. \<open>Void\<close>: an empty element.
\<close>

datatype xml =
    Leaf string bytes
  | Void string
  | Node string "(string \<times> bytes) list" "xml list"

definition xesc_char :: "byte \<Rightarrow> bytes" where
  "xesc_char c =
     (if c = 38 then ascii ''&amp;'' else if c = 60 then ascii ''&lt;'' else if c = 62 then ascii ''&gt;'' else [c])"

definition xesc :: "bytes \<Rightarrow> bytes" where
  "xesc s = concat (map xesc_char s)"

definition indent :: "nat \<Rightarrow> bytes" where
  "indent d = replicate (2 * d) 32"

definition start_tag :: "string \<Rightarrow> (string \<times> bytes) list \<Rightarrow> bytes" where
  "start_tag n as = ascii n @ concat (map (\<lambda>(a, v). 32 # ascii a @ 61 # quoted v) as)"

definition in_tag :: "bytes \<Rightarrow> bytes" where
  "in_tag s = 60 # s @ [62]"

fun render :: "nat \<Rightarrow> xml \<Rightarrow> bytes" where
  "render d (Leaf n t) = indent d @ in_tag (ascii n) @ t @ in_tag (47 # ascii n) @ nl"
| "render d (Void n) = indent d @ in_tag (ascii n @ [32, 47]) @ nl"
| "render d (Node n as cs) =
     indent d @ in_tag (start_tag n as) @ nl @ concat (map (render (Suc d)) cs) @ indent d @ in_tag (47 # ascii n) @ nl"

text \<open>The parts of \<open>write_xml\<close>, in its order. \<open>comp\<close> is the attribute list every component carries.\<close>

definition component :: "string \<Rightarrow> bytes \<Rightarrow> xml list \<Rightarrow> xml" where
  "component name arch cs =
     Node ''component''
       [(''name'', ascii name), (''processorArchitecture'', arch), (''publicKeyToken'', ascii ''31bf3856ad364e35''),
        (''language'', ascii ''neutral''), (''versionScope'', ascii ''nonSxS''),
        (''xmlns:wcm'', ascii ''http://schemas.microsoft.com/WMIConfig/2002/State''),
        (''xmlns:xsi'', ascii ''http://www.w3.org/2001/XMLSchema-instance'')] cs"

definition settings :: "string \<Rightarrow> xml list \<Rightarrow> xml" where
  "settings pass cs = Node ''settings'' [(''pass'', ascii pass)] cs"

definition adding :: "string \<Rightarrow> xml list \<Rightarrow> xml" where
  "adding n cs = Node n [(''wcm:action'', ascii ''add'')] cs"

definition reg_path :: "bytes \<Rightarrow> nat \<Rightarrow> xml" where
  "reg_path cmd i = adding ''RunSynchronousCommand'' [Leaf ''Order'' (dec i), Leaf ''Path'' cmd]"

definition lab_keys :: "string list" where
  "lab_keys = [''BypassTPMCheck'', ''BypassSecureBootCheck'', ''BypassRAMCheck'']"

definition winpe_pass :: "bytes \<Rightarrow> xml" where
  "winpe_pass arch =
     settings ''windowsPE''
       [component ''Microsoft-Windows-Setup'' arch
         [Node ''UserData'' [] [Leaf ''AcceptEula'' (ascii ''true''), Node ''ProductKey'' [] [Void ''Key'']],
          Node ''RunSynchronous'' []
            (map (\<lambda>(k, i). reg_path (reg_add (winpath ''HKLM/SYSTEM/Setup/LabConfig'') k ''1'') (i + 1)) (zip lab_keys [0..<3]))]]"

definition nro_pass :: "bytes \<Rightarrow> xml" where
  "nro_pass arch =
     settings ''specialize''
       [component ''Microsoft-Windows-Deployment'' arch
         [Node ''RunSynchronous'' []
            [reg_path (reg_add (winpath ''HKLM/SOFTWARE/Microsoft/Windows/CurrentVersion/OOBE'') ''BypassNRO'' ''1'') 1]]]"

definition account_xml :: "bytes \<Rightarrow> xml" where
  "account_xml user =
     Node ''UserAccounts'' [] [Node ''LocalAccounts'' []
       [adding ''LocalAccount''
         [Leaf ''Name'' (xesc user), Leaf ''DisplayName'' (xesc user),
          Leaf ''Group'' (ascii ''Administrators;Power Users''),
          Node ''Password'' [] [Leaf ''Value'' (ascii ''UABhAHMAcwB3AG8AcgBkAA==''), Leaf ''PlainText'' (ascii ''false'')]]]]"

definition commands_xml :: "bytes list \<Rightarrow> xml" where
  "commands_xml cmds =
     Node ''FirstLogonCommands'' []
       (map (\<lambda>(c, i). adding ''SynchronousCommand'' [Leaf ''Order'' (dec (i + 1)), Leaf ''CommandLine'' (xesc c)])
         (zip cmds [0..<length cmds]))"

definition opt :: "bool \<Rightarrow> xml \<Rightarrow> xml list" where
  "opt b x = (if b then [x] else [])"

definition needs_shell :: "wue \<Rightarrow> bool" where
  "needs_shell w \<longleftrightarrow> w_privacy w \<or> w_user w \<noteq> [] \<or> first_logon w \<noteq> [] \<or> w_locale w \<and> w_tz w \<noteq> []"

definition shell_xml :: "bytes \<Rightarrow> wue \<Rightarrow> xml" where
  "shell_xml arch w =
     component ''Microsoft-Windows-Shell-Setup'' arch
       (opt (w_privacy w) (Node ''OOBE'' []
          [Leaf ''HideEULAPage'' (ascii ''true''), Leaf ''ProtectYourPC'' (ascii ''3''),
           Leaf ''HideWirelessSetupInOOBE'' (ascii ''true'')]) @
        opt (w_locale w \<and> w_tz w \<noteq> []) (Leaf ''TimeZone'' (w_tz w)) @
        opt (w_user w \<noteq> []) (account_xml (w_user w)) @
        opt (first_logon w \<noteq> []) (commands_xml (first_logon w)))"

definition locale_xml :: "bytes \<Rightarrow> wue \<Rightarrow> xml" where
  "locale_xml arch w =
     component ''Microsoft-Windows-International-Core'' arch
       [Leaf ''InputLocale'' (w_kbd w), Leaf ''SystemLocale'' (w_lang w), Leaf ''UserLocale'' (w_lang w),
        Leaf ''UILanguage'' (w_lang w), Leaf ''UILanguageFallback'' (ascii ''en-US'')]"

definition bitlocker_xml :: "bytes \<Rightarrow> xml list" where
  "bitlocker_xml arch =
     [component ''Microsoft-Windows-SecureStartup-FilterDriver'' arch [Leaf ''PreventDeviceEncryption'' (ascii ''true'')],
      component ''Microsoft-Windows-EnhancedStorage-Adm'' arch [Leaf ''TCGSecurityActivationDisabled'' (ascii ''1'')]]"

definition oobe_pass :: "bytes \<Rightarrow> wue \<Rightarrow> xml" where
  "oobe_pass arch w =
     settings ''oobeSystem''
       (opt (needs_shell w) (shell_xml arch w) @ opt (w_locale w) (locale_xml arch w) @
        (if w_bitlocker w then bitlocker_xml arch else []))"

definition answer_tree :: "bytes \<Rightarrow> wue \<Rightarrow> bool \<Rightarrow> xml" where
  "answer_tree arch w winpe =
     Node ''unattend'' [(''xmlns'', ascii ''urn:schemas-microsoft-com:unattend'')]
       (opt winpe (winpe_pass arch) @ opt (w_nro w) (nro_pass arch) @
        opt (needs_shell w \<or> w_locale w \<or> w_bitlocker w) (oobe_pass arch w))"

definition answer_file :: "bytes \<Rightarrow> wue \<Rightarrow> bool \<Rightarrow> bytes" where
  "answer_file arch w winpe =
     in_tag (63 # start_tag ''xml'' [(''version'', ascii ''1.0''), (''encoding'', ascii ''utf-8'')] @ [63]) @ nl @
     in_tag (ascii ''!-- Generated by Rufux (Windows User Experience). --'') @ nl @
     render 0 (answer_tree arch w winpe)"

end
