(* ===== verification/WueProps.thy ===== *)
theory WueProps
  imports Wue
begin

text \<open>
  What the option list and the answer file guarantee. A small XML reader is the reference: it splits the text at
  the angle brackets, decodes the three entities, drops line breaks with their indentation, and matches the end
  tags with a stack. The answer file is read back as the tree it was printed from.
\<close>

section \<open>A reader for XML\<close>












section \<open>The tree a printed document stands for\<close>





section \<open>Lexing\<close>













section \<open>The answer file\<close>











text \<open>What has to be known about the variable parts.\<close>

definition plain_text :: "bytes \<Rightarrow> bool" where
  "plain_text t \<longleftrightarrow> list_all (\<lambda>c. c \<noteq> 60 \<and> c \<noteq> 38 \<and> c \<noteq> 10) t"



lemma plain_append [simp]: "plain_text (a @ b) \<longleftrightarrow> plain_text a \<and> plain_text b"
  by (simp add: plain_text_def)


lemma plain_reg: "plain_text key \<Longrightarrow> plain_text (ascii v) \<Longrightarrow> plain_text (reg_add key v ''1'')"
  by (simp add: reg_add_def) (simp add: plain_text_def ascii_def)






















text \<open>The texts and tags of the tree.\<close>

lemma opt_simps [simp]: "opt True x = [x]" "opt False x = []"
  by (simp_all add: opt_def)





















lemma first_logon_shell: "first_logon w \<noteq> [] \<Longrightarrow> needs_shell w"
  by (simp add: needs_shell_def)







section \<open>The option list\<close>

definition good_account :: "bytes \<Rightarrow> bool" where
  "good_account u \<longleftrightarrow> length u \<le> 63 \<and> (\<forall>c\<in>set u. c \<notin> set rejected_chars \<and> 32 \<le> c) \<and> \<not> reserved u"

lemma account_char_ok: "account_char c \<notin> set rejected_chars \<and> 32 \<le> account_char c"
proof (cases "c \<in> set rejected_chars \<or> c < 32")
  case True
  moreover have "(95 :: byte) \<notin> set rejected_chars" by (simp add: rejected_chars_def ascii_def)
  ultimately show ?thesis by (simp add: account_char_def)
next
  case False
  then show ?thesis by (auto simp: account_char_def not_less)
qed

lemma good_account_Nil: "good_account []"
  by (simp add: good_account_def reserved_def bad_names_def strcasecmp_eq_def ascii_def)

lemma wue_item_account:
  assumes "wue_item tok v = Inr w" "good_account (w_user v)"
  shows "good_account (w_user w)"
proof (cases "strcasecmp_eq (take 5 (dropWhile (\<lambda>c. c = 32) tok)) (ascii ''user='')")
  case True
  with assms(1) have "w_user w = account_name (drop 5 (dropWhile (\<lambda>c. c = 32) tok))" "\<not> reserved (w_user w)"
    by (auto simp: wue_item_def Let_def split: if_splits)
  then show ?thesis using account_char_ok by (auto simp: good_account_def account_name_def clip_def)
next
  case False
  with assms show ?thesis by (auto simp: wue_item_def Let_def split: if_splits)
qed

lemma wue_items_account:
  "wue_items toks v = Inr w \<Longrightarrow> good_account (w_user v) \<Longrightarrow> good_account (w_user w)"
  by (induction toks arbitrary: v) (auto split: sum.splits dest: wue_item_account)

lemma wue_parse_good: "wue_parse spec = Inr (Some w) \<Longrightarrow> good_account (w_user w) \<and> \<not> names_nothing w"
  using wue_items_account good_account_Nil
  by (fastforce simp: wue_parse_def no_wue_def names_nothing_def split: option.splits if_splits sum.splits)

lemma good_account_clean: "good_account u \<Longrightarrow> 10 \<notin> set u"
proof
  assume "good_account u" "10 \<in> set u"
  then have "(32 :: byte) \<le> 10" by (auto simp: good_account_def)
  then show False by simp
qed

lemma locale_fill_flags [simp]:
  "w_user (locale_fill h l a k t v) = w_user v" "w_locale (locale_fill h l a k t v) = w_locale v"
  "w_nro (locale_fill h l a k t v) = w_nro v" "w_privacy (locale_fill h l a k t v) = w_privacy v"
  "w_bitlocker (locale_fill h l a k t v) = w_bitlocker v" "w_qol (locale_fill h l a k t v) = w_qol v"
  "w_bypass (locale_fill h l a k t v) = w_bypass v"
  by (simp_all add: locale_fill_def Let_def)

text \<open>The commands fit their buffer.\<close>

lemma first_logon_exact:
  assumes "length (w_user w) \<le> 63"
  shows "first_logon w =
    (if w_user w \<noteq> [] then [ascii ''net user '' @ quoted (w_user w) @ ascii '' /logonpasswordchg:yes'',
        ascii ''net accounts /maxpwage:unlimited''] else []) @ (if w_qol w then qol_commands else [])"
proof -
  have "length qol_commands = 15" by (simp add: qol_commands_def)
  moreover have "length (ascii s) = length s" for s by (simp add: ascii_def)
  ultimately show ?thesis using assms by (auto simp: first_logon_def clip_def quoted_def)
qed

text \<open>
  C29: an account name that the option list yields can be put between quotation marks. It is at most 63
  bytes long, has no character that Windows refuses, no quotation mark and no control character, and is none
  of the reserved names in any spelling. The first command of the first logon names exactly this account, in
  quotation marks; neither it nor any other command is cut short by its buffer or by the number of slots.
\<close>

theorem wue_account:
  assumes "wue_parse spec = Inr (Some w)"
  shows "length (w_user w) \<le> 63 \<and> (\<forall>c\<in>set (w_user w). c \<notin> set rejected_chars \<and> 32 \<le> c) \<and> \<not> reserved (w_user w) \<and>
    first_logon w =
      (if w_user w = [] then []
       else [ascii ''net user '' @ [34] @ w_user w @ [34] @ ascii '' /logonpasswordchg:yes'',
             ascii ''net accounts /maxpwage:unlimited'']) @
      (if w_qol w then qol_commands else [])"
  using wue_parse_good [OF assms] first_logon_exact [of w] by (auto simp: good_account_def quoted_def)


definition demo_wue :: wue where
  "demo_wue = no_wue\<lparr>w_nro := True, w_user := ascii ''a_b''\<rparr>"

lemma demo_wue_parse: "wue_parse (Some (ascii ''nro, user=a&b'')) = Inr (Some demo_wue)"
  by code_simp

theorem wue_account_witness:
  "list_all (\<lambda>c. 32 \<le> c) (w_user demo_wue) \<and>
   first_logon demo_wue = [ascii ''net user '' @ [34] @ ascii ''a_b'' @ [34] @ ascii '' /logonpasswordchg:yes'',
     ascii ''net accounts /maxpwage:unlimited'']"
  using wue_account [OF demo_wue_parse] by (simp add: list_all_iff demo_wue_def no_wue_def ascii_def)



end
