(* ===== verification/IsoProbe.thy ===== *)
theory IsoProbe
  imports Exec
begin

text \<open>
  Looking into an image: \<open>src/linux/iso_probe.c\<close> and \<open>rufux_is_windows_iso\<close> of \<open>src/linux/wininstall.c\<close>. A file
  is its bytes; \<open>None\<close> is a file that cannot be opened. A read error counts as the end of the file, as it does in
  the code. The listing of the image comes from \<open>bsdtar\<close> or \<open>7z\<close>, parameters of the model.
\<close>

section \<open>UDF\<close>

definition rufux_iso_is_udf :: "bytes option \<Rightarrow> int" where
  "rufux_iso_is_udf img =
     (case img of
        None \<Rightarrow> -1
      | Some b \<Rightarrow>
          if length b < 256 * 2048 + 2048 then 0
          else if get_le16 b (256 * 2048) = 2 then 1 else 0)"

section \<open>Windows installation media\<close>

text \<open>\<open>strcasestr (line, p) != NULL\<close>\<close>

definition casestr :: "string \<Rightarrow> bytes \<Rightarrow> bool" where
  "casestr p line \<longleftrightarrow> strstr (map to_lower (ascii p)) (map to_lower line) \<noteq> None"

definition install_image :: "bytes \<Rightarrow> bool" where
  "install_image t \<longleftrightarrow>
     strcasecmp_eq t (ascii ''install.wim'') \<or> strcasecmp_eq t (ascii ''install.esd'') \<or> strcasecmp_eq t (ascii ''install.swm'')"

definition trimmed :: "bytes \<Rightarrow> bytes" where
  "trimmed l =
     (let l = dropWhile (\<lambda>c. c = 32 \<or> c = 9) l
      in rev (dropWhile (\<lambda>c. c = 13 \<or> c = 32 \<or> c = 9) (rev l)))"

text \<open>The part behind the last slash or backslash.\<close>

definition tail_name :: "bytes \<Rightarrow> bytes" where
  "tail_name l = rev (takeWhile (\<lambda>c. c \<noteq> 47 \<and> c \<noteq> 92) (rev l))"

definition line_7z :: "bytes \<Rightarrow> bool" where
  "line_7z l \<longleftrightarrow> install_image (tail_name (trimmed l))"

definition line_bsdtar :: "bytes \<Rightarrow> bool" where
  "line_bsdtar l \<longleftrightarrow>
     (casestr ''sources/install.wim'' l \<or> casestr ''sources/install.esd'' l \<or> casestr ''sources/install.swm'' l) \<and>
     install_image (after_last 47 l)"

definition LISTING :: nat where "LISTING = 2 ^ 16"

text \<open>
  \<open>img\<close> is the image as \<open>fopen\<close> sees it, \<open>present\<close> the answer of \<open>stat\<close>. The result is the return value:
  1 for Windows media, 0 otherwise, -1 when it cannot be told.
\<close>

definition rufux_is_windows_iso ::
    "'w tools \<Rightarrow> 'z host_scheme \<Rightarrow> bytes \<Rightarrow> bool \<Rightarrow> bytes option \<Rightarrow> 'w \<Rightarrow> int \<times> 'w" where
  "rufux_is_windows_iso tools h src present img w =
     (if \<not> present then (-1, w)
      else if rufux_iso_is_udf img > 0 then
        (if \<not> have_tool h (ascii ''7z'') then (-1, w)
         else case rufux_capture tools [ascii ''7z'', ascii ''l'', ascii ''-ba'', src] LISTING w of
           ((ok, out), w) \<Rightarrow> (if ok \<and> list_ex line_7z (strtok 10 out) then 1 else 0, w))
      else if \<not> have_tool h (ascii ''bsdtar'') then (-1, w)
      else case rufux_capture tools [ascii ''bsdtar'', ascii ''-tf'', src] LISTING w of
        ((ok, out), w) \<Rightarrow> (if ok \<and> list_ex line_bsdtar (strtok 10 out) then 1 else 0, w))"

section \<open>The details of an image\<close>

record iso_info =
  ii_label :: bytes
  ii_size :: u64
  ii_valid :: bool
  ii_bootable :: bool
  ii_efi :: bool
  ii_windows :: int
  ii_udf :: int

definition sector :: "nat \<Rightarrow> bytes \<Rightarrow> bytes option" where
  "sector n b = rdn b (n * 2048) 2048"

text \<open>The 32 bytes of the volume label: blanks and NULs at the end go, and the text ends at the first NUL.\<close>

definition pvd_label :: "bytes \<Rightarrow> bytes" where
  "pvd_label sec = cstr (rev (dropWhile (\<lambda>c. c = 32 \<or> c = 0) (rev (bslice 40 32 sec))))"

definition is_pvd :: "bytes \<Rightarrow> bool" where
  "is_pvd sec \<longleftrightarrow> sec ! 0 = 1 \<and> bslice 1 5 sec = ascii ''CD001''"

definition el_torito :: "bytes \<Rightarrow> bool" where
  "el_torito sec \<longleftrightarrow> sec ! 0 = 0 \<and> bslice 1 5 sec = ascii ''CD001'' \<and> bslice 7 23 sec = ascii ''EL TORITO SPECIFICATION''"

text \<open>The first entry of the boot catalog: a validation entry for EFI.\<close>

definition efi_catalog :: "u64 \<Rightarrow> bytes \<Rightarrow> bytes \<Rightarrow> bool" where
  "efi_catalog tot b sec =
     (let cat_lba = ucast (get_le32 sec 0x47) :: u64; cat_off = cat_lba * 2048
      in 0 < cat_lba \<and> cat_off + 32 \<le> tot \<and>
         (case rdn b (unat cat_off) 32 of None \<Rightarrow> False | Some e \<Rightarrow> e ! 0 = 1 \<and> e ! 1 = 0xEF))"

definition rufux_probe_iso_detail ::
    "'w tools \<Rightarrow> 'z host_scheme \<Rightarrow> bytes \<Rightarrow> u64 option \<Rightarrow> bytes option \<Rightarrow> 'w \<Rightarrow> iso_info option \<times> 'w" where
  "rufux_probe_iso_detail tools h src st img w =
     (case (st, img) of
        (Some tot, Some b) \<Rightarrow>
          (case sector 16 b of
             None \<Rightarrow> (None, w)
           | Some pvd \<Rightarrow>
               let boot = (case sector 17 b of None \<Rightarrow> None | Some sec \<Rightarrow> if el_torito sec then Some sec else None)
               in case rufux_is_windows_iso tools h src True img w of (win, w) \<Rightarrow>
                    (Some \<lparr>ii_label = (if is_pvd pvd then pvd_label pvd else []), ii_size = tot, ii_valid = is_pvd pvd,
                       ii_bootable = boot \<noteq> None,
                       ii_efi = (case boot of None \<Rightarrow> False | Some sec \<Rightarrow> efi_catalog tot b sec),
                       ii_windows = win, ii_udf = rufux_iso_is_udf img\<rparr>, w))
      | _ \<Rightarrow> (None, w))"

text \<open>The short form: the return value and the label (of \<open>cap\<close> bytes).\<close>

definition rufux_probe_iso ::
    "'w tools \<Rightarrow> 'z host_scheme \<Rightarrow> bytes \<Rightarrow> u64 option \<Rightarrow> bytes option \<Rightarrow> nat \<Rightarrow> 'w \<Rightarrow> (int \<times> bytes) \<times> 'w" where
  "rufux_probe_iso tools h src st img cap w =
     (case rufux_probe_iso_detail tools h src st img w of
        (None, w) \<Rightarrow> ((-1, []), w)
      | (Some info, w) \<Rightarrow> ((if ii_valid info then 0 else -2, clip cap (ii_label info)), w))"

section \<open>What the listing is searched for\<close>

text \<open>
  The listing is read exactly. When it fits the buffer, an image is taken for Windows media if and only if one of
  its lines says so; \<open>bsdtar\<close>'s names count with any prefix that ends in "sources/", in any case.
\<close>

theorem windows_listing:
  assumes "\<forall>l\<in>set ls. 10 \<notin> set l \<and> 0 \<notin> set l \<and> l \<noteq> []" "length (concat (map (\<lambda>l. l @ [10]) ls)) < LISTING"
    "concat (takeWhile (\<lambda>r. r \<noteq> []) (pr_reads p)) = concat (map (\<lambda>l. l @ [10]) ls)" "pr_status p = Exited 0"
    "tools [ascii ''bsdtar'', ascii ''-tf'', src] w = (Some p, w')" "have_tool h (ascii ''bsdtar'')"
    "rufux_iso_is_udf img \<le> 0"
  shows "rufux_is_windows_iso tools h src True img w = (if list_ex line_bsdtar ls then 1 else 0, w')"
proof -
  let ?t = "concat (map (\<lambda>l. l @ [10]) ls)"
  have d: "drain LISTING [] (pr_reads p) = ?t"
    using drain_take [of "[]" LISTING "pr_reads p"] assms(2,3) by simp
  have "0 \<notin> set ?t" using assms(1) by auto
  then have "cstr ?t = ?t" by (rule cstr_no_nul)
  moreover have "strtok 10 ?t = ls" using assms(1) by (intro strtok_lines) auto
  moreover have "LISTING \<noteq> 0" by (simp add: LISTING_def)
  ultimately show ?thesis
    using assms(4-7) d by (simp add: rufux_is_windows_iso_def rufux_capture_def)
qed

end
