(* ===== verification/WinInstall.thy ===== *)
theory WinInstall
  imports Wue IsoProbe
begin

text \<open>
  What \<open>src/linux/wininstall.c\<close> does to files and partitions: finding or fetching the UEFI:NTFS image, writing it
  onto its partition, staging it as a tree, patching \<open>boot.wim\<close> and putting the answer file onto the media. The
  world is the one of \<open>BiosBoot\<close>; the programs that are run (\<open>7z\<close>, \<open>curl\<close>, \<open>wimlib-imagex\<close>, \<open>hivexsh\<close>, \<open>cp\<close>,
  \<open>rm\<close>) are the parameter \<open>tools\<close> and may do anything to it. The answers of \<open>access\<close>, \<open>stat\<close> and \<open>mkdtemp\<close>
  are parameters too: the file system of the media may or may not tell apart names by their case.
\<close>

record win_host = bios_host +
  wh_access :: "bworld \<Rightarrow> bytes \<Rightarrow> bool"
  wh_stat :: "bworld \<Rightarrow> bytes \<Rightarrow> nat option"
  wh_mkdtemp :: "bytes option"
  wh_localtime :: "bytes option"

section \<open>Directories\<close>

text \<open>The prefixes before each slash but the first character: what \<open>mkdir -p\<close> creates on the way.\<close>

definition slash_prefixes :: "bytes \<Rightarrow> bytes list" where
  "slash_prefixes p = map (\<lambda>i. take i p) (filter (\<lambda>i. p ! i = 47) [1..<length p])"

definition mkdir_all :: "'z bios_host_scheme \<Rightarrow> bytes list \<Rightarrow> bworld \<Rightarrow> bworld" where
  "mkdir_all h ps w = foldl (\<lambda>w p. snd (do_mkdir h p w)) w ps"

text \<open>\<open>mkdir (p) == 0 || errno == EEXIST\<close>\<close>

definition mkdir_ok :: "'z bios_host_scheme \<Rightarrow> bytes \<Rightarrow> bworld \<Rightarrow> bool \<times> bworld" where
  "mkdir_ok h p w = (case do_mkdir h p w of (r, w) \<Rightarrow> (r = None \<or> r = Some EEXIST, w))"

definition mkdir_p :: "'z bios_host_scheme \<Rightarrow> bytes \<Rightarrow> bworld \<Rightarrow> bool \<times> bworld" where
  "mkdir_p h p w = mkdir_ok h p (mkdir_all h (slash_prefixes (clip 1152 p)) w)"

definition cache_dir :: "'z win_host_scheme \<Rightarrow> nat \<Rightarrow> bworld \<Rightarrow> bytes option \<times> bworld" where
  "cache_dir h cap w =
     (let base = h_getenv h (ascii ''XDG_CACHE_HOME'');
          home = (if given (h_getenv h (ascii ''HOME'')) then the (h_getenv h (ascii ''HOME'')) else ascii ''/tmp'');
          out = clip cap (if given base then the base @ ascii ''/rufux'' else home @ ascii ''/.cache/rufux'')
      in case mkdir_p h out w of
           (False, w) \<Rightarrow> (None, w)
         | (True, w) \<Rightarrow> (if wh_stat h w out = None then None else Some out, w))"

section \<open>The UEFI:NTFS image\<close>

definition UEFI_NTFS_IMG_SIZE :: nat where "UEFI_NTFS_IMG_SIZE = 2 ^ 20"

definition UEFI_NTFS_IMG_URL :: bytes where
  "UEFI_NTFS_IMG_URL = ascii ''https://raw.githubusercontent.com/pbatard/rufus/master/res/uefi/uefi-ntfs.img''"

definition bigger :: "'z win_host_scheme \<Rightarrow> bworld \<Rightarrow> nat \<Rightarrow> bytes \<Rightarrow> bool" where
  "bigger h w n p = (case wh_stat h w p of None \<Rightarrow> False | Some sz \<Rightarrow> n < sz)"

definition img_candidates :: "'z win_host_scheme \<Rightarrow> bytes list" where
  "img_candidates h =
     (if given (h_getenv h (ascii ''RUFUX_RES''))
      then [clip 1152 (the (h_getenv h (ascii ''RUFUX_RES'')) @ ascii ''/uefi/uefi-ntfs.img'')] else []) @
     (if exe_dir h \<noteq> [] then [clip 1152 (exe_dir h @ ascii ''/../share/rufux/uefi-ntfs.img'')] else []) @
     map ascii [''res/uefi/uefi-ntfs.img'', ''/usr/share/rufux/uefi-ntfs.img'', ''/usr/local/share/rufux/uefi-ntfs.img'']"

definition uefi_img_local :: "'z win_host_scheme \<Rightarrow> bworld \<Rightarrow> bytes option" where
  "uefi_img_local h w = List.find (bigger h w 100000) (img_candidates h)"

datatype win_error =
    NoCacheDir
  | NoCurl
  | DownloadFailed
  | CannotOpenImage
  | ShortImage nat
  | CannotOpenPart
  | SmallPart
  | ImageNotWritten
  | ImageNotSynced
  | ReadBackMismatch
  | No7z
  | CannotMkdir
  | CannotExtract
  | CannotStage
  | LoaderMissing
  | DriverMissing
  | BadOption wue_error
  | CannotWriteXml
  | CannotCreateDir bytes

definition uefi_img_path :: "bworld tools \<Rightarrow> 'z win_host_scheme \<Rightarrow> bworld \<Rightarrow> (win_error + bytes) \<times> bworld" where
  "uefi_img_path tools h w =
     (case uefi_img_local h w of
        Some p \<Rightarrow> (Inr (clip 1152 p), w)
      | None \<Rightarrow>
          (case cache_dir h 1024 w of
             (None, w) \<Rightarrow> (Inl NoCacheDir, w)
           | (Some dir, w) \<Rightarrow>
               let out = clip 1152 (dir @ ascii ''/uefi-ntfs.img'')
               in if bigger h w (UEFI_NTFS_IMG_SIZE - 1) out then (Inr out, w)
                  else if \<not> have_tool h (ascii ''curl'') then (Inl NoCurl, w)
                  else case rufux_run tools [ascii ''curl'', ascii ''-sL'', ascii ''--max-time'', ascii ''60'', ascii ''-o'', out,
                              UEFI_NTFS_IMG_URL] False w of
                      (ok, w) \<Rightarrow>
                        (if ok \<and> bigger h w (UEFI_NTFS_IMG_SIZE - 1) out then Inr out else Inl DownloadFailed, w)))"

section \<open>Writing the image onto its partition\<close>

text \<open>The read-back: an error or the end of the device ends it.\<close>

function get_back :: "nat \<Rightarrow> bytes \<Rightarrow> dev \<Rightarrow> bytes \<times> dev" where
  "get_back n got d =
     (if n \<le> length got then (got, d)
      else case sys_pread (n - length got) (int (length got)) d of
        (Inl e, d') \<Rightarrow> if e = EINTR then get_back n got d' else (got, d')
      | (Inr r, d') \<Rightarrow> if r = [] then (got, d') else get_back n (got @ r) d')"
  by pat_completeness auto

termination
proof (relation "measure (\<lambda>(n, got, d). (n - length got) + length (d_sched d))", goal_cases)
  case (2 n got d r d' e)
  then show ?case using sys_pread_EINTR [of "n - length got" "int (length got)" d d'] by simp
next
  case (3 n got d r d' w)
  then show ?case using sys_pread_progress [of "n - length got" "int (length got)" d w d'] by (cases w) auto
qed simp

declare get_back.simps [simp del]

text \<open>
  The partition as it can be opened: whether \<open>open\<close> with \<open>O_EXCL\<close> works, the answer of \<open>BLKGETSIZE64\<close> and that of
  \<open>fsync\<close>. \<open>img\<close> is what can be read of the image file, \<open>None\<close> when it cannot be opened.
\<close>

record part_node =
  pn_open :: bool
  pn_size :: "u64 option"
  pn_fsync :: bool

definition write_image_to :: "bytes option \<Rightarrow> part_node \<Rightarrow> dev \<Rightarrow> win_error option \<times> dev" where
  "write_image_to img pn d =
     (case img of
        None \<Rightarrow> (Some CannotOpenImage, d)
      | Some b \<Rightarrow>
          let want = take UEFI_NTFS_IMG_SIZE b
          in if length want \<noteq> UEFI_NTFS_IMG_SIZE then (Some (ShortImage (length want)), d)
             else if \<not> pn_open pn then (Some CannotOpenPart, d)
             else if (case pn_size pn of None \<Rightarrow> True | Some psz \<Rightarrow> psz < of_nat UEFI_NTFS_IMG_SIZE) then (Some SmallPart, d)
             else case write_at True want 0 d of
                 (False, d) \<Rightarrow> (Some ImageNotWritten, d)
               | (True, d) \<Rightarrow>
                   if \<not> pn_fsync pn then (Some ImageNotSynced, d)
                   else case get_back UEFI_NTFS_IMG_SIZE [] d of
                       (got, d) \<Rightarrow> (if got = want then None else Some ReadBackMismatch, d))"

text \<open>\<open>rufux_write_uefi_ntfs\<close>: the disk of the world stands for the partition.\<close>

definition rufux_write_uefi_ntfs ::
    "bworld tools \<Rightarrow> 'z win_host_scheme \<Rightarrow> part_node \<Rightarrow> bworld \<Rightarrow> win_error option \<times> bworld" where
  "rufux_write_uefi_ntfs tools h pn w =
     (case uefi_img_path tools h w of
        (Inl e, w) \<Rightarrow> (Some e, w)
      | (Inr img, w) \<Rightarrow>
          (let b = (case (file_get w img, bh_readable h img) of (Some b, Some k) \<Rightarrow> Some (take k b) | _ \<Rightarrow> None)
           in case write_image_to b pn (bw_disk w) of (r, d) \<Rightarrow> (r, w\<lparr>bw_disk := d\<rparr>)))"

section \<open>Staging the image as a tree\<close>

text \<open>Steps that stop at the first failure.\<close>

fun all_ok :: "('e \<times> (bworld \<Rightarrow> bool \<times> bworld)) list \<Rightarrow> bworld \<Rightarrow> 'e option \<times> bworld" where
  "all_ok [] w = (None, w)"
| "all_ok ((e, f) # fs) w = (case f w of (False, w) \<Rightarrow> (Some e, w) | (True, w) \<Rightarrow> all_ok fs w)"

definition rufux_stage_uefi_ntfs :: "bworld tools \<Rightarrow> 'z win_host_scheme \<Rightarrow> bytes \<Rightarrow> bworld \<Rightarrow> win_error option \<times> bworld" where
  "rufux_stage_uefi_ntfs tools h tmpdir w =
     (case uefi_img_path tools h w of
        (Inl e, w) \<Rightarrow> (Some e, w)
      | (Inr img, w) \<Rightarrow>
          let bootd = clip 1152 (tmpdir @ ascii ''/esp/EFI/BOOT''); rufusd = clip 1152 (tmpdir @ ascii ''/esp/EFI/Rufus'');
              xtr = clip 1152 (tmpdir @ ascii ''/.uefintfs'');
              run = (\<lambda>av. rufux_run tools av False);
              loader = clip 1152 (tmpdir @ ascii ''/esp/EFI/BOOT/bootx64.efi'');
              drv = clip 1152 (tmpdir @ ascii ''/esp/EFI/Rufus/ntfs_x64.efi'')
          in all_ok
               [(No7z, \<lambda>w. (have_tool h (ascii ''7z''), w)),
                (CannotMkdir, mkdir_p h bootd), (CannotMkdir, mkdir_p h rufusd), (CannotMkdir, mkdir_p h xtr),
                (CannotExtract, run [ascii ''7z'', ascii ''x'', ascii ''-y'', img, clip 1250 (ascii ''-o'' @ xtr)]),
                (CannotStage, run [ascii ''cp'', ascii ''-a'', clip 1250 (xtr @ ascii ''/EFI/Boot/.''), bootd]),
                (CannotStage, run [ascii ''cp'', ascii ''-a'', clip 1250 (xtr @ ascii ''/EFI/Rufus/.''), rufusd]),
                (CannotStage, \<lambda>w. (True, snd (run [ascii ''rm'', ascii ''-rf'', xtr] w))),
                (LoaderMissing, \<lambda>w. (bigger h w 9999 loader, w)), (DriverMissing, \<lambda>w. (bigger h w 9999 drv, w))] w)"

section \<open>Changing the media\<close>

text \<open>The log callback, as if it were always set.\<close>

definition say :: "string \<Rightarrow> bworld \<Rightarrow> bworld" where
  "say m w = w\<lparr>bw_log := bw_log w @ [m]\<rparr>"

text \<open>A step of the \<open>do ... while (0)\<close> block with the message for its failure.\<close>

definition or_say :: "string \<Rightarrow> (bworld \<Rightarrow> bool \<times> bworld) \<Rightarrow> bworld \<Rightarrow> bool \<times> bworld" where
  "or_say m f w = (case f w of (ok, w) \<Rightarrow> (ok, if ok then w else say m w))"

fun until_failure :: "(bworld \<Rightarrow> bool \<times> bworld) list \<Rightarrow> bworld \<Rightarrow> bool \<times> bworld" where
  "until_failure [] w = (True, w)"
| "until_failure (f # fs) w = (case f w of (False, w) \<Rightarrow> (False, w) | (True, w) \<Rightarrow> until_failure fs w)"

text \<open>A script for \<open>hivexsh\<close>: only \<open>fopen\<close> is checked.\<close>

definition put_script :: "'z bios_host_scheme \<Rightarrow> bytes \<Rightarrow> bytes \<Rightarrow> bworld \<Rightarrow> bool \<times> bworld" where
  "put_script h p b w = (if bh_room h p = None then (False, w) else (True, snd (write_file h p b w)))"

definition text_lines :: "bytes list \<Rightarrow> bytes" where
  "text_lines ls = concat (map (\<lambda>l. l @ nl) ls)"

definition edit_script :: bytes where
  "edit_script = text_lines (map ascii [''cd Setup'', ''add LabConfig'', ''cd LabConfig'', ''setval 3'',
     ''BypassTPMCheck'', ''dword:1'', ''BypassSecureBootCheck'', ''dword:1'', ''BypassRAMCheck'', ''dword:1'', ''commit''])"

definition verify_script :: bytes where
  "verify_script = text_lines [ascii ''cd '' @ winpath ''/Setup/LabConfig'', ascii ''lsval'']"

definition hive_in_wim :: bytes where "hive_in_wim = ascii ''/Windows/System32/config/SYSTEM''"

definition wim_extract :: "bytes \<Rightarrow> bytes \<Rightarrow> bytes list" where
  "wim_extract wim dest =
     [ascii ''wimlib-imagex'', ascii ''extract'', wim, ascii ''2'', hive_in_wim, ascii ''--dest-dir='' @ dest, ascii ''--no-acls'']"

definition verified :: "bool \<times> bytes \<Rightarrow> bool" where
  "verified r \<longleftrightarrow> fst r \<and> strstr (quoted (ascii ''BypassSecureBootCheck'') @ ascii ''=dword:00000001'') (snd r) \<noteq> None"

definition patch_steps :: "bworld tools \<Rightarrow> 'z win_host_scheme \<Rightarrow> bytes \<Rightarrow> bytes \<Rightarrow> (bworld \<Rightarrow> bool \<times> bworld) list" where
  "patch_steps tools h wim dir =
     (let hive = dir @ ascii ''/SYSTEM''; script = dir @ ascii ''/edit.hsh''; chk = dir @ ascii ''/verify'';
          vs = dir @ ascii ''/verify.hsh''; hive2 = chk @ ascii ''/SYSTEM''; run = (\<lambda>av. rufux_run tools av False)
      in [or_say ''Could not read the registry from boot.wim.'' (run (wim_extract wim dir)),
          put_script h script edit_script,
          or_say ''Could not edit the registry hive.''
            (run [ascii ''hivexsh'', ascii ''-w'', ascii ''-f'', script, hive]),
          or_say ''Could not write the registry back into boot.wim.''
            (run [ascii ''wimlib-imagex'', ascii ''update'', wim, ascii ''2'',
               ascii ''--command=add '' @ hive @ [32] @ hive_in_wim]),
          (\<lambda>w. case do_mkdir h chk w of (r, w) \<Rightarrow> (r = None, w)),
          run (wim_extract wim chk),
          put_script h vs verify_script,
          or_say ''Registry change did not verify after writing boot.wim.''
            (\<lambda>w. case rufux_capture tools [ascii ''hivexsh'', ascii ''-f'', vs, hive2] 1024 w of (r, w) \<Rightarrow> (verified r, w))])"

definition patch_boot_wim :: "bworld tools \<Rightarrow> 'z win_host_scheme \<Rightarrow> bytes \<Rightarrow> bworld \<Rightarrow> bool \<times> bworld" where
  "patch_boot_wim tools h root w =
     (if \<not> have_tool h (ascii ''wimlib-imagex'') \<or> \<not> have_tool h (ascii ''hivexsh'') then
        (False, say ''wimlib-imagex/hivex not installed: using the answer-file fallback for the Secure Boot/TPM/RAM bypass.'' w)
      else
        let wim = clip 1152 (root @ ascii ''/sources/boot.wim'')
        in if wh_stat h w wim = None then (False, say ''boot.wim not found: using the answer-file fallback.'' w)
           else case wh_mkdtemp h of
               None \<Rightarrow> (False, w)
             | Some dir \<Rightarrow>
                 (case until_failure (patch_steps tools h wim dir) (w\<lparr>bw_dirs := dir # bw_dirs w\<rparr>) of (ok, w) \<Rightarrow>
                   (ok, snd (rufux_run tools [ascii ''rm'', ascii ''-rf'', ascii ''--'', dir] False w))))"

definition media_arch :: "'z win_host_scheme \<Rightarrow> bytes \<Rightarrow> bworld \<Rightarrow> bytes" where
  "media_arch h root w =
     (let has = (\<lambda>n. wh_access h w (clip 1152 (root @ ascii ''/efi/boot/'' @ ascii n)))
      in ascii (if has ''bootaa64.efi'' then ''arm64'' else if has ''bootx64.efi'' then ''amd64''
                else if has ''bootia32.efi'' then ''x86'' else ''amd64''))"

definition write_xml :: "'z bios_host_scheme \<Rightarrow> bytes \<Rightarrow> bytes \<Rightarrow> wue \<Rightarrow> bool \<Rightarrow> bworld \<Rightarrow> win_error option \<times> bworld" where
  "write_xml h path arch o' winpe w =
     (case write_file h path (answer_file arch o' winpe) w of (ok, w) \<Rightarrow> (if ok then None else Some CannotWriteXml, w))"

text \<open>The three directories above the answer file of the normal route.\<close>

definition oem_dirs :: "bytes \<Rightarrow> bytes list" where
  "oem_dirs root = map (\<lambda>s. clip 1300 (root @ ascii s)) [''/sources/$OEM$'', ''/sources/$OEM$/$$'', ''/sources/$OEM$/$$/Panther'']"

definition answer_path :: "bool \<Rightarrow> bytes \<Rightarrow> bytes" where
  "answer_path fallback root =
     clip 1300 (root @ (if fallback then ascii ''/autounattend.xml'' else ascii ''/sources/$OEM$/$$/Panther/unattend.xml''))"

definition needs_answer :: "bool \<Rightarrow> wue \<Rightarrow> bool" where
  "needs_answer fallback v \<longleftrightarrow> fallback \<or> w_nro v \<or> w_privacy v \<or> w_bitlocker v \<or> w_locale v \<or> w_qol v \<or> w_user v \<noteq> []"

definition put_answer :: "'z win_host_scheme \<Rightarrow> bytes \<Rightarrow> wue \<Rightarrow> bool \<Rightarrow> bworld \<Rightarrow> win_error option \<times> bworld" where
  "put_answer h root v fallback w =
     (case all_ok (if fallback then [] else map (\<lambda>p. (CannotCreateDir p, mkdir_ok h p)) (oem_dirs root)) w of
        (Some e, w') \<Rightarrow> (Some e, w')
      | (None, w') \<Rightarrow> write_xml h (answer_path fallback root) (media_arch h root w) v fallback w')"

text \<open>The bypass: under the hood, or by the answer file. The result says whether the fallback is needed.\<close>

definition bypass_step :: "bworld tools \<Rightarrow> 'z win_host_scheme \<Rightarrow> bytes \<Rightarrow> wue \<Rightarrow> bworld \<Rightarrow> bool \<times> bworld" where
  "bypass_step tools h root v w =
     (if \<not> w_bypass v then (False, w)
      else case patch_boot_wim tools h root w of
          (True, w) \<Rightarrow> (False, say ''Secure Boot/TPM/RAM checks disabled inside boot.wim (Setup screens unchanged).'' w)
        | (False, w) \<Rightarrow>
            (True, say ''Using the answer-file fallback for the Secure Boot/TPM/RAM bypass. It works, but it changes Setup's first screens and opens a command window.'' w))"

definition filled :: "'z win_host_scheme \<Rightarrow> wue_args \<Rightarrow> wue \<Rightarrow> wue" where
  "filled h a v =
     (if w_locale v then locale_fill h (wh_localtime h) (wu_locale a) (wu_keyboard a) (wu_timezone a) v else v)"

definition rufux_windows_customize ::
    "bworld tools \<Rightarrow> 'z win_host_scheme \<Rightarrow> bytes \<Rightarrow> wue_args \<Rightarrow> bworld \<Rightarrow> win_error option \<times> bworld" where
  "rufux_windows_customize tools h root a w =
     (case wue_parse (wu_wue a) of
        Inl e \<Rightarrow> (Some (BadOption e), w)
      | Inr None \<Rightarrow> (None, w)
      | Inr (Some v0) \<Rightarrow>
          let v = filled h a v0
          in case bypass_step tools h root v w of (fallback, w) \<Rightarrow>
               (if needs_answer fallback v then put_answer h root v fallback w else (None, w)))"

definition rufux_windows_check :: "wue_args \<Rightarrow> win_error option" where
  "rufux_windows_check a = (case wue_parse (wu_wue a) of Inl e \<Rightarrow> Some (BadOption e) | Inr _ \<Rightarrow> None)"

definition rufux_write_unattend :: "'z win_host_scheme \<Rightarrow> bytes \<Rightarrow> bytes option \<Rightarrow> bworld \<Rightarrow> win_error option \<times> bworld" where
  "rufux_write_unattend h dir spec w =
     (case wue_parse spec of
        Inl e \<Rightarrow> (Some (BadOption e), w)
      | Inr None \<Rightarrow> (None, w)
      | Inr (Some v) \<Rightarrow>
          let v = (if w_locale v then locale_fill h (wh_localtime h) None None None v else v)
          in write_xml h (clip 1152 (dir @ ascii ''/autounattend.xml'')) (media_arch h dir w) v (w_bypass v) w)"

end
