(* ===== verification/Extract.thy ===== *)
theory Extract
  imports IsoProbe LinuxPart
begin

text \<open>
  Extraction of images: \<open>src/linux/extract.c\<close>, and the search through a finished Windows tree (\<open>find_ci\<close>,
  \<open>verify_windows_tree\<close> of \<open>src/linux/create.c\<close>). The outside world is a type of its own, \<open>'w\<close>; what the system
  answers in a state of it and what a system call does to it is the environment record. The programs that are run
  (\<open>bsdtar\<close>, \<open>7z\<close>, \<open>wimlib-imagex\<close>, \<open>mount\<close>, \<open>umount\<close>, \<open>rm\<close>) are the parameter \<open>tools\<close> of \<open>Exec\<close>. The
  progress callback and the messages are left out.
\<close>

text \<open>
  \<open>xe_stat\<close>: whether the path is a regular file, whether a directory, and its size. \<open>xe_files\<close>: the sizes of the
  files \<open>nftw\<close> visits. \<open>xe_image\<close>: what \<open>fopen\<close> reads. \<open>xe_avail\<close>: the product of \<open>f_bavail\<close> and \<open>f_frsize\<close>.
  \<open>xe_list\<close>: the names \<open>readdir\<close> gives, in its order; \<open>None\<close> when \<open>opendir\<close> fails.
\<close>

record 'w ext_env =
  xe_tools :: "'w tools"
  xe_host :: host
  xe_stat :: "'w \<Rightarrow> bytes \<Rightarrow> (bool \<times> bool \<times> u64) option"
  xe_files :: "'w \<Rightarrow> bytes \<Rightarrow> u64 list"
  xe_image :: "'w \<Rightarrow> bytes \<Rightarrow> bytes option"
  xe_avail :: "'w \<Rightarrow> bytes \<Rightarrow> u64 option"
  xe_list :: "'w \<Rightarrow> bytes \<Rightarrow> bytes list option"
  xe_readable :: "'w \<Rightarrow> bytes \<Rightarrow> bool"
  xe_mkdir :: "bytes \<Rightarrow> 'w \<Rightarrow> int option \<times> 'w"
  xe_rmdir :: "bytes \<Rightarrow> 'w \<Rightarrow> 'w"
  xe_mkdtemp :: "bytes \<Rightarrow> 'w \<Rightarrow> bytes option \<times> 'w"
  xe_write :: "bytes \<Rightarrow> bytes \<Rightarrow> 'w \<Rightarrow> bool \<times> 'w"

datatype ext_error =
    SourceMissing
  | CannotMakeDir bytes
  | ExtractorFailed bytes
  | Incomplete u64 u64
  | NoExtractor
  | EsdTooLarge
  | NoWim
  | NoWimlib
  | SplitFailed
  | NoScratch
  | No7zip

definition has_tool :: "'w ext_env \<Rightarrow> string \<Rightarrow> bool" where
  "has_tool E n = have_tool (xe_host E) (ascii n)"

section \<open>How much has been extracted\<close>

definition dir_size :: "'w ext_env \<Rightarrow> bytes \<Rightarrow> 'w \<Rightarrow> u64" where
  "dir_size E path w =
     (case xe_stat E w path of
        None \<Rightarrow> 0
      | Some (_, is_dir, sz) \<Rightarrow> (if is_dir then sum_list (xe_files E w path) else sz))"

text \<open>The program that is run, and by how much the destination grew; \<open>None\<close> for the bytes when \<open>fork\<close> failed.\<close>

definition extract_poll :: "'w ext_env \<Rightarrow> bytes list \<Rightarrow> bytes \<Rightarrow> 'w \<Rightarrow> (bool \<times> u64 option) \<times> 'w" where
  "extract_poll E argv dest w =
     (let base = dir_size E dest w
      in case xe_tools E argv w of
        (None, w) \<Rightarrow> ((False, None), w)
      | (Some p, w) \<Rightarrow>
          let cur = dir_size E dest w
          in ((pr_status p = Exited 0, Some (if base < cur then cur - base else 0)), w))"

definition MIB50 :: u64 where "MIB50 = 50 * 2 ^ 20"

text \<open>Under three quarters of the image: files were dropped.\<close>

definition too_little :: "u64 \<Rightarrow> u64 \<Rightarrow> bool" where
  "too_little tot got \<longleftrightarrow> MIB50 < tot \<and> got * 4 < tot * 3"

section \<open>Extraction of a whole image\<close>

definition bsdtar_argv :: "bytes \<Rightarrow> bytes \<Rightarrow> bytes list" where
  "bsdtar_argv src dest = [ascii ''bsdtar'', ascii ''-xf'', src, ascii ''-C'', dest]"

definition out_opt :: "bytes \<Rightarrow> bytes" where
  "out_opt dest = clip 1152 (ascii ''-o'' @ dest)"

definition sevenz_argv :: "bytes \<Rightarrow> bytes \<Rightarrow> bytes list" where
  "sevenz_argv src dest = [ascii ''7z'', ascii ''x'', src, ascii ''-y'', out_opt dest]"

text \<open>\<open>mkdir (p) != 0 && errno != EEXIST\<close> is an error.\<close>

definition ensure_dir :: "'w ext_env \<Rightarrow> bytes \<Rightarrow> 'w \<Rightarrow> ext_error option \<times> 'w" where
  "ensure_dir E p w = (case xe_mkdir E p w of (r, w) \<Rightarrow> (if r = None \<or> r = Some EEXIST then None else Some (CannotMakeDir p), w))"

definition growth :: "u64 option \<Rightarrow> u64 \<Rightarrow> u64" where
  "growth got old = (case got of None \<Rightarrow> old | Some g \<Rightarrow> g)"

definition extract_7z :: "'w ext_env \<Rightarrow> bytes \<Rightarrow> bytes \<Rightarrow> bool \<Rightarrow> u64 \<Rightarrow> 'w \<Rightarrow> ext_error option \<times> 'w" where
  "extract_7z E src dest dry tot w =
     (if \<not> has_tool E ''7z'' then (Some NoExtractor, w)
      else if dry then (None, w)
      else case extract_poll E (sevenz_argv src dest) dest w of
        ((ok, got), w) \<Rightarrow>
          (if \<not> ok then Some (ExtractorFailed (ascii ''7z''))
           else if too_little tot (growth got 0) then Some (Incomplete (growth got 0) tot) else None, w))"

definition extract_bsdtar :: "'w ext_env \<Rightarrow> bytes \<Rightarrow> bytes \<Rightarrow> bool \<Rightarrow> u64 \<Rightarrow> 'w \<Rightarrow> ext_error option \<times> 'w" where
  "extract_bsdtar E src dest dry tot w =
     (if dry then (None, w)
      else case extract_poll E (bsdtar_argv src dest) dest w of
        ((ok, got), w) \<Rightarrow>
          (if \<not> ok then (Some (ExtractorFailed (ascii ''bsdtar'')), w)
           else if \<not> too_little tot (growth got 0) then (None, w)
           else if has_tool E ''7z'' then extract_7z E src dest dry tot w
           else (Some (Incomplete (growth got 0) tot), w)))"

definition rufux_extract_iso :: "'w ext_env \<Rightarrow> bytes \<Rightarrow> bytes \<Rightarrow> bool \<Rightarrow> 'w \<Rightarrow> ext_error option \<times> 'w" where
  "rufux_extract_iso E src dest dry w =
     (case xe_stat E w src of
        None \<Rightarrow> (Some SourceMissing, w)
      | Some (regular, _, sz) \<Rightarrow>
          let tot = (if regular then sz else 0)
          in case (if dry then (None, w) else ensure_dir E dest w) of
               (Some e, w) \<Rightarrow> (Some e, w)
             | (None, w) \<Rightarrow>
                 (if has_tool E ''bsdtar'' \<and> \<not> rufux_iso_is_udf (xe_image E w src) > 0
                  then extract_bsdtar E src dest dry tot w
                  else extract_7z E src dest dry tot w))"

definition rufux_write_autorun :: "'w ext_env \<Rightarrow> bytes \<Rightarrow> bytes option \<Rightarrow> bool \<Rightarrow> 'w \<Rightarrow> bool \<times> 'w" where
  "rufux_write_autorun E dir label dry w =
     (let l = (case label of None \<Rightarrow> ascii ''RUFUX'' | Some s \<Rightarrow> if s = [] then ascii ''RUFUX'' else s);
          path = clip 1024 (dir @ ascii ''/autorun.inf'')
      in if dry then (True, w)
         else xe_write E path (ascii ''[Autorun]'' @ nl @ ascii ''Label='' @ l @ nl) w)"

section \<open>Names that differ in case\<close>

text \<open>
  The walk of \<open>find_ci\<close> and \<open>resolve_ci\<close>: \<open>cap\<close> is the size of the path buffer; in each directory the first entry
  counts whose name is the segment but for the case. A name is copied into 256 bytes.
\<close>

fun walk_ci :: "nat \<Rightarrow> (bytes \<Rightarrow> bytes list option) \<Rightarrow> bytes \<Rightarrow> bytes list \<Rightarrow> bytes option" where
  "walk_ci cap ls cur [] = Some cur"
| "walk_ci cap ls cur (seg # segs) =
     (case ls cur of
        None \<Rightarrow> None
      | Some names \<Rightarrow>
          (case List.find (\<lambda>n. strcasecmp_eq n seg) names of
             None \<Rightarrow> None
           | Some n \<Rightarrow> walk_ci cap ls (clip cap (cur @ 47 # clip 256 n)) segs))"

definition find_ci :: "'w ext_env \<Rightarrow> 'w \<Rightarrow> bytes \<Rightarrow> bytes \<Rightarrow> u64 option" where
  "find_ci E w root rel =
     (case walk_ci 1152 (xe_list E w) (clip 1152 root) (strtok 47 (clip 512 rel)) of
        None \<Rightarrow> None
      | Some p \<Rightarrow> (case xe_stat E w p of None \<Rightarrow> None | Some (_, _, sz) \<Rightarrow> Some sz))"

text \<open>\<open>find_ci (...) > 0\<close> with the size as a signed number.\<close>

definition present :: "'w ext_env \<Rightarrow> 'w \<Rightarrow> bytes \<Rightarrow> string \<Rightarrow> bool" where
  "present E w root rel = (case find_ci E w root (ascii rel) of None \<Rightarrow> False | Some sz \<Rightarrow> 0 <s sz)"

definition must_have :: "string list" where
  "must_have = [''bootmgr'', ''setup.exe'', ''sources/setup.exe'', ''sources/boot.wim'', ''boot/bcd'', ''efi/microsoft/boot/bcd'']"

definition loader_names :: "string list" where
  "loader_names = [''efi/boot/bootx64.efi'', ''efi/boot/bootia32.efi'', ''efi/boot/bootaa64.efi'']"

definition install_names :: "string list" where
  "install_names = [''sources/install.wim'', ''sources/install.esd'', ''sources/install.swm'']"

datatype tree_error = MissingFile string | NoLoader | NoInstallImage

definition verify_windows_tree :: "'w ext_env \<Rightarrow> 'w \<Rightarrow> bytes \<Rightarrow> tree_error option" where
  "verify_windows_tree E w root =
     (case List.find (\<lambda>f. \<not> present E w root f) must_have of
        Some f \<Rightarrow> Some (MissingFile f)
      | None \<Rightarrow>
          if \<not> list_ex (present E w root) loader_names then Some NoLoader
          else if list_ex (present E w root) install_names then None else Some NoInstallImage)"

definition resolve_ci :: "'w ext_env \<Rightarrow> 'w \<Rightarrow> bytes \<Rightarrow> bytes \<Rightarrow> nat \<Rightarrow> bytes option" where
  "resolve_ci E w root rel cap =
     (case walk_ci 1024 (xe_list E w) (clip 1024 root) (strtok 47 (clip 256 rel)) of
        None \<Rightarrow> None
      | Some p \<Rightarrow> (if xe_readable E w p then Some (clip cap p) else None))"

section \<open>Splitting \<open>install.wim\<close> for FAT32\<close>

definition archive_file_size :: "'w ext_env \<Rightarrow> bytes \<Rightarrow> string \<Rightarrow> 'w \<Rightarrow> u64 \<times> 'w" where
  "archive_file_size E src name w =
     (case rufux_capture (xe_tools E) [ascii ''7z'', ascii ''l'', ascii ''-slt'', src, ascii name] 8192 w of
        ((ok, out), w) \<Rightarrow>
          (if \<not> ok then 0
           else case strstr (nl @ ascii ''Size = '') out of None \<Rightarrow> 0 | Some p \<Rightarrow> strtoul 10 (drop 8 p), w))"

text \<open>The directory of the image, if its path has one: a buffer of 512 bytes.\<close>

definition source_dir :: "bytes \<Rightarrow> bytes option" where
  "source_dir src =
     (let s = clip 512 src
      in if 47 \<in> set (tl s) then Some (rev (tl (dropWhile (\<lambda>c. c \<noteq> 47) (rev s)))) else None)"

fun try_scratch :: "'w ext_env \<Rightarrow> u64 \<Rightarrow> nat \<Rightarrow> bytes list \<Rightarrow> 'w \<Rightarrow> bytes option \<times> 'w" where
  "try_scratch E need cap [] w = (None, w)"
| "try_scratch E need cap (c # cs) w =
     (if c = [] then try_scratch E need cap cs w
      else case xe_avail E w c of
        None \<Rightarrow> try_scratch E need cap cs w
      | Some avail \<Rightarrow>
          if avail < need then try_scratch E need cap cs w
          else case xe_mkdtemp E (clip cap (c @ ascii ''/rufux-wim-XXXXXX'')) w of
              (Some d, w) \<Rightarrow> (Some d, w)
            | (None, w) \<Rightarrow> try_scratch E need cap cs w)"

text \<open>The list of candidates ends at the first null pointer: an unset variable hides those after it.\<close>

fun until_null :: "bytes option list \<Rightarrow> bytes list" where
  "until_null [] = []"
| "until_null (None # cs) = []"
| "until_null (Some c # cs) = c # until_null cs"

definition scratch_dir :: "'w ext_env \<Rightarrow> u64 \<Rightarrow> bytes \<Rightarrow> nat \<Rightarrow> 'w \<Rightarrow> bytes option \<times> 'w" where
  "scratch_dir E need src cap w =
     try_scratch E need cap
       (until_null [h_getenv (xe_host E) (ascii ''RUFUX_TMPDIR''), h_getenv (xe_host E) (ascii ''TMPDIR''),
          source_dir src, Some (ascii ''/var/tmp''), Some (ascii ''/tmp'')]) w"

text \<open>The image mounted read-only: the mount point.\<close>

definition iso_mount_ro :: "'w ext_env \<Rightarrow> bytes \<Rightarrow> 'w \<Rightarrow> bytes option \<times> 'w" where
  "iso_mount_ro E src w =
     (case xe_mkdtemp E (ascii ''/tmp/rufux-iso-XXXXXX'') w of
        (None, w) \<Rightarrow> (None, w)
      | (Some mnt, w) \<Rightarrow>
          (case rufux_run (xe_tools E) [ascii ''mount'', ascii ''-o'', ascii ''loop,ro'', ascii ''--'', src, mnt] False w of
             (True, w) \<Rightarrow> (Some mnt, w)
           | (False, w) \<Rightarrow> (None, xe_rmdir E mnt w)))"

definition iso_umount :: "'w ext_env \<Rightarrow> bytes \<Rightarrow> 'w \<Rightarrow> 'w" where
  "iso_umount E mnt w =
     xe_rmdir E mnt (snd (rufux_run (xe_tools E) [ascii ''umount'', ascii ''--'', mnt] False w))"

definition wim_split :: "'w ext_env \<Rightarrow> bytes \<Rightarrow> bytes \<Rightarrow> nat \<Rightarrow> 'w \<Rightarrow> bool \<times> 'w" where
  "wim_split E wimfile part mb w =
     rufux_run (xe_tools E) [ascii ''wimlib-imagex'', ascii ''split'', wimfile, part, dec mb] False w"

text \<open>The first route: from the mounted image.\<close>

definition split_mounted :: "'w ext_env \<Rightarrow> bytes \<Rightarrow> bytes \<Rightarrow> nat \<Rightarrow> 'w \<Rightarrow> bool \<times> 'w" where
  "split_mounted E src part mb w =
     (case iso_mount_ro E src w of
        (None, w) \<Rightarrow> (False, w)
      | (Some mnt, w) \<Rightarrow>
          (case (case resolve_ci E w mnt (ascii ''sources/install.wim'') 1300 of
                   None \<Rightarrow> (False, w)
                 | Some wimfile \<Rightarrow> wim_split E wimfile part mb w) of
             (ok, w) \<Rightarrow> (ok, iso_umount E mnt w)))"

text \<open>The second route: from a copy in scratch space.\<close>

definition split_copied :: "'w ext_env \<Rightarrow> bytes \<Rightarrow> u64 \<Rightarrow> bytes \<Rightarrow> nat \<Rightarrow> 'w \<Rightarrow> ext_error option \<times> 'w" where
  "split_copied E src wim part mb w =
     (case scratch_dir E (wim + 256 * 2 ^ 20) src 512 w of
        (None, w) \<Rightarrow> (Some NoScratch, w)
      | (Some dir, w) \<Rightarrow>
          (case (case extract_poll E [ascii ''7z'', ascii ''e'', src, ascii ''-y'', clip 1300 (ascii ''-o'' @ dir),
                     ascii ''sources/install.wim''] dir w of
                   ((False, _), w) \<Rightarrow> (False, w)
                 | ((True, _), w) \<Rightarrow> wim_split E (clip 1300 (dir @ ascii ''/install.wim'')) part mb w) of
             (ok, w) \<Rightarrow> (if ok then None else Some SplitFailed,
                         snd (rufux_run (xe_tools E) [ascii ''rm'', ascii ''-rf'', ascii ''--'', dir] False w))))"

definition FAT_MAX :: u64 where "FAT_MAX = 4294967295"

text \<open>Everything but the WIM, with the argument that leaves it out.\<close>

definition no_wim_argv :: "bytes \<Rightarrow> bytes \<Rightarrow> bytes list" where
  "no_wim_argv src dest = sevenz_argv src dest @ [ascii ''-x!sources/install.wim'']"

definition split_onto :: "'w ext_env \<Rightarrow> bytes \<Rightarrow> bytes \<Rightarrow> u64 \<Rightarrow> nat \<Rightarrow> 'w \<Rightarrow> ext_error option \<times> 'w" where
  "split_onto E src dest wim mb w =
     (case ensure_dir E dest w of
        (Some e, w) \<Rightarrow> (Some e, w)
      | (None, w) \<Rightarrow>
          (case extract_poll E (no_wim_argv src dest) dest w of
             ((False, _), w) \<Rightarrow> (Some (ExtractorFailed (ascii ''7z'')), w)
           | ((True, _), w) \<Rightarrow>
               let sdir = clip 1300 (dest @ ascii ''/sources''); part = clip 1400 (sdir @ ascii ''/install.swm'')
               in case ensure_dir E sdir w of
                    (Some e, w) \<Rightarrow> (Some e, w)
                  | (None, w) \<Rightarrow>
                      (case split_mounted E src part mb w of
                         (True, w) \<Rightarrow> (None, w)
                       | (False, w) \<Rightarrow> split_copied E src wim part mb w)))"

definition rufux_extract_windows_split ::
    "'w ext_env \<Rightarrow> bytes \<Rightarrow> bytes \<Rightarrow> nat \<Rightarrow> bool \<Rightarrow> 'w \<Rightarrow> ext_error option \<times> 'w" where
  "rufux_extract_windows_split E src dest split_mb force w =
     (if xe_stat E w src = None then (Some SourceMissing, w)
      else if \<not> has_tool E ''7z'' then (Some No7zip, w)
      else case archive_file_size E src ''sources/install.wim'' w of
        (wim, w) \<Rightarrow>
          (case archive_file_size E src ''sources/install.esd'' w of
             (esd, w) \<Rightarrow>
               if FAT_MAX < esd then (Some EsdTooLarge, w)
               else if \<not> force \<and> wim \<le> FAT_MAX then rufux_extract_iso E src dest False w
               else if wim = 0 then (Some NoWim, w)
               else if \<not> has_tool E ''wimlib-imagex'' then (Some NoWimlib, w)
               else split_onto E src dest wim split_mb w))"

end
