(* ===== verification/ExtractProps.thy ===== *)
theory ExtractProps
  imports Extract
begin

text \<open>
  What a successful extraction guarantees, when it cannot succeed, and what the check of a finished Windows tree
  finds.
\<close>

section \<open>Names in any case\<close>

text \<open>A path that reads as the segments but for the case, component by component, through existing entries.\<close>

fun spells :: "(bytes \<Rightarrow> bytes list option) \<Rightarrow> bytes \<Rightarrow> bytes list \<Rightarrow> bytes \<Rightarrow> bool" where
  "spells ls cur [] p \<longleftrightarrow> p = cur"
| "spells ls cur (seg # segs) p \<longleftrightarrow>
     (\<exists>names n. ls cur = Some names \<and> n \<in> set names \<and> strcasecmp_eq n seg \<and> spells ls (cur @ 47 # n) segs p)"

text \<open>No directory holds two names that differ only in case, and the paths fit the buffers.\<close>

definition one_spelling :: "(bytes \<Rightarrow> bytes list option) \<Rightarrow> bool" where
  "one_spelling ls \<longleftrightarrow> (\<forall>p names a b. ls p = Some names \<longrightarrow> a \<in> set names \<longrightarrow> b \<in> set names \<longrightarrow> strcasecmp_eq a b \<longrightarrow> a = b)"

lemma strcasecmp_eq_len: "strcasecmp_eq a b \<Longrightarrow> length a = length b"
  by (metis length_map strcasecmp_eq_def)

lemma clip_short: "length s < cap \<Longrightarrow> clip cap s = s"
  by (simp add: clip_def)

definition path_room :: "bytes \<Rightarrow> bytes list \<Rightarrow> nat \<Rightarrow> bool" where
  "path_room cur segs cap \<longleftrightarrow> length cur + length (concat (map (\<lambda>s. 47 # s) segs)) < cap \<and> (\<forall>s\<in>set segs. length s < 256)"

lemma walk_ci_sound:
  "walk_ci cap ls cur segs = Some p \<Longrightarrow> path_room cur segs cap \<Longrightarrow> spells ls cur segs p"
proof (induction segs arbitrary: cur)
  case (Cons seg segs)
  from Cons.prems(1) obtain names n where n: "ls cur = Some names" "List.find (\<lambda>n. strcasecmp_eq n seg) names = Some n"
    "walk_ci cap ls (clip cap (cur @ 47 # clip 256 n)) segs = Some p" by (auto split: option.splits)
  from n(2) have m: "n \<in> set names" "strcasecmp_eq n seg" by (auto simp: find_Some_iff)
  have l: "length n = length seg" using m(2) by (rule strcasecmp_eq_len)
  with Cons.prems(2) have c: "clip cap (cur @ 47 # clip 256 n) = cur @ 47 # n" by (simp add: clip_short path_room_def)
  have "path_room (cur @ 47 # n) segs cap" using Cons.prems(2) l by (simp add: path_room_def)
  with Cons.IH n(3) c have "spells ls (cur @ 47 # n) segs p" by simp
  with n(1) m show ?case by auto
qed simp

lemma walk_ci_complete:
  "spells ls cur segs p \<Longrightarrow> one_spelling ls \<Longrightarrow> path_room cur segs cap \<Longrightarrow> walk_ci cap ls cur segs = Some p"
proof (induction segs arbitrary: cur)
  case (Cons seg segs)
  from Cons.prems(1) obtain names n where n: "ls cur = Some names" "n \<in> set names" "strcasecmp_eq n seg"
    "spells ls (cur @ 47 # n) segs p" by auto
  obtain m where m: "List.find (\<lambda>n. strcasecmp_eq n seg) names = Some m"
    using n(2,3) by (cases "List.find (\<lambda>n. strcasecmp_eq n seg) names") (auto simp: find_None_iff)
  then have "m \<in> set names" "strcasecmp_eq m seg" by (auto simp: find_Some_iff)
  with n Cons.prems(2) have "m = n" by (auto simp: one_spelling_def strcasecmp_eq_def)
  moreover have l: "length n = length seg" using n(3) by (rule strcasecmp_eq_len)
  moreover have "path_room (cur @ 47 # n) segs cap" using Cons.prems(3) l by (simp add: path_room_def)
  moreover have "clip cap (cur @ 47 # clip 256 n) = cur @ 47 # n" using Cons.prems(3) l by (simp add: clip_short path_room_def)
  ultimately show ?case using Cons.IH n m Cons.prems(2) by simp
qed simp

text \<open>There is a file of that name, in some spelling, that is not empty.\<close>

definition has_file :: "'w ext_env \<Rightarrow> 'w \<Rightarrow> bytes \<Rightarrow> string \<Rightarrow> bool" where
  "has_file E w root rel \<longleftrightarrow>
     (\<exists>p a b sz. spells (xe_list E w) root (strtok 47 (ascii rel)) p \<and> xe_stat E w p = Some (a, b, sz) \<and> 0 <s sz)"

definition all_names :: "string list" where
  "all_names = must_have @ loader_names @ install_names"

lemma names_fit:
  assumes "length root < 1000" "rel \<in> set all_names"
  shows "path_room root (strtok 47 (ascii rel)) 1152 \<and> clip 512 (ascii rel) = ascii rel \<and> clip 1152 root = root"
proof -
  have c: "list_all (\<lambda>rel. length (concat (map (\<lambda>s. 47 # s) (strtok 47 (ascii rel)))) \<le> 100 \<and>
      list_all (\<lambda>s. length s < 256) (strtok 47 (ascii rel)) \<and> length (ascii rel) < 512) all_names"
    by code_simp
  with assms show ?thesis by (auto simp: list_all_iff path_room_def clip_short)
qed

lemma present_sound:
  assumes "length root < 1000" "rel \<in> set all_names" "present E w root rel"
  shows "has_file E w root rel"
  using assms(3) names_fit [OF assms(1,2)] walk_ci_sound
  by (fastforce simp: present_def find_ci_def has_file_def split: option.splits)

lemma present_complete:
  assumes "length root < 1000" "rel \<in> set all_names" "one_spelling (xe_list E w)" "has_file E w root rel"
  shows "present E w root rel"
proof -
  from assms(4) obtain p a b sz where p: "spells (xe_list E w) root (strtok 47 (ascii rel)) p"
    "xe_stat E w p = Some (a, b, sz)" "0 <s sz" by (auto simp: has_file_def)
  note fit = names_fit [OF assms(1,2)]
  from walk_ci_complete [OF p(1) assms(3)] fit p(2,3) show ?thesis by (simp add: present_def find_ci_def)
qed

lemma find_none_all: "List.find (\<lambda>f. \<not> P f) xs = None \<longleftrightarrow> (\<forall>f\<in>set xs. P f)"
  by (auto simp: find_None_iff)

lemma verify_tree_present:
  "verify_windows_tree E w root = None \<longleftrightarrow>
     (\<forall>f\<in>set must_have. present E w root f) \<and> (\<exists>f\<in>set loader_names. present E w root f) \<and>
     (\<exists>f\<in>set install_names. present E w root f)"
proof (cases "List.find (\<lambda>f. \<not> present E w root f) must_have")
  case None
  with find_none_all [of "present E w root" must_have] show ?thesis
    by (auto simp: verify_windows_tree_def list_ex_iff)
next
  case (Some f)
  then have "\<not> (\<forall>f\<in>set must_have. present E w root f)"
    using find_none_all [of "present E w root" must_have] by fastforce
  with Some show ?thesis by (auto simp: verify_windows_tree_def)
qed

definition windows_tree :: "'w ext_env \<Rightarrow> 'w \<Rightarrow> bytes \<Rightarrow> bool" where
  "windows_tree E w root \<longleftrightarrow>
     (\<forall>f\<in>set must_have. has_file E w root f) \<and> (\<exists>f\<in>set loader_names. has_file E w root f) \<and>
     (\<exists>f\<in>set install_names. has_file E w root f)"

text \<open>
  C33: the check of the finished drive. A tree that passes has, in whatever spelling, every file
  Setup needs, a loader for some architecture and an installation image, none of them empty. On a file system
  that does not hold two names that differ only in case, it passes exactly then. (The mount point is shorter than
  1000 bytes.)
\<close>

theorem verify_tree_exact:
  assumes "length root < 1000"
  shows "(verify_windows_tree E w root = None \<longrightarrow> windows_tree E w root) \<and>
    (one_spelling (xe_list E w) \<longrightarrow> (verify_windows_tree E w root = None \<longleftrightarrow> windows_tree E w root))"
proof -
  have n: "set must_have \<subseteq> set all_names" "set loader_names \<subseteq> set all_names" "set install_names \<subseteq> set all_names"
    by (auto simp: all_names_def)
  have s: "present E w root f \<Longrightarrow> has_file E w root f" if "f \<in> set all_names" for f
    using present_sound [OF assms that] .
  have c: "has_file E w root f \<Longrightarrow> present E w root f" if "f \<in> set all_names" "one_spelling (xe_list E w)" for f
    using present_complete [OF assms that] .
  show ?thesis unfolding verify_tree_present windows_tree_def using n s c by blast
qed

section \<open>Extraction\<close>

text \<open>The state after programs were run one after the other, and by how much a directory grew between two states.\<close>

fun after_runs :: "'w tools \<Rightarrow> bytes list list \<Rightarrow> 'w \<Rightarrow> 'w" where
  "after_runs tools [] w = w"
| "after_runs tools (argv # rest) w = after_runs tools rest (snd (tools argv w))"

definition grown :: "'w ext_env \<Rightarrow> bytes \<Rightarrow> 'w \<Rightarrow> 'w \<Rightarrow> u64" where
  "grown E dest u w = (if dir_size E dest u < dir_size E dest w then dir_size E dest w - dir_size E dest u else 0)"

lemma poll_runs:
  "extract_poll E argv dest u = ((ok, got), w') \<Longrightarrow> w' = snd (xe_tools E argv u) \<and>
     (ok \<longrightarrow> (\<exists>p. xe_tools E argv u = (Some p, w') \<and> pr_status p = Exited 0) \<and> growth got 0 = grown E dest u w')"
  by (auto simp: extract_poll_def Let_def growth_def grown_def split: prod.splits option.splits)

text \<open>What each of the two extractors runs, and what it means when it reports success.\<close>

definition full_run :: "'w ext_env \<Rightarrow> bytes list \<Rightarrow> bytes \<Rightarrow> u64 \<Rightarrow> 'w \<Rightarrow> 'w \<Rightarrow> bool" where
  "full_run E argv dest tot u w' \<longleftrightarrow>
     (\<exists>p. xe_tools E argv u = (Some p, w') \<and> pr_status p = Exited 0) \<and> \<not> too_little tot (grown E dest u w')"

lemma extract_7z_runs:
  "extract_7z E src dest False tot w = (r, w') \<Longrightarrow>
   (w' = w \<and> r \<noteq> None) \<or> (w' = snd (xe_tools E (sevenz_argv src dest) w) \<and> (r = None \<longrightarrow> full_run E (sevenz_argv src dest) dest tot w w'))"
  by (auto simp: extract_7z_def full_run_def split: if_splits prod.splits dest!: poll_runs)

lemma extract_bsdtar_runs:
  assumes "extract_bsdtar E src dest False tot w = (r, w')"
  defines "b \<equiv> snd (xe_tools E (bsdtar_argv src dest) w)"
  shows "(w' = b \<and> (r = None \<longrightarrow> full_run E (bsdtar_argv src dest) dest tot w w')) \<or>
    (w' = snd (xe_tools E (sevenz_argv src dest) b) \<and> (r = None \<longrightarrow> full_run E (sevenz_argv src dest) dest tot b w'))"
proof -
  obtain ok got w1 where p: "extract_poll E (bsdtar_argv src dest) dest w = ((ok, got), w1)" by (metis prod.collapse)
  note q = poll_runs [OF p]
  then have w1: "w1 = b" by (simp add: b_def)
  consider "\<not> ok" "w' = b" "r \<noteq> None" | "ok" "\<not> too_little tot (growth got 0)" "w' = b" "r = None"
    | "too_little tot (growth got 0)" "extract_7z E src dest False tot b = (r, w')" | "w' = b" "r \<noteq> None"
    using assms(1) p w1 by (auto simp: extract_bsdtar_def split: if_splits bool.splits)
  then show ?thesis
  proof cases
    case 2
    with q have "\<exists>p. xe_tools E (bsdtar_argv src dest) w = (Some p, w1) \<and> pr_status p = Exited 0"
      "growth got 0 = grown E dest w w1" by blast+
    with 2(2) have "full_run E (bsdtar_argv src dest) dest tot w w1" by (simp add: full_run_def)
    with w1 2(3) show ?thesis by simp
  next
    case 3
    from extract_7z_runs [OF this(2)] show ?thesis by blast
  qed blast+
qed

text \<open>
  C34: what an extraction runs, whether it succeeds or not: nothing in a dry run; otherwise, after the
  destination was made, \<open>7z\<close> or nothing for a UDF image, and for any other image nothing, one of the two
  extractors or \<open>bsdtar\<close> and then \<open>7z\<close>. So a UDF image is never given to \<open>bsdtar\<close>. A success is the
  last of these programs: it was run on the state the earlier ones left, it exited with 0, and, for images over 50 MiB,
  it made the destination grow by at least three quarters of the image.
\<close>

theorem extract_sound:
  assumes "rufux_extract_iso E src dest dry w = (r, w')" "xe_stat E w src = Some (regular, isd, sz)"
  shows "(dry \<longrightarrow> w' = w) \<and>
    (\<not> dry \<longrightarrow> (\<exists>runs. w' = after_runs (xe_tools E) runs (snd (ensure_dir E dest w)) \<and>
      (if rufux_iso_is_udf (xe_image E (snd (ensure_dir E dest w)) src) > 0 then runs \<in> {[], [sevenz_argv src dest]}
       else runs \<in> {[], [sevenz_argv src dest], [bsdtar_argv src dest], [bsdtar_argv src dest, sevenz_argv src dest]}) \<and>
      (r = None \<longrightarrow> runs \<noteq> [] \<and>
        full_run E (last runs) dest (if regular then sz else 0) (after_runs (xe_tools E) (butlast runs) (snd (ensure_dir E dest w))) w')))"
proof (intro conjI impI)
  show "w' = w" if "dry"
    using assms that by (auto simp: rufux_extract_iso_def extract_bsdtar_def extract_7z_def split: if_splits)
  assume d: "\<not> dry"
  let ?z = "sevenz_argv src dest" and ?b = "bsdtar_argv src dest"
  obtain tot where tot: "(if regular then sz else 0) = tot" by blast
  obtain e w1 where e: "ensure_dir E dest w = (e, w1)" by fastforce
  have c: "(e \<noteq> None \<and> r \<noteq> None \<and> w' = w1) \<or>
      (has_tool E ''bsdtar'' \<and> \<not> rufux_iso_is_udf (xe_image E w1 src) > 0 \<and> extract_bsdtar E src dest False tot w1 = (r, w')) \<or>
      extract_7z E src dest False tot w1 = (r, w')"
    using assms d e by (cases e) (auto simp: rufux_extract_iso_def Let_def tot split: if_splits)
  then consider "r \<noteq> None" "w' = w1" | "\<not> rufux_iso_is_udf (xe_image E w1 src) > 0" "extract_bsdtar E src dest False tot w1 = (r, w')"
    | "extract_7z E src dest False tot w1 = (r, w')" by blast
  then have main: "\<exists>runs. w' = after_runs (xe_tools E) runs (snd (ensure_dir E dest w)) \<and>
      (if rufux_iso_is_udf (xe_image E (snd (ensure_dir E dest w)) src) > 0 then runs \<in> {[], [?z]}
       else runs \<in> {[], [?z], [?b], [?b, ?z]}) \<and>
      (r = None \<longrightarrow> runs \<noteq> [] \<and> full_run E (last runs) dest tot (after_runs (xe_tools E) (butlast runs) (snd (ensure_dir E dest w))) w')"
  proof cases
    case 1
    with e show ?thesis by (intro exI [of _ "[]"]) simp
  next
    case 2
    from extract_bsdtar_runs [OF 2(2)] show ?thesis
    proof
      assume "w' = snd (xe_tools E ?b w1) \<and> (r = None \<longrightarrow> full_run E ?b dest tot w1 w')"
      with 2(1) e show ?thesis by (intro exI [of _ "[?b]"]) auto
    next
      assume "w' = snd (xe_tools E ?z (snd (xe_tools E ?b w1))) \<and> (r = None \<longrightarrow> full_run E ?z dest tot (snd (xe_tools E ?b w1)) w')"
      with 2(1) e show ?thesis by (intro exI [of _ "[?b, ?z]"]) auto
    qed
  next
    case 3
    from extract_7z_runs [OF 3] show ?thesis
    proof
      assume "w' = w1 \<and> r \<noteq> None"
      with e show ?thesis by (intro exI [of _ "[]"]) simp
    next
      assume "w' = snd (xe_tools E ?z w1) \<and> (r = None \<longrightarrow> full_run E ?z dest tot w1 w')"
      with e show ?thesis by (intro exI [of _ "[?z]"]) auto
    qed
  qed
  show "\<exists>runs. w' = after_runs (xe_tools E) runs (snd (ensure_dir E dest w)) \<and>
      (if rufux_iso_is_udf (xe_image E (snd (ensure_dir E dest w)) src) > 0 then runs \<in> {[], [?z]}
       else runs \<in> {[], [?z], [?b], [?b, ?z]}) \<and>
      (r = None \<longrightarrow> runs \<noteq> [] \<and> full_run E (last runs) dest (if regular then sz else 0) (after_runs (xe_tools E) (butlast runs) (snd (ensure_dir E dest w))) w')"
    unfolding tot by (rule main)
qed

text \<open>
  The retry with \<open>7z\<close> measures only what it adds itself. If \<open>bsdtar\<close> left more than a quarter of the image (but
  too little), the retry is refused even when it completes the tree.
\<close>

lemma retry_refused:
  assumes "has_tool E ''7z''" "MIB50 < tot" "unat tot < 2 ^ 60"
    "xe_tools E (bsdtar_argv src dest) w = (Some p, w1)" "pr_status p = Exited 0"
    "xe_tools E (sevenz_argv src dest) w1 = (Some q, w2)" "pr_status q = Exited 0"
    "dir_size E dest w = 0" "dir_size E dest w1 = part" "dir_size E dest w2 = tot"
    "unat tot < 4 * unat part" "4 * unat part < 3 * unat tot"
  shows "extract_bsdtar E src dest False tot w = (Some (Incomplete (tot - part) tot), w2)"
proof -
  have lt: "part < tot" using assms(11,12) by (simp add: word_less_nat_alt)
  have m: "unat (x * 4) = unat x * 4" "unat (x * 3) = unat x * 3" if "unat x \<le> unat tot" for x :: u64
  proof -
    from that assms(3) have "unat x < 2 ^ 60" by simp
    then have "unat x * 4 < 2 ^ 64" "unat x * 3 < 2 ^ 64" by simp_all
    then show "unat (x * 4) = unat x * 4" "unat (x * 3) = unat x * 3"
      by (simp_all add: unat_word_ariths)
  qed
  have s: "unat (tot - part) = unat tot - unat part" using lt by (simp add: unat_sub less_imp_le)
  have b: "too_little tot part" using assms(2,12) m [of part] m [of tot] lt
    by (simp add: too_little_def word_less_nat_alt)
  have z: "too_little tot (tot - part)"
    using assms(2,11,12) m [of "tot - part"] m [of tot] s by (simp add: too_little_def word_less_nat_alt)
  have p0: "0 < part" using assms(11) by (simp add: word_less_nat_alt)
  have e1: "extract_poll E (bsdtar_argv src dest) dest w = ((True, Some part), w1)"
    using assms p0 by (simp add: extract_poll_def Let_def)
  have e2: "extract_poll E (sevenz_argv src dest) dest w1 = ((True, Some (tot - part)), w2)"
    using assms lt by (simp add: extract_poll_def Let_def)
  from e1 e2 b z assms(1) show ?thesis by (simp add: extract_bsdtar_def extract_7z_def growth_def)
qed

section \<open>Splitting\<close>

text \<open>Unless \<open>RUFUX_TMPDIR\<close> is set, no scratch directory is ever found: the null pointer ends the list.\<close>

lemma scratch_unset:
  "h_getenv (xe_host E) (ascii ''RUFUX_TMPDIR'') = None \<Longrightarrow> scratch_dir E need src cap w = (None, w)"
  by (simp add: scratch_dir_def)














section \<open>Examples\<close>

text \<open>A small world: the number of bytes in the destination. All tools are installed and work.\<close>

definition x_host :: host where
  "x_host = \<lparr>h_getenv = (\<lambda>v. if v = ascii ''PATH'' then Some (ascii ''/b'') else None), h_x_ok = (\<lambda>_. True),
     h_execv = (\<lambda>_. None), h_exe_link = None\<rparr>"

definition x_tools :: "u64 tools" where
  "x_tools argv w =
     (if argv ! 1 = ascii ''l'' then
        (Some \<lparr>pr_status = Exited 0, pr_reads =
           (if argv ! 4 = ascii ''sources/install.wim'' then [nl @ ascii ''Size = 5000000000'' @ nl] else [])\<rparr>, w)
      else (Some \<lparr>pr_status = Exited 0, pr_reads = []\<rparr>, 64000000))"

definition x_names :: "bytes list" where
  "x_names = map ascii [''bootmgr'', ''SETUP.EXE'', ''Sources'', ''boot.wim'', ''boot'', ''BCD'', ''efi'', ''Microsoft'',
     ''bootx64.efi'', ''install.wim'']"

definition x_env :: "u64 ext_env" where
  "x_env = \<lparr>xe_tools = x_tools, xe_host = x_host, xe_stat = (\<lambda>_ p. Some (p \<noteq> ascii ''/d'', p = ascii ''/d'', 64000000)),
     xe_files = (\<lambda>w _. [w]), xe_image = (\<lambda>_ _. Some []), xe_avail = (\<lambda>_ _. None), xe_list = (\<lambda>_ _. Some x_names),
     xe_readable = (\<lambda>_ _. True), xe_mkdir = (\<lambda>_ w. (None, w)), xe_rmdir = (\<lambda>_ w. w),
     xe_mkdtemp = (\<lambda>p w. (Some p, w)), xe_write = (\<lambda>_ _ w. (True, w))\<rparr>"

lemma x_verify: "verify_windows_tree x_env 0 (ascii ''/m'') = None"
  by code_simp

theorem verify_tree_exact_witness: "windows_tree x_env 0 (ascii ''/m'')"
proof -
  have "length (ascii ''/m'') < 1000" by (simp add: ascii_def)
  from verify_tree_exact [OF this, of x_env 0] x_verify show ?thesis by blast
qed

lemma x_has: "has_tool x_env ''bsdtar''" "has_tool x_env ''7z''" "has_tool x_env ''wimlib-imagex''"
  by code_simp+

lemma x_sizes: "dir_size x_env (ascii ''/d'') w = w"
  by (simp add: dir_size_def x_env_def)

lemma x_poll:
  "argv ! 1 \<noteq> ascii ''l'' \<Longrightarrow> extract_poll x_env argv (ascii ''/d'') 0 = ((True, Some 64000000), 64000000)"
proof -
  have "xe_tools x_env = x_tools" by (simp add: x_env_def)
  then show "argv ! 1 \<noteq> ascii ''l'' \<Longrightarrow> extract_poll x_env argv (ascii ''/d'') 0 = ((True, Some 64000000), 64000000)"
    by (simp add: extract_poll_def x_sizes x_tools_def)
qed

lemma x_extract: "rufux_extract_iso x_env (ascii ''/i'') (ascii ''/d'') False 0 = (None, 64000000)"
proof -
  have "extract_bsdtar x_env (ascii ''/i'') (ascii ''/d'') False 64000000 0 = (None, 64000000)"
    by (simp add: extract_bsdtar_def x_poll bsdtar_argv_def too_little_def growth_def ascii_def [of "''-xf''"] ascii_def [of "''l''"])
  moreover have "ensure_dir x_env (ascii ''/d'') 0 = (None, 0)" by (simp add: ensure_dir_def x_env_def)
  moreover have "xe_stat x_env 0 (ascii ''/i'') = Some (True, False, 64000000)" by (simp add: x_env_def ascii_def)
  moreover have "rufux_iso_is_udf (xe_image x_env 0 (ascii ''/i'')) = 0" by (simp add: rufux_iso_is_udf_def x_env_def)
  ultimately show ?thesis using x_has by (simp add: rufux_extract_iso_def)
qed

text \<open>With both extractors installed and \<open>bsdtar\<close> complete at once, it is the one that did it.\<close>

theorem extract_sound_witness:
  "\<exists>runs. (64000000 :: u64) = after_runs x_tools runs 0 \<and> runs \<noteq> [] \<and>
     full_run x_env (last runs) (ascii ''/d'') 64000000 (after_runs x_tools (butlast runs) 0) 64000000"
proof -
  have "xe_stat x_env 0 (ascii ''/i'') = Some (True, False, 64000000)" by (simp add: x_env_def ascii_def)
  moreover have "xe_tools x_env = x_tools" "snd (ensure_dir x_env (ascii ''/d'') 0) = 0" by (simp_all add: x_env_def ensure_dir_def)
  ultimately show ?thesis using extract_sound [OF x_extract, of True False 64000000] by auto
qed







end
