(* ===== verification/BootRecords.thy ===== *)
theory BootRecords
  imports Device Exec LinuxIo
begin

text \<open>
  Boot records: \<open>src/linux/dosboot.c\<close> and \<open>src/linux/boot.c\<close>. The machine code is data of the ms-sys project and a
  parameter, with the sizes it has. A stream opened with \<open>r+b\<close> is taken as unbuffered: \<open>fwrite\<close> writes until it is
  done or a call fails, an interrupted call included; buffering only moves the error to \<open>fflush\<close>, whose result
  counts as well.
\<close>

section \<open>Writing through a stream\<close>

text \<open>\<open>blob_write\<close>: \<open>seek\<close> is the answer of \<open>fseeko\<close> at an offset.\<close>

definition blob_write :: "(nat \<Rightarrow> bool) \<Rightarrow> nat \<Rightarrow> bytes \<Rightarrow> dev \<Rightarrow> bool \<times> dev" where
  "blob_write seek off blob d = (if \<not> seek off then (False, d) else write_at False blob off d)"

fun blobs_write :: "(nat \<Rightarrow> bool) \<Rightarrow> (nat \<times> bytes) list \<Rightarrow> dev \<Rightarrow> bool \<times> dev" where
  "blobs_write seek [] d = (True, d)"
| "blobs_write seek ((off, b) # bs) d =
     (case blob_write seek off b d of (False, d) \<Rightarrow> (False, d) | (True, d) \<Rightarrow> blobs_write seek bs d)"

record stream_env =
  sv_open :: bool
  sv_seek :: "nat \<Rightarrow> bool"
  sv_flush :: bool

definition with_stream :: "stream_env \<Rightarrow> (nat \<times> bytes) list \<Rightarrow> dev \<Rightarrow> bool \<times> dev" where
  "with_stream V bs d =
     (if \<not> sv_open V then (False, d)
      else case blobs_write (sv_seek V) bs d of (ok, d) \<Rightarrow> (ok \<and> sv_flush V, d))"

section \<open>The records of \<open>dosboot.c\<close>\<close>

record dos_blobs =
  db_fat32_head :: bytes
  db_fat32_code :: bytes
  db_fat32_tail :: bytes
  db_ntfs_head :: bytes
  db_ntfs_code :: bytes
  db_mbr :: bytes

definition to_upper :: "byte \<Rightarrow> byte" where
  "to_upper c = (if 97 \<le> c \<and> c \<le> 122 then c - 32 else c)"

definition label11 :: "bytes option \<Rightarrow> bytes" where
  "label11 l = (let s = map to_upper (take 11 (case l of None \<Rightarrow> [] | Some s \<Rightarrow> s)) in s @ replicate (11 - length s) 32)"

definition pbr_fd32_blobs :: "dos_blobs \<Rightarrow> nat \<Rightarrow> bytes option \<Rightarrow> (nat \<times> bytes) list" where
  "pbr_fd32_blobs B base l =
     [(base + 0, db_fat32_head B), (base + 0x47, label11 l), (base + 0x52, db_fat32_code B), (base + 0x3f0, db_fat32_tail B)]"

definition rufux_dos_pbr_fd32 :: "stream_env \<Rightarrow> dos_blobs \<Rightarrow> nat \<Rightarrow> bytes option \<Rightarrow> dev \<Rightarrow> bool \<times> dev" where
  "rufux_dos_pbr_fd32 V B base l d = with_stream V (pbr_fd32_blobs B base l) d"

definition rufux_dos_mbr :: "stream_env \<Rightarrow> dos_blobs \<Rightarrow> dev \<Rightarrow> bool \<times> dev" where
  "rufux_dos_mbr V B d = with_stream V [(0, take 440 (db_mbr B))] d"

definition rufux_ntfs_pbr :: "stream_env \<Rightarrow> dos_blobs \<Rightarrow> nat \<Rightarrow> dev \<Rightarrow> bool \<times> dev" where
  "rufux_ntfs_pbr V B base d = with_stream V [(base + 0, db_ntfs_head B), (base + 0x54, db_ntfs_code B)] d"

text \<open>\<open>opens\<close>: whether \<open>opendir\<close> works.\<close>

definition freedos_candidates :: "'z host_scheme \<Rightarrow> bytes list" where
  "freedos_candidates h =
     (case h_getenv h (ascii ''RUFUX_RES'') of None \<Rightarrow> []
      | Some env \<Rightarrow> if env = [] then [] else [clip 1024 (env @ ascii ''/freedos'')]) @
     (if exe_dir h = [] then [] else [clip 1152 (exe_dir h @ ascii ''/../share/rufux/freedos'')]) @
     map ascii [''res/freedos'', ''/usr/share/rufux/freedos'', ''/usr/local/share/rufux/freedos'']"

definition rufux_freedos_dir :: "'z host_scheme \<Rightarrow> (bytes \<Rightarrow> bool) \<Rightarrow> bytes option" where
  "rufux_freedos_dir h opens = map_option (clip 1024) (List.find opens (freedos_candidates h))"

datatype dos_error = NoFreedosDir | PayloadLacks string | CopyFailed bytes

definition cp_argv :: "bytes \<Rightarrow> bytes \<Rightarrow> bytes \<Rightarrow> bytes list" where
  "cp_argv src dest name =
     [ascii ''cp'', ascii ''--'', clip 1152 (src @ 47 # name), clip 1152 (dest @ 47 # name)]"

fun copy_first :: "'w tools \<Rightarrow> ('w \<Rightarrow> bytes \<Rightarrow> bool) \<Rightarrow> bytes \<Rightarrow> bytes \<Rightarrow> string list \<Rightarrow> 'w \<Rightarrow> dos_error option \<times> 'w" where
  "copy_first tools readable src dest [] w = (None, w)"
| "copy_first tools readable src dest (n # ns) w =
     (if \<not> readable w (clip 1152 (src @ 47 # ascii n)) then (Some (PayloadLacks n), w)
      else case rufux_run tools (cp_argv src dest (ascii n)) False w of
        (False, w) \<Rightarrow> (Some (CopyFailed (ascii n)), w)
      | (True, w) \<Rightarrow> copy_first tools readable src dest ns w)"

fun copy_rest :: "'w tools \<Rightarrow> bytes \<Rightarrow> bytes \<Rightarrow> bytes list \<Rightarrow> 'w \<Rightarrow> dos_error option \<times> 'w" where
  "copy_rest tools src dest [] w = (None, w)"
| "copy_rest tools src dest (n # ns) w =
     (if take 1 n = [46] \<or> n \<in> {ascii ''KERNEL.SYS'', ascii ''COMMAND.COM'', ascii ''readme.txt''}
      then copy_rest tools src dest ns w
      else case rufux_run tools (cp_argv src dest n) False w of
        (False, w) \<Rightarrow> (Some (CopyFailed n), w)
      | (True, w) \<Rightarrow> copy_rest tools src dest ns w)"

text \<open>\<open>names\<close>: what \<open>readdir\<close> gives, \<open>None\<close> when \<open>opendir\<close> fails.\<close>

definition rufux_dos_copy_files ::
    "'w tools \<Rightarrow> ('w \<Rightarrow> bytes \<Rightarrow> bool) \<Rightarrow> bytes list option \<Rightarrow> bytes \<Rightarrow> bytes \<Rightarrow> 'w \<Rightarrow> dos_error option \<times> 'w" where
  "rufux_dos_copy_files tools readable names src dest w =
     (case names of
        None \<Rightarrow> (Some NoFreedosDir, w)
      | Some ns \<Rightarrow>
          (case copy_first tools readable src dest [''KERNEL.SYS'', ''COMMAND.COM''] w of
             (Some e, w) \<Rightarrow> (Some e, w)
           | (None, w) \<Rightarrow> copy_rest tools src dest ns w))"

section \<open>The MBR of \<open>boot.c\<close>\<close>

record mbr_opts =
  bo_kind :: "bytes option"
  bo_dry_run :: bool
  bo_allow_fixed :: bool
  bo_allow_file :: bool
  bo_yes :: bool

text \<open>
  \<open>me_readable\<close>: \<open>access\<close> with \<open>R_OK\<close>. \<open>me_is_dir\<close>: \<open>stat\<close> and \<open>S_ISDIR\<close>. \<open>me_walk\<close>: what \<open>nftw\<close>
  visits below a directory, each path with whether it is a file. \<open>me_read\<close>: what one \<open>read\<close> of 440 bytes gives, \<open>None\<close> when the
  file cannot be opened. \<open>me_open\<close>: whether the target can be opened for writing.
\<close>

record mbr_env =
  me_sys :: sys_env
  me_host :: host
  me_readable :: "bytes \<Rightarrow> bool"
  me_is_dir :: "bytes \<Rightarrow> bool"
  me_walk :: "bytes \<Rightarrow> (bytes \<times> bool) list"
  me_read :: "bytes \<Rightarrow> bytes option"
  me_open :: bool

datatype mbr_error = MbrNotConfirmed | MbrTarget | MbrNotFound | MbrCannotOpen | MbrSize | MbrCannotOpenTarget | MbrNotWritten

definition is_gpt_kind :: "bytes option \<Rightarrow> bool" where
  "is_gpt_kind k \<longleftrightarrow> k = Some (ascii ''gpt'')"

definition mbr_base :: "bytes option \<Rightarrow> bytes" where
  "mbr_base k = (if is_gpt_kind k then ascii ''gptmbr.bin'' else ascii ''mbr.bin'')"

definition mbr_roots :: "mbr_env \<Rightarrow> bytes list" where
  "mbr_roots E =
     (let rel = clip 1152 (exe_dir (me_host E) @ ascii ''/../share/syslinux'')
      in (if exe_dir (me_host E) \<noteq> [] \<and> me_is_dir E rel then [rel] else []) @
         map ascii [''/usr/lib/syslinux'', ''/usr/share/syslinux'', ''/usr/local/share/syslinux'', ''/usr/local/lib/syslinux''])"

definition want_cb :: "mbr_env \<Rightarrow> bytes \<Rightarrow> bytes \<times> bool \<Rightarrow> bool" where
  "want_cb E base p \<longleftrightarrow> snd p \<and> after_last 47 (fst p) = base \<and> me_readable E (fst p)"

definition find_mbr_file :: "mbr_env \<Rightarrow> bytes \<Rightarrow> bytes option" where
  "find_mbr_file E base =
     map_option (clip 512)
       (List.find (\<lambda>p. p \<noteq> [])
         (List.map_filter (\<lambda>r. if me_is_dir E r then map_option fst (List.find (want_cb E base) (me_walk E r)) else None)
           (mbr_roots E)))"

definition mbr_known :: "bytes option \<Rightarrow> bytes list" where
  "mbr_known k =
     map ascii (if is_gpt_kind k
       then [''/usr/lib/syslinux/bios/gptmbr.bin'', ''/usr/lib/syslinux/gptmbr.bin'', ''/usr/share/syslinux/gptmbr.bin'']
       else [''/usr/lib/syslinux/bios/mbr.bin'', ''/usr/lib/syslinux/mbr.bin'', ''/usr/share/syslinux/bios/mbr.bin'',
             ''/usr/share/syslinux/mbr.bin''])"

definition mbr_path :: "mbr_env \<Rightarrow> bytes option \<Rightarrow> bytes option" where
  "mbr_path E k =
     (let rel = clip 1152 (exe_dir (me_host E) @ ascii ''/../share/syslinux/'' @ mbr_base k)
      in case List.find (me_readable E) ((if exe_dir (me_host E) \<noteq> [] then [rel] else []) @ mbr_known k) of
           Some p \<Rightarrow> Some p
         | None \<Rightarrow> find_mbr_file E (mbr_base k))"

definition rufux_install_mbr :: "mbr_env \<Rightarrow> bytes \<Rightarrow> mbr_opts \<Rightarrow> dev \<Rightarrow> mbr_error option \<times> dev" where
  "rufux_install_mbr E dst bo d =
     (if \<not> bo_dry_run bo \<and> \<not> bo_yes bo then (Some MbrNotConfirmed, d)
      else if rufux_check_target (me_sys E) dst (bo_allow_fixed bo) (bo_allow_file bo) \<noteq> None then (Some MbrTarget, d)
      else case mbr_path E (bo_kind bo) of
        None \<Rightarrow> (Some MbrNotFound, d)
      | Some mbr \<Rightarrow>
          if bo_dry_run bo then (None, d)
          else case me_read E mbr of
            None \<Rightarrow> (Some MbrCannotOpen, d)
          | Some code \<Rightarrow>
              if length code \<noteq> 440 then (Some MbrSize, d)
              else if \<not> me_open E then (Some MbrCannotOpenTarget, d)
              else case sys_pwrite code 0 d of
                (Inr n, d) \<Rightarrow> (if n = 440 then None else Some MbrNotWritten, d)
              | (Inl _, d) \<Rightarrow> (Some MbrNotWritten, d))"

definition rufux_install_syslinux :: "'w tools \<Rightarrow> 'z host_scheme \<Rightarrow> bytes \<Rightarrow> bool \<Rightarrow> 'w \<Rightarrow> bool \<times> 'w" where
  "rufux_install_syslinux tools h dev dry w =
     (if \<not> have_tool h (ascii ''syslinux'') then (False, w)
      else case rufux_run tools [ascii ''syslinux'', ascii ''--install'', dev] dry w of (ok, w) \<Rightarrow> (ok \<or> dry, w))"

end
