(* ===== verification/BootRecordsProps.thy ===== *)
theory BootRecordsProps
  imports BootRecords DeviceProps
begin

text \<open>
  What writing boot records leaves alone: the parameters of the file system between the parts of a boot sector, and
  the partition table behind the MBR code, whether the writing succeeds or fails half way.
\<close>

section \<open>Only the ranges of the records change\<close>

text \<open>\<open>k\<close> is a position that no record covers.\<close>

definition spared :: "(nat \<times> bytes) list \<Rightarrow> nat \<Rightarrow> bool" where
  "spared bs k \<longleftrightarrow> (\<forall>(off, b)\<in>set bs. k < off \<or> off + length b \<le> k)"

definition records_fit :: "(nat \<times> bytes) list \<Rightarrow> nat \<Rightarrow> bool" where
  "records_fit bs n \<longleftrightarrow> (\<forall>(off, b)\<in>set bs. off + length b \<le> n)"

lemma write_at_spares:
  assumes "write_at retry bs pos d = (ok, d')" "pos + length bs \<le> length (d_img d)"
  shows "length (d_img d') = length (d_img d) \<and>
    (\<forall>k<length (d_img d). k < pos \<or> pos + length bs \<le> k \<longrightarrow> d_img d' ! k = d_img d ! k) \<and>
    (ok \<longrightarrow> d_img d' = bput pos bs (d_img d))"
proof -
  from assms(2) have "pos \<le> length (d_img d)" by simp
  from write_at_prefix [OF assms(1) this] obtain n where n: "n \<le> length bs"
    "d_img d' = bput pos (take n bs) (d_img d)" "ok \<longrightarrow> n = length bs" by blast
  have fit: "pos + length (take n bs) \<le> length (d_img d)" using n(1) assms(2) by simp
  have "d_img d' ! k = d_img d ! k" if "k < length (d_img d)" "k < pos \<or> pos + length bs \<le> k" for k
    using that n(1) nth_bput [OF fit that(1)] n(2) by auto
  with n fit show ?thesis by (auto simp: length_bput)
qed

lemma blobs_write_spares:
  "blobs_write seek bs d = (ok, d') \<Longrightarrow> records_fit bs (length (d_img d)) \<Longrightarrow>
   length (d_img d') = length (d_img d) \<and>
   (\<forall>k<length (d_img d). spared bs k \<longrightarrow> d_img d' ! k = d_img d ! k) \<and>
   (ok \<longrightarrow> d_img d' = foldl (\<lambda>img (off, b). bput off b img) (d_img d) bs)"
proof (induction bs arbitrary: d)
  case (Cons ob bs)
  obtain off b where ob: "ob = (off, b)" by fastforce
  obtain ok1 d1 where w: "blob_write seek off b d = (ok1, d1)" by fastforce
  have fit: "off + length b \<le> length (d_img d)" using Cons.prems(2) ob by (simp add: records_fit_def)
  have one: "length (d_img d1) = length (d_img d) \<and>
      (\<forall>k<length (d_img d). k < off \<or> off + length b \<le> k \<longrightarrow> d_img d1 ! k = d_img d ! k) \<and>
      (ok1 \<longrightarrow> d_img d1 = bput off b (d_img d))"
    using w write_at_spares [of False b off d ok1 d1] fit by (cases "seek off") (auto simp: blob_write_def)
  show ?case
  proof (cases ok1)
    case True
    with Cons.prems(1) w ob have r: "blobs_write seek bs d1 = (ok, d')" by simp
    have "records_fit bs (length (d_img d1))" using Cons.prems(2) one by (simp add: records_fit_def)
    from Cons.IH [OF r this] one True show ?thesis by (auto simp: ob spared_def)
  next
    case False
    with Cons.prems(1) w ob have "d' = d1" "\<not> ok" by simp_all
    with one show ?thesis by (auto simp: ob spared_def)
  qed
qed simp

lemma with_stream_spares:
  assumes "with_stream V bs d = (ok, d')" "records_fit bs (length (d_img d))"
  shows "length (d_img d') = length (d_img d) \<and>
    (\<forall>k<length (d_img d). spared bs k \<longrightarrow> d_img d' ! k = d_img d ! k) \<and>
    (ok \<longrightarrow> d_img d' = foldl (\<lambda>img (off, b). bput off b img) (d_img d) bs)"
proof (cases "sv_open V")
  case True
  obtain ok1 d1 where "blobs_write (sv_seek V) bs d = (ok1, d1)" by fastforce
  with blobs_write_spares [OF this assms(2)] assms(1) True show ?thesis by (auto simp: with_stream_def)
next
  case False
  with assms(1) show ?thesis by (auto simp: with_stream_def)
qed

text \<open>Bytes \<open>a\<close> up to \<open>e\<close> are the same.\<close>

definition same_bytes :: "nat \<Rightarrow> nat \<Rightarrow> dev \<Rightarrow> dev \<Rightarrow> bool" where
  "same_bytes a e d d' \<longleftrightarrow> bslice a (e - a) (d_img d') = bslice a (e - a) (d_img d)"

lemma same_bytesI:
  assumes "length (d_img d') = length (d_img d)"
    "\<And>k. k < length (d_img d) \<Longrightarrow> a \<le> k \<Longrightarrow> k < e \<Longrightarrow> d_img d' ! k = d_img d ! k"
  shows "same_bytes a e d d'"
  unfolding same_bytes_def using assms by (intro nth_equalityI) (auto simp: length_bslice nth_bslice)

lemma same_bytes_refl: "same_bytes a e d d"
  by (simp add: same_bytes_def)

definition size_of :: "dev \<Rightarrow> nat" where
  "size_of d = length (d_img d)"

lemma stream_keeps:
  assumes "with_stream V bs d = (ok, d')" "records_fit bs (length (d_img d))" "\<And>k. a \<le> k \<Longrightarrow> k < e \<Longrightarrow> spared bs k"
  shows "same_bytes a e d d'"
  using with_stream_spares [OF assms(1,2)] assms(3) by (intro same_bytesI) auto

lemma foldl_bput_last:
  assumes "records_fit (bs @ (off, b) # cs) (length img)" "\<forall>(o', c)\<in>set cs. off + length b \<le> o' \<or> o' + length c \<le> off"
  shows "bslice off (length b) (foldl (\<lambda>img (off, b). bput off b img) img (bs @ (off, b) # cs)) = b"
proof -
  have len: "length (foldl (\<lambda>img (off, b). bput off b img) img bs) = length img" if "records_fit bs (length img)"
    for bs and img :: bytes
    using that by (induction bs arbitrary: img) (auto simp: records_fit_def length_bput)
  have keep: "bslice off (length b) (foldl (\<lambda>img (off, b). bput off b img) img cs) = bslice off (length b) img"
    if "records_fit cs (length img)" "\<forall>(o', c)\<in>set cs. off + length b \<le> o' \<or> o' + length c \<le> off" for img :: bytes
    using that
  proof (induction cs arbitrary: img)
    case (Cons c cs)
    obtain o' x where c: "c = (o', x)" by fastforce
    have "bslice off (length b) (bput o' x img) = bslice off (length b) img"
      using Cons.prems c by (intro bslice_bput_disjoint) (auto simp: records_fit_def)
    moreover have "records_fit cs (length (bput o' x img))" using Cons.prems(1) c by (auto simp: records_fit_def length_bput)
    ultimately show ?case using Cons c by simp
  qed simp
  let ?i = "foldl (\<lambda>img (off, b). bput off b img) img bs"
  have f: "records_fit bs (length img)" "off + length b \<le> length img" "records_fit cs (length img)"
    using assms(1) by (auto simp: records_fit_def)
  have l: "length (bput off b ?i) = length img" using len [OF f(1)] f(2) by (simp add: length_bput)
  have "bslice off (length b) (bput off b ?i) = b" using len [OF f(1)] f(2) by (intro bslice_bput_same) simp
  with keep [of "bput off b ?i"] f(3) l assms(2) show ?thesis by simp
qed

text \<open>The sizes the tables of ms-sys have.\<close>

definition blob_sizes :: "dos_blobs \<Rightarrow> bool" where
  "blob_sizes B \<longleftrightarrow> length (db_fat32_head B) = 11 \<and> length (db_fat32_code B) = 918 \<and> length (db_fat32_tail B) = 528 \<and>
     length (db_ntfs_head B) = 11 \<and> length (db_ntfs_code B) = 4052 \<and> length (db_mbr B) = 440"

lemma label11_length: "length (label11 l) = 11"
  by (simp add: label11_def split: option.splits)

lemma pbr_fd32_keeps:
  assumes "blob_sizes B" "base + 0x600 \<le> size_of d" "rufux_dos_pbr_fd32 V B base l d = (ok, d')"
  shows "same_bytes 0 base d d' \<and> same_bytes (base + 11) (base + 0x47) d d' \<and> same_bytes (base + 0x600) (size_of d) d d' \<and>
    (ok \<longrightarrow> bslice base 11 (d_img d') = db_fat32_head B \<and> bslice (base + 0x47) 11 (d_img d') = label11 l)"
proof -
  let ?bs = "pbr_fd32_blobs B base l"
  have fit: "records_fit ?bs (length (d_img d))"
    using assms(1,2) by (auto simp: pbr_fd32_blobs_def records_fit_def blob_sizes_def label11_length size_of_def)
  have w: "with_stream V ?bs d = (ok, d')" using assms(3) by (simp add: rufux_dos_pbr_fd32_def)
  have sp: "spared ?bs k" if "k < base \<or> base + 11 \<le> k \<and> k < base + 0x47 \<or> base + 0x600 \<le> k" for k
    using that assms(1) by (auto simp: pbr_fd32_blobs_def spared_def blob_sizes_def label11_length)
  have "bslice base 11 (d_img d') = db_fat32_head B \<and> bslice (base + 0x47) 11 (d_img d') = label11 l" if "ok"
  proof -
    let ?cs = "[(base + 0x47, label11 l), (base + 0x52, db_fat32_code B), (base + 0x3f0, db_fat32_tail B)]"
    have e: "?bs = [] @ (base, db_fat32_head B) # ?cs" "?bs = [(base, db_fat32_head B)] @ (base + 0x47, label11 l) # tl ?cs"
      by (simp_all add: pbr_fd32_blobs_def)
    have i: "d_img d' = foldl (\<lambda>img (off, b). bput off b img) (d_img d) ?bs"
      using with_stream_spares [OF w fit] that by simp
    have "bslice base (length (db_fat32_head B)) (d_img d') = db_fat32_head B"
      unfolding i e(1) by (rule foldl_bput_last) (use fit e(1) assms(1) in \<open>auto simp: blob_sizes_def label11_length\<close>)
    moreover have "bslice (base + 0x47) (length (label11 l)) (d_img d') = label11 l"
      unfolding i e(2) by (rule foldl_bput_last) (use fit e(2) assms(1) in \<open>auto simp: blob_sizes_def label11_length\<close>)
    ultimately show ?thesis using assms(1) by (simp add: blob_sizes_def label11_length)
  qed
  with stream_keeps [OF w fit] sp show ?thesis by auto
qed

lemma ntfs_pbr_keeps:
  assumes "blob_sizes B" "base + 0x54 + 4052 \<le> size_of d" "rufux_ntfs_pbr V B base d = (ok, d')"
  shows "same_bytes 0 base d d' \<and> same_bytes (base + 11) (base + 0x54) d d' \<and> same_bytes (base + 0x54 + 4052) (size_of d) d d'"
proof -
  let ?bs = "[(base + 0, db_ntfs_head B), (base + 0x54, db_ntfs_code B)]"
  have fit: "records_fit ?bs (length (d_img d))" using assms(1,2) by (auto simp: records_fit_def blob_sizes_def size_of_def)
  have w: "with_stream V ?bs d = (ok, d')" using assms(3) by (simp add: rufux_ntfs_pbr_def)
  have "spared ?bs k" if "k < base \<or> base + 11 \<le> k \<and> k < base + 0x54 \<or> base + 0x54 + 4052 \<le> k" for k
    using that assms(1) by (auto simp: spared_def blob_sizes_def)
  with stream_keeps [OF w fit] show ?thesis by auto
qed

lemma dos_mbr_keeps:
  assumes "blob_sizes B" "440 \<le> size_of d" "rufux_dos_mbr V B d = (ok, d')"
  shows "same_bytes 440 (size_of d) d d' \<and> (ok \<longrightarrow> take 440 (d_img d') = db_mbr B)"
proof -
  let ?bs = "[(0, take 440 (db_mbr B))]"
  have fit: "records_fit ?bs (length (d_img d))" using assms(1,2) by (auto simp: records_fit_def blob_sizes_def size_of_def)
  have w: "with_stream V ?bs d = (ok, d')" using assms(3) by (simp add: rufux_dos_mbr_def)
  have "spared ?bs k" if "440 \<le> k" for k using that assms(1) by (auto simp: spared_def blob_sizes_def)
  with stream_keeps [OF w fit] with_stream_spares [OF w fit] assms(1) show ?thesis
    by (auto simp: bput_def blob_sizes_def)
qed

lemma install_mbr_keeps:
  assumes "440 \<le> size_of d" "rufux_install_mbr E dst bo d = (r, d')"
  shows "same_bytes 440 (size_of d) d d' \<and> (bo_dry_run bo \<or> \<not> bo_yes bo \<longrightarrow> d' = d)"
proof -
  have "d' = d \<or> (\<exists>code x. length code = 440 \<and> sys_pwrite code 0 d = (x, d') \<and> bo_yes bo \<and> \<not> bo_dry_run bo)"
    using assms(2) by (auto simp: rufux_install_mbr_def split: if_splits option.splits prod.splits sum.splits)
  then show ?thesis
  proof (elim disjE exE conjE)
    fix code x assume c: "length code = 440" "sys_pwrite code 0 d = (x, d')" "bo_yes bo" "\<not> bo_dry_run bo"
    have "same_bytes 440 (size_of d) d d'"
    proof (cases x)
      case (Inl e)
      with sys_pwrite_Inl [of code 0 d e d'] c(2) show ?thesis by (simp add: same_bytes_def)
    next
      case (Inr n)
      have z: "sys_pwrite code (int 0) d = (Inr n, d')" using c(2) Inr by simp
      from sys_pwrite_at [OF z] c(1) assms(1) have "d_img d' = bput 0 (take n code) (d_img d)" "n \<le> 440" by auto
      then show ?thesis using c(1) assms(1) by (intro same_bytesI) (auto simp: nth_bput length_bput size_of_def)
    qed
    with c show ?thesis by simp
  qed (simp add: same_bytes_refl)
qed

text \<open>
  C36: writing boot records never touches what has to survive. The boot sector of a FAT32 partition
  keeps its parameter block (bytes 11 to 70) and that of an NTFS partition its own (bytes 11 to 83), and nothing in
  front of the partition or behind the records changes; the DOS master boot record and the syslinux one keep
  everything from byte 440 on, so the disk signature and the partition table. This holds whether an operation
  succeeds or stops half way. On success the records are in place; without confirmation nothing is written.
\<close>

theorem boot_records_keep:
  assumes "blob_sizes B" "base + 0x1100 \<le> size_of d"
  shows "(\<forall>ok d'. rufux_dos_pbr_fd32 V B base l d = (ok, d') \<longrightarrow>
      same_bytes 0 base d d' \<and> same_bytes (base + 11) (base + 0x47) d d' \<and> same_bytes (base + 0x600) (size_of d) d d' \<and>
      (ok \<longrightarrow> bslice base 11 (d_img d') = db_fat32_head B \<and> bslice (base + 0x47) 11 (d_img d') = label11 l)) \<and>
    (\<forall>ok d'. rufux_ntfs_pbr V B base d = (ok, d') \<longrightarrow>
      same_bytes 0 base d d' \<and> same_bytes (base + 11) (base + 0x54) d d' \<and> same_bytes (base + 0x1100) (size_of d) d d') \<and>
    (\<forall>ok d'. rufux_dos_mbr V B d = (ok, d') \<longrightarrow>
      same_bytes 440 (size_of d) d d' \<and> (ok \<longrightarrow> take 440 (d_img d') = db_mbr B)) \<and>
    (\<forall>r d'. rufux_install_mbr E dst bo d = (r, d') \<longrightarrow>
      same_bytes 440 (size_of d) d d' \<and> (bo_dry_run bo \<or> \<not> bo_yes bo \<longrightarrow> d' = d))"
proof (intro conjI allI impI)
  fix ok d'
  show "same_bytes 0 base d d'" "same_bytes (base + 11) (base + 0x54) d d'" "same_bytes (base + 0x1100) (size_of d) d d'"
    if "rufux_ntfs_pbr V B base d = (ok, d')"
  proof -
    from ntfs_pbr_keeps [OF assms(1) _ that] assms(2)
    have k: "same_bytes 0 base d d'" "same_bytes (base + 11) (base + 0x54) d d'" "same_bytes (base + 0x54 + 4052) (size_of d) d d'"
      by auto
    then show "same_bytes 0 base d d'" "same_bytes (base + 11) (base + 0x54) d d'" by blast+
    have "bslice (base + 0x1100) (size_of d - (base + 0x1100)) x =
        drop (0x1100 - 0x54 - 4052) (bslice (base + 0x54 + 4052) (size_of d - (base + 0x54 + 4052)) x)" for x :: bytes
      by (simp add: bslice_def drop_take add.commute)
    with k(3) show "same_bytes (base + 0x1100) (size_of d) d d'" unfolding same_bytes_def by metis
  qed
qed (use pbr_fd32_keeps [of B base d V l] dos_mbr_keeps [of B d V] install_mbr_keeps [of d E dst bo] assms in auto)

definition demo_blobs :: dos_blobs where
  "demo_blobs = \<lparr>db_fat32_head = replicate 11 1, db_fat32_code = replicate 918 2, db_fat32_tail = replicate 528 3,
     db_ntfs_head = replicate 11 4, db_ntfs_code = replicate 4052 5, db_mbr = replicate 440 6\<rparr>"

definition demo_disk :: dev where
  "demo_disk = \<lparr>d_img = replicate 8192 9, d_grows = False, d_sched = [AtMost 100]\<rparr>"

definition demo_stream :: stream_env where
  "demo_stream = \<lparr>sv_open = True, sv_seek = (\<lambda>_. True), sv_flush = True\<rparr>"

theorem boot_records_keep_witness:
  "same_bytes 440 8192 demo_disk (snd (rufux_dos_mbr demo_stream demo_blobs demo_disk)) \<and>
   same_bytes (512 + 11) (512 + 0x47) demo_disk (snd (rufux_dos_pbr_fd32 demo_stream demo_blobs 512 None demo_disk))"
proof -
  have "blob_sizes demo_blobs" by (simp add: blob_sizes_def demo_blobs_def)
  moreover have "512 + 0x1100 \<le> size_of demo_disk" by (simp add: size_of_def demo_disk_def)
  moreover have "size_of demo_disk = 8192" by (simp add: size_of_def demo_disk_def)
  ultimately show ?thesis
    using boot_records_keep [of demo_blobs 512 demo_disk demo_stream None] by (metis prod.collapse)
qed

end
