(* ===== verification/Format.thy ===== *)
theory Format
  imports Create Exec
begin



section \<open>Looking at the kernel's view\<close>






definition fs_is_fat16 :: "bytes \<Rightarrow> bool" where
  "fs_is_fat16 fs \<longleftrightarrow> fs = ascii ''fat16''"

section \<open>The command line of the formatter\<close>

definition is_ext :: "bytes \<Rightarrow> bool" where
  "is_ext fs \<longleftrightarrow> fs \<in> {ascii ''ext4'', ascii ''ext2'', ascii ''ext3''}"










section \<open>Formatting\<close>





section \<open>What a successful run means\<close>








lemma fs_apart:
  "\<not> fs_is_fat (ascii ''ntfs'')" "\<not> fs_is_fat (ascii ''exfat'')" "\<not> fs_is_fat (ascii ''udf'')"
  "\<not> is_ext (ascii ''ntfs'')" "\<not> is_ext (ascii ''exfat'')" "\<not> is_ext (ascii ''udf'')"
  "\<not> fs_is_fat16 (ascii ''ntfs'')" "\<not> fs_is_fat16 (ascii ''exfat'')" "\<not> fs_is_fat16 (ascii ''udf'')"
  "ascii ''ntfs'' \<noteq> ascii ''exfat''" "ascii ''ntfs'' \<noteq> ascii ''udf''" "ascii ''exfat'' \<noteq> ascii ''udf''"
  "ascii ''exfat'' \<noteq> ascii ''ntfs''" "ascii ''udf'' \<noteq> ascii ''ntfs''" "ascii ''udf'' \<noteq> ascii ''exfat''"
  by code_simp+

lemma fat_apart: "fs_is_fat fs \<Longrightarrow> fs \<noteq> ascii ''ntfs'' \<and> fs \<noteq> ascii ''exfat'' \<and> fs \<noteq> ascii ''udf''"
  using fs_apart by blast



























end
