(* ===== verification/DriveTools.thy ===== *)
theory DriveTools
  imports Create Exec
begin

text \<open>
  The small tools of the Linux port: mounting through udisks (\<open>src/linux/mount.c\<close>), the persistence file
  (\<open>persist.c\<close>), the question for root (\<open>priv.c\<close>), the health check (\<open>smart.c\<close>), the state of Secure Boot and the
  check of an EFI program (\<open>secureboot.c\<close>), file hashes (\<open>checksum.c\<close>) and the question for a newer release
  (\<open>update.c\<close>). Programs are the parameter \<open>tools\<close> of \<open>Exec\<close>; the digests are OpenSSL's and a parameter. The texts
  of messages are left out.
\<close>

section \<open>Signed numbers\<close>

text \<open>\<open>strtol\<close> and \<open>strtoll\<close> of 64 bits to base 10, and \<open>atoi\<close>, which cuts the result to 32 bits.\<close>

definition strtol :: "bytes \<Rightarrow> int" where
  "strtol s =
     (let s = dropWhile is_space s;
          neg = s \<noteq> [] \<and> hd s = 45;
          s = (if s \<noteq> [] \<and> (hd s = 45 \<or> hd s = 43) then tl s else s);
          v = int (digits_val 10 0 s)
      in if neg then max (- (2 ^ 63)) (- v) else min (2 ^ 63 - 1) v)"

definition atoi :: "bytes \<Rightarrow> int" where
  "atoi s = sint (word_of_int (strtol s) :: 32 word)"

text \<open>\<open>strchr\<close>: the string from the first \<open>c\<close> on.\<close>

definition strchr :: "byte \<Rightarrow> bytes \<Rightarrow> bytes option" where
  "strchr c s = (case dropWhile (\<lambda>x. x \<noteq> c) s of [] \<Rightarrow> None | r \<Rightarrow> Some r)"

definition strcasestr :: "bytes \<Rightarrow> bytes \<Rightarrow> bool" where
  "strcasestr p s \<longleftrightarrow> strstr (map to_lower p) (map to_lower s) \<noteq> None"

section \<open>Mounting\<close>

datatype mount_error = NoUdisks | MountFailed | MountUnparsed | MountEmpty

definition udisks_argv :: "string \<Rightarrow> bytes \<Rightarrow> bytes list" where
  "udisks_argv op dev = [ascii ''udisksctl'', ascii op, ascii ''-b'', dev, ascii ''--no-user-interaction'']"

text \<open>From the text behind \<open>at\<close> to the mount point: the rest of the line without blanks and one full stop at its end.\<close>

definition strip_end :: "bytes \<Rightarrow> bytes" where
  "strip_end s = rev (dropWhile (\<lambda>c. c = 32 \<or> c = 13) (rev s))"

definition drop_stop :: "bytes \<Rightarrow> bytes" where
  "drop_stop s = (if s \<noteq> [] \<and> last s = 46 then butlast s else s)"

definition mount_point :: "nat \<Rightarrow> bytes \<Rightarrow> bytes" where
  "mount_point cap at_text = drop_stop (strip_end (clip cap (takeWhile (\<lambda>c. c \<noteq> 10) at_text)))"

definition rufux_mount :: "'w tools \<Rightarrow> 'z host_scheme \<Rightarrow> bytes \<Rightarrow> bool \<Rightarrow> nat \<Rightarrow> 'w \<Rightarrow> (mount_error + bytes) \<times> 'w" where
  "rufux_mount tools h dev dry cap w =
     (if \<not> have_tool h (ascii ''udisksctl'') then (Inl NoUdisks, w)
      else if dry then (Inr (clip cap (ascii ''(dry-run)'')), w)
      else case rufux_capture tools (udisks_argv ''mount'' dev) 1024 w of
        ((ok, out), w) \<Rightarrow>
          (if \<not> ok then Inl MountFailed
           else case strstr (ascii '' at '') out of
             None \<Rightarrow> Inl MountUnparsed
           | Some rest \<Rightarrow>
               (let mnt = mount_point cap (drop 4 rest) in if mnt = [] then Inl MountEmpty else Inr mnt), w))"

definition rufux_unmount :: "'w tools \<Rightarrow> 'z host_scheme \<Rightarrow> bytes \<Rightarrow> bool \<Rightarrow> 'w \<Rightarrow> mount_error option \<times> 'w" where
  "rufux_unmount tools h dev dry w =
     (if \<not> have_tool h (ascii ''udisksctl'') then (Some NoUdisks, w)
      else if dry then (None, w)
      else case rufux_capture tools (udisks_argv ''unmount'' dev) 1024 w of
        ((ok, out), w) \<Rightarrow> (if ok then None else Some MountFailed, w))"

section \<open>The persistence file and root\<close>

datatype persist_error = PersistSize | PersistDir | NoTruncate | NoMkfsExt4 | TruncateFailed | PersistMkfs

definition persist_label :: "bytes option \<Rightarrow> bytes" where
  "persist_label l = (case l of None \<Rightarrow> ascii ''casper-rw'' | Some s \<Rightarrow> if s = [] then ascii ''casper-rw'' else s)"

definition rufux_create_persist ::
    "'w tools \<Rightarrow> 'z host_scheme \<Rightarrow> (bytes \<Rightarrow> bool) \<Rightarrow> bytes \<Rightarrow> bytes option \<Rightarrow> u64 \<Rightarrow> bool \<Rightarrow> 'w \<Rightarrow> persist_error option \<times> 'w" where
  "rufux_create_persist tools h is_dir dir label size_mb dry w =
     (let label = persist_label label; path = clip 1024 (dir @ 47 # label); sz = dec (unat size_mb) @ ascii ''M''
      in if size_mb = 0 \<or> size_mb > 16384 then (Some PersistSize, w)
         else if \<not> is_dir dir then (Some PersistDir, w)
         else if dry then (None, w)
         else if \<not> have_tool h (ascii ''truncate'') then (Some NoTruncate, w)
         else if \<not> have_tool h (ascii ''mkfs.ext4'') then (Some NoMkfsExt4, w)
         else case rufux_run tools [ascii ''truncate'', ascii ''-s'', sz, path] False w of
           (False, w) \<Rightarrow> (Some TruncateFailed, w)
         | (True, w) \<Rightarrow>
             (case rufux_run tools [ascii ''mkfs.ext4'', ascii ''-F'', ascii ''-L'', clip 256 label, path] False w of
                (ok, w) \<Rightarrow> (if ok then None else Some PersistMkfs, w)))"

text \<open>Whether a command must stop because the target is a block device and the user is not root.\<close>

definition rufux_need_root_for_block :: "sys_env \<Rightarrow> nat \<Rightarrow> bytes \<Rightarrow> bool" where
  "rufux_need_root_for_block E euid path =
     (case se_stat E path of None \<Rightarrow> False | Some s \<Rightarrow> st_kind s = BLK \<and> euid \<noteq> 0)"

section \<open>The health check\<close>

definition has_verdict :: "bytes \<Rightarrow> bool" where
  "has_verdict j \<longleftrightarrow> strstr (ascii ''\"smart_status\"'') j \<noteq> None"

text \<open>\<open>None\<close> is the result -1.\<close>

definition passed_flag :: "bytes \<Rightarrow> bool option" where
  "passed_flag j =
     do {
       s \<leftarrow> strstr (ascii ''\"smart_status\"'') j;
       p \<leftarrow> strstr (ascii ''\"passed\"'') s;
       p \<leftarrow> strchr 58 p;
       let v = dropWhile (\<lambda>c. c = 32) (tl p);
       if starts (ascii ''true'') v then Some True
       else if starts (ascii ''false'') v then Some False else None
     }"

text \<open>A place behind another one: fewer bytes are left.\<close>

definition behind :: "bytes \<Rightarrow> bytes option \<Rightarrow> bool" where
  "behind p e \<longleftrightarrow> (case e of None \<Rightarrow> False | Some s \<Rightarrow> length p < length s)"

definition attr_start :: "bytes \<Rightarrow> nat \<Rightarrow> bytes option" where
  "attr_start j n =
     (case strstr (clip 32 (ascii ''\"id\": '' @ dec n @ [44])) j of
        Some p \<Rightarrow> Some p
      | None \<Rightarrow> strstr (clip 32 (ascii ''\"id\":'' @ dec n @ [44])) j)"

definition ata_raw :: "bytes \<Rightarrow> nat \<Rightarrow> int" where
  "ata_raw j n =
     (case attr_start j n of
        None \<Rightarrow> - 1
      | Some p \<Rightarrow>
          let stop = strstr (ascii ''\"id\":'') (tl p)
          in case strstr (ascii ''\"raw\"'') p of
               None \<Rightarrow> - 1
             | Some raw \<Rightarrow>
                 if behind raw stop then - 1
                 else case strstr (ascii ''\"value\"'') raw of
                   None \<Rightarrow> - 1
                 | Some v \<Rightarrow>
                     if behind v stop then - 1
                     else case strchr 58 v of None \<Rightarrow> - 1 | Some c \<Rightarrow> strtol (tl c))"

definition smart_argv :: "bytes list \<Rightarrow> bytes \<Rightarrow> bytes list" where
  "smart_argv sw dev = map ascii [''smartctl'', ''-H'', ''-A'', ''-j''] @ sw @ [dev]"

definition smart_verdict :: "bytes \<Rightarrow> smart_state" where
  "smart_verdict out =
     (case passed_flag out of
        Some False \<Rightarrow> SmartFailed
      | Some True \<Rightarrow>
          if ata_raw out 5 > 0 \<or> ata_raw out 197 > 0 \<or> ata_raw out 198 > 0 then SmartWarn else SmartPassed
      | None \<Rightarrow> SmartNA)"

definition rufux_smart_check :: "'w tools \<Rightarrow> 'z host_scheme \<Rightarrow> sys_env \<Rightarrow> bytes \<Rightarrow> 'w \<Rightarrow> smart_state \<times> 'w" where
  "rufux_smart_check tools h E dev w =
     (if (case se_stat E dev of None \<Rightarrow> True | Some s \<Rightarrow> st_kind s \<noteq> BLK) then (SmartNA, w)
      else if \<not> have_tool h (ascii ''smartctl'') then (SmartNA, w)
      else case rufux_capture tools (smart_argv [] dev) 65536 w of
        ((ok, out), w) \<Rightarrow>
          (case (if has_verdict out then ((True, out), w)
                 else rufux_capture tools (smart_argv [ascii ''-d'', ascii ''sat''] dev) 65536 w) of
             ((ok, out), w) \<Rightarrow> (if \<not> has_verdict out then SmartNA else smart_verdict out, w)))"

section \<open>Secure Boot\<close>

datatype sb_state = SbEnabled | SbDisabled | SbUnknown

definition rufux_sb_string :: "sb_state \<Rightarrow> string" where
  "rufux_sb_string s = (case s of SbEnabled \<Rightarrow> ''enabled'' | SbDisabled \<Rightarrow> ''disabled'' | SbUnknown \<Rightarrow> ''unknown'')"

text \<open>\<open>files p\<close>: the contents of a file, \<open>None\<close> when it cannot be opened.\<close>

definition efivar_byte :: "(bytes \<Rightarrow> bytes option) \<Rightarrow> string \<Rightarrow> byte option" where
  "efivar_byte files name =
     (case files (clip 256 (ascii ''/sys/firmware/efi/efivars/'' @ ascii name)) of
        None \<Rightarrow> None
      | Some b \<Rightarrow> if length (take 8 b) < 5 then None else Some (b ! 4))"

definition bootctl_line :: "bytes \<Rightarrow> sb_state" where
  "bootctl_line line =
     (if strstr (ascii ''enabled'') line \<noteq> None then SbEnabled
      else if strstr (ascii ''disabled'') line \<noteq> None then SbDisabled else SbUnknown)"

definition bootctl_state :: "bytes \<Rightarrow> sb_state" where
  "bootctl_state out =
     (case List.find (strcasestr (ascii ''secure boot'')) (strtok 10 out) of
        None \<Rightarrow> SbUnknown | Some line \<Rightarrow> bootctl_line line)"

definition rufux_sb_state :: "'w tools \<Rightarrow> 'z host_scheme \<Rightarrow> (bytes \<Rightarrow> bytes option) \<Rightarrow> 'w \<Rightarrow> sb_state \<times> 'w" where
  "rufux_sb_state tools h files w =
     (case efivar_byte files ''SecureBoot-8be4df61-93ca-11d2-aa0d-00e098032b8c'' of
        Some sb \<Rightarrow>
          (if sb = 0 \<or> efivar_byte files ''SetupMode-8be4df61-93ca-11d2-aa0d-00e098032b8c'' = Some 1 then SbDisabled
           else SbEnabled, w)
      | None \<Rightarrow>
          if \<not> have_tool h (ascii ''bootctl'') then (SbUnknown, w)
          else case rufux_capture tools [ascii ''bootctl'', ascii ''status''] 4096 w of
            ((ok, out), w) \<Rightarrow> (if ok then bootctl_state out else SbUnknown, w))"

datatype efi_error = EfiCannotOpen | NotMz | NoPeOffset | BogusPeOffset | NoPeSignature | NoOptMagic | UnknownMagic | NoSubsystem
  | NotEfi nat

definition rufux_validate_efi :: "bytes option \<Rightarrow> efi_error + nat" where
  "rufux_validate_efi data =
     (case data of
        None \<Rightarrow> Inl EfiCannotOpen
      | Some d \<Rightarrow>
          if rdn d 0 2 \<noteq> Some (ascii ''MZ'') then Inl NotMz
          else case rd32 d 0x3C of
            None \<Rightarrow> Inl NoPeOffset
          | Some l \<Rightarrow>
              (let lfa = unat l
               in if 2 ^ 20 < lfa then Inl BogusPeOffset
                  else if rdn d lfa 4 \<noteq> Some (ascii ''PE'' @ [0, 0]) then Inl NoPeSignature
                  else case rdn d (lfa + 4 + 20) 2 of
                    None \<Rightarrow> Inl NoOptMagic
                  | Some magic \<Rightarrow>
                      if magic \<noteq> [0x0b, 0x02] \<and> magic \<noteq> [0x0b, 0x01] then Inl UnknownMagic
                      else case rd16 d (lfa + 4 + 20 + 68) of
                        None \<Rightarrow> Inl NoSubsystem
                      | Some ss \<Rightarrow> if ss \<in> {10, 11, 12, 13} then Inr (unat ss) else Inl (NotEfi (unat ss))))"

section \<open>Hashes\<close>

datatype hash_alg = Md5 | Sha1 | Sha256 | Sha512

fun alg_size :: "hash_alg \<Rightarrow> nat" where
  "alg_size Md5 = 16" | "alg_size Sha1 = 20" | "alg_size Sha256 = 32" | "alg_size Sha512 = 64"

fun rufux_alg_name :: "hash_alg \<Rightarrow> string" where
  "rufux_alg_name Md5 = ''MD5''" | "rufux_alg_name Sha1 = ''SHA-1''" | "rufux_alg_name Sha512 = ''SHA-512''"
| "rufux_alg_name Sha256 = ''SHA-256''"

definition hex_digits :: bytes where
  "hex_digits = ascii ''0123456789abcdef''"

definition rufux_hex :: "bytes \<Rightarrow> bytes" where
  "rufux_hex b = concat (map (\<lambda>c. [hex_digits ! unat (drop_bit 4 c), hex_digits ! unat (c AND 15)]) b)"

text \<open>
  \<open>he_md\<close>: what the digest makes of the bytes it was fed, \<open>None\<close> when \<open>EVP_DigestFinal_ex\<close> fails; \<open>he_update i\<close>:
  whether the \<open>i\<close>th update works. \<open>he_reads\<close>: what \<open>fread\<close> returns, at most 64 KiB a time and empty at the end;
  \<open>he_ferror\<close> is \<open>ferror\<close> after the loop.
\<close>

record hash_env =
  he_size :: "u64 option"
  he_open :: bool
  he_init :: bool
  he_reads :: "bytes list"
  he_update :: "nat \<Rightarrow> bool"
  he_ferror :: bool
  he_md :: "hash_alg \<Rightarrow> bytes \<Rightarrow> bytes option"

text \<open>The loop: what was fed, whether every update worked, the progress reports.\<close>

fun hash_loop :: "hash_env \<Rightarrow> nat \<Rightarrow> bytes \<Rightarrow> u64 list \<Rightarrow> bytes list \<Rightarrow> bool \<times> bytes \<times> u64 list" where
  "hash_loop H i fed prog [] = (True, fed, prog)"
| "hash_loop H i fed prog (b # bs) =
     (if b = [] then (True, fed, prog)
      else if \<not> he_update H i then (False, fed, prog)
      else hash_loop H (Suc i) (fed @ b) (prog @ [of_nat (length (fed @ b))]) bs)"

definition rufux_hash_file :: "hash_env \<Rightarrow> hash_alg \<Rightarrow> bytes option \<times> u64 list" where
  "rufux_hash_file H alg =
     (case he_size H of
        None \<Rightarrow> (None, [])
      | Some sz \<Rightarrow>
          if \<not> he_open H \<or> \<not> he_init H then (None, [])
          else case hash_loop H 0 [] [] (he_reads H) of
            (ok, fed, prog) \<Rightarrow>
              (if \<not> ok \<or> he_ferror H then (None, prog)
               else case he_md H alg fed of
                 None \<Rightarrow> (None, prog)
               | Some md \<Rightarrow> if length md \<noteq> alg_size alg then (None, prog) else (Some md, prog @ [sz])))"

definition rufux_sha256_file :: "hash_env \<Rightarrow> bytes option \<times> u64 list" where
  "rufux_sha256_file H = rufux_hash_file H Sha256"

section \<open>A newer release\<close>

datatype update_error = NoCurl | Offline | GithubSays bytes | UnexpectedReply | NoTag

definition update_argv :: "bytes list" where
  "update_argv = map ascii [''curl'', ''-sL'', ''--max-time'', ''15'', ''-H'', ''User-Agent: rufux'', ''-H'',
     ''Accept: application/vnd.github+json'', ''https://api.github.com/repos/Hultwl/Rufux/releases/latest'']"

text \<open>Between the next two quotes.\<close>

definition quoted :: "bytes \<Rightarrow> bytes option" where
  "quoted s = do { b \<leftarrow> strchr 34 s; (v, _) \<leftarrow> split_at 34 (tl b); Some v }"

definition github_message :: "bytes \<Rightarrow> bytes option" where
  "github_message buf =
     do {
       m \<leftarrow> strstr (ascii ''\"message\"'') buf;
       a \<leftarrow> strchr 58 m;
       v \<leftarrow> quoted a;
       Some (take 127 v)
     }"

text \<open>The value behind the key: after the first quote, which ends the key, between the next two.\<close>

definition tag_value :: "bytes \<Rightarrow> bytes option" where
  "tag_value t = do { q1 \<leftarrow> strchr 34 t; q2 \<leftarrow> strchr 34 (tl q1); (v, _) \<leftarrow> split_at 34 (tl q2); Some v }"

definition drop_v :: "bytes \<Rightarrow> bytes" where
  "drop_v s = (if s \<noteq> [] \<and> hd s = 118 then tl s else s)"

definition rufux_update_check :: "'w tools \<Rightarrow> 'z host_scheme \<Rightarrow> nat \<Rightarrow> 'w \<Rightarrow> (update_error + bytes) \<times> 'w" where
  "rufux_update_check tools h cap w =
     (if \<not> have_tool h (ascii ''curl'') then (Inl NoCurl, w)
      else case rufux_capture tools update_argv 8192 w of
        ((ok, buf), w) \<Rightarrow>
          (if \<not> ok \<or> buf = [] then Inl Offline
           else case strstr (ascii ''tag_name'') buf of
             None \<Rightarrow> (case github_message buf of Some m \<Rightarrow> Inl (GithubSays m) | None \<Rightarrow> Inl UnexpectedReply)
           | Some t \<Rightarrow> (case tag_value t of None \<Rightarrow> Inl NoTag | Some v \<Rightarrow> Inr (drop_v (clip cap v))), w))"

section \<open>What the tools find\<close>

lemma strstr_skip: "x \<notin> set a \<Longrightarrow> strstr (x # p) (a @ s) = strstr (x # p) s"
  by (induction a) (auto simp: starts_def)

lemma strstr_here: "p \<noteq> [] \<Longrightarrow> strstr p (p @ s) = Some (p @ s)"
  by (cases p) (simp_all add: starts_def)

text \<open>
  Whatever the label of the volume, the mount point udisks prints is found: "Mounted DEVICE at PATH." with blanks,
  full stops and even " at " in the path.
\<close>

lemma mount_point_found:
  assumes "32 \<notin> set dev" "10 \<notin> set path" "path \<noteq> []" "length path + 1 < cap"
  shows "strstr (ascii '' at '') (ascii ''Mounted /'' @ dev @ ascii '' at '' @ path @ [46, 10]) =
      Some (ascii '' at '' @ path @ [46, 10])"
    "mount_point cap (drop 4 (ascii '' at '' @ path @ [46, 10])) = path"
proof -
  have at: "ascii '' at '' = 32 # [97, 116, 32]" and mo: "ascii ''Mounted /'' = [77, 111, 117, 110, 116, 101, 100] @ 32 # [47]"
    by (simp_all add: ascii_def)
  have "strstr (32 # [97, 116, 32]) ([77, 111, 117, 110, 116, 101, 100] @ (32 # [47]) @ dev @ s) = strstr (32 # [97, 116, 32]) s" for s
    by (subst strstr_skip) (use strstr_skip [of 32 "47 # dev" "[97, 116, 32]" s] assms(1) in \<open>auto simp: starts_def\<close>)
  then show "strstr (ascii '' at '') (ascii ''Mounted /'' @ dev @ ascii '' at '' @ path @ [46, 10]) = Some (ascii '' at '' @ path @ [46, 10])"
    using strstr_here [of "ascii '' at ''" "path @ [46, 10]"] by (simp add: at mo)
  have "takeWhile (\<lambda>c. c \<noteq> 10) ((path @ [46]) @ 10 # []) = path @ [46]" using assms(2) by (subst takeWhile_append2) auto
  then show "mount_point cap (drop 4 (ascii '' at '' @ path @ [46, 10])) = path"
    using assms(4) by (simp add: mount_point_def ascii_def clip_def strip_end_def drop_stop_def)
qed

text \<open>A drive that reports a failing status in any layout of the JSON object is recognised.\<close>

lemma passed_flag_found:
  assumes "34 \<notin> set pre" "34 \<notin> set mid" "list_all (\<lambda>c. c = 32) blanks"
  shows "passed_flag (pre @ ascii ''\"smart_status\"'' @ (58 # mid) @ ascii ''\"passed\":'' @ blanks @ ascii (if b then ''true'' else ''false'') @ post)
    = Some b"
proof -
  let ?v = "blanks @ ascii (if b then ''true'' else ''false'') @ post"
  have q: "ascii ''\"smart_status\"'' = 34 # ascii ''smart_status\"''" "ascii ''\"passed\"'' = 34 # ascii ''passed\"''"
    "ascii ''\"passed\":'' = ascii ''\"passed\"'' @ [58]" by (simp_all add: ascii_def)
  have 1: "strstr (ascii ''\"smart_status\"'') (pre @ ascii ''\"smart_status\"'' @ r) = Some (ascii ''\"smart_status\"'' @ r)" for r
    using assms(1) strstr_here [of "ascii ''\"smart_status\"''" r] by (simp add: q(1) strstr_skip)
  have "ascii ''\"smart_status\"'' @ 58 # mid = 34 # ascii ''smart_status'' @ 34 # 58 # mid" by (simp add: ascii_def)
  moreover have "strstr (34 # ascii ''passed\"'') (34 # ascii ''smart_status'' @ 34 # 58 # mid @ 34 # ascii ''passed\"'' @ r) =
      Some (34 # ascii ''passed\"'' @ r)" for r
  proof -
    have "strstr (34 # ascii ''passed\"'') (34 # ascii ''smart_status'' @ 34 # 58 # mid @ 34 # ascii ''passed\"'' @ r) =
        strstr (34 # ascii ''passed\"'') (34 # 58 # mid @ 34 # ascii ''passed\"'' @ r)"
      using strstr_skip [of 34 "ascii ''smart_status''" "ascii ''passed\"''"] by (simp add: starts_def ascii_def)
    also have "\<dots> = strstr (34 # ascii ''passed\"'') ((58 # mid) @ 34 # ascii ''passed\"'' @ r)"
      by (simp add: starts_def ascii_def)
    also have "\<dots> = Some (34 # ascii ''passed\"'' @ r)"
      using assms(2) strstr_here [of "34 # ascii ''passed\"''" r] by (subst strstr_skip) simp_all
    finally show ?thesis .
  qed
  ultimately have 2: "strstr (ascii ''\"passed\"'') (ascii ''\"smart_status\"'' @ (58 # mid) @ ascii ''\"passed\"'' @ r) = Some (ascii ''\"passed\"'' @ r)" for r
    by (metis append.assoc append_Cons q(2))
  have 3: "strchr 58 (ascii ''\"passed\"'' @ 58 # r) = Some (58 # r)" for r by (simp add: strchr_def ascii_def)
  have "dropWhile (\<lambda>c. c = 32) ?v = ascii (if b then ''true'' else ''false'') @ post"
    using assms(3) by (induction blanks) (simp_all add: ascii_def)
  then have 4: "starts (ascii ''true'') (dropWhile (\<lambda>c. c = 32) ?v) = b"
      "starts (ascii ''false'') (dropWhile (\<lambda>c. c = 32) ?v) = (\<not> b)"
    by (simp_all add: starts_def ascii_def)
  define m where "m = 58 # mid"
  note two = 2 [folded m_def]
  show ?thesis unfolding m_def [symmetric]
    by (simp only: passed_flag_def q(3) append.assoc 1 two 3 4 bind.simps append_Cons append_Nil list.sel Let_def) simp
qed

text \<open>The digest is taken over the whole of what was read, however it was cut.\<close>

lemma hash_loop_all:
  "[] \<notin> set bs \<Longrightarrow> hash_loop H i fed prog bs = (ok, fed', prog') \<Longrightarrow> ok \<Longrightarrow> fed' = fed @ concat bs"
proof (induction bs arbitrary: i fed prog)
  case (Cons b bs)
  from Cons.prems have "hash_loop H (Suc i) (fed @ b) (prog @ [of_nat (length (fed @ b))]) bs = (ok, fed', prog')" "[] \<notin> set bs"
    by (auto split: if_splits)
  from Cons.IH [OF this(2,1) Cons.prems(3)] show ?case by simp
qed simp

lemma hash_file_exact:
  assumes "he_reads H = bs @ [[]]" "[] \<notin> set bs" "rufux_hash_file H alg = (Some md, prog)"
  shows "he_md H alg (concat bs) = Some md \<and> length md = alg_size alg \<and> \<not> he_ferror H"
proof -
  have cut: "hash_loop H i fed prog (bs @ [[]]) = hash_loop H i fed prog bs" if "[] \<notin> set bs" for i fed prog bs
    using that by (induction bs arbitrary: i fed prog) auto
  obtain ok fed p where l: "hash_loop H 0 [] [] bs = (ok, fed, p)" by (metis prod_cases3)
  with assms hash_loop_all [OF assms(2) l] show ?thesis
    by (auto simp: rufux_hash_file_def cut [OF assms(2)] split: option.splits if_splits)
qed

text \<open>The hexadecimal digits give the bytes back.\<close>

fun unhex :: "bytes \<Rightarrow> bytes" where
  "unhex (a # b # s) =
     (case (digit_val 16 a, digit_val 16 b) of (Some x, Some y) \<Rightarrow> of_nat (16 * x + y) # unhex s | _ \<Rightarrow> [])"
| "unhex _ = []"

lemma hex_digit_val: "n < 16 \<Longrightarrow> digit_val 16 (hex_digits ! n) = Some n"
proof -
  have "\<forall>n\<in>set [0..<16]. digit_val 16 (hex_digits ! n) = Some n" by code_simp
  then show "n < 16 \<Longrightarrow> digit_val 16 (hex_digits ! n) = Some n" by simp
qed

lemma hex_roundtrip: "unhex (rufux_hex b) = b"
proof (induction b)
  case (Cons c b)
  have n: "unat (drop_bit 4 c) < 16" "unat (c AND 15) < 16" "of_nat (16 * unat (drop_bit 4 c) + unat (c AND 15)) = c"
  proof -
    have u: "unat (drop_bit 4 c) = unat c div 16" "unat (c AND 15) = unat c mod 16"
      using unat_drop_bit_eq [of 4 c] take_bit_eq_mask [of 4 c] unsigned_take_bit_eq [of 4 c]
      by (simp_all add: drop_bit_eq_div take_bit_eq_mod mask_eq_exp_minus_1)
    have "unat c < 256" using unsigned_less [of c, where 'a = nat] by simp
    with u show "unat (drop_bit 4 c) < 16" "unat (c AND 15) < 16" by simp_all
    have "16 * (unat c div 16) + unat c mod 16 = unat c" by simp
    then show "of_nat (16 * unat (drop_bit 4 c) + unat (c AND 15)) = c" using u by (metis of_nat_unat ucast_id)
  qed
  have "rufux_hex (c # b) = hex_digits ! unat (drop_bit 4 c) # hex_digits ! unat (c AND 15) # rufux_hex b" by (simp add: rufux_hex_def)
  with Cons n(3) show ?case by (simp add: hex_digit_val [OF n(1)] hex_digit_val [OF n(2)])
qed (simp add: rufux_hex_def)

text \<open>The release behind a tag is read from the reply.\<close>

lemma tag_value_found:
  "34 \<notin> set mid \<Longrightarrow> 34 \<notin> set v \<Longrightarrow> tag_value (ascii ''tag_name\"'' @ mid @ 34 # v @ 34 # post) = Some v"
proof -
  assume m: "34 \<notin> set mid" "34 \<notin> set v"
  have "dropWhile (\<lambda>x. x \<noteq> 34) (mid @ 34 # r) = 34 # r" for r using m(1) by (subst dropWhile_append2) auto
  then have "strchr 34 (mid @ 34 # r) = Some (34 # r)" for r by (simp add: strchr_def)
  moreover have "strchr 34 (ascii ''tag_name\"'' @ r) = Some (34 # r)" for r by (simp add: strchr_def ascii_def)
  ultimately show ?thesis using split_at_append [OF m(2), of post] by (simp add: tag_value_def)
qed

end
