(* ===== verification/Cmdline.thy ===== *)
theory Cmdline
  imports DriveTools BootRecords
begin

text \<open>
  The command line of the Linux port, \<open>src/linux/main.c\<close>: the strict check of the options, the parsing of each
  command's options and the dispatch to the operations. An operation of another part is a value of \<open>cli_op\<close> with its
  arguments; what it does and returns is the environment, and the calls are recorded in order. What is printed is left
  out, except for the option that is suggested for a misspelt one. The download of Windows is \<open>Msdl\<close>'s.
\<close>

section \<open>The option tables\<close>

record cmd_spec =
  sp_cmd :: bytes
  sp_flags :: bytes
  sp_values :: bytes

definition spec :: "string \<Rightarrow> string \<Rightarrow> string \<Rightarrow> cmd_spec" where
  "spec c f v = \<lparr>sp_cmd = ascii c, sp_flags = ascii f, sp_values = ascii v\<rparr>"

definition specs :: "cmd_spec list" where
  "specs =
    [spec ''list'' ''--allow-fixed --json'' '''',
     spec ''probe'' ''--detail'' '''',
     spec ''checksum'' '''' ''--algo'',
     spec ''write'' ''--allow-file --allow-fixed --dry-run --real --verify --yes'' '''',
     spec ''partition'' ''--allow-file --allow-fixed --bios-boot --dry-run --real --yes'' ''--fs --layout --scheme'',
     spec ''format'' ''--allow-file --allow-fixed --dry-run --real --yes'' ''--fs --label'',
     spec ''extract'' ''--dry-run'' '''',
     spec ''install-boot'' ''--allow-file --allow-fixed --dry-run --real --yes'' ''--mbr'',
     spec ''persist'' ''--dry-run'' ''--label --size'',
     spec ''badblocks'' ''--allow-file --yes'' ''--write-patterns'',
     spec ''mount'' ''--dry-run'' '''',
     spec ''umount'' ''--dry-run'' '''',
     spec ''secureboot-status'' '''' '''',
     spec ''validate-efi'' '''' '''',
     spec ''smart'' '''' '''',
     spec ''check-boot'' '''' '''',
     spec ''update-check'' '''' '''',
     spec ''download-windows'' ''--list --list-langs --url-only'' ''--arch --edition --lang --out --version'',
     spec ''create''
       ''--allow-file --allow-fixed --dry-run --full --ignore-smart --no-autorun --quick --real --uefi-validate --verify --yes''
       (''--badblock-passes --cluster-sectors --fs --keyboard --label --locale --mode --persist-mb --scheme '' @
        ''--split-wim --timezone --wue'')]"

text \<open>The words of a list separated by blanks, as the two loops over such a list find them.\<close>

function list_words :: "bytes \<Rightarrow> bytes list" where
  "list_words l =
     (if l = [] then []
      else let p = dropWhile (\<lambda>c. c = 32) l
           in takeWhile (\<lambda>c. c \<noteq> 32) p # list_words (dropWhile (\<lambda>c. c \<noteq> 32) p))"
  by pat_completeness auto

termination
proof (relation "measure length", goal_cases)
  case (2 l p)
  then show ?case
    using length_dropWhile_le [of "\<lambda>c. c = 32" l] length_dropWhile_le [of "\<lambda>c. c \<noteq> 32" "tl l"]
      length_dropWhile_le [of "\<lambda>c. c \<noteq> 32" "dropWhile (\<lambda>c. c = 32) (tl l)"] length_dropWhile_le [of "\<lambda>c. c = 32" "tl l"]
    by (cases l) auto
qed simp

declare list_words.simps [simp del]

definition in_list :: "bytes \<Rightarrow> bytes \<Rightarrow> bool" where
  "in_list l word \<longleftrightarrow> word \<in> set (list_words l)"

section \<open>The edit distance\<close>

text \<open>
  The table of \<open>edit_distance\<close> row by row: \<open>next_row x b row left\<close> is the row of the next character \<open>x\<close> behind its
  first entry \<open>left\<close>, \<open>row\<close> being the row before it.
\<close>

fun next_row :: "byte \<Rightarrow> bytes \<Rightarrow> nat list \<Rightarrow> nat \<Rightarrow> nat list" where
  "next_row x (y # b) (diag # up # row) left =
     (let c = (if x = y then 0 else 1);
          m = up + 1;
          m = (if left + 1 < m then left + 1 else m);
          m = (if diag + c < m then diag + c else m)
      in m # next_row x b (up # row) m)"
| "next_row x b row left = []"

definition table_row :: "bytes \<Rightarrow> nat \<times> nat list \<Rightarrow> byte \<Rightarrow> nat \<times> nat list" where
  "table_row b ir x = (case ir of (i, row) \<Rightarrow> (Suc i, Suc i # next_row x b row (Suc i)))"

definition edit_distance :: "bytes \<Rightarrow> bytes \<Rightarrow> nat" where
  "edit_distance a b =
     (if 40 < length a \<or> 40 < length b then 99
      else snd (foldl (table_row b) (0, [0..<length b + 1]) a) ! length b)"

definition closer :: "bytes \<Rightarrow> nat \<times> bytes option \<Rightarrow> bytes \<Rightarrow> nat \<times> bytes option" where
  "closer bad bf w =
     (if w \<noteq> [] \<and> length w < 64 \<and> edit_distance bad (clip 64 w) < fst bf
      then (edit_distance bad (clip 64 w), Some (clip 64 w)) else bf)"

definition closest_option :: "cmd_spec \<Rightarrow> bytes \<Rightarrow> bytes option" where
  "closest_option sp bad = snd (foldl (closer bad) (3, None) (list_words (sp_flags sp) @ list_words (sp_values sp)))"

section \<open>The check of the options\<close>

datatype flag_error = NeedsValue bytes | UnknownOption bytes "bytes option"

fun check_args :: "cmd_spec \<Rightarrow> bytes list \<Rightarrow> flag_error option" where
  "check_args sp [] = None"
| "check_args sp (t # ts) =
     (if take 1 t \<noteq> [45] \<or> length t = 1 then check_args sp ts
      else if in_list (sp_flags sp) t then check_args sp ts
      else if in_list (sp_values sp) t then (case ts of [] \<Rightarrow> Some (NeedsValue t) | _ # ts \<Rightarrow> check_args sp ts)
      else Some (UnknownOption t (closest_option sp t)))"

text \<open>An unknown command is left to the usage text; the last entry of a name counts.\<close>

definition validate_flags :: "bytes list \<Rightarrow> flag_error option" where
  "validate_flags argv =
     (case List.find (\<lambda>sp. sp_cmd sp = argv ! 1) (rev specs) of
        None \<Rightarrow> None
      | Some sp \<Rightarrow> check_args sp (drop 2 argv))"

text \<open>\<open>links p\<close>: where a symbolic link leads, \<open>None\<close> for anything else.\<close>

definition resolve_device_links :: "(bytes \<Rightarrow> bytes option) \<Rightarrow> bytes list \<Rightarrow> bytes list" where
  "resolve_device_links links argv =
     take 2 argv @
     map (\<lambda>a. if starts (ascii ''/dev/'') a then (case links a of None \<Rightarrow> a | Some r \<Rightarrow> r) else a) (drop 2 argv)"

section \<open>Reading the options of a command\<close>

text \<open>
  The loop every command has: an option with a value takes the next argument when there is one, a flag stands for
  itself, anything else is passed over. The tables map an option to what it does to the options read so far.
\<close>

definition find_opt :: "(string \<times> 'b) list \<Rightarrow> bytes \<Rightarrow> 'b option" where
  "find_opt tab t = map_option snd (List.find (\<lambda>(n, f). ascii n = t) tab)"

fun read_opts :: "(string \<times> ('o \<Rightarrow> 'o)) list \<Rightarrow> (string \<times> (bytes \<Rightarrow> 'o \<Rightarrow> 'o)) list \<Rightarrow> bytes list \<Rightarrow> 'o \<Rightarrow> 'o" where
  "read_opts fl vl [] x = x"
| "read_opts fl vl [t] x = (case find_opt fl t of None \<Rightarrow> x | Some f \<Rightarrow> f x)"
| "read_opts fl vl (t # v # ts) x =
     (case find_opt vl t of
        Some f \<Rightarrow> read_opts fl vl ts (f v x)
      | None \<Rightarrow> read_opts fl vl (v # ts) (case find_opt fl t of None \<Rightarrow> x | Some f \<Rightarrow> f x))"

definition write_flags :: "(string \<times> (write_opts \<Rightarrow> write_opts)) list" where
  "write_flags =
    [(''--dry-run'', \<lambda>x. x\<lparr>wo_dry_run := True\<rparr>), (''--real'', \<lambda>x. x\<lparr>wo_dry_run := False\<rparr>),
     (''--verify'', \<lambda>x. x\<lparr>wo_verify := True\<rparr>), (''--allow-fixed'', \<lambda>x. x\<lparr>wo_allow_fixed := True\<rparr>),
     (''--allow-file'', \<lambda>x. x\<lparr>wo_allow_file := True\<rparr>), (''--yes'', \<lambda>x. x\<lparr>wo_yes := True\<rparr>)]"

definition write_defaults :: write_opts where
  "write_defaults = \<lparr>wo_dry_run = True, wo_verify = False, wo_allow_fixed = False, wo_allow_file = False, wo_yes = False,
     wo_src_len = 0\<rparr>"

definition part_flags :: "(string \<times> (lpart_opts \<Rightarrow> lpart_opts)) list" where
  "part_flags =
    [(''--bios-boot'', \<lambda>x. x\<lparr>lo_bios_boot := True\<rparr>), (''--dry-run'', \<lambda>x. x\<lparr>lo_dry_run := True\<rparr>),
     (''--real'', \<lambda>x. x\<lparr>lo_dry_run := False\<rparr>), (''--allow-file'', \<lambda>x. x\<lparr>lo_allow_file := True\<rparr>),
     (''--allow-fixed'', \<lambda>x. x\<lparr>lo_allow_fixed := True\<rparr>), (''--yes'', \<lambda>x. x\<lparr>lo_yes := True\<rparr>)]"

definition part_values :: "(string \<times> (bytes \<Rightarrow> lpart_opts \<Rightarrow> lpart_opts)) list" where
  "part_values =
    [(''--scheme'', \<lambda>v x. x\<lparr>lo_scheme := v\<rparr>), (''--layout'', \<lambda>v x. x\<lparr>lo_layout := v\<rparr>),
     (''--fs'', \<lambda>v x. x\<lparr>lo_fs_main := Some v\<rparr>)]"

definition part_defaults :: lpart_opts where
  "part_defaults = \<lparr>lo_scheme = ascii ''gpt'', lo_layout = ascii ''single'', lo_fs_main = None, lo_bios_boot = False,
     lo_dry_run = True, lo_allow_fixed = False, lo_allow_file = False, lo_yes = False\<rparr>"

definition format_flags :: "(string \<times> (mkfs_opts \<Rightarrow> mkfs_opts)) list" where
  "format_flags =
    [(''--dry-run'', \<lambda>x. x\<lparr>mo_dry_run := True\<rparr>), (''--real'', \<lambda>x. x\<lparr>mo_dry_run := False\<rparr>),
     (''--allow-file'', \<lambda>x. x\<lparr>mo_allow_file := True\<rparr>), (''--allow-fixed'', \<lambda>x. x\<lparr>mo_allow_fixed := True\<rparr>),
     (''--yes'', \<lambda>x. x\<lparr>mo_yes := True\<rparr>)]"

definition format_values :: "(string \<times> (bytes \<Rightarrow> mkfs_opts \<Rightarrow> mkfs_opts)) list" where
  "format_values = [(''--fs'', \<lambda>v x. x\<lparr>mo_fs := v\<rparr>), (''--label'', \<lambda>v x. x\<lparr>mo_label := Some v\<rparr>)]"

definition format_defaults :: mkfs_opts where
  "format_defaults = \<lparr>mo_fs = ascii ''vfat'', mo_label = None, mo_cluster_sectors = 0, mo_dry_run = True,
     mo_allow_fixed = False, mo_allow_file = False, mo_yes = False\<rparr>"

definition boot_flags :: "(string \<times> (mbr_opts \<Rightarrow> mbr_opts)) list" where
  "boot_flags =
    [(''--dry-run'', \<lambda>x. x\<lparr>bo_dry_run := True\<rparr>), (''--real'', \<lambda>x. x\<lparr>bo_dry_run := False\<rparr>),
     (''--allow-file'', \<lambda>x. x\<lparr>bo_allow_file := True\<rparr>), (''--allow-fixed'', \<lambda>x. x\<lparr>bo_allow_fixed := True\<rparr>),
     (''--yes'', \<lambda>x. x\<lparr>bo_yes := True\<rparr>)]"

definition boot_values :: "(string \<times> (bytes \<Rightarrow> mbr_opts \<Rightarrow> mbr_opts)) list" where
  "boot_values = [(''--mbr'', \<lambda>v x. x\<lparr>bo_kind := Some v\<rparr>)]"

definition boot_defaults :: mbr_opts where
  "boot_defaults = \<lparr>bo_kind = Some (ascii ''bios''), bo_dry_run = True, bo_allow_fixed = False, bo_allow_file = False,
     bo_yes = False\<rparr>"

definition rufux_create_defaults :: create_opts where
  "rufux_create_defaults =
     \<lparr>co_mode = ascii ''dd'', co_scheme = ascii ''gpt'', co_fs = ascii ''vfat'', co_label = Some (ascii ''RUFUX''), co_wue = None,
      co_split_wim_mb = 0, co_locale = None, co_keyboard = None, co_timezone = None, co_persist_mb = 0, co_cluster_sectors = 0,
      co_quick_format = True, co_extended_label = True, co_uefi_validate = False, co_badblock_passes = 0, co_verify = False,
      co_ignore_smart = False, co_dry_run = True, co_allow_fixed = False, co_allow_file = False, co_yes = False\<rparr>"

text \<open>The options of \<open>create\<close> and whether \<open>--fs\<close> was given.\<close>

definition on_opts :: "(create_opts \<Rightarrow> create_opts) \<Rightarrow> create_opts \<times> bool \<Rightarrow> create_opts \<times> bool" where
  "on_opts f x = (f (fst x), snd x)"

definition create_flags :: "(string \<times> (create_opts \<times> bool \<Rightarrow> create_opts \<times> bool)) list" where
  "create_flags =
    [(''--dry-run'', on_opts (\<lambda>x. x\<lparr>co_dry_run := True\<rparr>)), (''--real'', on_opts (\<lambda>x. x\<lparr>co_dry_run := False\<rparr>)),
     (''--allow-file'', on_opts (\<lambda>x. x\<lparr>co_allow_file := True\<rparr>)), (''--allow-fixed'', on_opts (\<lambda>x. x\<lparr>co_allow_fixed := True\<rparr>)),
     (''--yes'', on_opts (\<lambda>x. x\<lparr>co_yes := True\<rparr>)), (''--verify'', on_opts (\<lambda>x. x\<lparr>co_verify := True\<rparr>)),
     (''--quick'', on_opts (\<lambda>x. x\<lparr>co_quick_format := True\<rparr>)), (''--full'', on_opts (\<lambda>x. x\<lparr>co_quick_format := False\<rparr>)),
     (''--no-autorun'', on_opts (\<lambda>x. x\<lparr>co_extended_label := False\<rparr>)),
     (''--uefi-validate'', on_opts (\<lambda>x. x\<lparr>co_uefi_validate := True\<rparr>)),
     (''--ignore-smart'', on_opts (\<lambda>x. x\<lparr>co_ignore_smart := True\<rparr>))]"

definition unsigned_atoi :: "bytes \<Rightarrow> nat" where
  "unsigned_atoi v = unat (word_of_int (atoi v) :: 32 word)"

definition create_values :: "(string \<times> (bytes \<Rightarrow> create_opts \<times> bool \<Rightarrow> create_opts \<times> bool)) list" where
  "create_values =
    [(''--mode'', \<lambda>v. on_opts (\<lambda>x. x\<lparr>co_mode := v\<rparr>)), (''--scheme'', \<lambda>v. on_opts (\<lambda>x. x\<lparr>co_scheme := v\<rparr>)),
     (''--fs'', \<lambda>v x. (fst x\<lparr>co_fs := v\<rparr>, True)), (''--label'', \<lambda>v. on_opts (\<lambda>x. x\<lparr>co_label := Some v\<rparr>)),
     (''--persist-mb'', \<lambda>v. on_opts (\<lambda>x. x\<lparr>co_persist_mb := unat (strtoul 10 v)\<rparr>)),
     (''--cluster-sectors'', \<lambda>v. on_opts (\<lambda>x. x\<lparr>co_cluster_sectors := atoi v\<rparr>)),
     (''--badblock-passes'', \<lambda>v. on_opts (\<lambda>x. x\<lparr>co_badblock_passes := nat (atoi v)\<rparr>)),
     (''--wue'', \<lambda>v. on_opts (\<lambda>x. x\<lparr>co_wue := Some v\<rparr>)),
     (''--split-wim'', \<lambda>v. on_opts (\<lambda>x. x\<lparr>co_split_wim_mb := unsigned_atoi v\<rparr>)),
     (''--locale'', \<lambda>v. on_opts (\<lambda>x. x\<lparr>co_locale := Some v\<rparr>)), (''--keyboard'', \<lambda>v. on_opts (\<lambda>x. x\<lparr>co_keyboard := Some v\<rparr>)),
     (''--timezone'', \<lambda>v. on_opts (\<lambda>x. x\<lparr>co_timezone := Some v\<rparr>))]"

section \<open>Running a command\<close>

datatype cli_op =
    Gui
  | ListDevices bool
  | ProbeIso bytes bool
  | HashFile bytes hash_alg
  | DetectDisk bytes
  | ConvertDisk bytes bytes write_opts
  | AdjustVhd bytes
  | WriteTo bytes bytes write_opts
  | PartitionDisk bytes lpart_opts
  | FormatPart bytes mkfs_opts
  | ExtractTo bytes bytes bool
  | InstallBoot bytes mbr_opts
  | MakePersist bytes bytes u64 bool
  | ScanRead bytes bool
  | ScanWrite bytes bool int
  | MountDev bytes bool
  | UnmountDev bytes bool
  | SecureBootState
  | ValidateFile bytes
  | CheckTree bytes
  | CheckFile bytes
  | SmartDev bytes
  | UpdateCheck
  | CreateDrive "bytes option" bytes create_opts
  | DownloadWindows "bytes list"

text \<open>
  \<open>li_do\<close>: what an operation returns and does. For most it is the C result, 0 on success. \<open>ListDevices\<close>: the number
  of devices, negative on failure; \<open>ProbeIso\<close>: 0 for an ISO image; \<open>DetectDisk\<close>: negative on failure, positive for
  a virtual disk; the two scans: negative on failure, otherwise the number of bad regions; \<open>CheckTree\<close>: the number of
  revoked programs; \<open>CheckFile\<close>: \<open>None\<close> for a file that cannot be read, so it is an answer of its own, as is the new
  length limit of \<open>AdjustVhd\<close> and the state of \<open>SmartDev\<close>.
\<close>

record 'w cli_env =
  li_sys :: sys_env
  li_euid :: nat
  li_is_dir :: "bytes \<Rightarrow> bool"
  li_links :: "bytes \<Rightarrow> bytes option"
  li_display :: bool
  li_do :: "cli_op \<Rightarrow> 'w \<Rightarrow> int \<times> 'w"
  li_adjust :: "bytes \<Rightarrow> 'w \<Rightarrow> nat option option \<times> 'w"
  li_boot :: "bytes \<Rightarrow> 'w \<Rightarrow> int option \<times> 'w"
  li_smart :: "bytes \<Rightarrow> 'w \<Rightarrow> smart_state \<times> 'w"

text \<open>A state of the world and the operations called so far; a command ends with its exit code.\<close>

type_synonym 'w cli_run = "'w \<times> cli_op list \<Rightarrow> int \<times> 'w \<times> cli_op list"

definition quit :: "int \<Rightarrow> 'w cli_run" where
  "quit r s = (r, s)"

definition asks :: "cli_op \<Rightarrow> ('w \<Rightarrow> 'a \<times> 'w) \<Rightarrow> ('a \<Rightarrow> 'w cli_run) \<Rightarrow> 'w cli_run" where
  "asks c f k s = (case f (fst s) of (r, w) \<Rightarrow> k r (w, snd s @ [c]))"

definition perform :: "'w cli_env \<Rightarrow> cli_op \<Rightarrow> (int \<Rightarrow> 'w cli_run) \<Rightarrow> 'w cli_run" where
  "perform L c = asks c (li_do L c)"

text \<open>The exit code of a command whose last operation failed or not.\<close>

definition exits :: "int \<Rightarrow> int \<Rightarrow> 'w cli_run" where
  "exits code r = quit (if r \<noteq> 0 then code else 0)"

definition no_root :: "'w cli_env \<Rightarrow> bytes \<Rightarrow> bool" where
  "no_root L dst = rufux_need_root_for_block (li_sys L) (li_euid L) dst"

definition has_flag :: "string \<Rightarrow> bytes list \<Rightarrow> bool" where
  "has_flag f args \<longleftrightarrow> ascii f \<in> set args"

definition cmd_list :: "'w cli_env \<Rightarrow> bytes list \<Rightarrow> 'w cli_run" where
  "cmd_list L argv = perform L (ListDevices (has_flag ''--allow-fixed'' (drop 2 argv))) (\<lambda>n. quit (if n < 0 then 1 else 0))"

definition cmd_probe :: "'w cli_env \<Rightarrow> bytes list \<Rightarrow> 'w cli_run" where
  "cmd_probe L argv = perform L (ProbeIso (argv ! 2) (has_flag ''--detail'' (drop 3 argv))) (exits 2)"

text \<open>\<open>None\<close>: an unknown algorithm.\<close>

fun read_algo :: "bytes list \<Rightarrow> hash_alg \<Rightarrow> hash_alg option" where
  "read_algo [] alg = Some alg"
| "read_algo [t] alg = Some alg"
| "read_algo (t # a # ts) alg =
     (if t = ascii ''--algo'' then
        (if a = ascii ''md5'' then read_algo ts Md5 else if a = ascii ''sha1'' then read_algo ts Sha1
         else if a = ascii ''sha256'' then read_algo ts Sha256 else if a = ascii ''sha512'' then read_algo ts Sha512
         else None)
      else read_algo (a # ts) alg)"

definition cmd_checksum :: "'w cli_env \<Rightarrow> bytes list \<Rightarrow> 'w cli_run" where
  "cmd_checksum L argv =
     (case read_algo (drop 3 argv) Sha256 of
        None \<Rightarrow> quit 2
      | Some alg \<Rightarrow> perform L (HashFile (argv ! 2) alg) (exits 2))"

definition cmd_write :: "'w cli_env \<Rightarrow> bytes list \<Rightarrow> 'w cli_run" where
  "cmd_write L argv =
     (let src = argv ! 2; dst = argv ! 3; wo = read_opts write_flags [] (drop 4 argv) write_defaults
      in if \<not> wo_dry_run wo \<and> no_root L dst then quit 3
         else perform L (DetectDisk src) (\<lambda>vk.
           if vk < 0 then quit 3
           else if vk > 0 then perform L (ConvertDisk src dst wo) (exits 3)
           else asks (AdjustVhd src) (li_adjust L src) (\<lambda>r. case r of
               None \<Rightarrow> quit 3
             | Some n \<Rightarrow> perform L (WriteTo src dst (case n of None \<Rightarrow> wo | Some k \<Rightarrow> wo\<lparr>wo_src_len := k\<rparr>)) (exits 3))))"

definition cmd_partition :: "'w cli_env \<Rightarrow> bytes list \<Rightarrow> 'w cli_run" where
  "cmd_partition L argv =
     (let dst = argv ! 2; po = read_opts part_flags part_values (drop 3 argv) part_defaults
      in if \<not> lo_dry_run po \<and> no_root L dst then quit 3 else perform L (PartitionDisk dst po) (exits 3))"

definition cmd_format :: "'w cli_env \<Rightarrow> bytes list \<Rightarrow> 'w cli_run" where
  "cmd_format L argv =
     (let dst = argv ! 2; mo = read_opts format_flags format_values (drop 3 argv) format_defaults
      in if \<not> mo_dry_run mo \<and> no_root L dst then quit 3 else perform L (FormatPart dst mo) (exits 3))"

definition cmd_extract :: "'w cli_env \<Rightarrow> bytes list \<Rightarrow> 'w cli_run" where
  "cmd_extract L argv = perform L (ExtractTo (argv ! 2) (argv ! 3) (has_flag ''--dry-run'' (drop 4 argv))) (exits 3)"

definition cmd_install_boot :: "'w cli_env \<Rightarrow> bytes list \<Rightarrow> 'w cli_run" where
  "cmd_install_boot L argv =
     (let dst = argv ! 2; bo = read_opts boot_flags boot_values (drop 3 argv) boot_defaults
      in if \<not> bo_dry_run bo \<and> no_root L dst then quit 3 else perform L (InstallBoot dst bo) (exits 3))"

text \<open>Size, label, dry run.\<close>

definition cmd_persist :: "'w cli_env \<Rightarrow> bytes list \<Rightarrow> 'w cli_run" where
  "cmd_persist L argv =
     (case read_opts [(''--dry-run'', \<lambda>(mb, l, d). (mb, l, True))]
         [(''--size'', \<lambda>v (mb, l, d). (strtoul 10 v, l, d)), (''--label'', \<lambda>v (mb, l, d). (mb, v, d))]
         (drop 3 argv) (0, ascii ''casper-rw'', False) of
        (mb, label, dry) \<Rightarrow> perform L (MakePersist (argv ! 2) label mb dry) (exits 3))"

text \<open>Whether image files are allowed, the number of write passes, the confirmation.\<close>

definition cmd_badblocks :: "'w cli_env \<Rightarrow> bytes list \<Rightarrow> 'w cli_run" where
  "cmd_badblocks L argv =
     (case read_opts [(''--allow-file'', \<lambda>(f, n, y). (True, n, y)), (''--yes'', \<lambda>(f, n, y). (f, n, True))]
         [(''--write-patterns'', \<lambda>v (f, n, y). (f, atoi v, y))] (drop 3 argv) (False, 0, False) of
        (allow_file, passes, yes) \<Rightarrow>
          if passes > 0 then
            (if \<not> yes then quit 2
             else if no_root L (argv ! 2) then quit 3
             else perform L (ScanWrite (argv ! 2) allow_file passes) (\<lambda>n. quit (if n < 0 then 3 else if n = 0 then 0 else 4)))
          else perform L (ScanRead (argv ! 2) allow_file) (\<lambda>n. quit (if n < 0 then 3 else if n = 0 then 0 else 4)))"

definition cmd_mount :: "'w cli_env \<Rightarrow> bytes list \<Rightarrow> 'w cli_run" where
  "cmd_mount L argv =
     (let dry = has_flag ''--dry-run'' (drop 3 argv)
      in perform L (if argv ! 1 = ascii ''mount'' then MountDev (argv ! 2) dry else UnmountDev (argv ! 2) dry) (exits 3))"

definition cmd_check_boot :: "'w cli_env \<Rightarrow> bytes list \<Rightarrow> 'w cli_run" where
  "cmd_check_boot L argv =
     (if se_stat (li_sys L) (argv ! 2) = None then quit 2
      else if li_is_dir L (argv ! 2) then perform L (CheckTree (argv ! 2)) (exits 4)
      else asks (CheckFile (argv ! 2)) (li_boot L (argv ! 2)) (\<lambda>r. case r of
          None \<Rightarrow> quit 2
        | Some state \<Rightarrow> quit (if state \<ge> 2 then 4 else if state = -1 then 2 else 0)))"

definition cmd_smart :: "'w cli_env \<Rightarrow> bytes list \<Rightarrow> 'w cli_run" where
  "cmd_smart L argv = asks (SmartDev (argv ! 2)) (li_smart L (argv ! 2)) (\<lambda>st. quit (if st = SmartFailed then 4 else 0))"

text \<open>Windows media keeps NTFS unless a file system was given.\<close>

definition create_request :: "bytes list \<Rightarrow> create_opts" where
  "create_request args =
     (case read_opts create_flags create_values args (rufux_create_defaults, False) of
        (co, fs_given) \<Rightarrow> if is_mode ''windows'' co \<and> \<not> fs_given then co\<lparr>co_fs := ascii ''ntfs''\<rparr> else co)"

definition cmd_create :: "'w cli_env \<Rightarrow> bytes list \<Rightarrow> 'w cli_run" where
  "cmd_create L argv =
     (let src = (if argv ! 2 = ascii ''none'' then None else Some (argv ! 2)); co = create_request (drop 4 argv)
      in if (is_mode ''dd'' co \<or> is_mode ''extract'' co \<or> is_mode ''windows'' co) \<and> src = None then quit 2
         else perform L (CreateDrive src (argv ! 3) co) (exits 3))"

definition is_cmd :: "nat \<Rightarrow> string \<Rightarrow> bytes list \<Rightarrow> bool" where
  "is_cmd n name argv \<longleftrightarrow> n \<le> length argv \<and> argv ! 1 = ascii name"

definition dispatch :: "'w cli_env \<Rightarrow> bytes list \<Rightarrow> 'w cli_run" where
  "dispatch L argv =
     (if is_cmd 2 ''list'' argv then cmd_list L argv
      else if is_cmd 3 ''probe'' argv then cmd_probe L argv
      else if is_cmd 3 ''checksum'' argv then cmd_checksum L argv
      else if is_cmd 4 ''write'' argv then cmd_write L argv
      else if is_cmd 3 ''partition'' argv then cmd_partition L argv
      else if is_cmd 3 ''format'' argv then cmd_format L argv
      else if is_cmd 4 ''extract'' argv then cmd_extract L argv
      else if is_cmd 3 ''install-boot'' argv then cmd_install_boot L argv
      else if is_cmd 3 ''persist'' argv then cmd_persist L argv
      else if is_cmd 3 ''badblocks'' argv then cmd_badblocks L argv
      else if is_cmd 3 ''mount'' argv \<or> is_cmd 3 ''umount'' argv then cmd_mount L argv
      else if is_cmd 2 ''secureboot-status'' argv then perform L SecureBootState (\<lambda>_. quit 0)
      else if is_cmd 3 ''validate-efi'' argv then perform L (ValidateFile (argv ! 2)) (exits 2)
      else if is_cmd 3 ''check-boot'' argv then cmd_check_boot L argv
      else if is_cmd 3 ''smart'' argv then cmd_smart L argv
      else if is_cmd 2 ''update-check'' argv then perform L UpdateCheck (exits 5)
      else if is_cmd 4 ''create'' argv then cmd_create L argv
      else if length argv = 1 \<and> li_display L then perform L Gui quit
      else if is_cmd 2 ''download-windows'' argv then perform L (DownloadWindows (drop 2 argv)) quit
      else quit 0)"

definition rufux_main :: "'w cli_env \<Rightarrow> bytes list \<Rightarrow> 'w cli_run" where
  "rufux_main L argv =
     (if is_cmd 2 ''--gui'' argv \<or> is_cmd 2 ''gui'' argv then perform L Gui quit
      else if 2 \<le> length argv \<and> validate_flags argv \<noteq> None then quit 2
      else dispatch L (if 2 \<le> length argv then resolve_device_links (li_links L) argv else argv))"

end
