(* ===== verification/CmdlineProps.thy ===== *)
theory CmdlineProps
  imports Cmdline
begin

text \<open>
  The command line: what a misspelt option is compared by, what reading options keeps, and the options of \<open>create\<close>
  printed and read back.
\<close>

section \<open>The edit distance\<close>

text \<open>The textbook recursion, and one row of its table.\<close>

fun lev :: "bytes \<Rightarrow> bytes \<Rightarrow> nat" where
  "lev [] ys = length ys"
| "lev xs [] = length xs"
| "lev (x # xs) (y # ys) = min (min (lev xs (y # ys) + 1) (lev (x # xs) ys + 1)) (lev xs ys + (if x = y then 0 else 1))"

lemma lev_Nil2: "lev xs [] = length xs"
  by (cases xs) simp_all

fun lev_row :: "bytes \<Rightarrow> bytes \<Rightarrow> bytes \<Rightarrow> nat list" where
  "lev_row ra rb [] = [lev ra rb]"
| "lev_row ra rb (y # ys) = lev ra rb # lev_row ra (y # rb) ys"

lemma lev_row_hd: "lev_row ra rb ys = lev ra rb # tl (lev_row ra rb ys)"
  by (cases ys) simp_all

lemma lev_row_first: "lev_row [] rb ys = [length rb..<length rb + length ys + 1]"
proof (induction ys arbitrary: rb)
  case (Cons y ys)
  then show ?case using upt_conv_Cons [of "length rb" "length rb + length (y # ys) + 1"] by simp
qed simp

lemma lev_row_last: "lev_row ra rb ys ! length ys = lev ra (rev ys @ rb)"
  by (induction ys arbitrary: rb) simp_all

lemma next_row_lev: "next_row x ys (lev_row ra rb ys) (lev (x # ra) rb) = tl (lev_row (x # ra) rb ys)"
proof (induction ys arbitrary: rb)
  case (Cons y ys)
  note r = lev_row_hd [of ra "y # rb" ys]
  have "next_row x (y # ys) (lev_row ra rb (y # ys)) (lev (x # ra) rb) =
      lev (x # ra) (y # rb) # next_row x ys (lev_row ra (y # rb) ys) (lev (x # ra) (y # rb))"
    using next_row.simps(1) [of x y ys "lev ra rb" "lev ra (y # rb)" "tl (lev_row ra (y # rb) ys)" "lev (x # ra) rb"]
    by (simp add: r [symmetric] min_def Let_def)
  also have "\<dots> = tl (lev_row (x # ra) rb (y # ys))" by (simp only: Cons.IH lev_row.simps list.sel lev_row_hd [symmetric])
  finally show ?case .
qed simp

lemma table_lev:
  "foldl (table_row b) (length ra, lev_row ra [] b) a = (length ra + length a, lev_row (rev a @ ra) [] b)"
proof (induction a arbitrary: ra)
  case (Cons x a)
  have "table_row b (length ra, lev_row ra [] b) x = (length (x # ra), lev_row (x # ra) [] b)"
    using next_row_lev [of x b ra "[]"] lev_row_hd [of "x # ra" "[]" b] by (simp add: table_row_def)
  then show ?case using Cons.IH [of "x # ra"] by simp
qed simp

text \<open>The table computes the recursion (on the reversed words, as it fills from the front).\<close>

lemma edit_distance_lev:
  "length a \<le> 40 \<Longrightarrow> length b \<le> 40 \<Longrightarrow> edit_distance a b = lev (rev a) (rev b)"
  using table_lev [of b "[]" a] lev_row_first [of "[]" b] lev_row_last [of "rev a" "[]" b] by (simp add: edit_distance_def)

lemma lev_zero: "lev xs ys = 0 \<longleftrightarrow> xs = ys"
  by (induction xs ys rule: lev.induct) auto

text \<open>A suggestion is an option of the command at a distance of at most 2.\<close>

lemma closest_known:
  assumes "closest_option sp bad = Some w"
  shows "(\<exists>v\<in>set (list_words (sp_flags sp) @ list_words (sp_values sp)). w = clip 64 v) \<and> edit_distance bad w \<le> 2"
proof -
  have "\<exists>v\<in>set ws. w = clip 64 v \<and> edit_distance bad w < 3" if "snd (foldl (closer bad) (3, None) ws) = Some w" for ws w
  proof -
    have i: "fst (foldl (closer bad) (3, None) ws) \<le> 3 \<and>
        (\<forall>w. snd (foldl (closer bad) (3, None) ws) = Some w \<longrightarrow>
          (\<exists>v\<in>set ws. w = clip 64 v) \<and> edit_distance bad w = fst (foldl (closer bad) (3, None) ws) \<and> edit_distance bad w < 3)" for ws
      by (induction ws rule: rev_induct) (auto simp: closer_def)
    with i [of ws] that show ?thesis by blast
  qed
  from this [OF assms [unfolded closest_option_def]] show ?thesis by fastforce
qed

section \<open>Reading options\<close>

lemma find_opt_mem: "find_opt tab t = Some f \<Longrightarrow> \<exists>n. (n, f) \<in> set tab \<and> ascii n = t"
  by (auto simp: find_opt_def find_Some_iff) (metis nth_mem)

lemma read_opts_keeps:
  assumes "\<And>n f x. (n, f) \<in> set fl \<Longrightarrow> ascii n \<in> set args \<Longrightarrow> P x \<Longrightarrow> P (f x)"
    "\<And>n f v x. (n, f) \<in> set vl \<Longrightarrow> ascii n \<in> set args \<Longrightarrow> P x \<Longrightarrow> P (f v x)" "P x"
  shows "P (read_opts fl vl args x)"
proof -
  have fo: "P (case find_opt fl t of None \<Rightarrow> x | Some f \<Rightarrow> f x)" if "t \<in> set args" "P x" for t x
    using that assms(1) by (auto dest!: find_opt_mem split: option.splits)
  have vo: "P (f v x)" if "find_opt vl t = Some f" "t \<in> set args" "P x" for f t v x
    using that assms(2) by (auto dest!: find_opt_mem)
  have "set as \<subseteq> set args \<Longrightarrow> P x \<Longrightarrow> P (read_opts fl vl as x)" for as x
  proof (induction as arbitrary: x rule: induct_list012)
    case (3 t v ts)
    show ?case
    proof (cases "find_opt vl t")
      case None
      with 3 fo [of t x] show ?thesis by simp
    next
      case (Some f)
      with 3 vo [of t f x v] show ?thesis by simp
    qed
  qed (use fo in auto)
  with assms(3) show ?thesis by simp
qed

lemma read_value: "find_opt vl t = Some f \<Longrightarrow> read_opts fl vl (t # v # ts) x = read_opts fl vl ts (f v x)"
  by simp

lemma read_flag:
  "find_opt vl t = None \<Longrightarrow> find_opt fl t = Some f \<Longrightarrow> read_opts fl vl (t # ts) x = read_opts fl vl ts (f x)"
  by (cases ts) simp_all

section \<open>Printing the options of \<open>create\<close> and reading them back\<close>

definition given :: "string \<Rightarrow> bytes option \<Rightarrow> bytes list" where
  "given n v = (case v of None \<Rightarrow> [] | Some s \<Rightarrow> [ascii n, s])"

definition flag :: "string \<Rightarrow> bool \<Rightarrow> bytes list" where
  "flag n b = (if b then [ascii n] else [])"

definition create_args :: "create_opts \<Rightarrow> bytes list" where
  "create_args co =
     given ''--mode'' (Some (co_mode co)) @ given ''--scheme'' (Some (co_scheme co)) @ given ''--fs'' (Some (co_fs co)) @
     given ''--label'' (co_label co) @ given ''--wue'' (co_wue co) @ given ''--split-wim'' (Some (dec (co_split_wim_mb co))) @
     given ''--locale'' (co_locale co) @ given ''--keyboard'' (co_keyboard co) @ given ''--timezone'' (co_timezone co) @
     given ''--persist-mb'' (Some (dec (co_persist_mb co))) @
     given ''--cluster-sectors'' (Some (dec (nat (co_cluster_sectors co)))) @
     given ''--badblock-passes'' (Some (dec (co_badblock_passes co))) @
     flag ''--full'' (\<not> co_quick_format co) @ flag ''--no-autorun'' (\<not> co_extended_label co) @
     flag ''--uefi-validate'' (co_uefi_validate co) @ flag ''--verify'' (co_verify co) @
     flag ''--ignore-smart'' (co_ignore_smart co) @ flag ''--real'' (\<not> co_dry_run co) @
     flag ''--allow-fixed'' (co_allow_fixed co) @ flag ''--allow-file'' (co_allow_file co) @ flag ''--yes'' (co_yes co)"

text \<open>The options the command line can express: a label, and numbers in the range of the C types.\<close>

definition expressible :: "create_opts \<Rightarrow> bool" where
  "expressible co \<longleftrightarrow> co_label co \<noteq> None \<and> co_split_wim_mb co < 2 ^ 32 \<and> co_persist_mb co < 2 ^ 64 \<and>
     0 \<le> co_cluster_sectors co \<and> co_cluster_sectors co < 2 ^ 31 \<and> co_badblock_passes co < 2 ^ 31"

lemma strtol_dec: "n < 2 ^ 63 \<Longrightarrow> strtol (dec n) = int n"
proof -
  assume n: "n < 2 ^ 63"
  obtain c s where d: "dec n = c # s" using dec_not_empty by (cases "dec n") auto
  from dec_first [OF d] have "dropWhile is_space (dec n) = dec n" "hd (dec n) \<noteq> 45" "hd (dec n) \<noteq> 43" by (simp_all add: d)
  with n show ?thesis by (simp add: strtol_def Let_def digits_val_dec)
qed

lemma atoi_dec: "n < 2 ^ 31 \<Longrightarrow> atoi (dec n) = int n"
proof -
  assume n: "n < 2 ^ 31"
  then have "sint (word_of_int (int n) :: 32 word) = int n"
    unfolding sint_sbintrunc' by (intro signed_take_bit_int_eq_self) simp_all
  with n show ?thesis by (simp add: atoi_def strtol_dec del: of_int_of_nat_eq)
qed

lemma unsigned_atoi_dec: "n < 2 ^ 32 \<Longrightarrow> unsigned_atoi (dec n) = n"
proof -
  assume n: "n < 2 ^ 32"
  then have "(word_of_int (sint (word_of_int (int n) :: 32 word)) :: 32 word) = word_of_int (int n)" by simp
  with n show ?thesis by (simp add: unsigned_atoi_def atoi_def strtol_dec unat_of_nat_small)
qed

lemmas create_tables = find_opt_def create_values_def create_flags_def ascii_def on_opts_def

lemma read_given:
  assumes "find_opt create_values (ascii n) = Some f"
  shows "read_opts create_flags create_values (given n v @ ts) x =
    read_opts create_flags create_values ts (case v of None \<Rightarrow> x | Some s \<Rightarrow> f s x)"
  using assms by (cases v) (simp_all add: given_def)

lemma read_flagged:
  assumes "find_opt create_values (ascii n) = None" "find_opt create_flags (ascii n) = Some f"
  shows "read_opts create_flags create_values (flag n b @ ts) x = read_opts create_flags create_values ts (if b then f x else x)"
  using assms by (simp add: flag_def read_flag)

lemma create_value_opts:
  "find_opt create_values (ascii ''--mode'') = Some (\<lambda>v. on_opts (\<lambda>x. x\<lparr>co_mode := v\<rparr>))"
  "find_opt create_values (ascii ''--scheme'') = Some (\<lambda>v. on_opts (\<lambda>x. x\<lparr>co_scheme := v\<rparr>))"
  "find_opt create_values (ascii ''--fs'') = Some (\<lambda>v x. (fst x\<lparr>co_fs := v\<rparr>, True))"
  "find_opt create_values (ascii ''--label'') = Some (\<lambda>v. on_opts (\<lambda>x. x\<lparr>co_label := Some v\<rparr>))"
  "find_opt create_values (ascii ''--wue'') = Some (\<lambda>v. on_opts (\<lambda>x. x\<lparr>co_wue := Some v\<rparr>))"
  "find_opt create_values (ascii ''--split-wim'') = Some (\<lambda>v. on_opts (\<lambda>x. x\<lparr>co_split_wim_mb := unsigned_atoi v\<rparr>))"
  "find_opt create_values (ascii ''--locale'') = Some (\<lambda>v. on_opts (\<lambda>x. x\<lparr>co_locale := Some v\<rparr>))"
  "find_opt create_values (ascii ''--keyboard'') = Some (\<lambda>v. on_opts (\<lambda>x. x\<lparr>co_keyboard := Some v\<rparr>))"
  "find_opt create_values (ascii ''--timezone'') = Some (\<lambda>v. on_opts (\<lambda>x. x\<lparr>co_timezone := Some v\<rparr>))"
  "find_opt create_values (ascii ''--persist-mb'') = Some (\<lambda>v. on_opts (\<lambda>x. x\<lparr>co_persist_mb := unat (strtoul 10 v)\<rparr>))"
  "find_opt create_values (ascii ''--cluster-sectors'') = Some (\<lambda>v. on_opts (\<lambda>x. x\<lparr>co_cluster_sectors := atoi v\<rparr>))"
  "find_opt create_values (ascii ''--badblock-passes'') = Some (\<lambda>v. on_opts (\<lambda>x. x\<lparr>co_badblock_passes := nat (atoi v)\<rparr>))"
  by (simp_all add: find_opt_def create_values_def ascii_def)

lemma create_flag_opts:
  "find_opt create_flags (ascii ''--full'') = Some (on_opts (\<lambda>x. x\<lparr>co_quick_format := False\<rparr>))"
  "find_opt create_flags (ascii ''--no-autorun'') = Some (on_opts (\<lambda>x. x\<lparr>co_extended_label := False\<rparr>))"
  "find_opt create_flags (ascii ''--uefi-validate'') = Some (on_opts (\<lambda>x. x\<lparr>co_uefi_validate := True\<rparr>))"
  "find_opt create_flags (ascii ''--verify'') = Some (on_opts (\<lambda>x. x\<lparr>co_verify := True\<rparr>))"
  "find_opt create_flags (ascii ''--ignore-smart'') = Some (on_opts (\<lambda>x. x\<lparr>co_ignore_smart := True\<rparr>))"
  "find_opt create_flags (ascii ''--real'') = Some (on_opts (\<lambda>x. x\<lparr>co_dry_run := False\<rparr>))"
  "find_opt create_flags (ascii ''--allow-fixed'') = Some (on_opts (\<lambda>x. x\<lparr>co_allow_fixed := True\<rparr>))"
  "find_opt create_flags (ascii ''--allow-file'') = Some (on_opts (\<lambda>x. x\<lparr>co_allow_file := True\<rparr>))"
  "find_opt create_flags (ascii ''--yes'') = Some (on_opts (\<lambda>x. x\<lparr>co_yes := True\<rparr>))"
  by (simp_all add: find_opt_def create_flags_def ascii_def)

lemma create_not_values:
  "find_opt create_values (ascii ''--full'') = None" "find_opt create_values (ascii ''--no-autorun'') = None"
  "find_opt create_values (ascii ''--uefi-validate'') = None" "find_opt create_values (ascii ''--verify'') = None"
  "find_opt create_values (ascii ''--ignore-smart'') = None" "find_opt create_values (ascii ''--real'') = None"
  "find_opt create_values (ascii ''--allow-fixed'') = None" "find_opt create_values (ascii ''--allow-file'') = None"
  "find_opt create_values (ascii ''--yes'') = None"
  by (simp_all add: find_opt_def create_values_def ascii_def)

text \<open>Setting a field only when asked to is setting it to the right value.\<close>

lemma set_flag:
  "(if b then on_opts (\<lambda>x. x\<lparr>co_quick_format := False\<rparr>) (x, g) else (x, g)) = (x\<lparr>co_quick_format := co_quick_format x \<and> \<not> b\<rparr>, g)"
  "(if b then on_opts (\<lambda>x. x\<lparr>co_extended_label := False\<rparr>) (x, g) else (x, g)) = (x\<lparr>co_extended_label := co_extended_label x \<and> \<not> b\<rparr>, g)"
  "(if b then on_opts (\<lambda>x. x\<lparr>co_uefi_validate := True\<rparr>) (x, g) else (x, g)) = (x\<lparr>co_uefi_validate := co_uefi_validate x \<or> b\<rparr>, g)"
  "(if b then on_opts (\<lambda>x. x\<lparr>co_verify := True\<rparr>) (x, g) else (x, g)) = (x\<lparr>co_verify := co_verify x \<or> b\<rparr>, g)"
  "(if b then on_opts (\<lambda>x. x\<lparr>co_ignore_smart := True\<rparr>) (x, g) else (x, g)) = (x\<lparr>co_ignore_smart := co_ignore_smart x \<or> b\<rparr>, g)"
  "(if b then on_opts (\<lambda>x. x\<lparr>co_dry_run := False\<rparr>) (x, g) else (x, g)) = (x\<lparr>co_dry_run := co_dry_run x \<and> \<not> b\<rparr>, g)"
  "(if b then on_opts (\<lambda>x. x\<lparr>co_allow_fixed := True\<rparr>) (x, g) else (x, g)) = (x\<lparr>co_allow_fixed := co_allow_fixed x \<or> b\<rparr>, g)"
  "(if b then on_opts (\<lambda>x. x\<lparr>co_allow_file := True\<rparr>) (x, g) else (x, g)) = (x\<lparr>co_allow_file := co_allow_file x \<or> b\<rparr>, g)"
  "(if b then on_opts (\<lambda>x. x\<lparr>co_yes := True\<rparr>) (x, g) else (x, g)) = (x\<lparr>co_yes := co_yes x \<or> b\<rparr>, g)"
  by (simp_all add: on_opts_def)

definition or_else :: "'a option \<Rightarrow> 'a option \<Rightarrow> 'a option" where
  "or_else v d = (if v = None then d else v)"

lemma set_given:
  "(case v of None \<Rightarrow> (x, g) | Some s \<Rightarrow> on_opts (\<lambda>x. x\<lparr>co_label := Some s\<rparr>) (x, g)) =
    (x\<lparr>co_label := or_else v (co_label x)\<rparr>, g)"
  "(case v of None \<Rightarrow> (x, g) | Some s \<Rightarrow> on_opts (\<lambda>x. x\<lparr>co_wue := Some s\<rparr>) (x, g)) =
    (x\<lparr>co_wue := or_else v (co_wue x)\<rparr>, g)"
  "(case v of None \<Rightarrow> (x, g) | Some s \<Rightarrow> on_opts (\<lambda>x. x\<lparr>co_locale := Some s\<rparr>) (x, g)) =
    (x\<lparr>co_locale := or_else v (co_locale x)\<rparr>, g)"
  "(case v of None \<Rightarrow> (x, g) | Some s \<Rightarrow> on_opts (\<lambda>x. x\<lparr>co_keyboard := Some s\<rparr>) (x, g)) =
    (x\<lparr>co_keyboard := or_else v (co_keyboard x)\<rparr>, g)"
  "(case v of None \<Rightarrow> (x, g) | Some s \<Rightarrow> on_opts (\<lambda>x. x\<lparr>co_timezone := Some s\<rparr>) (x, g)) =
    (x\<lparr>co_timezone := or_else v (co_timezone x)\<rparr>, g)"
  by (cases v; simp add: on_opts_def or_else_def)+

lemma keep_option: "or_else v None = v" "or_else (Some a) d = Some a"
  by (simp_all add: or_else_def)

lemma create_read_back:
  assumes "expressible co"
  shows "read_opts create_flags create_values (create_args co) (rufux_create_defaults, False) = (co, True)"
proof -
  note e = assms [unfolded expressible_def]
  obtain l where l: "co_label co = Some l" using e by blast
  have n: "unat (strtoul 10 (dec (co_persist_mb co))) = co_persist_mb co" "unsigned_atoi (dec (co_split_wim_mb co)) = co_split_wim_mb co"
    "atoi (dec (nat (co_cluster_sectors co))) = co_cluster_sectors co" "nat (atoi (dec (co_badblock_passes co))) = co_badblock_passes co"
    using e strtoul_dec [of "co_persist_mb co" "[]"] unsigned_atoi_dec atoi_dec [of "nat (co_cluster_sectors co)"]
      atoi_dec [of "co_badblock_passes co"] by (simp_all add: unat_of_nat_small nat_less_iff)
  note r = create_value_opts [THEN read_given] read_flagged [OF create_not_values(1) create_flag_opts(1)]
    read_flagged [OF create_not_values(2) create_flag_opts(2)] read_flagged [OF create_not_values(3) create_flag_opts(3)]
    read_flagged [OF create_not_values(4) create_flag_opts(4)] read_flagged [OF create_not_values(5) create_flag_opts(5)]
    read_flagged [OF create_not_values(6) create_flag_opts(6)] read_flagged [OF create_not_values(7) create_flag_opts(7)]
    read_flagged [OF create_not_values(8) create_flag_opts(8)] read_flagged [OF create_not_values(9) create_flag_opts(9)]
    read_flagged [OF create_not_values(9) create_flag_opts(9), where ts = "[]", unfolded append_Nil2]
  show ?thesis using n l
    by (cases co) (simp add: create_args_def rufux_create_defaults_def r set_given set_flag keep_option on_opts_def)
qed

text \<open>A list of options is a text of words with blanks between them.\<close>

fun joined :: "bytes list \<Rightarrow> bytes" where
  "joined [] = []"
| "joined [w] = w"
| "joined (w # ws) = w @ 32 # joined ws"

definition words_only :: "bytes list \<Rightarrow> bool" where
  "words_only ws \<longleftrightarrow> list_all (\<lambda>w. w \<noteq> [] \<and> 32 \<notin> set w) ws"

lemma joined_first: "words_only (w # ws) \<Longrightarrow> \<exists>c r. joined (w # ws) = c # r \<and> c \<noteq> 32"
  by (cases w; cases ws) (auto simp: words_only_def)

lemma list_words_blank: "c \<noteq> 32 \<Longrightarrow> list_words (32 # c # r) = list_words (c # r)"
  by (subst (1 2) list_words.simps) simp

lemma list_words_joined: "words_only ws \<Longrightarrow> list_words (joined ws) = ws"
proof (induction ws rule: joined.induct)
  case 1
  then show ?case by (simp add: list_words.simps)
next
  case (2 w)
  then have w: "w \<noteq> []" "32 \<notin> set w" by (simp_all add: words_only_def)
  have a: "dropWhile (\<lambda>c. c = 32) w = w" using w by (cases w) auto
  have b: "takeWhile (\<lambda>c. c \<noteq> 32) w = w" using w(2) by (auto simp: takeWhile_eq_all_conv)
  have c: "dropWhile (\<lambda>c. c \<noteq> 32) w = []" using w(2) by (auto simp: dropWhile_eq_Nil_conv)
  have "list_words w = w # list_words []" using w(1) by (simp only: list_words.simps [of w] a b c Let_def if_False)
  then show ?case by (simp add: list_words.simps [of "[]"])
next
  case (3 w v ws)
  then have w: "w \<noteq> []" "32 \<notin> set w" "words_only (v # ws)" by (simp_all add: words_only_def)
  from joined_first [OF w(3)] obtain c r where c: "joined (v # ws) = c # r" "c \<noteq> 32" by blast
  have "dropWhile (\<lambda>c. c = 32) (w @ 32 # joined (v # ws)) = w @ 32 # joined (v # ws)"
    using w by (cases w) auto
  moreover have "takeWhile (\<lambda>c. c \<noteq> 32) (w @ 32 # joined (v # ws)) = w" using w by (subst takeWhile_append2) auto
  moreover have "dropWhile (\<lambda>c. c \<noteq> 32) (w @ 32 # joined (v # ws)) = 32 # joined (v # ws)" using w by (subst dropWhile_append2) auto
  ultimately have "list_words (joined (w # v # ws)) = w # list_words (32 # joined (v # ws))"
    using w(1) by (simp add: list_words.simps [of "w @ 32 # joined (v # ws)"])
  then show ?case using 3 w(3) list_words_blank [OF c(2), of r] by (simp add: c(1))
qed

definition create_spec :: cmd_spec where
  "create_spec = last specs"

lemma create_words:
  "list_words (sp_flags create_spec) = map ascii [''--allow-file'', ''--allow-fixed'', ''--dry-run'', ''--full'', ''--ignore-smart'',
     ''--no-autorun'', ''--quick'', ''--real'', ''--uefi-validate'', ''--verify'', ''--yes'']" (is "_ = ?f")
  "list_words (sp_values create_spec) = map ascii [''--badblock-passes'', ''--cluster-sectors'', ''--fs'', ''--keyboard'', ''--label'',
     ''--locale'', ''--mode'', ''--persist-mb'', ''--scheme'', ''--split-wim'', ''--timezone'', ''--wue'']" (is "_ = ?v")
proof -
  have "sp_flags create_spec = joined ?f" "sp_values create_spec = joined ?v"
    by (simp_all add: create_spec_def specs_def spec_def ascii_def)
  moreover have "words_only ?f" "words_only ?v" by (simp_all add: words_only_def ascii_def)
  ultimately show "list_words (sp_flags create_spec) = ?f" "list_words (sp_values create_spec) = ?v"
    using list_words_joined by presburger+
qed

definition value_option :: "cmd_spec \<Rightarrow> bytes \<Rightarrow> bool" where
  "value_option sp t \<longleftrightarrow> take 1 t = [45] \<and> length t \<noteq> 1 \<and> \<not> in_list (sp_flags sp) t \<and> in_list (sp_values sp) t"

definition flag_option :: "cmd_spec \<Rightarrow> bytes \<Rightarrow> bool" where
  "flag_option sp t \<longleftrightarrow> take 1 t = [45] \<and> length t \<noteq> 1 \<and> in_list (sp_flags sp) t"

lemma check_given: "value_option sp (ascii n) \<Longrightarrow> check_args sp (given n v @ ts) = check_args sp ts"
  by (cases v) (auto simp: given_def value_option_def)

lemma check_flagged: "flag_option sp (ascii n) \<Longrightarrow> check_args sp (flag n b @ ts) = check_args sp ts"
  by (auto simp: flag_def flag_option_def)

lemma create_value_names:
  "list_all (\<lambda>n. value_option create_spec (ascii n)) [''--badblock-passes'', ''--cluster-sectors'', ''--fs'', ''--keyboard'', ''--label'',
     ''--locale'', ''--mode'', ''--persist-mb'', ''--scheme'', ''--split-wim'', ''--timezone'', ''--wue'']"
  unfolding value_option_def in_list_def create_words by (simp add: ascii_def)

lemma create_flag_names:
  "list_all (\<lambda>n. flag_option create_spec (ascii n)) [''--allow-file'', ''--allow-fixed'', ''--dry-run'', ''--full'', ''--ignore-smart'',
     ''--no-autorun'', ''--quick'', ''--real'', ''--uefi-validate'', ''--verify'', ''--yes'']"
  unfolding flag_option_def in_list_def create_words by (simp add: ascii_def)

lemma create_args_pass: "check_args create_spec (create_args co) = None"
proof -
  note v = create_value_names [unfolded list.pred_inject] and f = create_flag_names [unfolded list.pred_inject]
  have "check_args create_spec (create_args co @ []) = None"
    unfolding create_args_def append.assoc by (simp only: check_given check_flagged v f check_args.simps)
  then show ?thesis by simp
qed

lemma find_create: "List.find (\<lambda>sp. sp_cmd sp = ascii ''create'') (rev specs) = Some create_spec"
  by (simp add: specs_def create_spec_def spec_def)

definition plain_arg :: "bytes \<Rightarrow> bool" where
  "plain_arg t \<longleftrightarrow> take 1 t \<noteq> [45] \<or> length t = 1"

text \<open>
  C39: the command line of \<open>create\<close> says everything. Any options of the creation flows (with a
  label and numbers in the range of their C types), written as arguments, pass the strict check of the options and
  come back as exactly these options: the one operation that is called is \<open>rufux_create\<close> with them and the given
  source and target, and the exit code is 0 when it succeeds and 3 when it fails. The values may be any bytes, also
  ones that look like options. The arguments must not be symbolic links below \<open>/dev\<close>, which are resolved first.
\<close>

theorem cli_create_roundtrip:
  assumes "expressible co" "plain_arg src" "plain_arg dst" "src \<noteq> ascii ''none''"
    and "list_all (\<lambda>a. li_links L a = None) (src # dst # create_args co)"
  shows "rufux_main L (ascii ''rufux'' # ascii ''create'' # src # dst # create_args co) (w, []) =
    (case li_do L (CreateDrive (Some src) dst co) w of
       (r, w') \<Rightarrow> (if r = 0 then 0 else 3, w', [CreateDrive (Some src) dst co]))"
proof -
  let ?args = "ascii ''rufux'' # ascii ''create'' # src # dst # create_args co"
  have names: "list_all (\<lambda>n. ascii ''create'' \<noteq> ascii n) [''--gui'', ''gui'', ''list'', ''probe'', ''checksum'', ''write'', ''partition'',
      ''format'', ''extract'', ''install-boot'', ''persist'', ''badblocks'', ''mount'', ''umount'', ''secureboot-status'', ''validate-efi'',
      ''check-boot'', ''smart'', ''update-check'']" by (simp add: ascii_def)
  have "validate_flags ?args = None"
    using assms(2,3) create_args_pass [of co] by (simp add: validate_flags_def find_create plain_arg_def)
  moreover have "resolve_device_links (li_links L) ?args = ?args"
    using assms(5) by (auto simp: resolve_device_links_def list_all_iff intro!: map_idI)
  moreover have "create_request (create_args co) = co"
    using create_read_back [OF assms(1)] by (simp add: create_request_def)
  ultimately show ?thesis using assms(4)
    by (simp add: rufux_main_def dispatch_def is_cmd_def names [unfolded list.pred_inject] cmd_create_def perform_def asks_def exits_def quit_def Let_def split: prod.splits)
qed

definition demo_cli :: "unit cli_env" where
  "demo_cli = \<lparr>li_sys = \<lparr>se_stat = (\<lambda>_. None), se_block = None, se_file = (\<lambda>_. None), se_link = (\<lambda>_. None), se_blksize = (\<lambda>_. None)\<rparr>,
     li_euid = 0, li_is_dir = (\<lambda>_. False), li_links = (\<lambda>_. None), li_display = False, li_do = (\<lambda>c w. (0, w)),
     li_adjust = (\<lambda>_ w. (Some None, w)), li_boot = (\<lambda>_ w. (None, w)), li_smart = (\<lambda>_ w. (SmartNA, w))\<rparr>"

definition demo_wanted :: create_opts where
  "demo_wanted = rufux_create_defaults\<lparr>co_mode := ascii ''windows'', co_label := Some (ascii ''--real''), co_split_wim_mb := 3800,
     co_yes := True\<rparr>"

theorem cli_create_roundtrip_witness:
  "rufux_main demo_cli (ascii ''rufux'' # ascii ''create'' # ascii ''w.iso'' # ascii ''/dev/sdb'' # create_args demo_wanted) ((), []) =
     (0, (), [CreateDrive (Some (ascii ''w.iso'')) (ascii ''/dev/sdb'') demo_wanted])"
proof -
  have "expressible demo_wanted" by (simp add: expressible_def demo_wanted_def rufux_create_defaults_def)
  moreover have "plain_arg (ascii ''w.iso'')" "plain_arg (ascii ''/dev/sdb'')" "ascii ''w.iso'' \<noteq> ascii ''none''"
    by (simp_all add: plain_arg_def ascii_def)
  moreover have "list_all (\<lambda>a. li_links demo_cli a = None) (ascii ''w.iso'' # ascii ''/dev/sdb'' # create_args demo_wanted)"
    by (simp add: demo_cli_def list_all_iff)
  moreover have "li_do demo_cli c w = (0, w)" for c w by (simp add: demo_cli_def)
  ultimately show ?thesis using cli_create_roundtrip [of demo_wanted "ascii ''w.iso''" "ascii ''/dev/sdb''" demo_cli "()"] by simp
qed

section \<open>Exit codes\<close>

text \<open>An option that is not known, or that lacks its value, exits the program before anything is called.\<close>

lemma bad_option_stops:
  "\<not> is_cmd 2 ''--gui'' argv \<Longrightarrow> \<not> is_cmd 2 ''gui'' argv \<Longrightarrow> 2 \<le> length argv \<Longrightarrow> validate_flags argv \<noteq> None \<Longrightarrow>
   rufux_main L argv s = (2, s)"
  by (simp add: rufux_main_def quit_def)

text \<open>A command that lacks its arguments, or that does not exist, prints the usage text and reports success.\<close>

lemma usage_exits_0: "rufux_main demo_cli (map ascii [''rufux'', ''write'', ''w.iso'']) ((), []) = (0, (), [])"
    "rufux_main demo_cli (map ascii [''rufux'', ''wirte'', ''w.iso'', ''/dev/sdb'', ''--real'', ''--yes'']) ((), []) = (0, (), [])"
  by (simp_all add: rufux_main_def validate_flags_def specs_def spec_def dispatch_def is_cmd_def resolve_device_links_def quit_def demo_cli_def
      ascii_def)

end
