(* ===== verification/Program.thy ===== *)
theory Program
  imports CmdlineProps CreateProps WriterProps LinuxPartProps Vdisk Badblocks BootRecordsProps Format
begin

text \<open>
  The Linux program put together: the commands of \<open>main.c\<close> running the models of the writer, the virtual disk writer,
  the partitioner, the formatter, the boot records, the surface scan and the creation flows on one target. The
  operations that do not write to the target (probing, hashing, mounting, asking) are left open; they may change
  anything but the target.
\<close>

section \<open>The machine\<close>











section \<open>What is left alone\<close>











section \<open>Operations that are not armed\<close>







section \<open>What the arguments consent to\<close>









section \<open>The whole program\<close>










end
