(* ===== verification/Msdl.thy ===== *)
theory Msdl
  imports DriveTools Mjson
begin

text \<open>
  The download of Windows images, \<open>src/linux/msdl.c\<close>, and the command that uses it (\<open>download-windows\<close> of
  \<open>src/linux/main.c\<close>). Requests are made by running \<open>curl\<close>, one of the programs of \<open>tools\<close>; its replies are read by
  the JSON reader. Random bytes, the time, the file system and the conversion of a JSON number to \<open>int\<close> are
  parameters; progress reports and the texts of most messages are left out.
\<close>

section \<open>Products and sessions\<close>

record edition =
  ed_name :: bytes
  ed_ids :: "int list"

record ms_product =
  pr_name :: bytes
  pr_release :: bytes
  pr_editions :: "edition list"

definition edition_of :: "string \<Rightarrow> int list \<Rightarrow> edition" where
  "edition_of n ids = \<lparr>ed_name = ascii n, ed_ids = ids\<rparr>"

definition products :: "ms_product list" where
  "products =
    [\<lparr>pr_name = ascii ''Windows 11'', pr_release = ascii ''25H2 v2 (Build 26200.8037 - 2026.03)'',
      pr_editions = [edition_of ''Windows 11 Home/Pro/Edu'' [3321, 3324], edition_of ''Windows 11 Home China'' [3322, 3325],
                     edition_of ''Windows 11 Pro China'' [3323, 3326]]\<rparr>,
     \<lparr>pr_name = ascii ''Windows 10'', pr_release = ascii ''22H2 v1 (Build 19045.2965 - 2023.05)'',
      pr_editions = [edition_of ''Windows 10 Home/Pro/Edu'' [2618], edition_of ''Windows 10 Home China'' [2378]]\<rparr>]"

definition rufux_msdl_products :: "(bytes \<times> bytes \<times> bytes list) list" where
  "rufux_msdl_products = map (\<lambda>p. (pr_name p, pr_release p, map ed_name (pr_editions p))) products"

record lang =
  la_name :: bytes
  la_display :: bytes
  la_skus :: "(nat \<times> bytes) list"

record msdl =
  ms_sess :: "bytes list"
  ms_langs :: "lang list"
  ms_jar :: bytes

text \<open>
  \<open>mv_guid i\<close>: the 16 bytes of the \<open>i\<close>th identifier. \<open>mv_jar\<close>: the name \<open>mkstemp\<close> makes, \<open>None\<close> when it fails.
  \<open>mv_exists\<close>: \<open>access\<close> with \<open>F_OK\<close>. \<open>mv_rename\<close>: whether \<open>rename\<close> works, and what it does.
\<close>

record 'w msdl_env =
  mv_host :: host
  mv_tools :: "'w tools"
  mv_guid :: "nat \<Rightarrow> bytes"
  mv_time :: "'w \<Rightarrow> int"
  mv_jar :: "bytes option"
  mv_int :: "bytes \<Rightarrow> int"
  mv_is_dir :: "'w \<Rightarrow> bytes \<Rightarrow> bool"
  mv_exists :: "'w \<Rightarrow> bytes \<Rightarrow> bool"
  mv_rename :: "bytes \<Rightarrow> bytes \<Rightarrow> 'w \<Rightarrow> bool \<times> 'w"

datatype msdl_error =
    UnknownEdition
  | NoCookieFile
  | CurlMissing
  | NetworkError bytes
  | HttpCode int
  | NoToken
  | BadReply
  | IpBanned
  | ServiceError bytes
  | NoLanguages
  | NoSuchLanguage
  | SeveralLanguages bytes
  | NoLanguageMatches bytes
  | NoLinks
  | NotHttps
  | NotADirectory
  | AlreadyThere bytes
  | DownloadFailed
  | RenameFailed

definition REPLY_CAP :: nat where "REPLY_CAP = 2 * 2 ^ 20"

section \<open>Requests\<close>

definition mock_base :: "'z host_scheme \<Rightarrow> bytes option" where
  "mock_base h =
     (case h_getenv h (ascii ''RUFUX_MSDL_MOCK'') of
        None \<Rightarrow> None
      | Some m \<Rightarrow> if starts (ascii ''http://127.0.0.1:'') m \<or> starts (ascii ''http://localhost:'') m then Some m else None)"

definition build_url :: "'z host_scheme \<Rightarrow> nat \<Rightarrow> string \<Rightarrow> bytes \<Rightarrow> bytes" where
  "build_url h cap host path_query =
     (case mock_base h of
        Some m \<Rightarrow>
          (let tag = (if host = ''vlscppe.microsoft.com'' then ''vlscppe'' else if host = ''ov-df.microsoft.com'' then ''ov-df'' else ''www'')
           in clip cap (m @ 47 # ascii tag @ path_query))
      | None \<Rightarrow> clip cap (ascii ''https://'' @ ascii host @ path_query))"

definition UA :: bytes where
  "UA = ascii ''Mozilla/5.0 (X11; Linux x86_64; rv:130.0) Gecko/20100101 Firefox/130.0''"

definition get_argv :: "bytes \<Rightarrow> bytes \<Rightarrow> bytes option \<Rightarrow> bytes list" where
  "get_argv jar url referer =
     [ascii ''curl'', ascii ''-sS'', ascii ''-w'', 10 # ascii ''%{http_code}'', ascii ''--max-time'', ascii ''30'',
      ascii ''--connect-timeout'', ascii ''15'', ascii ''-A'', UA, ascii ''-b'', jar, ascii ''-c'', jar] @
     (case referer of None \<Rightarrow> [] | Some r \<Rightarrow> [ascii ''-e'', r]) @ [url]"

text \<open>The reply without its last line, which is the status code.\<close>

definition status_line :: "bytes \<Rightarrow> bytes \<times> int" where
  "status_line out =
     (if 10 \<in> set out
      then (rev (tl (dropWhile (\<lambda>c. c \<noteq> 10) (rev out))), atoi (rev (takeWhile (\<lambda>c. c \<noteq> 10) (rev out))))
      else (out, 0))"

definition http_get :: "'w msdl_env \<Rightarrow> bytes \<Rightarrow> bytes \<Rightarrow> bytes option \<Rightarrow> 'w \<Rightarrow> (msdl_error + bytes) \<times> 'w" where
  "http_get V jar url referer w =
     (if \<not> have_tool (mv_host V) (ascii ''curl'') then (Inl CurlMissing, w)
      else case rufux_capture (mv_tools V) (get_argv jar url referer) REPLY_CAP w of
        ((ok, out), w) \<Rightarrow>
          (if \<not> ok then Inl (NetworkError (take 300 (takeWhile (\<lambda>c. c \<noteq> 10) out)))
           else let (reply, code) = status_line out
             in if code < 200 \<or> 299 < code then Inl (HttpCode code) else Inr reply, w))"

definition hex_of :: "bytes \<Rightarrow> bytes" where
  "hex_of b = rufux_hex b"

definition new_guid :: "bytes \<Rightarrow> bytes" where
  "new_guid b =
     (let b = b[6 := (b ! 6 AND 0x0f) OR 0x40, 8 := (b ! 8 AND 0x3f) OR 0x80]
      in hex_of (take 4 b) @ 45 # hex_of (bslice 4 2 b) @ 45 # hex_of (bslice 6 2 b) @ 45 # hex_of (bslice 8 2 b) @ 45 #
         hex_of (bslice 10 6 b))"

definition is_digit :: "byte \<Rightarrow> bool" where "is_digit c \<longleftrightarrow> 48 \<le> c \<and> c \<le> 57"

definition upper_hex :: "byte \<Rightarrow> bool" where "upper_hex c \<longleftrightarrow> is_digit c \<or> 65 \<le> c \<and> c \<le> 70"

text \<open>
  The value behind the first "?w=" or "&w=" that has one: \<open>prev\<close> is the byte in front of the text. The search of the C
  code goes on two bytes behind an occurrence of "w=" that does not count.
\<close>

function find_w :: "nat \<Rightarrow> byte option \<Rightarrow> bytes \<Rightarrow> bytes" where
  "find_w cap prev [] = []"
| "find_w cap prev [c] = []"
| "find_w cap prev (c # e # s) =
     (if c = 119 \<and> e = 61
      then let v = takeWhile upper_hex s
           in if (prev = Some 63 \<or> prev = Some 38) \<and> v \<noteq> [] \<and> length v < cap then v else find_w cap (Some e) s
      else find_w cap (Some c) (e # s))"
  by pat_completeness auto

termination
  by (relation "measure (\<lambda>(cap, prev, s). length s)") simp_all

definition find_rticks :: "nat \<Rightarrow> bytes \<Rightarrow> bytes" where
  "find_rticks cap js =
     (case strstr (ascii ''rticks=\"'') js of
        None \<Rightarrow> []
      | Some r \<Rightarrow>
          let r = drop 8 r; r = (if r \<noteq> [] \<and> hd r = 43 then tl r else r); v = takeWhile is_digit r
          in if length v < cap then v else [])"

definition parse_mdt :: "bytes \<Rightarrow> nat \<Rightarrow> nat \<Rightarrow> (bytes \<times> bytes) option" where
  "parse_mdt js wcap rcap =
     (let w = find_w wcap None js; rt = find_rticks rcap js in if w \<noteq> [] \<and> rt \<noteq> [] then Some (w, rt) else None)"

text \<open>\<open>None\<close>: the reply reports no error.\<close>

definition api_errors :: "'w msdl_env \<Rightarrow> mj \<Rightarrow> msdl_error option" where
  "api_errors V j =
     (let e = mj_get (Some j) (ascii ''Errors''); first = mj_at e 0
      in if mj_len e = 0 then None
         else if (case mj_get_num first (ascii ''Type'') of None \<Rightarrow> 0 | Some t \<Rightarrow> mv_int V t) = 9 then Some IpBanned
         else Some (ServiceError (take 300 (cstr (mj_get_str first (ascii ''Value'') (ascii ''unknown''))))))"

section \<open>Opening a session\<close>

definition INSTANCE_ID :: bytes where "INSTANCE_ID = ascii ''560dc9f3-1aa5-4a2f-b63c-9e18f8d0e175''"

definition tags_path :: bytes where "tags_path = ascii ''/tags?org_id=y6jn8c31&session_id=''"

definition mdt_path :: "bytes \<Rightarrow> bytes" where
  "mdt_path guid = clip 512 (ascii ''/mdt.js?instanceId='' @ INSTANCE_ID @ ascii ''&PageId=si&session_id='' @ guid)"

definition int_text :: "int \<Rightarrow> bytes" where
  "int_text n = (if n < 0 then 45 # dec (nat (- n)) else dec (nat n))"

definition token_path :: "bytes \<Rightarrow> bytes \<Rightarrow> int \<Rightarrow> bytes \<Rightarrow> bytes" where
  "token_path guid wv mdt rt =
     clip 512 (ascii ''/?session_id='' @ guid @ ascii ''&CustomerId='' @ INSTANCE_ID @ ascii ''&PageId=si&w='' @ wv @
       ascii ''&mdt='' @ int_text mdt @ ascii ''&rticks='' @ rt)"

definition whitelist_session :: "'w msdl_env \<Rightarrow> bytes \<Rightarrow> bytes \<Rightarrow> 'w \<Rightarrow> msdl_error option \<times> 'w" where
  "whitelist_session V jar guid w =
     (let h = mv_host V
      in case http_get V jar (clip 1024 (build_url h 1024 ''vlscppe.microsoft.com'' tags_path @ guid)) None w of
        (Inl e, w) \<Rightarrow> (Some e, w)
      | (Inr _, w) \<Rightarrow>
          (case http_get V jar (build_url h 1024 ''ov-df.microsoft.com'' (mdt_path guid)) None w of
             (Inl e, w) \<Rightarrow> (Some e, w)
           | (Inr reply, w) \<Rightarrow>
               (case parse_mdt reply 64 64 of
                  None \<Rightarrow> (Some NoToken, w)
                | Some (wv, rt) \<Rightarrow>
                    (case http_get V jar (build_url h 1024 ''ov-df.microsoft.com'' (token_path guid wv (mv_time V w * 1000) rt)) None w of
                       (Inl e, w) \<Rightarrow> (Some e, w)
                     | (Inr _, w) \<Rightarrow> (None, w)))))"

text \<open>A language that is known gets a second identifier; at most 128 languages are kept.\<close>

fun add_sku_to :: "nat \<Rightarrow> bytes \<Rightarrow> bytes \<Rightarrow> lang list \<Rightarrow> lang list option" where
  "add_sku_to sess name sku [] = None"
| "add_sku_to sess name sku (l # ls) =
     (if la_name l = name
      then Some ((if length (la_skus l) < 2 then l\<lparr>la_skus := la_skus l @ [(sess, clip 40 sku)]\<rparr> else l) # ls)
      else map_option (\<lambda>ls. l # ls) (add_sku_to sess name sku ls))"

definition add_sku :: "nat \<Rightarrow> bytes \<Rightarrow> bytes \<Rightarrow> bytes \<Rightarrow> lang list \<Rightarrow> lang list" where
  "add_sku sess name display sku ls =
     (case add_sku_to sess name sku ls of
        Some ls \<Rightarrow> ls
      | None \<Rightarrow>
          if 128 \<le> length ls then ls
          else ls @ [\<lparr>la_name = clip 64 name, la_display = clip 96 display, la_skus = [(sess, clip 40 sku)]\<rparr>])"

definition add_skus :: "nat \<Rightarrow> mj \<Rightarrow> lang list \<Rightarrow> lang list" where
  "add_skus sess j ls =
     (let skus = mj_get (Some j) (ascii ''Skus'')
      in fold (\<lambda>i ls.
          let k = mj_at skus i; n = cstr (mj_get_str k (ascii ''Id'') []); name = cstr (mj_get_str k (ascii ''Language'') [])
          in if n \<noteq> [] \<and> name \<noteq> [] then add_sku sess name (cstr (mj_get_str k (ascii ''LocalizedLanguage'') name)) n ls else ls)
        [0..<mj_len skus] ls)"

definition sku_path :: "int \<Rightarrow> bytes \<Rightarrow> bytes" where
  "sku_path n guid =
     clip 512 (ascii ''/software-download-connector/api/getskuinformationbyproductedition?profile=606624d44113&productEditionId='' @
       int_text n @ ascii ''&SKU=undefined&friendlyFileName=undefined&Locale=en-US&sessionID='' @ guid)"

text \<open>The test for the code of the ban in the message.\<close>

definition banned :: "msdl_error \<Rightarrow> bool" where
  "banned e = (case e of IpBanned \<Rightarrow> True | ServiceError v \<Rightarrow> strstr (ascii ''715-123130'') v \<noteq> None | _ \<Rightarrow> False)"

text \<open>Up to three attempts; a refused request and a ban end them at once. \<open>e\<close> is the last error.\<close>

fun sku_attempts :: "'w msdl_env \<Rightarrow> nat \<Rightarrow> bytes \<Rightarrow> bytes \<Rightarrow> nat \<Rightarrow> lang list \<Rightarrow> msdl_error \<Rightarrow> 'w \<Rightarrow> (msdl_error + lang list) \<times> 'w" where
  "sku_attempts V 0 jar url sess ls e w = (Inl e, w)"
| "sku_attempts V (Suc n) jar url sess ls e w =
     (case http_get V jar url None w of
        (Inl e, w) \<Rightarrow> (Inl e, w)
      | (Inr reply, w) \<Rightarrow>
          (case mj_parse (Some reply) of
             Inl _ \<Rightarrow> sku_attempts V n jar url sess ls BadReply w
           | Inr j \<Rightarrow>
               (case api_errors V j of
                  Some e \<Rightarrow> if banned e then (Inl e, w) else sku_attempts V n jar url sess ls e w
                | None \<Rightarrow>
                    let ls = add_skus sess j ls
                    in if ls \<noteq> [] then (Inr ls, w) else sku_attempts V n jar url sess ls NoLanguages w)))"

fun open_sessions :: "'w msdl_env \<Rightarrow> int list \<Rightarrow> msdl \<Rightarrow> 'w \<Rightarrow> (msdl_error + msdl) \<times> 'w" where
  "open_sessions V [] h w = (Inr h, w)"
| "open_sessions V (n # ids) h w =
     (let s = length (ms_sess h); guid = new_guid (mv_guid V s); h = h\<lparr>ms_sess := ms_sess h @ [guid]\<rparr>
      in case whitelist_session V (ms_jar h) guid w of
        (Some e, w) \<Rightarrow> (Inl e, w)
      | (None, w) \<Rightarrow>
          (case sku_attempts V 3 (ms_jar h) (build_url (mv_host V) 1024 ''www.microsoft.com'' (sku_path n guid)) s (ms_langs h) NoLanguages w of
             (Inl e, w) \<Rightarrow> (Inl e, w)
           | (Inr ls, w) \<Rightarrow> open_sessions V ids (h\<lparr>ms_langs := ls\<rparr>) w))"

definition rufux_msdl_open :: "'w msdl_env \<Rightarrow> int \<Rightarrow> int \<Rightarrow> 'w \<Rightarrow> (msdl_error + msdl) \<times> 'w" where
  "rufux_msdl_open V product edition w =
     (if product < 0 \<or> 2 \<le> product \<or> edition < 0 \<or> int (length (pr_editions (products ! nat product))) \<le> edition
      then (Inl UnknownEdition, w)
      else case mv_jar V of
        None \<Rightarrow> (Inl NoCookieFile, w)
      | Some jar \<Rightarrow>
          open_sessions V (ed_ids (pr_editions (products ! nat product) ! nat edition))
            \<lparr>ms_sess = [], ms_langs = [], ms_jar = jar\<rparr> w)"

section \<open>Languages\<close>

definition rufux_msdl_language_count :: "msdl option \<Rightarrow> nat" where
  "rufux_msdl_language_count h = (case h of None \<Rightarrow> 0 | Some h \<Rightarrow> length (ms_langs h))"

definition rufux_msdl_language_name :: "msdl option \<Rightarrow> int \<Rightarrow> bytes" where
  "rufux_msdl_language_name h i =
     (case h of None \<Rightarrow> [] | Some h \<Rightarrow> if 0 \<le> i \<and> i < int (length (ms_langs h)) then la_name (ms_langs h ! nat i) else [])"

definition rufux_msdl_language_display :: "msdl option \<Rightarrow> int \<Rightarrow> bytes" where
  "rufux_msdl_language_display h i =
     (case h of None \<Rightarrow> [] | Some h \<Rightarrow> if 0 \<le> i \<and> i < int (length (ms_langs h)) then la_display (ms_langs h ! nat i) else [])"

definition locale_names :: "(string \<times> string) list" where
  "locale_names =
    [(''en'', ''English''), (''fr'', ''French''), (''de'', ''German''), (''es'', ''Spanish''), (''it'', ''Italian''),
     (''pt'', ''Portuguese''), (''nl'', ''Dutch''), (''pl'', ''Polish''), (''ru'', ''Russian''), (''ja'', ''Japanese''),
     (''ko'', ''Korean''), (''zh'', ''Chinese''), (''sv'', ''Swedish''), (''da'', ''Danish''), (''nb'', ''Norwegian''),
     (''fi'', ''Finnish''), (''cs'', ''Czech''), (''tr'', ''Turkish''), (''ar'', ''Arabic''), (''he'', ''Hebrew''),
     (''uk'', ''Ukrainian''), (''hu'', ''Hungarian''), (''el'', ''Greek''), (''ro'', ''Romanian''), (''bg'', ''Bulgarian'')]"

text \<open>\<open>strncasecmp(a, w, strlen(w)) == 0\<close>\<close>

definition starts_ci :: "bytes \<Rightarrow> bytes \<Rightarrow> bool" where
  "starts_ci w a \<longleftrightarrow> strcasecmp_eq (take (length w) a) w"

definition locale_language_hint :: "'z host_scheme \<Rightarrow> bytes" where
  "locale_language_hint h =
     (let all = h_getenv h (ascii ''LC_ALL'');
          l = (if all = None \<or> all = Some [] then h_getenv h (ascii ''LANG'') else all)
      in case l of
           None \<Rightarrow> ascii ''English''
         | Some l \<Rightarrow>
             if length l < 2 then ascii ''English''
             else case List.find (\<lambda>(code, n). starts_ci (ascii code) l) locale_names of
               None \<Rightarrow> ascii ''English'' | Some (code, n) \<Rightarrow> ascii n)"

text \<open>The three passes: exact on the name, exact on the display name, prefix of either.\<close>

definition lang_match :: "nat \<Rightarrow> bytes \<Rightarrow> lang \<Rightarrow> bool" where
  "lang_match pass w l =
     (if pass = 0 then strcasecmp_eq (la_name l) w
      else if pass = 1 then strcasecmp_eq (la_display l) w
      else starts_ci w (la_name l) \<or> starts_ci w (la_display l))"

definition lang_hits :: "nat \<Rightarrow> bytes \<Rightarrow> lang list \<Rightarrow> nat list" where
  "lang_hits pass w ls = filter (\<lambda>i. lang_match pass w (ls ! i)) [0..<length ls]"

definition first_variant :: "bytes \<Rightarrow> lang list \<Rightarrow> nat option" where
  "first_variant w ls = List.find (\<lambda>i. starts_ci w (la_name (ls ! i))) [0..<length ls]"

definition rufux_msdl_find_language :: "'z host_scheme \<Rightarrow> msdl \<Rightarrow> bytes option \<Rightarrow> msdl_error + nat" where
  "rufux_msdl_find_language host h want =
     (let hint = (want = None \<or> want = Some []);
          w = (if hint then locale_language_hint host else the want);
          ls = ms_langs h; m0 = lang_hits 0 w ls; m1 = lang_hits 1 w ls; m2 = lang_hits 2 w ls
      in case m0 of
           [i] \<Rightarrow> Inr i
         | _ # _ # _ \<Rightarrow> Inl (SeveralLanguages w)
         | [] \<Rightarrow>
             (case m1 of
                [i] \<Rightarrow> Inr i
              | _ # _ # _ \<Rightarrow> Inl (SeveralLanguages w)
              | [] \<Rightarrow>
                  (case m2 of
                     [i] \<Rightarrow> Inr i
                   | _ # _ # _ \<Rightarrow>
                       (case (if hint then first_variant w ls else None) of
                          Some i \<Rightarrow> Inr i | None \<Rightarrow> Inl (SeveralLanguages w))
                   | [] \<Rightarrow> Inl (NoLanguageMatches w))))"

section \<open>Links\<close>

definition arch_of :: "int \<Rightarrow> bytes" where
  "arch_of t = ascii (if t = 0 then ''x86'' else if t = 1 then ''x64'' else if t = 2 then ''ARM64'' else ''Unknown'')"

text \<open>Only HTTPS, the loopback test server excepted.\<close>

definition https_ok :: "'z host_scheme \<Rightarrow> bytes \<Rightarrow> bool" where
  "https_ok h u \<longleftrightarrow> starts (ascii ''https://'') u \<or> mock_base h \<noteq> None \<and> starts (ascii ''http://127.0.0.1'') u"

definition add_link :: "'w msdl_env \<Rightarrow> mj option \<Rightarrow> nat \<Rightarrow> nat \<Rightarrow> (bytes \<times> bytes) list \<Rightarrow> (bytes \<times> bytes) list" where
  "add_link V opts maxn i out =
     (let k = mj_at opts i; u = cstr (mj_get_str k (ascii ''Uri'') [])
      in if maxn \<le> length out \<or> \<not> https_ok (mv_host V) u then out
         else out @ [(clip 8 (arch_of (case mj_get_num k (ascii ''DownloadType'') of None \<Rightarrow> - 1 | Some t \<Rightarrow> mv_int V t)), clip 2048 u)])"

definition add_links :: "'w msdl_env \<Rightarrow> mj \<Rightarrow> nat \<Rightarrow> (bytes \<times> bytes) list \<Rightarrow> (bytes \<times> bytes) list" where
  "add_links V j maxn out =
     (let opts = mj_get (Some j) (ascii ''ProductDownloadOptions'') in fold (add_link V opts maxn) [0..<mj_len opts] out)"

definition link_path :: "bytes \<Rightarrow> bytes \<Rightarrow> bytes" where
  "link_path sku sess =
     clip 640 (ascii ''/software-download-connector/api/GetProductDownloadLinksBySku?profile=606624d44113&productEditionId=undefined&SKU='' @
       sku @ ascii ''&friendlyFileName=undefined&Locale=en-US&sessionID='' @ sess)"

definition REFERER :: bytes where
  "REFERER = ascii ''https://www.microsoft.com/software-download/windows11''"

fun links_loop :: "'w msdl_env \<Rightarrow> msdl \<Rightarrow> (nat \<times> bytes) list \<Rightarrow> nat \<Rightarrow> (bytes \<times> bytes) list \<Rightarrow> 'w \<Rightarrow>
    (msdl_error + (bytes \<times> bytes) list) \<times> 'w" where
  "links_loop V h [] maxn out w = (Inr out, w)"
| "links_loop V h ((sess, sku) # ks) maxn out w =
     (case http_get V (ms_jar h) (build_url (mv_host V) 1024 ''www.microsoft.com'' (link_path sku (ms_sess h ! sess))) (Some REFERER) w of
        (Inl e, w) \<Rightarrow> (Inl e, w)
      | (Inr reply, w) \<Rightarrow>
          (case mj_parse (Some reply) of
             Inl _ \<Rightarrow> (Inl BadReply, w)
           | Inr j \<Rightarrow>
               (case api_errors V j of
                  Some e \<Rightarrow> (Inl e, w)
                | None \<Rightarrow> links_loop V h ks maxn (add_links V j maxn out) w)))"

definition rufux_msdl_links :: "'w msdl_env \<Rightarrow> msdl \<Rightarrow> nat \<Rightarrow> nat \<Rightarrow> 'w \<Rightarrow> (msdl_error + (bytes \<times> bytes) list) \<times> 'w" where
  "rufux_msdl_links V h language maxn w =
     (if length (ms_langs h) \<le> language then (Inl NoSuchLanguage, w)
      else case links_loop V h (la_skus (ms_langs h ! language)) maxn [] w of
        (Inl e, w) \<Rightarrow> (Inl e, w)
      | (Inr out, w) \<Rightarrow> (if out = [] then Inl NoLinks else Inr out, w))"

section \<open>The download\<close>

definition name_char :: "byte \<Rightarrow> bool" where
  "name_char c \<longleftrightarrow> is_digit c \<or> 65 \<le> c \<and> c \<le> 90 \<or> 97 \<le> c \<and> c \<le> 122 \<or> c \<in> {46, 95, 45}"

definition iso_name :: "bytes \<Rightarrow> nat \<Rightarrow> bytes" where
  "iso_name url cap =
     (let s = (case strstr (ascii ''://'') url of None \<Rightarrow> url | Some r \<Rightarrow> drop 3 r);
          b = takeWhile (\<lambda>c. c \<noteq> 63 \<and> c \<noteq> 35) (after_last 47 s);
          out = map (\<lambda>c. if name_char c then c else 95) (take (cap - 1) b)
      in if length out < 5 \<or> \<not> strcasecmp_eq (drop (length out - 4) out) (ascii ''.iso'') \<or> out = ascii ''.iso''
         then clip cap (ascii ''Windows.iso'') else out)"

definition fetch_argv :: "bytes \<Rightarrow> bytes \<Rightarrow> bytes list" where
  "fetch_argv part url =
     map ascii [''curl'', ''-L'', ''--fail'', ''--retry'', ''3'', ''--retry-delay'', ''2'', ''--connect-timeout'', ''30'', ''-A''] @
     [UA] @ map ascii [''-C'', ''-'', ''-#'', ''-o''] @ [part, url]"

definition fetch_path :: "nat \<Rightarrow> bytes \<Rightarrow> bytes \<Rightarrow> bytes" where
  "fetch_path pathcap dir url = clip pathcap (take 3000 dir @ 47 # iso_name url 256)"

definition rufux_msdl_fetch :: "'w msdl_env \<Rightarrow> bytes \<Rightarrow> bytes \<Rightarrow> nat \<Rightarrow> 'w \<Rightarrow> (msdl_error + bytes) \<times> 'w" where
  "rufux_msdl_fetch V url dir pathcap w =
     (if \<not> https_ok (mv_host V) url then (Inl NotHttps, w)
      else if \<not> have_tool (mv_host V) (ascii ''curl'') then (Inl CurlMissing, w)
      else if \<not> mv_is_dir V w dir then (Inl NotADirectory, w)
      else let path = fetch_path pathcap dir url; part = clip 4096 (path @ ascii ''.part'')
        in if mv_exists V w path then (Inl (AlreadyThere path), w)
           else case mv_tools V (fetch_argv part url) w of
             (None, w) \<Rightarrow> (Inl DownloadFailed, w)
           | (Some p, w) \<Rightarrow>
               if pr_status p \<noteq> Exited 0 then (Inl DownloadFailed, w)
               else case mv_rename V part path w of (ok, w) \<Rightarrow> (if ok then Inr path else Inl RenameFailed, w))"

text \<open>The digest of the file that was read, in hexadecimal; \<open>sha256\<close> is OpenSSL's.\<close>

definition rufux_msdl_sha256 :: "(bytes \<Rightarrow> bytes) \<Rightarrow> bytes option \<Rightarrow> bytes option" where
  "rufux_msdl_sha256 sha256 data = map_option (\<lambda>d. rufux_hex (sha256 d)) data"

section \<open>The command \<open>download-windows\<close>\<close>

record dl_opts =
  dl_list :: bool
  dl_langs :: bool
  dl_url_only :: bool
  dl_version :: bytes
  dl_edition :: int
  dl_lang :: "bytes option"
  dl_arch :: "bytes option"
  dl_out :: bytes

text \<open>\<open>None\<close>: an argument that is not expected.\<close>

fun read_dl :: "bytes list \<Rightarrow> dl_opts \<Rightarrow> dl_opts option" where
  "read_dl [] x = Some x"
| "read_dl (t # ts) x =
     (if t = ascii ''--list'' then read_dl ts (x\<lparr>dl_list := True\<rparr>)
      else if t = ascii ''--list-langs'' then read_dl ts (x\<lparr>dl_langs := True\<rparr>)
      else if t = ascii ''--url-only'' then read_dl ts (x\<lparr>dl_url_only := True\<rparr>)
      else case ts of
        [] \<Rightarrow> None
      | v # us \<Rightarrow>
          if t = ascii ''--version'' then read_dl us (x\<lparr>dl_version := v\<rparr>)
          else if t = ascii ''--edition'' then read_dl us (x\<lparr>dl_edition := atoi v\<rparr>)
          else if t = ascii ''--lang'' then read_dl us (x\<lparr>dl_lang := Some v\<rparr>)
          else if t = ascii ''--arch'' then read_dl us (x\<lparr>dl_arch := Some v\<rparr>)
          else if t = ascii ''--out'' then read_dl us (x\<lparr>dl_out := v\<rparr>)
          else None)"

definition dl_defaults :: dl_opts where
  "dl_defaults = \<lparr>dl_list = False, dl_langs = False, dl_url_only = False, dl_version = ascii ''11'', dl_edition = 0, dl_lang = None,
     dl_arch = None, dl_out = ascii ''.''\<rparr>"

text \<open>The link that is taken: the last one of the wanted architecture; without a wish x64, or else the first.\<close>

definition pick_link :: "bytes option \<Rightarrow> (bytes \<times> bytes) list \<Rightarrow> (bytes \<times> bytes) option" where
  "pick_link arch links =
     (case arch of
        Some a \<Rightarrow> List.find (\<lambda>l. strcasecmp_eq (fst l) a) (rev links)
      | None \<Rightarrow>
          (case List.find (\<lambda>l. fst l = ascii ''x64'') (rev links) of
             Some l \<Rightarrow> Some l
           | None \<Rightarrow> (case links of [] \<Rightarrow> None | l # _ \<Rightarrow> Some l)))"

text \<open>What is printed at the end: nothing, the link or the path of the image.\<close>

datatype dl_answer = DlNothing | DlUrl bytes | DlIso bytes

definition cmd_download :: "'w msdl_env \<Rightarrow> bytes list \<Rightarrow> 'w \<Rightarrow> (int \<times> dl_answer) \<times> 'w" where
  "cmd_download V args w =
     (case read_dl args dl_defaults of
        None \<Rightarrow> ((2, DlNothing), w)
      | Some x \<Rightarrow>
          if dl_list x then ((0, DlNothing), w)
          else if dl_version x \<noteq> ascii ''11'' \<and> dl_version x \<noteq> ascii ''10'' then ((2, DlNothing), w)
          else case rufux_msdl_open V (if dl_version x = ascii ''11'' then 0 else 1) (dl_edition x) w of
            (Inl e, w) \<Rightarrow> ((3, DlNothing), w)
          | (Inr h, w) \<Rightarrow>
              if dl_langs x then ((0, DlNothing), w)
              else case rufux_msdl_find_language (mv_host V) h (dl_lang x) of
                Inl e \<Rightarrow> ((2, DlNothing), w)
              | Inr li \<Rightarrow>
                  (case rufux_msdl_links V h li 4 w of
                     (Inl e, w) \<Rightarrow> ((3, DlNothing), w)
                   | (Inr links, w) \<Rightarrow>
                       (case pick_link (dl_arch x) links of
                          None \<Rightarrow> ((2, DlNothing), w)
                        | Some (arch, url) \<Rightarrow>
                            if dl_url_only x then ((0, DlUrl url), w)
                            else case rufux_msdl_fetch V url (dl_out x) 4200 w of
                              (Inl e, w) \<Rightarrow> ((3, DlNothing), w)
                            | (Inr path, w) \<Rightarrow> ((0, DlIso path), w))))"

end
