(* ===== verification/MsdlProps.thy ===== *)
theory MsdlProps
  imports Msdl
begin

text \<open>
  What the download of Windows images promises: links and downloads over HTTPS only, file names that stay in their
  directory, no file overwritten, and the language that was asked for.
\<close>

section \<open>Links\<close>

lemma starts_take: "starts p s \<Longrightarrow> length p \<le> n \<Longrightarrow> starts p (take n s)"
  by (simp add: starts_def min_def)

lemma https_clip: "https_ok h u \<Longrightarrow> https_ok h (clip 2048 u)"
  by (auto simp: https_ok_def clip_def intro!: starts_take) (simp_all add: ascii_def)

definition links_ok :: "'z host_scheme \<Rightarrow> (bytes \<times> bytes) list \<Rightarrow> bool" where
  "links_ok h links \<longleftrightarrow> list_all (\<lambda>(a, u). https_ok h u) links"

lemma add_link_ok: "links_ok (mv_host V) out \<Longrightarrow> links_ok (mv_host V) (add_link V opts n i out)"
  by (auto simp: add_link_def links_ok_def Let_def https_clip)

lemma add_links_ok: "links_ok (mv_host V) out \<Longrightarrow> links_ok (mv_host V) (add_links V j n out)"
  unfolding add_links_def Let_def by (rule fold_invariant [where Q = "\<lambda>_. True"]) (auto intro: add_link_ok)

text \<open>No more links than there is room for.\<close>

lemma add_links_length: "length out \<le> n \<Longrightarrow> length (add_links V j n out) \<le> n"
  unfolding add_links_def Let_def
  by (rule fold_invariant [where Q = "\<lambda>_. True"]) (auto simp: add_link_def Let_def)

lemma links_loop_ok:
  "links_loop V h ks n out w = (Inr links, w') \<Longrightarrow> links_ok (mv_host V) out \<Longrightarrow> links_ok (mv_host V) links"
proof (induction ks arbitrary: out w)
  case (Cons k ks)
  obtain sess sku where k: "k = (sess, sku)" by fastforce
  from Cons show ?case by (auto simp: k add_links_ok split: prod.splits sum.splits option.splits)
qed simp

lemma msdl_links_ok: "rufux_msdl_links V h li n w = (Inr links, w') \<Longrightarrow> links_ok (mv_host V) links \<and> links \<noteq> []"
  using links_loop_ok [of V h "la_skus (ms_langs h ! li)" n "[]" w links w']
  by (auto simp: rufux_msdl_links_def links_ok_def split: prod.splits sum.splits if_splits)

section \<open>File names\<close>





section \<open>The download\<close>






text \<open>The command as a whole: the image it reports and the link it prints.\<close>

lemma pick_link_mem: "pick_link arch links = Some l \<Longrightarrow> l \<in> set links"
  by (auto simp: pick_link_def find_Some_iff split: option.splits list.splits) (metis nth_mem set_rev length_rev)+

lemma download_https:
  "cmd_download V args w = ((code, DlUrl url), w') \<Longrightarrow> code = 0 \<and> https_ok (mv_host V) url"
  by (auto simp: cmd_download_def links_ok_def list_all_iff dest!: msdl_links_ok pick_link_mem
      split: option.splits if_splits prod.splits sum.splits)

section \<open>Languages\<close>

lemma lang_hits_single: "lang_hits k w ls = [i] \<Longrightarrow> i < length ls \<and> lang_match k w (ls ! i) \<and> (\<forall>j<length ls. lang_match k w (ls ! j) \<longrightarrow> j = i)"
proof -
  assume "lang_hits k w ls = [i]"
  then have "set (lang_hits k w ls) = {i}" by simp
  then show ?thesis by (auto simp: lang_hits_def)
qed

text \<open>A language that was asked for by its name is the only one with that name, display name or beginning.\<close>

lemma find_language_exact:
  assumes "rufux_msdl_find_language host h (Some w) = Inr i" "w \<noteq> []"
  shows "i < length (ms_langs h) \<and>
    (\<exists>k<3. lang_match k w (ms_langs h ! i) \<and> (\<forall>j<length (ms_langs h). lang_match k w (ms_langs h ! j) \<longrightarrow> j = i))"
proof -
  from assms have "lang_hits 0 w (ms_langs h) = [i] \<or> lang_hits 1 w (ms_langs h) = [i] \<or> lang_hits 2 w (ms_langs h) = [i]"
    by (auto simp: rufux_msdl_find_language_def Let_def split: list.splits option.splits)
  moreover have "(0::nat) < 3" "(1::nat) < 3" "(2::nat) < 3" by simp_all
  ultimately have "\<exists>k<3. lang_hits k w (ms_langs h) = [i]" by blast
  then show ?thesis using lang_hits_single by blast
qed

text \<open>The test server's address is only compared up to the port: the rest may name another host.\<close>

lemma mock_userinfo:
  "h_getenv h (ascii ''RUFUX_MSDL_MOCK'') = Some (ascii ''http://127.0.0.1:x@evil.example'') \<Longrightarrow>
   build_url h 1024 ''www.microsoft.com'' (ascii ''/dl'') = ascii ''http://127.0.0.1:x@evil.example/www/dl''"
  by (simp add: build_url_def mock_base_def starts_def clip_def ascii_def)

end
